(* ===== verification/Prelude.thy ===== *)
theory Prelude
  imports Main
begin

text \<open>
  What every component shares: Go's error values and \<open>errors.Is\<close>, the
  state-and-error effect in which the handlers, services and repositories are
  written, loops over slices with an early return, and the lemma collection for
  invariants kept by an effect.

  A Go function \<open>func f(...) (T, error)\<close> that also changes a state \<open>'s\<close> is
  a term of type \<open>('s, 'a) eff\<close>: it takes the state and gives \<open>Inl e\<close> for a
  non-nil error, or \<open>Inr x\<close>, with the state it leaves.  Instants are counted
  in microseconds (the resolution of the database's TIMESTAMP columns) from the
  zero \<open>time.Time\<close>, which is 0; durations are in nanoseconds.
\<close>

named_theorems eff_simps
named_theorems preserves_intros

type_synonym instant = int
type_synonym duration = int

abbreviation (input) time_zero :: instant where
  "time_zero \<equiv> 0"

abbreviation (input) is_zero :: "instant \<Rightarrow> bool" where
  "is_zero t \<equiv> t = time_zero"

abbreviation (input) after :: "instant \<Rightarrow> instant \<Rightarrow> bool" where
  "after t u \<equiv> u < t"

section \<open>Error values\<close>

text \<open>
  The sentinels of \<open>pkg/errors.go\<close>, the sentinel each persistence package
  declares for itself (same text as \<open>pkg.ErrChatNotFound\<close>, a different
  value), the sentinels of the bot's update service and of the Kafka package,
  a PostgreSQL error with its SQLSTATE code, the retryable HTTP status of
  \<open>pkg/helpers/retry.go\<close>, a gRPC status error, an error of a library call (its text
  abbreviated to the call and its input), and Go's ways of building errors: text,
  \<open>fmt.Errorf\<close> with \<open>%w\<close>, and \<open>errors.Join\<close>.
\<close>

datatype go_error =
    ErrUnexpectedError
  | ErrEmptyStartResponse
  | ErrEmptyHelpResponse
  | ErrEmptyUnknownResponse
  | ErrChatNotFound
  | ErrLinkAlreadyTracked
  | ErrLinkNotTracked
  | ErrInvalidURL
  | ErrInvalidAPIResponse
  | ErrLinkNotFound
  | ErrTagNotFound
  | ErrTagExists
  | ErrInvalidRequest
  | RepoErrChatNotFound
  | ErrInvalidLinkUpdate
  | ErrKafkaBootstrapServersEmpty
  | ErrKafkaTopicEmpty
  | ErrKafkaDLQTopicEmpty
  | ErrKafkaConsumerGroupEmpty
  | ErrKafkaHandlerEmpty
  | ErrInvalidKafkaLinkUpdate
  | ErrContextDone
  | PqError string
  | RetryableStatusError string int string
  | GrpcStatus string string
  | LibError string string
  | ErrText string
  | WrapErr string go_error
  | JoinErr go_error go_error

fun err_text :: "go_error \<Rightarrow> string" where
  "err_text ErrUnexpectedError = ''unexpected error''"
| "err_text ErrEmptyStartResponse = ''expected non-empty response for /start''"
| "err_text ErrEmptyHelpResponse = ''expected non-empty response for /help''"
| "err_text ErrEmptyUnknownResponse = ''expected error message for unknown command''"
| "err_text ErrChatNotFound = ''chat not found''"
| "err_text ErrLinkAlreadyTracked = ''link already tracked''"
| "err_text ErrLinkNotTracked = ''link not tracked''"
| "err_text ErrInvalidURL = ''invalid url''"
| "err_text ErrInvalidAPIResponse = ''invalid api response''"
| "err_text ErrLinkNotFound = ''link is not tracked by this chat''"
| "err_text ErrTagNotFound = ''tag not found''"
| "err_text ErrTagExists = ''tag already exists''"
| "err_text ErrInvalidRequest = ''invalid request''"
| "err_text RepoErrChatNotFound = ''chat not found''"
| "err_text ErrInvalidLinkUpdate = ''invalid link update''"
| "err_text ErrKafkaBootstrapServersEmpty = ''kafka bootstrap servers are empty''"
| "err_text ErrKafkaTopicEmpty = ''kafka topic is empty''"
| "err_text ErrKafkaDLQTopicEmpty = ''kafka dlq topic is empty''"
| "err_text ErrKafkaConsumerGroupEmpty = ''kafka consumer group is empty''"
| "err_text ErrKafkaHandlerEmpty = ''kafka link update handler is empty''"
| "err_text ErrInvalidKafkaLinkUpdate = ''invalid kafka link update''"
| "err_text ErrContextDone = ''context canceled''"
| "err_text (PqError code) = ''pq: SQLSTATE '' @ code"
| "err_text (RetryableStatusError service code digits) =
     service @ '' returned retryable status '' @ digits"
| "err_text (GrpcStatus code desc) = ''rpc error: code = '' @ code @ '' desc = '' @ desc"
| "err_text (LibError call input) = call @ '': '' @ input"
| "err_text (ErrText s) = s"
| "err_text (WrapErr prefix e) = prefix @ '': '' @ err_text e"
| "err_text (JoinErr e f) = err_text e @ [CHR 0x0A] @ err_text f"

text \<open>\<open>errors.Is(e, target)\<close> for a sentinel target.\<close>

fun err_is :: "go_error \<Rightarrow> go_error \<Rightarrow> bool" where
  "err_is (WrapErr p e) t = (WrapErr p e = t \<or> err_is e t)"
| "err_is (JoinErr e f) t = (JoinErr e f = t \<or> err_is e t \<or> err_is f t)"
| "err_is e t = (e = t)"

lemma err_is_refl [simp]: "err_is e e"
  by (cases e) simp_all

section \<open>Effects with a state and errors\<close>

type_synonym 'a result = "go_error + 'a"
type_synonym ('s, 'a) eff = "'s \<Rightarrow> 'a result \<times> 's"

definition ret :: "'a \<Rightarrow> ('s, 'a) eff" where
  "ret x = (\<lambda>s. (Inr x, s))"

definition throw :: "go_error \<Rightarrow> ('s, 'a) eff" where
  "throw e = (\<lambda>s. (Inl e, s))"

definition bindE :: "('s, 'a) eff \<Rightarrow> ('a \<Rightarrow> ('s, 'b) eff) \<Rightarrow> ('s, 'b) eff" where
  "bindE m k = (\<lambda>s. case m s of (Inl e, s') \<Rightarrow> (Inl e, s') | (Inr x, s') \<Rightarrow> k x s')"

text \<open>\<open>err := f()\<close> where the caller looks at the error itself.\<close>

definition attempt :: "('s, 'a) eff \<Rightarrow> ('s, 'a result) eff" where
  "attempt m = (\<lambda>s. case m s of (r, s') \<Rightarrow> (Inr r, s'))"

text \<open>\<open>for _, x := range xs { if err := f(x); err != nil { return err } }\<close>\<close>

fun foreachE :: "('x \<Rightarrow> ('s, unit) eff) \<Rightarrow> 'x list \<Rightarrow> ('s, unit) eff" where
  "foreachE f [] = ret ()"
| "foreachE f (x # xs) = bindE (f x) (\<lambda>_. foreachE f xs)"

lemma ret_apply [simp, eff_simps]: "ret x s = (Inr x, s)"
  by (simp add: ret_def)

lemma throw_apply [simp, eff_simps]: "throw e s = (Inl e, s)"
  by (simp add: throw_def)

lemma bindE_apply [eff_simps]:
  "bindE m k s = (case m s of (Inl e, s') \<Rightarrow> (Inl e, s') | (Inr x, s') \<Rightarrow> k x s')"
  by (simp add: bindE_def)

lemma bindE_Inr [simp]: "m s = (Inr x, s') \<Longrightarrow> bindE m k s = k x s'"
  by (simp add: bindE_def)

lemma bindE_Inl [simp]: "m s = (Inl e, s') \<Longrightarrow> bindE m k s = (Inl e, s')"
  by (simp add: bindE_def)

lemma attempt_apply [simp, eff_simps]: "attempt m s = (Inr (fst (m s)), snd (m s))"
  by (simp add: attempt_def split: prod.split)

lemma bindE_Inr_E:
  assumes "bindE m k s = (Inr y, t)"
  obtains x s' where "m s = (Inr x, s')" "k x s' = (Inr y, t)"
  using assms by (auto simp: bindE_def split: prod.splits sum.splits)

section \<open>Invariants of effects\<close>

definition preserves :: "('s \<Rightarrow> bool) \<Rightarrow> ('s, 'a) eff \<Rightarrow> bool" where
  "preserves I m \<longleftrightarrow> (\<forall>s. I s \<longrightarrow> I (snd (m s)))"

lemma preservesI: "(\<And>s. I s \<Longrightarrow> I (snd (m s))) \<Longrightarrow> preserves I m"
  by (simp add: preserves_def)

lemma preservesD: "preserves I m \<Longrightarrow> I s \<Longrightarrow> I (snd (m s))"
  by (simp add: preserves_def)

lemma preserves_ret [preserves_intros]: "preserves I (ret x)"
  by (simp add: preserves_def)

lemma preserves_throw [preserves_intros]: "preserves I (throw e)"
  by (simp add: preserves_def)

lemma preserves_bindE [preserves_intros]:
  "preserves I m \<Longrightarrow> (\<And>x. preserves I (k x)) \<Longrightarrow> preserves I (bindE m k)"
  by (force simp: preserves_def bindE_def split: prod.splits sum.splits)

lemma preserves_attempt [preserves_intros]: "preserves I m \<Longrightarrow> preserves I (attempt m)"
  by (simp add: preserves_def)

lemma preserves_foreachE [preserves_intros]:
  "(\<And>x. x \<in> set xs \<Longrightarrow> preserves I (f x)) \<Longrightarrow> preserves I (foreachE f xs)"
proof (induction xs)
  case Nil
  show ?case unfolding foreachE.simps by (rule preserves_ret)
next
  case (Cons x xs)
  then show ?case by (simp add: preserves_bindE)
qed

lemma preserves_if [preserves_intros]:
  "preserves I m \<Longrightarrow> preserves I n \<Longrightarrow> preserves I (if b then m else n)"
  by simp

lemma preserves_case_sum [preserves_intros]:
  "(\<And>e. preserves I (f e)) \<Longrightarrow> (\<And>x. preserves I (g x)) \<Longrightarrow>
   preserves I (case r of Inl e \<Rightarrow> f e | Inr x \<Rightarrow> g x)"
  by (cases r) simp_all

lemma preserves_case_option [preserves_intros]:
  "preserves I f \<Longrightarrow> (\<And>x. preserves I (g x)) \<Longrightarrow>
   preserves I (case r of None \<Rightarrow> f | Some x \<Rightarrow> g x)"
  by (cases r) simp_all

section \<open>Lists\<close>

lemma filter_neq_id: "x \<notin> set xs \<Longrightarrow> filter (\<lambda>y. y \<noteq> x) xs = xs"
  by (induction xs) auto

lemma map_filter_distinct: "distinct (map f xs) \<Longrightarrow> distinct (map f (filter P xs))"
  by (induction xs) auto

end
