(* ===== verification/Go_Utf8.thy ===== *)
theory Go_Utf8
  imports Prelude
begin

text \<open>
  Go strings are byte sequences (\<open>string\<close>, whose characters are bytes), read as
  UTF-8 by \<open>unicode/utf8\<close>, \<open>range\<close> and the conversions to and from \<open>[]rune\<close>.
  This theory gives that reading: \<open>decode_rune\<close> (an ill-formed byte is
  RuneError of width 1), \<open>encode_rune\<close> (a value that is no scalar value is
  written as RuneError), the division of a string into runes, and the round
  trips between the two.  Every function of the program that counts, cuts or
  classifies characters rests on it.
\<close>

type_synonym rune = nat

abbreviation byte_of :: "char \<Rightarrow> nat" where
  "byte_of \<equiv> of_char"

abbreviation rune_error :: rune where
  "rune_error \<equiv> 0xFFFD"

definition is_cont :: "char \<Rightarrow> bool" where
  "is_cont c \<longleftrightarrow> 0x80 \<le> byte_of c \<and> byte_of c \<le> 0xBF"

text \<open>The range of the second byte, which excludes overlong forms, surrogates and values
  above U+10FFFF.\<close>

definition accept3 :: "nat \<Rightarrow> char \<Rightarrow> bool" where
  "accept3 b c \<longleftrightarrow> is_cont c \<and> (b = 0xE0 \<longrightarrow> 0xA0 \<le> byte_of c) \<and> (b = 0xED \<longrightarrow> byte_of c \<le> 0x9F)"

definition accept4 :: "nat \<Rightarrow> char \<Rightarrow> bool" where
  "accept4 b c \<longleftrightarrow> is_cont c \<and> (b = 0xF0 \<longrightarrow> 0x90 \<le> byte_of c) \<and> (b = 0xF4 \<longrightarrow> byte_of c \<le> 0x8F)"

text \<open>\<open>utf8.DecodeRuneInString\<close>: the rune and its width.\<close>

fun decode_rune :: "string \<Rightarrow> rune \<times> nat" where
  "decode_rune [] = (rune_error, 0)"
| "decode_rune (c # cs) =
    (let b = byte_of c in
     if b < 0x80 then (b, 1)
     else if 0xC2 \<le> b \<and> b \<le> 0xDF then
       (case cs of
          c1 # _ \<Rightarrow>
            if is_cont c1 then ((b - 0xC0) * 64 + (byte_of c1 - 0x80), 2) else (rune_error, 1)
        | _ \<Rightarrow> (rune_error, 1))
     else if 0xE0 \<le> b \<and> b \<le> 0xEF then
       (case cs of
          c1 # c2 # _ \<Rightarrow>
            if accept3 b c1 \<and> is_cont c2
            then ((b - 0xE0) * 4096 + (byte_of c1 - 0x80) * 64 + (byte_of c2 - 0x80), 3)
            else (rune_error, 1)
        | _ \<Rightarrow> (rune_error, 1))
     else if 0xF0 \<le> b \<and> b \<le> 0xF4 then
       (case cs of
          c1 # c2 # c3 # _ \<Rightarrow>
            if accept4 b c1 \<and> is_cont c2 \<and> is_cont c3
            then ((b - 0xF0) * 262144 + (byte_of c1 - 0x80) * 4096
                  + (byte_of c2 - 0x80) * 64 + (byte_of c3 - 0x80), 4)
            else (rune_error, 1)
        | _ \<Rightarrow> (rune_error, 1))
     else (rune_error, 1))"

definition valid_rune :: "rune \<Rightarrow> bool" where
  "valid_rune r \<longleftrightarrow> r < 0xD800 \<or> (0xDFFF < r \<and> r \<le> 0x10FFFF)"

text \<open>\<open>string(r)\<close>, \<open>utf8.AppendRune\<close>.\<close>

definition encode_scalar :: "rune \<Rightarrow> string" where
  "encode_scalar r =
    (if r < 0x80 then [char_of r]
     else if r < 0x800 then [char_of (0xC0 + r div 64), char_of (0x80 + r mod 64)]
     else if r < 0x10000 then
       [char_of (0xE0 + r div 4096), char_of (0x80 + r div 64 mod 64), char_of (0x80 + r mod 64)]
     else
       [char_of (0xF0 + r div 262144), char_of (0x80 + r div 4096 mod 64),
        char_of (0x80 + r div 64 mod 64), char_of (0x80 + r mod 64)])"

definition encode_rune :: "rune \<Rightarrow> string" where
  "encode_rune r = encode_scalar (if valid_rune r then r else rune_error)"

definition encode_runes :: "rune list \<Rightarrow> string" where
  "encode_runes rs = concat (map encode_rune rs)"

lemma encode_runes_Nil [simp]: "encode_runes [] = []"
  by (simp add: encode_runes_def)

section \<open>Dividing a string into runes\<close>

lemma decode_rune_width: "s \<noteq> [] \<Longrightarrow> 1 \<le> snd (decode_rune s) \<and> snd (decode_rune s) \<le> length s"
  by (cases s) (auto simp: Let_def split: list.splits)

text \<open>The runes of a string in order, each with its bytes: what \<open>range\<close> visits.\<close>

function rune_chunks :: "string \<Rightarrow> (rune \<times> string) list" where
  "rune_chunks s =
    (if s = [] then []
     else (fst (decode_rune s), take (snd (decode_rune s)) s)
            # rune_chunks (drop (snd (decode_rune s)) s))"
  by pat_completeness auto
termination
proof (relation "measure length", goal_cases)
  case 1
  then show ?case by simp
next
  case (2 s)
  then show ?case using decode_rune_width [of s] by (auto simp: not_le less_Suc_eq_le)
qed

declare rune_chunks.simps [simp del]

lemma rune_chunks_Nil [simp]: "rune_chunks [] = []"
  by (simp add: rune_chunks.simps)

lemma rune_chunks_nonempty:
  "s \<noteq> [] \<Longrightarrow> rune_chunks s =
     (fst (decode_rune s), take (snd (decode_rune s)) s)
       # rune_chunks (drop (snd (decode_rune s)) s)"
  by (simp add: rune_chunks.simps)

lemma concat_rune_chunks [simp]: "concat (map snd (rune_chunks s)) = s"
proof (induction s rule: rune_chunks.induct)
  case (1 s)
  then show ?case
    by (cases "s = []") (auto simp: rune_chunks_nonempty)
qed

text \<open>\<open>[]rune(s)\<close> and \<open>utf8.RuneCountInString\<close>.\<close>

definition runes_of :: "string \<Rightarrow> rune list" where
  "runes_of s = map fst (rune_chunks s)"

definition rune_count :: "string \<Rightarrow> nat" where
  "rune_count s = length (runes_of s)"

lemma runes_of_Nil [simp]: "runes_of [] = []"
  by (simp add: runes_of_def)

section \<open>Round trips\<close>

lemma byte_of_char_of [simp]: "n < 256 \<Longrightarrow> byte_of (char_of n) = (n::nat)"
  by simp

lemma valid_rune_bounds: "valid_rune r \<Longrightarrow> r \<le> 0x10FFFF"
  by (auto simp: valid_rune_def)

lemma valid_rune_error [simp]: "valid_rune rune_error"
  by (simp add: valid_rune_def)

lemma is_cont_char_of: "n < 64 \<Longrightarrow> is_cont (char_of (0x80 + n :: nat))"
  by (simp add: is_cont_def)

lemma div_4096: "r div 4096 = r div 64 div (64 :: nat)"
  by (simp add: div_mult2_eq [symmetric])

lemma div_262144: "r div 262144 = r div 64 div 64 div (64 :: nat)"
  by (simp add: div_mult2_eq [symmetric])

lemma base64_digits3: "r div 4096 * 4096 + r div 64 mod 64 * 64 + r mod 64 = (r :: nat)"
proof -
  define q where "q = r div 64"
  have "r = q * 64 + r mod 64" "q = q div 64 * 64 + q mod 64" by (simp_all add: q_def)
  then show ?thesis unfolding div_4096 q_def [symmetric] by linarith
qed

lemma base64_digits4:
  "r div 262144 * 262144 + r div 4096 mod 64 * 4096 + r div 64 mod 64 * 64 + r mod 64 = (r :: nat)"
proof -
  define q p where "q = r div 64" and "p = q div 64"
  have "r = q * 64 + r mod 64" "q = p * 64 + q mod 64" "p = p div 64 * 64 + p mod 64"
    by (simp_all add: q_def p_def)
  then show ?thesis
    unfolding div_4096 div_262144 q_def [symmetric] p_def [symmetric] by linarith
qed

lemma decode_encode_2:
  assumes "0x80 \<le> r" "r < 0x800"
  shows "decode_rune (encode_scalar r @ s) = (r, 2)"
proof -
  have "r div 64 < 32" "2 \<le> r div 64" using assms by (auto simp: div_le_mono)
  moreover have "r div 64 * 64 + r mod 64 = r" by simp
  ultimately show ?thesis
    using assms by (simp add: encode_scalar_def is_cont_char_of Let_def)
qed

lemma decode_encode_3:
  assumes "0x800 \<le> r" "r < 0x10000" "valid_rune r"
  shows "decode_rune (encode_scalar r @ s) = (r, 3)"
proof -
  let ?a = "r div 4096" and ?b = "r div 64 mod 64" and ?c = "r mod 64"
  have a: "?a < 16" using assms by auto
  have b: "?b < 64" "?c < 64" by auto
  have r: "?a * 4096 + ?b * 64 + ?c = r" by (rule base64_digits3)
  have E0: "?a = 0 \<Longrightarrow> 0x20 \<le> ?b" using assms r b by linarith
  have ED: "?a = 13 \<Longrightarrow> ?b \<le> 0x1F"
    using assms(3) r b by (auto simp: valid_rune_def)
  have acc: "accept3 (0xE0 + ?a) (char_of (0x80 + ?b))"
    using E0 ED b is_cont_char_of [OF b(1)] by (auto simp: accept3_def)
  have "encode_scalar r = [char_of (0xE0 + ?a), char_of (0x80 + ?b), char_of (0x80 + ?c)]"
    using assms by (simp add: encode_scalar_def)
  then show ?thesis
    using a b acc is_cont_char_of [OF b(2)] r by (simp add: Let_def)
qed

lemma decode_encode_4:
  assumes "0x10000 \<le> r" "r \<le> 0x10FFFF"
  shows "decode_rune (encode_scalar r @ s) = (r, 4)"
proof -
  let ?a = "r div 262144" and ?b = "r div 4096 mod 64" and ?c = "r div 64 mod 64" and ?d = "r mod 64"
  have a: "?a \<le> 4" using assms by auto
  have b: "?b < 64" "?c < 64" "?d < 64" by auto
  have r: "?a * 262144 + ?b * 4096 + ?c * 64 + ?d = r" by (rule base64_digits4)
  have F0: "?a = 0 \<Longrightarrow> 0x10 \<le> ?b" using assms r b by linarith
  have F4: "?a = 4 \<Longrightarrow> ?b \<le> 0x0F" using assms r b by linarith
  have acc: "accept4 (0xF0 + ?a) (char_of (0x80 + ?b))"
    using F0 F4 b is_cont_char_of [OF b(1)] by (auto simp: accept4_def)
  have "encode_scalar r =
      [char_of (0xF0 + ?a), char_of (0x80 + ?b), char_of (0x80 + ?c), char_of (0x80 + ?d)]"
    using assms by (simp add: encode_scalar_def)
  then show ?thesis
    using a b acc is_cont_char_of [OF b(2)] is_cont_char_of [OF b(3)] r by (simp add: Let_def)
qed

lemma length_encode_scalar:
  "length (encode_scalar r) =
     (if r < 0x80 then 1 else if r < 0x800 then 2 else if r < 0x10000 then 3 else 4)"
  by (simp add: encode_scalar_def)

lemma decode_encode_scalar:
  assumes "valid_rune r"
  shows "decode_rune (encode_scalar r @ s) = (r, length (encode_scalar r))"
proof -
  consider "r < 0x80" | "0x80 \<le> r" "r < 0x800" | "0x800 \<le> r" "r < 0x10000" | "0x10000 \<le> r"
    by linarith
  then show ?thesis
  proof cases
    case 1
    then show ?thesis by (simp add: encode_scalar_def Let_def)
  next
    case 2
    then show ?thesis by (simp add: decode_encode_2 length_encode_scalar)
  next
    case 3
    then show ?thesis using assms by (simp add: decode_encode_3 length_encode_scalar)
  next
    case 4
    then show ?thesis using assms by (simp add: decode_encode_4 length_encode_scalar valid_rune_bounds)
  qed
qed

lemma encode_scalar_nonempty [simp]: "encode_scalar r \<noteq> []"
  by (simp add: encode_scalar_def)

lemma encode_rune_nonempty [simp]: "encode_rune r \<noteq> []"
  by (simp add: encode_rune_def)

definition norm_rune :: "rune \<Rightarrow> rune" where
  "norm_rune r = (if valid_rune r then r else rune_error)"

lemma valid_norm_rune [simp]: "valid_rune (norm_rune r)"
  by (simp add: norm_rune_def)

lemma norm_rune_valid [simp]: "valid_rune r \<Longrightarrow> norm_rune r = r"
  by (simp add: norm_rune_def)

lemma rune_chunks_encode:
  "rune_chunks (encode_rune r @ s) = (norm_rune r, encode_rune r) # rune_chunks s"
  by (subst rune_chunks_nonempty)
     (simp_all add: encode_rune_def norm_rune_def decode_encode_scalar)

lemma runes_of_encode_append:
  "runes_of (encode_runes rs @ s) = map norm_rune rs @ runes_of s"
  by (induction rs) (simp_all add: encode_runes_def runes_of_def rune_chunks_encode)

text \<open>\<open>[]rune(string(rs))\<close> gives the runes back, ill-formed ones as RuneError.\<close>

lemma runes_of_encode_runes: "runes_of (encode_runes rs) = map norm_rune rs"
  using runes_of_encode_append [of rs "[]"] by simp

lemma rune_count_encode_append:
  "rune_count (encode_runes rs @ s) = length rs + rune_count s"
  by (simp add: rune_count_def runes_of_encode_append)

text \<open>A string is valid UTF-8 when it is the encoding of scalar values.\<close>

definition valid_utf8 :: "string \<Rightarrow> bool" where
  "valid_utf8 s \<longleftrightarrow> encode_runes (runes_of s) = s"

lemma valid_utf8_encode_runes [simp]: "valid_utf8 (encode_runes rs)"
proof -
  have "encode_rune (norm_rune r) = encode_rune r" for r
    by (simp add: encode_rune_def norm_rune_def)
  then have "encode_runes (map norm_rune rs) = encode_runes rs" by (simp add: encode_runes_def o_def)
  then show ?thesis by (simp add: valid_utf8_def runes_of_encode_runes)
qed

lemma encode_runes_append: "encode_runes (rs @ qs) = encode_runes rs @ encode_runes qs"
  by (simp add: encode_runes_def)

lemma valid_runeI1: "r < 0xD800 \<Longrightarrow> valid_rune r"
  by (simp add: valid_rune_def)

lemma valid_runeI2: "0xDFFF < r \<Longrightarrow> r \<le> 0x10FFFF \<Longrightarrow> valid_rune r"
  by (simp add: valid_rune_def)

lemma valid_rune_2:
  assumes "0xC0 \<le> b" "b \<le> 0xDF" "c \<le> 0xBF"
  shows "valid_rune ((b - 0xC0) * 64 + (c - 0x80))"
  using assms by (intro valid_runeI1) linarith

lemma valid_rune_3:
  assumes "0xE0 \<le> b" "b \<le> 0xEF" "c \<le> 0xBF" "d \<le> 0xBF" "b = 0xED \<Longrightarrow> c \<le> 0x9F"
  shows "valid_rune ((b - 0xE0) * 4096 + (c - 0x80) * 64 + (d - 0x80))"
proof -
  consider "b < 0xED" | "b = 0xED" | "0xED < b" by linarith
  then show ?thesis
  proof cases
    case 1
    then show ?thesis using assms by (intro valid_runeI1) linarith
  next
    case 2
    then show ?thesis using assms(3-5) by (intro valid_runeI1) linarith
  next
    case 3
    then show ?thesis using assms by (intro valid_runeI2) linarith+
  qed
qed

lemma valid_rune_4:
  assumes "0xF0 \<le> b" "b \<le> 0xF4" "c \<le> 0xBF" "d \<le> 0xBF" "e \<le> 0xBF"
    and "b = 0xF0 \<Longrightarrow> 0x90 \<le> c" "b = 0xF4 \<Longrightarrow> c \<le> 0x8F"
  shows "valid_rune ((b - 0xF0) * 262144 + (c - 0x80) * 4096 + (d - 0x80) * 64 + (e - 0x80))"
proof (intro valid_runeI2)
  show "0xDFFF < (b - 0xF0) * 262144 + (c - 0x80) * 4096 + (d - 0x80) * 64 + (e - 0x80)"
    using assms by (cases "b = 0xF0") linarith+
  show "(b - 0xF0) * 262144 + (c - 0x80) * 4096 + (d - 0x80) * 64 + (e - 0x80) \<le> 0x10FFFF"
    using assms by (cases "b = 0xF4") linarith+
qed

lemma valid_rune_small: "b < 0x80 \<Longrightarrow> valid_rune b"
  by (rule valid_runeI1) linarith

lemma decode_rune_valid: "valid_rune (fst (decode_rune s))"
proof (cases s)
  case Nil
  then show ?thesis by simp
next
  case (Cons c cs)
  let ?b = "byte_of c :: nat"
  consider (ascii) "?b < 0x80" | (two) "0xC2 \<le> ?b" "?b \<le> 0xDF"
    | (three) "0xE0 \<le> ?b" "?b \<le> 0xEF" | (four) "0xF0 \<le> ?b" "?b \<le> 0xF4"
    | (other) "0x80 \<le> ?b" "\<not> (0xC2 \<le> ?b \<and> ?b \<le> 0xDF)" "\<not> (0xE0 \<le> ?b \<and> ?b \<le> 0xEF)"
        "\<not> (0xF0 \<le> ?b \<and> ?b \<le> 0xF4)"
    by linarith
  then show ?thesis
  proof cases
    case ascii
    then show ?thesis unfolding Cons by (simp add: Let_def valid_rune_small)
  next
    case two
    then show ?thesis unfolding Cons
      by (auto simp: Let_def is_cont_def simp del: add_diff_assoc intro!: valid_rune_2 split: list.split)
  next
    case three
    then show ?thesis unfolding Cons
      by (auto simp: Let_def is_cont_def accept3_def simp del: add_diff_assoc intro!: valid_rune_3 split: list.split)
  next
    case four
    then show ?thesis unfolding Cons
      by (auto simp: Let_def is_cont_def accept4_def simp del: add_diff_assoc intro!: valid_rune_4 split: list.split)
  next
    case other
    then show ?thesis unfolding Cons by (simp only: decode_rune.simps Let_def) simp
  qed
qed

lemma runes_of_valid: "r \<in> set (runes_of s) \<Longrightarrow> valid_rune r"
proof (induction s rule: rune_chunks.induct)
  case (1 s)
  then show ?case
    using decode_rune_valid [of s]
    by (cases "s = []") (auto simp: runes_of_def rune_chunks_nonempty)
qed

lemma valid_utf8_append: "valid_utf8 s \<Longrightarrow> valid_utf8 t \<Longrightarrow> valid_utf8 (s @ t)"
  by (metis encode_runes_append valid_utf8_def valid_utf8_encode_runes)

lemma runes_of_append: "valid_utf8 s \<Longrightarrow> runes_of (s @ t) = runes_of s @ runes_of t"
  using runes_of_encode_append [of "runes_of s" t] runes_of_valid [of _ s]
  by (simp add: valid_utf8_def map_idI)

lemma rune_count_append: "valid_utf8 s \<Longrightarrow> rune_count (s @ t) = rune_count s + rune_count t"
  by (simp add: rune_count_def runes_of_append)

definition is_ascii :: "string \<Rightarrow> bool" where
  "is_ascii s \<longleftrightarrow> list_all (\<lambda>c. byte_of c < (0x80::nat)) s"

lemma rune_chunks_ascii: "is_ascii s \<Longrightarrow> rune_chunks s = map (\<lambda>c. (byte_of c, [c])) s"
proof (induction s)
  case Nil
  then show ?case by simp
next
  case (Cons c s)
  then show ?case by (subst rune_chunks_nonempty) (simp_all add: is_ascii_def Let_def)
qed

lemma rune_count_ascii: "is_ascii s \<Longrightarrow> rune_count s = length s"
  by (simp add: rune_count_def runes_of_def rune_chunks_ascii)

lemma valid_utf8_ascii: "is_ascii s \<Longrightarrow> valid_utf8 s"
  by (induction s)
     (simp_all add: is_ascii_def valid_utf8_def runes_of_def rune_chunks_ascii encode_runes_def
       encode_rune_def valid_rune_def encode_scalar_def)

end
