(* ===== verification/Go_Strings.thy ===== *)
theory Go_Strings
  imports Go_Utf8
begin

text \<open>
  The functions of Go's \<open>strings\<close>, \<open>unicode\<close> and \<open>strconv\<close> packages that the
  program calls, on byte strings.  Above Latin-1 the letter, digit and
  lower-case tables of the Unicode database are the argument \<open>unicode\<close>; up to
  U+00FF (and for white space everywhere) they are written out.
\<close>

section \<open>Character classes\<close>

record unicode =
  uni_letter :: "rune \<Rightarrow> bool"
  uni_digit :: "rune \<Rightarrow> bool"
  uni_lower :: "rune \<Rightarrow> rune"

definition latin1_letter :: "rune \<Rightarrow> bool" where
  "latin1_letter r \<longleftrightarrow>
     (0x41 \<le> r \<and> r \<le> 0x5A) \<or> (0x61 \<le> r \<and> r \<le> 0x7A) \<or> r = 0xAA \<or> r = 0xB5 \<or> r = 0xBA \<or>
     (0xC0 \<le> r \<and> r \<le> 0xFF \<and> r \<noteq> 0xD7 \<and> r \<noteq> 0xF7)"

definition is_letter :: "unicode \<Rightarrow> rune \<Rightarrow> bool" where
  "is_letter u r = (if r \<le> 0xFF then latin1_letter r else uni_letter u r)"

definition is_digit :: "unicode \<Rightarrow> rune \<Rightarrow> bool" where
  "is_digit u r = (if r \<le> 0xFF then 0x30 \<le> r \<and> r \<le> 0x39 else uni_digit u r)"

text \<open>\<open>unicode.IsSpace\<close>: the White_Space property.\<close>

definition is_space :: "rune \<Rightarrow> bool" where
  "is_space r \<longleftrightarrow>
     (0x09 \<le> r \<and> r \<le> 0x0D) \<or> r = 0x20 \<or> r = 0x85 \<or> r = 0xA0 \<or> r = 0x1680 \<or>
     (0x2000 \<le> r \<and> r \<le> 0x200A) \<or> r = 0x2028 \<or> r = 0x2029 \<or> r = 0x202F \<or> r = 0x205F \<or>
     r = 0x3000"

definition ascii_lower :: "char \<Rightarrow> char" where
  "ascii_lower c =
     (if (0x41::nat) \<le> of_char c \<and> of_char c \<le> (0x5A::nat) then char_of (of_char c + 0x20 :: nat) else c)"

definition rune_lower :: "unicode \<Rightarrow> rune \<Rightarrow> rune" where
  "rune_lower u r =
     (if r < 0x80 then (if 0x41 \<le> r \<and> r \<le> 0x5A then r + 0x20 else r) else uni_lower u r)"

definition to_lower :: "unicode \<Rightarrow> string \<Rightarrow> string" where
  "to_lower u s =
     (if is_ascii s then map ascii_lower s else encode_runes (map (rune_lower u) (runes_of s)))"

text \<open>\<open>strings.EqualFold\<close> against a constant of the letters A, O, R, V, which have no case
  variants outside ASCII.\<close>

definition equal_fold_ascii :: "string \<Rightarrow> string \<Rightarrow> bool" where
  "equal_fold_ascii s t = (map ascii_lower s = map ascii_lower t)"

section \<open>Trimming\<close>

definition chunk_bytes :: "(rune \<times> string) list \<Rightarrow> string" where
  "chunk_bytes cs = concat (map snd cs)"

definition trim_left_func :: "(rune \<Rightarrow> bool) \<Rightarrow> string \<Rightarrow> string" where
  "trim_left_func p s = chunk_bytes (dropWhile (\<lambda>c. p (fst c)) (rune_chunks s))"

definition trim_right_func :: "(rune \<Rightarrow> bool) \<Rightarrow> string \<Rightarrow> string" where
  "trim_right_func p s = chunk_bytes (rev (dropWhile (\<lambda>c. p (fst c)) (rev (rune_chunks s))))"

definition trim_space :: "string \<Rightarrow> string" where
  "trim_space s = trim_right_func is_space (trim_left_func is_space s)"

text \<open>\<open>strings.TrimRight\<close>, \<open>strings.Trim\<close> with a cutset of one ASCII character.\<close>

definition trim_right_char :: "char \<Rightarrow> string \<Rightarrow> string" where
  "trim_right_char c s = rev (dropWhile (\<lambda>d. d = c) (rev s))"

definition trim_char :: "char \<Rightarrow> string \<Rightarrow> string" where
  "trim_char c s = trim_right_char c (dropWhile (\<lambda>d. d = c) s)"

section \<open>Prefixes, substrings, splitting and joining\<close>

definition has_prefix :: "string \<Rightarrow> string \<Rightarrow> bool" where
  "has_prefix s p = (take (length p) s = p)"

definition has_suffix :: "string \<Rightarrow> string \<Rightarrow> bool" where
  "has_suffix s p = (length p \<le> length s \<and> drop (length s - length p) s = p)"

definition trim_prefix :: "string \<Rightarrow> string \<Rightarrow> string" where
  "trim_prefix s p = (if has_prefix s p then drop (length p) s else s)"

fun contains :: "string \<Rightarrow> string \<Rightarrow> bool" where
  "contains [] sub = (sub = [])"
| "contains (c # s) sub = (has_prefix (c # s) sub \<or> contains s sub)"

text \<open>\<open>strings.Split\<close> with a separator of one ASCII character.\<close>

fun split_on :: "char \<Rightarrow> string \<Rightarrow> string list" where
  "split_on d [] = [[]]"
| "split_on d (c # s) =
     (if c = d then [] # split_on d s
      else (c # hd (split_on d s)) # tl (split_on d s))"

fun join :: "string \<Rightarrow> string list \<Rightarrow> string" where
  "join sep [] = []"
| "join sep [x] = x"
| "join sep (x # y # ys) = x @ sep @ join sep (y # ys)"

text \<open>\<open>strings.FieldsFunc\<close>: the maximal runs of runes that are no separators.\<close>

fun fields_go :: "(rune \<Rightarrow> bool) \<Rightarrow> string \<Rightarrow> (rune \<times> string) list \<Rightarrow> string list" where
  "fields_go sep cur [] = (if cur = [] then [] else [cur])"
| "fields_go sep cur ((r, bs) # cs) =
     (if sep r then (if cur = [] then fields_go sep [] cs else cur # fields_go sep [] cs)
      else fields_go sep (cur @ bs) cs)"

definition fields_func :: "(rune \<Rightarrow> bool) \<Rightarrow> string \<Rightarrow> string list" where
  "fields_func sep s = fields_go sep [] (rune_chunks s)"

definition fields :: "string \<Rightarrow> string list" where
  "fields s = fields_func is_space s"

section \<open>Numbers\<close>

fun digits :: "nat \<Rightarrow> string" where
  "digits n =
     (if n < 10 then [char_of (0x30 + n)] else digits (n div 10) @ [char_of (0x30 + n mod 10)])"

declare digits.simps [simp del]

text \<open>\<open>strconv.FormatInt(i, 10)\<close> and \<open>strconv.Itoa\<close>.\<close>

definition format_int :: "int \<Rightarrow> string" where
  "format_int i = (if i < 0 then CHR ''-'' # digits (nat (- i)) else digits (nat i))"

definition digit_val :: "char \<Rightarrow> nat option" where
  "digit_val c =
     (if 0x30 \<le> byte_of c \<and> byte_of c \<le> 0x39 then Some (byte_of c - 0x30) else None)"

fun parse_digits :: "nat \<Rightarrow> string \<Rightarrow> nat option" where
  "parse_digits n [] = Some n"
| "parse_digits n (c # s) =
     (case digit_val c of None \<Rightarrow> None | Some d \<Rightarrow> parse_digits (n * 10 + d) s)"

definition parse_uint :: "string \<Rightarrow> nat option" where
  "parse_uint s = (if s = [] then None else parse_digits 0 s)"

abbreviation int64_bound :: nat where
  "int64_bound \<equiv> 9223372036854775808"

text \<open>\<open>strconv.ParseInt(s, 10, 64)\<close>.\<close>

definition parse_int64 :: "string \<Rightarrow> int result" where
  "parse_int64 s =
     (let neg = (s \<noteq> [] \<and> hd s = CHR ''-'');
          body = (if s \<noteq> [] \<and> (hd s = CHR ''-'' \<or> hd s = CHR ''+'') then tl s else s)
      in case parse_uint body of
           None \<Rightarrow> Inl (LibError ''strconv.ParseInt'' s)
         | Some n \<Rightarrow>
             if \<not> neg \<and> int64_bound \<le> n then Inl (LibError ''strconv.ParseInt'' s)
             else if neg \<and> int64_bound < n then Inl (LibError ''strconv.ParseInt'' s)
             else Inr (if neg then - int n else int n))"

section \<open>Facts\<close>

lemma split_on_nonempty [simp]: "split_on d s \<noteq> []"
  by (induction s) simp_all

lemma split_on_no_sep: "x \<in> set (split_on d s) \<Longrightarrow> d \<notin> set x"
proof (induction s arbitrary: x)
  case Nil
  then show ?case by simp
next
  case (Cons c s)
  show ?case
  proof (cases "c = d")
    case True
    with Cons show ?thesis by auto
  next
    case False
    with Cons.prems have "x = c # hd (split_on d s) \<or> x \<in> set (tl (split_on d s))" by auto
    then show ?thesis
      using Cons.IH [OF hd_in_set [OF split_on_nonempty]] Cons.IH [of x] False
      by (auto dest: list.set_sel(2) [OF split_on_nonempty])
  qed
qed

lemma join_split_on: "join [d] (split_on d s) = s"
proof (induction s)
  case Nil
  then show ?case by simp
next
  case (Cons c s)
  then show ?case
    by (cases "split_on d s" rule: list.exhaust; cases "tl (split_on d s)") auto
qed

lemma digit_val_char_of [simp]: "n < 10 \<Longrightarrow> digit_val (char_of (0x30 + n)) = Some n"
  by (simp add: digit_val_def)

lemma digits_nonempty [simp]: "digits n \<noteq> []"
  by (subst digits.simps) simp

lemma parse_digits_append:
  "parse_digits n (s @ t) =
     (case parse_digits n s of None \<Rightarrow> None | Some m \<Rightarrow> parse_digits m t)"
  by (induction n s rule: parse_digits.induct) (auto split: option.splits)

lemma parse_digits_digits: "parse_digits 0 (digits n) = Some n"
proof (induction n rule: digits.induct)
  case (1 n)
  show ?case
  proof (cases "n < 10")
    case True
    then show ?thesis by (subst digits.simps) simp
  next
    case False
    with 1 have "parse_digits 0 (digits (n div 10)) = Some (n div 10)" by simp
    with False show ?thesis by (subst digits.simps) (simp add: parse_digits_append)
  qed
qed

lemma hd_digits: "hd (digits n) \<noteq> CHR ''-'' \<and> hd (digits n) \<noteq> CHR ''+''"
proof (induction n rule: digits.induct)
  case (1 n)
  have "char_of (48 + k) \<noteq> CHR ''-'' \<and> char_of (48 + k) \<noteq> CHR ''+''" if "k < 10" for k :: nat
  proof -
    have "digit_val (char_of (48 + k)) = Some k" using that by simp
    moreover have "digit_val (CHR ''-'') = None" "digit_val (CHR ''+'') = None"
      by (simp_all add: digit_val_def)
    ultimately show ?thesis by force
  qed
  with 1 show ?case by (subst digits.simps, subst digits.simps) (auto simp: hd_append)
qed

text \<open>What \<open>FormatInt\<close> writes, \<open>ParseInt\<close> reads back, for every int64.\<close>

lemma parse_format_int64:
  assumes "- int int64_bound \<le> i" "i < int int64_bound"
  shows "parse_int64 (format_int i) = Inr i"
proof (cases "i < 0")
  case True
  with assms show ?thesis
    by (simp add: parse_int64_def format_int_def parse_uint_def parse_digits_digits Let_def nat_le_iff)
next
  case False
  with assms show ?thesis using hd_digits [of "nat i"]
    by (simp add: parse_int64_def format_int_def parse_uint_def parse_digits_digits Let_def le_nat_iff
        not_le)
qed

lemma has_prefix_append [simp]: "has_prefix (p @ s) p"
  by (simp add: has_prefix_def)

lemma trim_prefix_append [simp]: "trim_prefix (p @ s) p = s"
  by (simp add: trim_prefix_def)

lemma has_prefix_iff: "has_prefix s p \<longleftrightarrow> (\<exists>t. s = p @ t)"
  by (metis append_eq_conv_conj append_take_drop_id has_prefix_def)

lemma has_suffix_iff: "has_suffix s p \<longleftrightarrow> (\<exists>t. s = t @ p)"
  by (auto simp: has_suffix_def) (metis append_take_drop_id)

lemma contains_iff: "contains s sub \<longleftrightarrow> (\<exists>a b. s = a @ sub @ b)"
proof (induction s)
  case Nil
  then show ?case by auto
next
  case (Cons c s)
  show ?case
    unfolding contains.simps has_prefix_iff Cons.IH
    by (metis append_Cons append_Nil list.inject neq_Nil_conv append_eq_Cons_conv)
qed

lemma has_suffix_contains: "has_suffix s p \<Longrightarrow> contains s p"
  unfolding has_suffix_iff contains_iff by (metis append_Nil2)

lemma contains_refl [simp]: "contains s s"
  unfolding contains_iff by (metis append_Nil append_Nil2)

lemma fields_go_nonempty: "x \<in> set (fields_go sep cur cs) \<Longrightarrow> x \<noteq> []"
  by (induction sep cur cs rule: fields_go.induct) (auto split: if_splits)

lemma fields_func_nonempty: "x \<in> set (fields_func sep s) \<Longrightarrow> x \<noteq> []"
  unfolding fields_func_def by (rule fields_go_nonempty)

end
