(* ===== verification/Link_Update.thy ===== *)
theory Link_Update
  imports Go_Strings
begin

text \<open>
  The notification passed between the services (\<open>pkg/api/link_update.go\<close>): produced by
  the scrapper, filtered, summarised and grouped by the agent, delivered by the bot.
  Texts in Russian are given by their code points, encoded as the source file has them.
\<close>

record link_update =
  uID :: int
  uURL :: string
  uTgChatIDs :: "int list"
  uType :: string
  uTitle :: string
  uUsername :: string
  uCreatedAt :: instant
  uPreview :: string
  uDescription :: string
  uPriority :: string

definition empty_update :: link_update where
  "empty_update =
     \<lparr>uID = 0, uURL = [], uTgChatIDs = [], uType = [], uTitle = [], uUsername = [],
      uCreatedAt = time_zero, uPreview = [], uDescription = [], uPriority = []\<rparr>"

definition default_link_update_notice_prefix :: string where
  "default_link_update_notice_prefix =
     encode_runes
     [0x41E, 0x431, 0x43D, 0x430, 0x440, 0x443, 0x436, 0x435, 0x43D, 0x43E, 0x20, 0x43E,
      0x431, 0x43D, 0x43E, 0x432, 0x43B, 0x435, 0x43D, 0x438, 0x435, 0x20, 0x43F, 0x43E,
      0x20, 0x441, 0x441, 0x44B, 0x43B, 0x43A, 0x435, 0x3A, 0x20]"

definition subscriber_notification_body :: "link_update \<Rightarrow> string" where
  "subscriber_notification_body u =
     (if trim_space (uDescription u) \<noteq> [] then uDescription u
      else default_link_update_notice_prefix @ uURL u)"

lemma default_prefix_nonempty [simp]: "default_link_update_notice_prefix \<noteq> []"
  by (simp add: default_link_update_notice_prefix_def encode_runes_def)

text \<open>The text sent to a subscriber is never blank.\<close>

lemma trim_space_Nil [simp]: "trim_space [] = []"
  by (simp add: trim_space_def trim_left_func_def trim_right_func_def chunk_bytes_def)

lemma subscriber_notification_body_nonempty: "subscriber_notification_body u \<noteq> []"
  by (auto simp: subscriber_notification_body_def)

end
