(* ===== verification/Agent_Text.thy ===== *)
theory Agent_Text
  imports Link_Update
begin

text \<open>
  The agent's text services: keyword normalisation and word sets, the priority
  service (\<open>agent/internal/application/priority_service.go\<close>) and the filter
  service (\<open>filter_service.go\<close>).  Go's \<open>map[string]struct{}\<close> is a set.
\<close>

section \<open>Words and keywords\<close>

definition is_word_rune :: "unicode \<Rightarrow> rune \<Rightarrow> bool" where
  "is_word_rune uc r \<longleftrightarrow> is_letter uc r \<or> is_digit uc r"

definition is_word_separator :: "unicode \<Rightarrow> rune \<Rightarrow> bool" where
  "is_word_separator uc r \<longleftrightarrow> \<not> is_word_rune uc r"

definition to_word_set :: "unicode \<Rightarrow> string \<Rightarrow> string set" where
  "to_word_set uc text = set (fields_func (is_word_separator uc) (to_lower uc text))"

definition normalize_keyword :: "unicode \<Rightarrow> string \<Rightarrow> string" where
  "normalize_keyword uc k = to_lower uc (trim_space k)"

fun normalize_keywords :: "unicode \<Rightarrow> string list \<Rightarrow> string list" where
  "normalize_keywords uc [] = []"
| "normalize_keywords uc (k # ks) =
     (let keyword = normalize_keyword uc k
      in if keyword \<noteq> [] then keyword # normalize_keywords uc ks else normalize_keywords uc ks)"

section \<open>Priority service\<close>

definition priority_high :: string where "priority_high = ''HIGH''"

definition priority_medium :: string where "priority_medium = ''MEDIUM''"

definition priority_low :: string where "priority_low = ''LOW''"

record priority_service =
  high_keywords :: "string list"
  low_keywords :: "string list"

definition new_priority_service :: "unicode \<Rightarrow> string list \<Rightarrow> string list \<Rightarrow> priority_service" where
  "new_priority_service uc high low =
     \<lparr>high_keywords = normalize_keywords uc high, low_keywords = normalize_keywords uc low\<rparr>"

text \<open>The two loops over the keywords, with their early returns.\<close>

fun first_match :: "string list \<Rightarrow> string set \<Rightarrow> bool" where
  "first_match [] words = False"
| "first_match (k # ks) words = (if k \<in> words then True else first_match ks words)"

definition determine_priority :: "unicode \<Rightarrow> priority_service \<Rightarrow> string \<Rightarrow> string" where
  "determine_priority uc s text =
     (let words = to_word_set uc text
      in if first_match (high_keywords s) words then priority_high
         else if first_match (low_keywords s) words then priority_low
         else priority_medium)"

section \<open>Filter service\<close>

record filter_service =
  stop_words :: "string list"
  excluded_authors :: "string set"
  min_length :: int

fun author_set :: "unicode \<Rightarrow> string list \<Rightarrow> string set" where
  "author_set uc [] = {}"
| "author_set uc (a # as) =
     (let author = to_lower uc (trim_space a)
      in if author \<noteq> [] then insert author (author_set uc as) else author_set uc as)"

definition new_filter_service ::
    "unicode \<Rightarrow> string list \<Rightarrow> string list \<Rightarrow> int \<Rightarrow> filter_service" where
  "new_filter_service uc stops excluded minlen =
     \<lparr>stop_words = normalize_keywords uc stops, excluded_authors = author_set uc excluded,
      min_length = minlen\<rparr>"

definition should_process :: "unicode \<Rightarrow> filter_service \<Rightarrow> link_update \<Rightarrow> bool" where
  "should_process uc s update =
     (let description = trim_space (uDescription update) in
      if int (rune_count description) < min_length s then False
      else
        (let username = to_lower uc (trim_space (uUsername update)) in
         if username \<in> excluded_authors s then False
         else
           (let words = to_word_set uc description in
            if first_match (stop_words s) words then False else True)))"

section \<open>Facts\<close>

lemma first_match_iff: "first_match ks ws \<longleftrightarrow> (\<exists>k \<in> set ks. k \<in> ws)"
  by (induction ks) auto

lemma set_normalize_keywords:
  "set (normalize_keywords uc ks) = normalize_keyword uc ` set ks - {[]}"
  by (induction ks) (auto simp: Let_def)

lemma author_set_eq: "author_set uc as = normalize_keyword uc ` set as - {[]}"
  by (induction as) (auto simp: Let_def normalize_keyword_def)

lemma to_word_set_nonempty: "[] \<notin> to_word_set uc text"
  unfolding to_word_set_def using fields_func_nonempty by blast

text \<open>Every word is made of word runes only, so a keyword with any other rune never matches.\<close>

lemma rune_chunks_encode_runes:
  "rune_chunks (encode_runes rs) = map (\<lambda>r. (norm_rune r, encode_rune r)) rs"
  by (induction rs) (simp_all add: encode_runes_def rune_chunks_encode)

lemma encode_norm_rune [simp]: "encode_rune (norm_rune r) = encode_rune r"
  by (simp add: encode_rune_def norm_rune_def)

lemma fields_go_word_runes:
  assumes "w \<in> set (fields_go sep (encode_runes cur) (map (\<lambda>r. (norm_rune r, encode_rune r)) rs))"
    and "\<forall>r \<in> set cur. \<not> sep (norm_rune r)"
  shows "\<forall>r \<in> set (runes_of w). \<not> sep r"
  using assms
proof (induction rs arbitrary: cur)
  case Nil
  then show ?case by (auto simp: runes_of_encode_runes split: if_splits)
next
  case (Cons r rs)
  have snoc: "encode_runes cur @ encode_rune r = encode_runes (cur @ [r])"
    by (simp add: encode_runes_def)
  show ?case
  proof (cases "sep (norm_rune r)")
    case True
    have "encode_runes [] = []" by (simp add: encode_runes_def)
    with Cons.IH [of "[]"] Cons.prems True show ?thesis
      by (auto simp: runes_of_encode_runes split: if_splits)
  next
    case False
    with Cons.IH [of "cur @ [r]"] Cons.prems show ?thesis by (simp add: snoc)
  qed
qed

lemma valid_utf8_to_lower: "valid_utf8 (to_lower uc s)"
proof (cases "is_ascii s")
  case True
  then have "is_ascii (map ascii_lower s)"
    by (auto simp: is_ascii_def list.pred_set ascii_lower_def)
  with True show ?thesis by (simp add: to_lower_def valid_utf8_ascii)
next
  case False
  then show ?thesis by (simp add: to_lower_def)
qed

lemma word_set_runes:
  assumes "w \<in> to_word_set uc text" "r \<in> set (runes_of w)"
  shows "is_word_rune uc r"
proof -
  let ?s = "to_lower uc text"
  have s: "?s = encode_runes (runes_of ?s)" using valid_utf8_to_lower by (simp add: valid_utf8_def)
  have "w \<in> set (fields_go (is_word_separator uc) [] (rune_chunks (encode_runes (runes_of ?s))))"
    using assms(1) s by (simp add: to_word_set_def fields_func_def)
  then have "w \<in> set (fields_go (is_word_separator uc) (encode_runes [])
      (map (\<lambda>r. (norm_rune r, encode_rune r)) (runes_of ?s)))"
    by (simp add: rune_chunks_encode_runes)
  from fields_go_word_runes [OF this] assms(2) show ?thesis by (auto simp: is_word_separator_def)
qed

section \<open>Properties\<close>

text \<open>
  An update passes the filter exactly when its trimmed description has at least
  the configured number of characters, its author is none of the configured excluded
  authors and none of the configured stop words is one of the description's words.
  Authors and stop words count trimmed and lower-cased, and blank entries of the
  configuration exclude nothing.
\<close>

theorem should_process_new_filter_service:
  "should_process uc (new_filter_service uc stops excluded minlen) update \<longleftrightarrow>
     minlen \<le> int (rune_count (trim_space (uDescription update))) \<and>
     normalize_keyword uc (uUsername update)
       \<notin> {normalize_keyword uc a | a. a \<in> set excluded \<and> normalize_keyword uc a \<noteq> []} \<and>
     {normalize_keyword uc w | w. w \<in> set stops \<and> normalize_keyword uc w \<noteq> []}
       \<inter> to_word_set uc (trim_space (uDescription update)) = {}"
  by (auto simp: should_process_def new_filter_service_def first_match_iff author_set_eq
      set_normalize_keywords normalize_keyword_def Let_def)

text \<open>
  The priority of a text is HIGH when it has a configured high keyword as a word,
  even if it has a low one too, LOW when it has a low keyword and no high one, and
  MEDIUM otherwise; nothing else is ever returned.
\<close>

theorem determine_priority_spec:
  "determine_priority uc (new_priority_service uc high low) text =
     (if \<exists>k \<in> set high. normalize_keyword uc k \<in> to_word_set uc text then priority_high
      else if \<exists>k \<in> set low. normalize_keyword uc k \<in> to_word_set uc text then priority_low
      else priority_medium)"
proof -
  have "first_match (normalize_keywords uc ks) (to_word_set uc text) \<longleftrightarrow>
      (\<exists>k \<in> set ks. normalize_keyword uc k \<in> to_word_set uc text)" for ks
    using to_word_set_nonempty [of uc "text"] by (auto simp: first_match_iff set_normalize_keywords)
  then show ?thesis by (simp add: determine_priority_def new_priority_service_def Let_def)
qed

text \<open>
  A keyword with a character that is neither a letter nor a digit ("c++", "bug fix")
  never matches: configuring it as a high keyword changes no text's priority.
\<close>

theorem keyword_with_separator_never_matches:
  assumes "r \<in> set (runes_of (normalize_keyword uc k))" and "\<not> is_word_rune uc r"
  shows "determine_priority uc (new_priority_service uc (k # high) low) text =
         determine_priority uc (new_priority_service uc high low) text"
proof -
  have "normalize_keyword uc k \<notin> to_word_set uc text" using word_set_runes assms by blast
  then show ?thesis
    by (auto simp: determine_priority_def new_priority_service_def first_match_iff Let_def
        set_normalize_keywords)
qed

text \<open>The Latin-1 part of the tables, with nothing above it, for concrete runs.\<close>

definition latin1_tables :: unicode where
  "latin1_tables = \<lparr>uni_letter = (\<lambda>_. False), uni_digit = (\<lambda>_. False), uni_lower = (\<lambda>r. r)\<rparr>"

theorem keyword_with_separator_never_matches_witness:
  "determine_priority latin1_tables (new_priority_service latin1_tables [''c++'', ''urgent''] []) ''Use c++''
     = determine_priority latin1_tables (new_priority_service latin1_tables [''urgent''] []) ''Use c++''"
proof -
  have "0x2B \<in> set (runes_of (normalize_keyword latin1_tables ''c++''))" by code_simp
  moreover have "\<not> is_word_rune latin1_tables 0x2B" by code_simp
  ultimately show ?thesis by (rule keyword_with_separator_never_matches)
qed

end
