(* ===== verification/Agent_Summarizer.thy ===== *)
theory Agent_Summarizer
  imports Agent_Text
begin

text \<open>
  The two summarizers of \<open>agent/internal/infrastructure/ai\<close> behind the interface
  \<open>Summarizer\<close> (\<open>summarizer.go\<close>), and the interface as a locale.  A slice
  expression out of range panics: \<open>None\<close> is a panic, \<open>Some (Inl e)\<close> an error,
  \<open>Some (Inr s)\<close> a summary.  The HTTP exchange of the Hugging Face client is an
  argument, a function from the request to the outcome of the call.
\<close>

section \<open>The interface\<close>

locale summarizer =
  fixes summarize :: "string \<Rightarrow> int \<Rightarrow> string result option"
  assumes no_panic: "summarize s threshold \<noteq> None"
    and non_positive: "threshold \<le> 0 \<Longrightarrow> summarize s threshold = Some (Inr t) \<Longrightarrow> t = s"
begin

lemma outcome: "\<exists>r. summarize s threshold = Some r"
  using no_panic by auto

end

locale bounded_summarizer = summarizer +
  assumes bounded:
    "0 < threshold \<Longrightarrow> summarize s threshold = Some (Inr t) \<Longrightarrow> int (rune_count t) \<le> threshold + 3"

section \<open>Cutting and the stub\<close>

definition cut_with_ellipsis :: "string \<Rightarrow> int \<Rightarrow> string option" where
  "cut_with_ellipsis s threshold =
     (if int (rune_count s) \<le> threshold then Some s
      else if threshold < 0 then None
      else Some (encode_runes (take (nat threshold) (runes_of s)) @ ''...''))"

definition stub_summarize :: "bool \<Rightarrow> string \<Rightarrow> int \<Rightarrow> string result option" where
  "stub_summarize ctx_done s threshold =
     (if ctx_done then Some (Inl ErrContextDone)
      else if threshold \<le> 0 then Some (Inr s)
      else map_option Inr (cut_with_ellipsis s threshold))"

section \<open>The Hugging Face client\<close>

record hf_summarizer =
  hf_api_url :: string
  hf_token :: string

definition new_hf_summarizer :: "string \<Rightarrow> string \<Rightarrow> hf_summarizer" where
  "new_hf_summarizer api_url token = \<lparr>hf_api_url = trim_space api_url, hf_token = trim_space token\<rparr>"

record hf_request =
  hf_url :: string
  hf_content_type :: string
  hf_authorization :: "string option"
  hf_inputs :: string

text \<open>The request could not be built, the call failed, or a response came with its status and
  the decoded \<open>summary_text\<close> fields (\<open>None\<close> when the body does not decode).\<close>

datatype hf_reply =
    HfBuildError go_error
  | HfCallError go_error
  | HfResponse int "string list option"

definition hf_build_request :: "hf_summarizer \<Rightarrow> string \<Rightarrow> hf_request" where
  "hf_build_request s content =
     \<lparr>hf_url = hf_api_url s,
      hf_content_type = ''application/json'',
      hf_authorization = (if hf_token s \<noteq> [] then Some (''Bearer '' @ hf_token s) else None),
      hf_inputs =
        ''Summarize the following update in 2-3 sentences:'' @ [CHR 0x0A, CHR 0x0A] @ content\<rparr>"

definition hf_summarize ::
    "hf_summarizer \<Rightarrow> (hf_request \<Rightarrow> hf_reply) \<Rightarrow> string \<Rightarrow> int \<Rightarrow> string result option" where
  "hf_summarize s http content threshold =
     (if threshold \<le> 0 then Some (Inr content)
      else if hf_api_url s = [] then map_option Inr (cut_with_ellipsis content threshold)
      else
        (case http (hf_build_request s content) of
           HfBuildError e \<Rightarrow> Some (Inl e)
         | HfCallError e \<Rightarrow> map_option Inr (cut_with_ellipsis content threshold)
         | HfResponse code body \<Rightarrow>
             if code < 200 \<or> 300 \<le> code then map_option Inr (cut_with_ellipsis content threshold)
             else
               (case body of
                  None \<Rightarrow> map_option Inr (cut_with_ellipsis content threshold)
                | Some [] \<Rightarrow> map_option Inr (cut_with_ellipsis content threshold)
                | Some (item # _) \<Rightarrow>
                    if trim_space item = [] then map_option Inr (cut_with_ellipsis content threshold)
                    else Some (Inr (trim_space item)))))"

section \<open>Facts\<close>

lemma cut_with_ellipsis_Some: "0 < threshold \<Longrightarrow> cut_with_ellipsis s threshold \<noteq> None"
  by (simp add: cut_with_ellipsis_def)

lemma rune_count_cut:
  assumes "0 < threshold" "cut_with_ellipsis s threshold = Some t"
  shows "int (rune_count t) \<le> threshold + 3"
proof -
  have dots: "rune_count ''...'' = 3" by (subst rune_count_ascii) (simp_all add: is_ascii_def)
  show ?thesis using assms
    by (auto simp: cut_with_ellipsis_def rune_count_encode_append dots split: if_splits)
qed

lemma cut_Some_ex: "0 < threshold \<Longrightarrow> \<exists>t. cut_with_ellipsis s threshold = Some t"
  using cut_with_ellipsis_Some by blast

interpretation stub: bounded_summarizer "stub_summarize ctx_done" for ctx_done
proof (unfold_locales, goal_cases)
  case (1 s threshold)
  then show ?case using cut_with_ellipsis_Some [of threshold s] by (simp add: stub_summarize_def)
next
  case (2 threshold s t)
  then show ?case by (simp add: stub_summarize_def split: if_splits)
next
  case (3 threshold s t)
  then show ?case using rune_count_cut [of threshold s t]
    by (auto simp: stub_summarize_def split: if_splits)
qed

interpretation hf: summarizer "hf_summarize service http" for service http
proof (unfold_locales, goal_cases)
  case (1 s threshold)
  then show ?case using cut_Some_ex [of threshold s]
    by (auto simp: hf_summarize_def split: hf_reply.split list.split option.split)
next
  case (2 threshold s t)
  then show ?case by (simp add: hf_summarize_def)
qed

section \<open>Properties\<close>

text \<open>
  Cutting a text never panics for a positive threshold, and its result is valid UTF-8
  whenever it is shortened: a text over the threshold keeps exactly its first
  \<open>threshold\<close> characters, whole, and ends in three dots; a text within it is untouched.
\<close>

theorem cut_with_ellipsis_runes:
  assumes "0 < threshold"
  shows "\<exists>t. cut_with_ellipsis s threshold = Some t \<and>
     (if int (rune_count s) \<le> threshold then t = s
      else valid_utf8 t \<and>
           runes_of t = take (nat threshold) (runes_of s) @ [0x2E, 0x2E, 0x2E])"
proof (cases "int (rune_count s) \<le> threshold")
  case True
  then show ?thesis by (simp add: cut_with_ellipsis_def)
next
  case False
  let ?rs = "take (nat threshold) (runes_of s)"
  have ascii: "is_ascii ''...''" by (simp add: is_ascii_def)
  then have "valid_utf8 (encode_runes ?rs @ ''...'')"
    by (simp add: valid_utf8_append valid_utf8_ascii)
  moreover have "map norm_rune ?rs = ?rs"
    by (rule map_idI) (meson in_set_takeD norm_rune_valid runes_of_valid)
  moreover have "runes_of ''...'' = [0x2E, 0x2E, 0x2E]"
    using rune_chunks_ascii [OF ascii] by (simp add: runes_of_def)
  ultimately show ?thesis using False assms
    by (simp add: cut_with_ellipsis_def runes_of_encode_append)
qed

theorem cut_with_ellipsis_runes_witness:
  "\<exists>t. cut_with_ellipsis ''abcdef'' 4 = Some t \<and> runes_of t = [0x61, 0x62, 0x63, 0x64, 0x2E, 0x2E, 0x2E]"
proof -
  have "runes_of ''abcdef'' = [0x61, 0x62, 0x63, 0x64, 0x65, 0x66]" by code_simp
  then show ?thesis
    using cut_with_ellipsis_runes [of 4 "''abcdef''"] by (auto simp: rune_count_def)
qed

end
