(* ===== verification/Kafka_Producer.thy ===== *)
theory Kafka_Producer
  imports Link_Update
begin

text \<open>
  The producers of \<open>pkg/kafka\<close>: \<open>link_update_producer.go\<close> and
  \<open>dead_letter_producer.go\<close>, and the interface \<open>LinkUpdateProducer\<close> as a locale.
  The broker is the log of the messages it stored, with a script of the outcomes of
  the next produce calls: what the client library and the delivery channel answer
  is the environment's choice.  The JSON encodings and the Avro codec are arguments.
\<close>

section \<open>The interface\<close>

text \<open>
  A nil error says the message is stored; an error leaves it open (a delivery report
  that times out may belong to a stored message), but nothing else is ever written.
\<close>

locale update_producer =
  fixes produce :: "link_update \<Rightarrow> ('p, unit) eff"
    and message_of :: "link_update \<Rightarrow> 'm"
    and stored :: "'p \<Rightarrow> 'm list"
  assumes produce_ok: "produce u p = (Inr (), p') \<Longrightarrow> stored p' = stored p @ [message_of u]"
    and produce_err:
      "produce u p = (Inl e, p') \<Longrightarrow> stored p' = stored p \<or> stored p' = stored p @ [message_of u]"
begin

lemma stored_grows: "\<exists>ms. stored (snd (produce u p)) = stored p @ ms \<and> set ms \<subseteq> {message_of u}"
proof (cases "produce u p")
  case (Pair r p')
  show ?thesis
  proof (cases r)
    case (Inl e)
    with Pair produce_err [of u p e p'] show ?thesis by auto
  next
    case (Inr x)
    with Pair produce_ok [of u p p'] show ?thesis by auto
  qed
qed

end

section \<open>The broker\<close>

record kafka_message =
  km_topic :: string
  km_key :: string
  km_value :: string
  km_headers :: "(string \<times> string) list"

text \<open>The flag of an outcome that is not a success says whether the broker has stored the message.\<close>

datatype produce_outcome =
    Delivered
  | EnqueueError go_error
  | DeliveryError go_error bool
  | UnexpectedEvent string bool
  | ContextDone bool

record broker =
  b_log :: "kafka_message list"
  b_script :: "produce_outcome list"

definition next_outcome :: "broker \<Rightarrow> produce_outcome \<times> broker" where
  "next_outcome b =
     (case b_script b of [] \<Rightarrow> (Delivered, b) | x # xs \<Rightarrow> (x, b\<lparr>b_script := xs\<rparr>))"

definition store_if :: "bool \<Rightarrow> kafka_message \<Rightarrow> broker \<Rightarrow> broker" where
  "store_if stored m b = (if stored then b\<lparr>b_log := b_log b @ [m]\<rparr> else b)"

section \<open>The link update producer\<close>

definition kafka_content_type_header_key :: string where
  "kafka_content_type_header_key = ''content-type''"

definition kafka_json_content_type :: string where
  "kafka_json_content_type = ''application/json''"

definition serialization_format_avro :: string where
  "serialization_format_avro = ''AVRO''"

record link_update_producer_config =
  pc_bootstrap_servers :: string
  pc_topic :: string
  pc_client_id :: string
  pc_schema_registry_url :: string
  pc_link_updates_subject :: string
  pc_serialization_format :: string

text \<open>A producer's topic and, with the Avro format, its serialisation.\<close>

record confluent_producer =
  kp_topic :: string
  kp_codec :: "(link_update \<Rightarrow> string result) option"

definition new_confluent_link_update_producer ::
    "link_update_producer_config \<Rightarrow> go_error option \<Rightarrow>
     (string \<Rightarrow> string \<Rightarrow> (link_update \<Rightarrow> string result) result) \<Rightarrow> confluent_producer result" where
  "new_confluent_link_update_producer cfg client_err new_codec =
     (let bootstrap_servers = trim_space (pc_bootstrap_servers cfg) in
      if bootstrap_servers = [] then Inl ErrKafkaBootstrapServersEmpty
      else
        (let topic = trim_space (pc_topic cfg) in
         if topic = [] then Inl ErrKafkaTopicEmpty
         else
           (case client_err of
              Some e \<Rightarrow> Inl (WrapErr ''create kafka producer'' e)
            | None \<Rightarrow>
                if equal_fold_ascii (pc_serialization_format cfg) serialization_format_avro then
                  (let subject =
                         (if pc_link_updates_subject cfg = [] then pc_topic cfg @ ''-value''
                          else pc_link_updates_subject cfg)
                   in case new_codec (pc_schema_registry_url cfg) subject of
                        Inl e \<Rightarrow> Inl e
                      | Inr codec \<Rightarrow> Inr \<lparr>kp_topic = topic, kp_codec = Some codec\<rparr>)
                else Inr \<lparr>kp_topic = topic, kp_codec = None\<rparr>)))"

definition update_message :: "string \<Rightarrow> string \<Rightarrow> string \<Rightarrow> kafka_message" where
  "update_message topic key payload =
     \<lparr>km_topic = topic, km_key = key, km_value = payload,
      km_headers = [(kafka_content_type_header_key, kafka_json_content_type)]\<rparr>"

definition produce_bytes :: "string \<Rightarrow> string \<Rightarrow> string \<Rightarrow> (broker, unit) eff" where
  "produce_bytes topic key payload b =
     (let m = update_message topic key payload; (outcome, b1) = next_outcome b
      in case outcome of
           EnqueueError e \<Rightarrow> (Inl e, b1)
         | Delivered \<Rightarrow> (Inr (), store_if True m b1)
         | DeliveryError e st \<Rightarrow> (Inl e, store_if st m b1)
         | UnexpectedEvent ty st \<Rightarrow>
             (Inl (ErrText (''unexpected kafka event type: '' @ ty)), store_if st m b1)
         | ContextDone st \<Rightarrow> (Inl ErrContextDone, store_if st m b1))"

definition kafka_body ::
    "(link_update \<Rightarrow> string result) \<Rightarrow> confluent_producer \<Rightarrow> link_update \<Rightarrow> string result" where
  "kafka_body json p u = (case kp_codec p of Some serialize \<Rightarrow> serialize u | None \<Rightarrow> json u)"

definition kafka_produce ::
    "(link_update \<Rightarrow> string result) \<Rightarrow> confluent_producer \<Rightarrow> link_update \<Rightarrow> (broker, unit) eff" where
  "kafka_produce json p u =
     (case kafka_body json p u of
        Inl e \<Rightarrow> throw e
      | Inr body \<Rightarrow> produce_bytes (kp_topic p) (format_int (uID u)) body)"

definition kafka_produce_raw ::
    "(string \<Rightarrow> link_update result) \<Rightarrow> confluent_producer \<Rightarrow> string \<Rightarrow> string \<Rightarrow> string \<Rightarrow>
     (broker, unit) eff" where
  "kafka_produce_raw unmarshal p topic key payload =
     (case kp_codec p of
        Some serialize \<Rightarrow>
          (case unmarshal payload of
             Inl e \<Rightarrow> throw e
           | Inr u \<Rightarrow>
               (case serialize u of
                  Inl e \<Rightarrow> throw e
                | Inr avro_payload \<Rightarrow> produce_bytes topic key avro_payload))
      | None \<Rightarrow> produce_bytes topic key payload)"

definition kafka_message_of ::
    "(link_update \<Rightarrow> string result) \<Rightarrow> confluent_producer \<Rightarrow> link_update \<Rightarrow> kafka_message" where
  "kafka_message_of json p u =
     update_message (kp_topic p) (format_int (uID u))
       (case kafka_body json p u of Inl _ \<Rightarrow> [] | Inr body \<Rightarrow> body)"

lemma produce_bytes_cases:
  "produce_bytes topic key payload b = (r, b') \<Longrightarrow>
     (r = Inr () \<longrightarrow> b_log b' = b_log b @ [update_message topic key payload]) \<and>
     (b_log b' = b_log b \<or> b_log b' = b_log b @ [update_message topic key payload])"
  by (auto simp: produce_bytes_def next_outcome_def store_if_def Let_def
      split: produce_outcome.splits list.splits if_splits)

interpretation kafka: update_producer "kafka_produce json p" "kafka_message_of json p" b_log
  for json p
proof (unfold_locales, goal_cases)
  case (1 u b b')
  then show ?case
    using produce_bytes_cases [of "kp_topic p" "format_int (uID u)" _ b "Inr ()" b']
    by (auto simp: kafka_produce_def kafka_message_of_def split: sum.splits)
next
  case (2 u b e b')
  then show ?case
    using produce_bytes_cases [of "kp_topic p" "format_int (uID u)" _ b "Inl e" b']
    by (auto simp: kafka_produce_def kafka_message_of_def split: sum.splits)
qed

section \<open>The dead letter producer\<close>

text \<open>A consumed message: its coordinates, key and value.\<close>

record consumed_message =
  cm_topic :: "string option"
  cm_partition :: int
  cm_offset :: int
  cm_key :: string
  cm_value :: string

record dead_letter_message =
  dl_original_topic :: string
  dl_original_partition :: int
  dl_original_offset :: int
  dl_original_key :: string
  dl_original_payload :: string
  dl_reason :: string
  dl_error :: string
  dl_failed_at :: instant

definition new_dead_letter_producer :: "string \<Rightarrow> string \<Rightarrow> go_error option \<Rightarrow> string result" where
  "new_dead_letter_producer bootstrap_servers topic client_err =
     (if bootstrap_servers = [] then Inl ErrKafkaBootstrapServersEmpty
      else if topic = [] then Inl ErrKafkaDLQTopicEmpty
      else
        (case client_err of
           Some e \<Rightarrow> Inl (WrapErr ''create dlq producer'' e)
         | None \<Rightarrow> Inr topic))"

definition dead_letter_of ::
    "instant \<Rightarrow> consumed_message \<Rightarrow> string \<Rightarrow> go_error option \<Rightarrow> dead_letter_message" where
  "dead_letter_of now m reason err =
     \<lparr>dl_original_topic = (case cm_topic m of None \<Rightarrow> [] | Some t \<Rightarrow> t),
      dl_original_partition = cm_partition m,
      dl_original_offset = cm_offset m,
      dl_original_key = cm_key m,
      dl_original_payload = cm_value m,
      dl_reason = reason,
      dl_error = (case err of None \<Rightarrow> [] | Some e \<Rightarrow> err_text e),
      dl_failed_at = now\<rparr>"

definition dlq_kafka_message :: "string \<Rightarrow> string \<Rightarrow> string \<Rightarrow> kafka_message" where
  "dlq_kafka_message topic key payload =
     \<lparr>km_topic = topic, km_key = key, km_value = payload, km_headers = []\<rparr>"

definition dlq_produce ::
    "(dead_letter_message \<Rightarrow> string result) \<Rightarrow> string \<Rightarrow> instant \<Rightarrow>
     consumed_message \<Rightarrow> string \<Rightarrow> go_error option \<Rightarrow> (broker, unit) eff" where
  "dlq_produce marshal topic now m reason err b =
     (case marshal (dead_letter_of now m reason err) of
        Inl e \<Rightarrow> (Inl (WrapErr ''marshal dlq message'' e), b)
      | Inr payload \<Rightarrow>
          (let dm = dlq_kafka_message topic (cm_key m) payload; (outcome, b1) = next_outcome b
           in case outcome of
                EnqueueError e \<Rightarrow> (Inl (WrapErr ''produce dlq message'' e), b1)
              | Delivered \<Rightarrow> (Inr (), store_if True dm b1)
              | DeliveryError e st \<Rightarrow> (Inl (WrapErr ''deliver dlq message'' e), store_if st dm b1)
              | UnexpectedEvent ty st \<Rightarrow>
                  (Inl (ErrText (''unexpected kafka event type: '' @ ty)), store_if st dm b1)
              | ContextDone st \<Rightarrow> (Inl ErrContextDone, store_if st dm b1)))"

lemma dlq_produce_ok:
  assumes "dlq_produce marshal topic now m reason err b = (Inr (), b')"
  obtains payload where "marshal (dead_letter_of now m reason err) = Inr payload"
    and "b_log b' = b_log b @ [dlq_kafka_message topic (cm_key m) payload]"
  using assms
  by (auto simp: dlq_produce_def next_outcome_def store_if_def Let_def
      split: sum.splits produce_outcome.splits list.splits if_splits)

end
