(* ===== verification/Agent_Grouping.thy ===== *)
theory Agent_Grouping
  imports Agent_Text Kafka_Producer "HOL-Library.Multiset"
begin

text \<open>
  The grouping service (\<open>agent/internal/application/grouping_service.go\<close>): updates
  are buffered per chat for a window of time, and a chat's buffer is published as one
  grouped update.  First its operations as functions (the producer is a parameter, with its
  own state), then the interleavings of \<open>Add\<close>, the timers' callbacks and
  \<open>FlushAll\<close> as a step relation over the critical sections of the mutex.
\<close>

section \<open>Building the grouped update\<close>

definition priority_rank :: "string \<Rightarrow> int" where
  "priority_rank p =
     (if p = priority_high then 3
      else if p = priority_medium then 2
      else if p = priority_low then 1
      else 0)"

fun max_priority_from :: "string \<Rightarrow> link_update list \<Rightarrow> string" where
  "max_priority_from result [] = result"
| "max_priority_from result (u # us) =
     (let priority = uPriority u
      in if priority_rank priority > priority_rank result then max_priority_from priority us
         else max_priority_from result us)"

definition max_priority :: "link_update list \<Rightarrow> string" where
  "max_priority us = max_priority_from priority_low us"

text \<open>The loop of \<open>buildNumberedDescription\<close>; \<open>i\<close> is the slice index.\<close>

fun numbered_description_from :: "nat \<Rightarrow> link_update list \<Rightarrow> string" where
  "numbered_description_from i [] = []"
| "numbered_description_from i (u # us) =
     (if i > 0 then [CHR 0x0A, CHR 0x0A] else [])
       @ (format_int (int i + 1) @ ''. '' @ uDescription u)
       @ numbered_description_from (i + 1) us"

definition build_numbered_description :: "link_update list \<Rightarrow> string" where
  "build_numbered_description us = numbered_description_from 0 us"

text \<open>\<open>updates[0]\<close> panics on an empty slice: \<open>None\<close>.\<close>

definition build_grouped_update :: "int \<Rightarrow> link_update list \<Rightarrow> link_update option" where
  "build_grouped_update chat us =
     (case us of
        [] \<Rightarrow> None
      | [u] \<Rightarrow> Some u
      | u # _ \<Rightarrow>
          Some (u\<lparr>uTgChatIDs := [chat],
                  uDescription := build_numbered_description us,
                  uPriority := max_priority us\<rparr>))"

section \<open>The service\<close>

text \<open>A timer made by \<open>time.AfterFunc\<close>: armed, its callback started, or stopped before that.\<close>

datatype timer = Armed | Fired | Stopped

record chat_update_buffer =
  cb_updates :: "link_update list"
  cb_timer :: timer

type_synonym buffers = "int \<rightharpoonup> chat_update_buffer"

definition buffered :: "buffers \<Rightarrow> int \<Rightarrow> link_update list" where
  "buffered bs chat = (case bs chat of None \<Rightarrow> [] | Some b \<Rightarrow> cb_updates b)"

text \<open>\<open>addForChat\<close>: the whole body runs under the mutex.\<close>

definition add_for_chat :: "int \<Rightarrow> link_update \<Rightarrow> buffers \<Rightarrow> buffers" where
  "add_for_chat chat update bs =
     (let update1 = update\<lparr>uTgChatIDs := [chat]\<rparr>;
          buffer = (case bs chat of None \<Rightarrow> \<lparr>cb_updates = [], cb_timer = Armed\<rparr> | Some b \<Rightarrow> b)
      in bs(chat \<mapsto> buffer\<lparr>cb_updates := cb_updates buffer @ [update1]\<rparr>))"

text \<open>The locked part of \<open>flushChat\<close>: the buffer leaves the map and its updates are copied.\<close>

definition take_chat :: "int \<Rightarrow> buffers \<Rightarrow> link_update list option \<times> buffers" where
  "take_chat chat bs =
     (case bs chat of
        None \<Rightarrow> (None, bs)
      | Some b \<Rightarrow> (Some (cb_updates b), bs(chat := None)))"

text \<open>\<open>Stop\<close> on the timer of a buffer that is being flushed.\<close>

definition stop_timer :: "timer \<Rightarrow> timer" where
  "stop_timer t = (case t of Armed \<Rightarrow> Stopped | Fired \<Rightarrow> Fired | Stopped \<Rightarrow> Stopped)"

record 'p grouping =
  g_buffers :: buffers
  g_producer :: 'p

definition new_grouping_service :: "'p \<Rightarrow> 'p grouping" where
  "new_grouping_service p = \<lparr>g_buffers = Map.empty, g_producer = p\<rparr>"

text \<open>
  The part of \<open>flushChat\<close> after the unlock: an empty batch publishes nothing, an error
  of the producer is logged.
\<close>

definition publish_batch ::
    "(link_update \<Rightarrow> ('p, unit) eff) \<Rightarrow> int \<Rightarrow> link_update list \<Rightarrow> 'p \<Rightarrow> 'p option" where
  "publish_batch produce chat us p =
     (if us = [] then Some p
      else
        (case build_grouped_update chat us of
           None \<Rightarrow> None
         | Some result \<Rightarrow> Some (snd (produce result p))))"

definition flush_chat ::
    "(link_update \<Rightarrow> ('p, unit) eff) \<Rightarrow> int \<Rightarrow> 'p grouping \<Rightarrow> 'p grouping option" where
  "flush_chat produce chat s =
     (case take_chat chat (g_buffers s) of
        (None, _) \<Rightarrow> Some s
      | (Some us, bs) \<Rightarrow>
          map_option (\<lambda>p. \<lparr>g_buffers = bs, g_producer = p\<rparr>)
            (publish_batch produce chat us (g_producer s)))"

fun flush_chats ::
    "(link_update \<Rightarrow> ('p, unit) eff) \<Rightarrow> int list \<Rightarrow> 'p grouping \<Rightarrow> 'p grouping option" where
  "flush_chats produce [] s = Some s"
| "flush_chats produce (c # cs) s =
     (case flush_chat produce c s of None \<Rightarrow> None | Some s' \<Rightarrow> flush_chats produce cs s')"

text \<open>Go ranges over a map in an order of its choice: \<open>order\<close> lists the chats it visits.\<close>

definition flush_all ::
    "(link_update \<Rightarrow> ('p, unit) eff) \<Rightarrow> (int set \<Rightarrow> int list) \<Rightarrow> 'p grouping \<Rightarrow> 'p grouping option" where
  "flush_all produce order s = flush_chats produce (order (dom (g_buffers s))) s"

definition add ::
    "(link_update \<Rightarrow> ('p, unit) eff) \<Rightarrow> duration \<Rightarrow> link_update \<Rightarrow> 'p grouping \<Rightarrow> 'p grouping" where
  "add produce window update s =
     (if window \<le> 0 then s\<lparr>g_producer := snd (produce update (g_producer s))\<rparr>
      else
        s\<lparr>g_buffers :=
            fold (\<lambda>chat bs. add_for_chat chat update bs) (uTgChatIDs update) (g_buffers s)\<rparr>)"

definition add_all ::
    "(link_update \<Rightarrow> ('p, unit) eff) \<Rightarrow> duration \<Rightarrow> link_update list \<Rightarrow> 'p grouping \<Rightarrow> 'p grouping" where
  "add_all produce window us s = fold (add produce window) us s"

section \<open>Facts about the operations\<close>

lemma priority_rank_simps [simp]:
  "priority_rank priority_high = 3" "priority_rank priority_medium = 2"
  "priority_rank priority_low = 1"
  by (simp_all add: priority_rank_def priority_high_def priority_medium_def priority_low_def)

lemma max_priority_from_rank:
  "priority_rank (max_priority_from p us)
     = fold (\<lambda>u m. max m (priority_rank (uPriority u))) us (priority_rank p)"
  by (induction us arbitrary: p) (auto simp: Let_def max_def)

lemma fold_max_ge: "(m::int) \<le> fold (\<lambda>u m. max m (f u)) us m"
  by (induction us arbitrary: m) (auto intro: order_trans [OF max.cobounded1])

lemma fold_max_member:
  assumes "u \<in> set us"
  shows "f u \<le> fold (\<lambda>u m. max m (f u)) us (m::int)"
  using assms
proof (induction us arbitrary: m)
  case (Cons v vs)
  show ?case
  proof (cases "u = v")
    case True
    have "f v \<le> max m (f v)" by simp
    also have "\<dots> \<le> fold (\<lambda>u m. max m (f u)) vs (max m (f v))" by (rule fold_max_ge)
    finally show ?thesis using True by simp
  next
    case False
    with Cons show ?thesis by simp
  qed
qed simp

lemma max_priority_from_cases:
  "max_priority_from p us = p \<or> max_priority_from p us \<in> uPriority ` set us"
  by (induction us arbitrary: p) (auto simp: Let_def)

abbreviation numbered_item :: "nat \<times> link_update \<Rightarrow> string" where
  "numbered_item iu \<equiv> format_int (int (fst iu) + 1) @ ''. '' @ uDescription (snd iu)"

lemma numbered_description_from_join:
  "numbered_description_from i us =
     (if i > 0 \<and> us \<noteq> [] then [CHR 0x0A, CHR 0x0A] else []) @
     join [CHR 0x0A, CHR 0x0A] (map numbered_item (zip [i ..< i + length us] us))"
proof (induction us arbitrary: i)
  case (Cons u us)
  have upt: "[i ..< i + length (u # us)] = i # [Suc i ..< Suc i + length us]"
    by (simp add: upt_rec)
  show ?case
  proof (cases us)
    case (Cons v vs)
    then have "[Suc i ..< Suc i + length us] = Suc i # [Suc (Suc i) ..< Suc i + length us]"
      by (simp add: upt_rec)
    with Cons.IH [of "Suc i"] Cons upt show ?thesis by simp
  qed (simp add: upt)
qed simp

lemma build_grouped_update_None [simp]: "build_grouped_update chat us = None \<longleftrightarrow> us = []"
  by (auto simp: build_grouped_update_def split: list.splits)

lemma publish_batch_Some: "publish_batch produce chat us p \<noteq> None"
  using build_grouped_update_None [of chat us]
  by (auto simp: publish_batch_def simp del: build_grouped_update_None split: option.split)

lemma flush_chat_Some: "\<exists>s'. flush_chat produce chat s = Some s'"
  using publish_batch_Some [of produce chat _ "g_producer s"]
  by (auto simp: flush_chat_def take_chat_def split: option.split)

lemma flush_chat_buffers:
  "flush_chat produce chat s = Some s' \<Longrightarrow> g_buffers s' = (g_buffers s)(chat := None)"
  by (auto simp: flush_chat_def take_chat_def fun_eq_iff split: option.splits prod.splits)

lemma flush_chats_Some: "\<exists>s'. flush_chats produce cs s = Some s'"
proof (induction cs arbitrary: s)
  case (Cons c cs)
  obtain s1 where "flush_chat produce c s = Some s1" using flush_chat_Some by blast
  with Cons show ?case by simp
qed simp

lemma flush_chats_buffers:
  "flush_chats produce cs s = Some s' \<Longrightarrow> g_buffers s' = g_buffers s |` (- set cs)"
proof (induction cs arbitrary: s)
  case Nil
  then show ?case by simp
next
  case (Cons c cs)
  then obtain s1 where "flush_chat produce c s = Some s1" "flush_chats produce cs s1 = Some s'"
    by (auto split: option.splits)
  with Cons.IH flush_chat_buffers show ?case
    by (fastforce simp: restrict_map_def fun_eq_iff)
qed

lemma buffered_add_for_chat:
  "buffered (add_for_chat c u bs) chat =
     buffered bs chat @ (if c = chat then [u\<lparr>uTgChatIDs := [chat]\<rparr>] else [])"
  by (auto simp: buffered_def add_for_chat_def Let_def split: option.splits)

lemma buffered_fold_add_for_chat:
  "buffered (fold (\<lambda>c bs. add_for_chat c u bs) cs bs) chat =
     buffered bs chat @ map (\<lambda>_. u\<lparr>uTgChatIDs := [chat]\<rparr>) (filter (\<lambda>c. c = chat) cs)"
  by (induction cs arbitrary: bs) (auto simp: buffered_add_for_chat)

lemma add_buffers:
  assumes "0 < window"
  shows "buffered (g_buffers (add produce window u s)) chat =
     buffered (g_buffers s) chat @
       map (\<lambda>_. u\<lparr>uTgChatIDs := [chat]\<rparr>) (filter (\<lambda>c. c = chat) (uTgChatIDs u))"
  using assms by (simp add: add_def buffered_fold_add_for_chat)

lemma add_producer: "0 < window \<Longrightarrow> g_producer (add produce window u s) = g_producer s"
  by (simp add: add_def)

lemma add_all_producer:
  "0 < window \<Longrightarrow> g_producer (add_all produce window us s) = g_producer s"
  by (induction us arbitrary: s) (simp_all add: add_all_def add_producer)

lemma dom_fold_add_for_chat:
  "dom (fold (\<lambda>c bs. add_for_chat c u bs) cs bs) = set cs \<union> dom bs"
  by (induction cs arbitrary: bs) (auto simp: add_for_chat_def Let_def)

text \<open>Every buffer in the map has an update.\<close>

definition buffers_filled :: "buffers \<Rightarrow> bool" where
  "buffers_filled bs \<longleftrightarrow> (\<forall>chat b. bs chat = Some b \<longrightarrow> cb_updates b \<noteq> [])"

lemma buffers_filled_add_for_chat: "buffers_filled bs \<Longrightarrow> buffers_filled (add_for_chat c u bs)"
  by (auto simp: buffers_filled_def add_for_chat_def Let_def split: option.splits)

lemma buffers_filled_fold:
  "buffers_filled bs \<Longrightarrow> buffers_filled (fold (\<lambda>c bs. add_for_chat c u bs) cs bs)"
  by (induction cs arbitrary: bs) (simp_all add: buffers_filled_add_for_chat)

lemma buffers_filled_add:
  "buffers_filled (g_buffers s) \<Longrightarrow> buffers_filled (g_buffers (add produce window u s))"
  by (simp add: add_def buffers_filled_fold)

lemma buffers_filled_add_all:
  "buffers_filled (g_buffers s) \<Longrightarrow> buffers_filled (g_buffers (add_all produce window us s))"
  by (induction us arbitrary: s) (simp_all add: add_all_def buffers_filled_add)

lemma dom_add_all:
  "0 < window \<Longrightarrow>
     dom (g_buffers (add_all produce window us s)) = (\<Union>u \<in> set us. set (uTgChatIDs u)) \<union> dom (g_buffers s)"
  by (induction us arbitrary: s) (auto simp: add_all_def add_def dom_fold_add_for_chat)

lemma buffers_filled_dom: "buffers_filled bs \<Longrightarrow> chat \<in> dom bs \<Longrightarrow> buffered bs chat \<noteq> []"
  by (auto simp: buffers_filled_def buffered_def)

definition grouped :: "int \<Rightarrow> link_update list \<Rightarrow> link_update" where
  "grouped chat us = the (build_grouped_update chat us)"

lemma build_grouped_update_grouped:
  "us \<noteq> [] \<Longrightarrow> build_grouped_update chat us = Some (grouped chat us)"
  using build_grouped_update_None [of chat us]
  by (auto simp: grouped_def simp del: build_grouped_update_None)

lemma flush_chat_step:
  assumes "buffers_filled (g_buffers s)" "chat \<in> dom (g_buffers s)"
  shows "flush_chat produce chat s =
    Some \<lparr>g_buffers = (g_buffers s)(chat := None),
          g_producer = snd (produce (grouped chat (buffered (g_buffers s) chat)) (g_producer s))\<rparr>"
  using assms
  by (auto simp: flush_chat_def take_chat_def publish_batch_def buffered_def buffers_filled_def
      build_grouped_update_grouped)

lemma flush_all_buffers:
  assumes "\<And>S. finite S \<Longrightarrow> set (order S) = S" "finite (dom (g_buffers s))"
    and "flush_all produce order s = Some s'"
  shows "g_buffers s' = Map.empty"
proof -
  have "g_buffers s' = g_buffers s |` (- dom (g_buffers s))"
    using assms flush_chats_buffers [of produce "order (dom (g_buffers s))" s s']
    by (simp add: flush_all_def)
  then show ?thesis by (auto simp: restrict_map_def fun_eq_iff domIff)
qed

section \<open>What the producer has received\<close>

context update_producer
begin

lemma flush_chats_stored:
  assumes "flush_chats produce cs s = Some s'" "buffers_filled (g_buffers s)"
    and "distinct cs" "set cs \<subseteq> dom (g_buffers s)"
  shows "\<exists>ms. stored (g_producer s') = stored (g_producer s) @ ms \<and>
     set ms \<subseteq> (\<lambda>c. message_of (grouped c (buffered (g_buffers s) c))) ` set cs"
  using assms
proof (induction cs arbitrary: s)
  case (Cons c cs)
  let ?u = "grouped c (buffered (g_buffers s) c)"
  let ?s1 = "\<lparr>g_buffers = (g_buffers s)(c := None), g_producer = snd (produce ?u (g_producer s))\<rparr>"
  have fs: "flush_chats produce cs ?s1 = Some s'" using Cons.prems flush_chat_step [of s c] by simp
  have filled: "buffers_filled (g_buffers ?s1)" using Cons.prems(2) by (simp add: buffers_filled_def)
  have cs: "set cs \<subseteq> dom (g_buffers ?s1)" "distinct cs" using Cons.prems(3,4) by auto
  obtain ms where ms: "stored (g_producer s') = stored (g_producer ?s1) @ ms"
    "set ms \<subseteq> (\<lambda>k. message_of (grouped k (buffered (g_buffers ?s1) k))) ` set cs"
    using Cons.IH [OF fs filled cs(2,1)] by blast
  have "buffered (g_buffers ?s1) k = buffered (g_buffers s) k" if "k \<in> set cs" for k
    using that Cons.prems(3) by (auto simp: buffered_def)
  then have "set ms \<subseteq> (\<lambda>k. message_of (grouped k (buffered (g_buffers s) k))) ` set cs"
    using ms(2) by (auto simp: image_iff subset_iff)
  moreover obtain ms0 where "stored (g_producer ?s1) = stored (g_producer s) @ ms0"
    "set ms0 \<subseteq> {message_of ?u}"
    using stored_grows [of ?u "g_producer s"] by auto
  ultimately show ?case using ms(1) by (intro exI [of _ "ms0 @ ms"]) auto
qed simp

lemma flush_chats_stored_ok:
  assumes "flush_chats produce cs s = Some s'" "buffers_filled (g_buffers s)"
    and "distinct cs" "set cs \<subseteq> dom (g_buffers s)"
    and ok: "\<And>u p. good p \<Longrightarrow> \<exists>p'. produce u p = (Inr (), p') \<and> good p'" "good (g_producer s)"
  shows "stored (g_producer s') =
     stored (g_producer s) @ map (\<lambda>c. message_of (grouped c (buffered (g_buffers s) c))) cs"
  using assms(1-4,6)
proof (induction cs arbitrary: s)
  case (Cons c cs)
  let ?u = "grouped c (buffered (g_buffers s) c)"
  let ?s1 = "\<lparr>g_buffers = (g_buffers s)(c := None), g_producer = snd (produce ?u (g_producer s))\<rparr>"
  obtain p' where p': "produce ?u (g_producer s) = (Inr (), p')" "good p'"
    using ok(1) Cons.prems(5) by blast
  have fs: "flush_chats produce cs ?s1 = Some s'" using Cons.prems flush_chat_step [of s c] by simp
  have filled: "buffers_filled (g_buffers ?s1)" using Cons.prems(2) by (simp add: buffers_filled_def)
  have cs: "set cs \<subseteq> dom (g_buffers ?s1)" "distinct cs" using Cons.prems(3,4) by auto
  have good: "good (g_producer ?s1)" using p' by simp
  have "stored (g_producer s') = stored (g_producer ?s1) @
      map (\<lambda>k. message_of (grouped k (buffered (g_buffers ?s1) k))) cs"
    by (rule Cons.IH [OF fs filled cs(2,1) good])
  moreover have "map (\<lambda>k. message_of (grouped k (buffered (g_buffers ?s1) k))) cs
      = map (\<lambda>k. message_of (grouped k (buffered (g_buffers s) k))) cs"
    using Cons.prems(3) by (auto simp: buffered_def)
  ultimately show ?case using produce_ok [OF p'(1)] p'(1) by simp
qed simp

end

section \<open>Interleavings\<close>

text \<open>
  The service under concurrency.  \<open>gs_callbacks\<close> are the timer callbacks that have started
  and not yet taken the mutex, \<open>gs_in_flight\<close> the batches copied out of a buffer by a
  \<open>flushChat\<close> that has not yet called the producer.  \<open>gs_accepted\<close> and
  \<open>gs_handed\<close> record, for the properties, what \<open>addForChat\<close> was given and what
  the producer was called with.  A flush by \<open>FlushAll\<close> may concern any chat: the list of
  chats it walks was read before.
\<close>

record grouping_system =
  gs_buffers :: buffers
  gs_callbacks :: "int list"
  gs_in_flight :: "(int \<times> link_update list) list"
  gs_accepted :: "(int \<times> link_update) list"
  gs_handed :: "(int \<times> link_update list) list"

definition empty_system :: grouping_system where
  "empty_system =
     \<lparr>gs_buffers = Map.empty, gs_callbacks = [], gs_in_flight = [], gs_accepted = [], gs_handed = []\<rparr>"

definition sys_accept :: "int \<Rightarrow> link_update \<Rightarrow> grouping_system \<Rightarrow> grouping_system" where
  "sys_accept chat u s =
     s\<lparr>gs_buffers := add_for_chat chat u (gs_buffers s),
       gs_accepted := gs_accepted s @ [(chat, u\<lparr>uTgChatIDs := [chat]\<rparr>)]\<rparr>"

definition sys_fire :: "int \<Rightarrow> chat_update_buffer \<Rightarrow> grouping_system \<Rightarrow> grouping_system" where
  "sys_fire chat b s =
     s\<lparr>gs_buffers := (gs_buffers s)(chat \<mapsto> b\<lparr>cb_timer := Fired\<rparr>),
       gs_callbacks := chat # gs_callbacks s\<rparr>"

definition sys_flush :: "int \<Rightarrow> grouping_system \<Rightarrow> grouping_system" where
  "sys_flush chat s =
     (case take_chat chat (gs_buffers s) of
        (None, _) \<Rightarrow> s
      | (Some us, bs) \<Rightarrow> s\<lparr>gs_buffers := bs, gs_in_flight := (chat, us) # gs_in_flight s\<rparr>)"

inductive grouping_step :: "grouping_system \<Rightarrow> grouping_system \<Rightarrow> bool" where
  accept: "grouping_step s (sys_accept chat u s)"
| fire: "gs_buffers s chat = Some b \<Longrightarrow> cb_timer b = Armed \<Longrightarrow> grouping_step s (sys_fire chat b s)"
| callback: "chat \<in> set (gs_callbacks s) \<Longrightarrow>
    grouping_step s (sys_flush chat s\<lparr>gs_callbacks := remove1 chat (gs_callbacks s)\<rparr>)"
| flush: "grouping_step s (sys_flush chat s)"
| publish: "batch \<in> set (gs_in_flight s) \<Longrightarrow>
    grouping_step s
      (s\<lparr>gs_in_flight := remove1 batch (gs_in_flight s), gs_handed := batch # gs_handed s\<rparr>)"

inductive grouping_reachable :: "grouping_system \<Rightarrow> bool" where
  start: "grouping_reachable empty_system"
| step: "grouping_reachable s \<Longrightarrow> grouping_step s t \<Longrightarrow> grouping_reachable t"

text \<open>The updates a list of batches, or the buffer, holds for a chat.\<close>

definition batches_of :: "int \<Rightarrow> (int \<times> link_update list) list \<Rightarrow> link_update multiset" where
  "batches_of chat bs = (\<Sum>(c, us) \<in># mset bs. if c = chat then mset us else {#})"

definition accepted_of :: "int \<Rightarrow> grouping_system \<Rightarrow> link_update multiset" where
  "accepted_of chat s = mset (map snd (filter (\<lambda>(c, u). c = chat) (gs_accepted s)))"

definition conserved :: "grouping_system \<Rightarrow> bool" where
  "conserved s \<longleftrightarrow>
     (\<forall>chat. accepted_of chat s =
        batches_of chat (gs_handed s) + batches_of chat (gs_in_flight s) +
        mset (buffered (gs_buffers s) chat))"

text \<open>Every buffer has something to publish and a callback that will come for it.\<close>

definition buffers_alive :: "grouping_system \<Rightarrow> bool" where
  "buffers_alive s \<longleftrightarrow>
     (\<forall>chat b. gs_buffers s chat = Some b \<longrightarrow>
        cb_updates b \<noteq> [] \<and>
        (cb_timer b = Armed \<or> cb_timer b = Fired \<and> chat \<in> set (gs_callbacks s)))"

lemma batches_of_Cons:
  "batches_of chat (b # bs) = (if fst b = chat then mset (snd b) else {#}) + batches_of chat bs"
  by (simp add: batches_of_def case_prod_unfold)

lemma batches_of_remove1:
  "b \<in> set bs \<Longrightarrow>
     (if fst b = chat then mset (snd b) else {#}) + batches_of chat (remove1 b bs) = batches_of chat bs"
  by (induction bs) (auto simp: batches_of_Cons)

lemma buffered_take:
  "buffered ((gs_buffers s)(c := None)) chat = (if c = chat then [] else buffered (gs_buffers s) chat)"
  by (simp add: buffered_def)

lemma conserved_sys_flush: "conserved s \<Longrightarrow> conserved (sys_flush chat s)"
  by (auto simp: conserved_def sys_flush_def take_chat_def accepted_of_def batches_of_Cons
      buffered_take buffered_def split: option.split)

lemma conserved_callbacks: "conserved (s\<lparr>gs_callbacks := cs\<rparr>) = conserved s"
  by (simp add: conserved_def accepted_of_def)

lemma conserved_step: "grouping_step s t \<Longrightarrow> conserved s \<Longrightarrow> conserved t"
proof (induction rule: grouping_step.induct)
  case (accept s chat u)
  then show ?case
    by (auto simp: conserved_def sys_accept_def accepted_of_def buffered_add_for_chat)
next
  case (fire s chat b)
  then show ?case
    by (auto simp: conserved_def sys_fire_def accepted_of_def buffered_def)
next
  case (callback chat s)
  then show ?case by (simp add: conserved_callbacks conserved_sys_flush)
next
  case (flush s chat)
  then show ?case by (rule conserved_sys_flush)
next
  case (publish batch s)
  then show ?case
    using batches_of_remove1 [OF publish.hyps]
    by (auto simp: conserved_def accepted_of_def batches_of_Cons split: if_splits)
qed

lemma buffers_alive_step: "grouping_step s t \<Longrightarrow> buffers_alive s \<Longrightarrow> buffers_alive t"
proof (induction rule: grouping_step.induct)
  case (accept s chat u)
  then show ?case
    by (auto simp: buffers_alive_def sys_accept_def add_for_chat_def Let_def split: option.splits)
next
  case (callback chat s)
  then show ?case
    by (auto simp: buffers_alive_def sys_flush_def take_chat_def split: option.splits if_splits)
      (metis in_set_remove1 option.distinct(1))
qed (auto simp: buffers_alive_def sys_fire_def sys_flush_def take_chat_def
    split: option.splits if_splits)

lemma reachable_invariants:
  "grouping_reachable s \<Longrightarrow> conserved s \<and> buffers_alive s"
proof (induction rule: grouping_reachable.induct)
  case start
  then show ?case
    by (simp add: empty_system_def conserved_def buffers_alive_def accepted_of_def batches_of_def buffered_def)
next
  case (step s t)
  then show ?case using conserved_step buffers_alive_step by blast
qed

inductive_cases grouping_stepE: "grouping_step s t"

section \<open>Properties\<close>

lemma kafka_produce_delivered:
  assumes "kafka_body json p u = Inr body" "b_script b = []"
  shows "\<exists>b'. kafka_produce json p u b = (Inr (), b') \<and> b_script b' = []"
  using assms
  by (simp add: kafka_produce_def produce_bytes_def next_outcome_def store_if_def Let_def)

lemma fold_add_fresh:
  "0 < window \<Longrightarrow> buffered (g_buffers (add_all produce window us s)) chat =
     buffered (g_buffers s) chat @
     concat (map (\<lambda>u. map (\<lambda>_. u\<lparr>uTgChatIDs := [chat]\<rparr>) (filter (\<lambda>c. c = chat) (uTgChatIDs u))) us)"
  by (induction us arbitrary: s) (simp_all add: add_all_def add_buffers)

text \<open>
  With grouping on, accepting any sequence of updates sends nothing, and flushing then
  publishes for every chat they mention exactly one message, the grouped update of the chat's
  updates in the order of arrival (once per mention), and leaves no buffer: with the Kafka
  producer, a broker that answers, updates that can be encoded and Go's unspecified order of
  map iteration.
\<close>

theorem add_all_flush_all:
  fixes us :: "link_update list"
  assumes "0 < window"
    and order: "\<And>S. finite S \<Longrightarrow> set (order S) = S \<and> distinct (order S)"
    and json: "\<And>u. \<exists>body. kafka_body json p u = Inr body"
    and "b_script b = []"
  defines "s \<equiv> add_all (kafka_produce json p) window us (new_grouping_service b)"
    and "mentioned \<equiv> (\<Union>u \<in> set us. set (uTgChatIDs u))"
    and "updates_for \<equiv> \<lambda>chat. concat (map (\<lambda>u. map (\<lambda>_. u\<lparr>uTgChatIDs := [chat]\<rparr>)
           (filter (\<lambda>c. c = chat) (uTgChatIDs u))) us)"
  shows "g_producer s = b \<and>
     (\<exists>s'. flush_all (kafka_produce json p) order s = Some s' \<and>
       g_buffers s' = Map.empty \<and>
       b_log (g_producer s') = b_log b @
         map (\<lambda>chat. kafka_message_of json p (grouped chat (updates_for chat))) (order mentioned))"
proof -
  have filled: "buffers_filled (g_buffers s)"
    unfolding s_def by (rule buffers_filled_add_all) (simp add: new_grouping_service_def buffers_filled_def)
  have dom_s: "dom (g_buffers s) = mentioned"
    using assms(1) by (simp add: s_def mentioned_def dom_add_all new_grouping_service_def)
  have buf: "buffered (g_buffers s) chat = updates_for chat" for chat
  proof -
    have "buffered (g_buffers (new_grouping_service b)) chat = []"
      by (simp add: new_grouping_service_def buffered_def)
    then show ?thesis using assms(1) by (simp add: s_def updates_for_def fold_add_fresh)
  qed
  have prod: "g_producer s = b"
    using assms(1) by (simp add: s_def add_all_producer new_grouping_service_def)
  have fin: "finite mentioned" by (simp add: mentioned_def)
  obtain s' where s': "flush_chats (kafka_produce json p) (order mentioned) s = Some s'"
    using flush_chats_Some by blast
  then have flush: "flush_all (kafka_produce json p) order s = Some s'"
    by (simp add: flush_all_def dom_s)
  have "g_buffers s' = Map.empty"
    using order fin by (intro flush_all_buffers [OF _ _ flush]) (simp_all add: dom_s)
  moreover have "b_log (g_producer s') = b_log (g_producer s) @
      map (\<lambda>c. kafka_message_of json p (grouped c (buffered (g_buffers s) c))) (order mentioned)"
  proof (rule kafka.flush_chats_stored_ok [OF s' filled, where good = "\<lambda>b. b_script b = []"])
    show "distinct (order mentioned)" "set (order mentioned) \<subseteq> dom (g_buffers s)"
      using order [OF fin] by (simp_all add: dom_s)
    show "\<exists>c. kafka_produce json p u d = (Inr (), c) \<and> b_script c = []"
      if "b_script d = []" for u d
      using json [of u] kafka_produce_delivered [OF _ that] by blast
    show "b_script (g_producer s) = []" using prod assms(4) by simp
  qed
  ultimately show ?thesis using flush prod by (auto simp: buf)
qed

theorem add_all_flush_all_witness:
  "let json = (\<lambda>u. Inr (uURL u)); p = \<lparr>kp_topic = ''t'', kp_codec = None\<rparr>;
       s = add_all (kafka_produce json p) 5 [empty_update\<lparr>uTgChatIDs := [7]\<rparr>]
             (new_grouping_service \<lparr>b_log = [], b_script = []\<rparr>)
   in \<exists>s'. flush_all (kafka_produce json p) sorted_list_of_set s = Some s' \<and> g_buffers s' = Map.empty"
  using add_all_flush_all [of 5 sorted_list_of_set "\<lambda>u. Inr (uURL u)" "\<lparr>kp_topic = ''t'', kp_codec = None\<rparr>"
      "\<lparr>b_log = [], b_script = []\<rparr>" "[empty_update\<lparr>uTgChatIDs := [7]\<rparr>]"]
  by (auto simp: kafka_body_def Let_def)

text \<open>
  (C27) The grouped update of several updates lists all their descriptions, numbered from 1
  and separated by blank lines, is addressed to the chat alone and has a priority at least as high as each
  of theirs, which is one of theirs or LOW; a single update is published as it is.
\<close>

theorem build_grouped_update_spec:
  "case us of
     [] \<Rightarrow> build_grouped_update chat us = None
   | [u] \<Rightarrow> build_grouped_update chat us = Some u
   | u # _ \<Rightarrow>
       (\<exists>g. build_grouped_update chat us = Some g \<and>
         uTgChatIDs g = [chat] \<and> uURL g = uURL u \<and> uID g = uID u \<and>
         uDescription g = join [CHR 0x0A, CHR 0x0A]
           (map (\<lambda>(i, v). format_int (int i + 1) @ ''. '' @ uDescription v) (zip [0 ..< length us] us)) \<and>
         (\<forall>v \<in> set us. priority_rank (uPriority v) \<le> priority_rank (uPriority g)) \<and>
         uPriority g \<in> insert priority_low (uPriority ` set us))"
proof -
  have "priority_rank (uPriority v) \<le> priority_rank (max_priority us)" if "v \<in> set us" for v
    using fold_max_member [OF that, of "\<lambda>u. priority_rank (uPriority u)"]
    by (simp add: max_priority_def max_priority_from_rank)
  moreover have "max_priority us \<in> insert priority_low (uPriority ` set us)"
    using max_priority_from_cases by (auto simp: max_priority_def)
  moreover have "build_numbered_description us = join [CHR 0x0A, CHR 0x0A]
      (map (\<lambda>(i, v). format_int (int i + 1) @ ''. '' @ uDescription v) (zip [0 ..< length us] us))"
    by (simp add: build_numbered_description_def numbered_description_from_join case_prod_unfold)
  ultimately show ?thesis by (auto simp: build_grouped_update_def split: list.split)
qed

theorem build_grouped_update_spec_witness:
  "\<exists>g. build_grouped_update 7 [empty_update, empty_update\<lparr>uPriority := ''MEDIUM''\<rparr>] = Some g \<and>
     uPriority g \<in> {''LOW'', ''MEDIUM'', []} \<and> uTgChatIDs g = [7]"
  using build_grouped_update_spec [where us = "[empty_update, empty_update\<lparr>uPriority := ''MEDIUM''\<rparr>]" and chat = 7]
  by (auto simp: priority_low_def empty_update_def)

text \<open>
  (C15) Under every interleaving of adding, timers firing, their callbacks, flushing and publishing, no
  update is lost or sent twice: for each chat, what was accepted is, as a multiset, what
  the producer was handed, what is in flight and what is buffered.  Every buffer still has an
  armed timer or a started callback, so once nothing is pending or in flight everything
  accepted was handed over exactly once.
\<close>

theorem grouping_conserves_updates:
  assumes "grouping_reachable s"
  shows "accepted_of chat s =
      batches_of chat (gs_handed s) + batches_of chat (gs_in_flight s) + mset (buffered (gs_buffers s) chat) \<and>
    (gs_callbacks s = [] \<and> gs_in_flight s = [] \<and>
      (\<forall>c b. gs_buffers s c = Some b \<longrightarrow> cb_timer b \<noteq> Armed) \<longrightarrow>
      accepted_of chat s = batches_of chat (gs_handed s))"
proof (intro conjI impI)
  have inv: "conserved s" "buffers_alive s" using reachable_invariants [OF assms] by auto
  then show eq: "accepted_of chat s =
      batches_of chat (gs_handed s) + batches_of chat (gs_in_flight s) + mset (buffered (gs_buffers s) chat)"
    by (simp add: conserved_def)
  assume quiet: "gs_callbacks s = [] \<and> gs_in_flight s = [] \<and>
    (\<forall>c b. gs_buffers s c = Some b \<longrightarrow> cb_timer b \<noteq> Armed)"
  have "gs_buffers s chat = None"
  proof (rule ccontr)
    assume "gs_buffers s chat \<noteq> None"
    then obtain b where "gs_buffers s chat = Some b" by blast
    with inv(2) quiet show False by (auto simp: buffers_alive_def)
  qed
  with eq quiet show "accepted_of chat s = batches_of chat (gs_handed s)"
    by (simp add: batches_of_def buffered_def)
qed

theorem grouping_conserves_updates_witness:
  "let s = sys_flush 7 (sys_accept 7 empty_update empty_system)
   in accepted_of 7 s = {# empty_update\<lparr>uTgChatIDs := [7]\<rparr> #} \<and>
      accepted_of 7 s = batches_of 7 (gs_handed s) + batches_of 7 (gs_in_flight s)
        + mset (buffered (gs_buffers s) 7)"
proof -
  have "grouping_reachable (sys_flush 7 (sys_accept 7 empty_update empty_system))"
    using start accept flush grouping_reachable.step by blast
  from grouping_conserves_updates [OF this, of 7] show ?thesis
    by (simp add: Let_def accepted_of_def sys_flush_def sys_accept_def empty_system_def take_chat_def
        add_for_chat_def)
qed

end
