(* ===== verification/Kafka_Consumer.thy ===== *)
theory Kafka_Consumer
  imports Kafka_Producer
begin

text \<open>
  The consumer of link updates (\<open>pkg/kafka/link_update_consumer.go\<close>): it decodes and
  checks a message, calls a handler with retries, sends what fails to the dead letter
  topic and commits.  The handler is the interface \<open>LinkUpdateHandler\<close>, here a locale; a
  handler that panics gives \<open>None\<close> and takes the consumer down with it.  What the
  broker, the clock and the cancellation of the context do is in scripts of the state.
\<close>

section \<open>The interface\<close>

type_synonym 'h handler = "link_update \<Rightarrow> 'h \<Rightarrow> (unit result \<times> 'h) option"

locale link_update_handler =
  fixes handle :: "'h handler"
    and healthy :: "'h \<Rightarrow> bool"
  assumes no_panic: "healthy h \<Longrightarrow> handle u h \<noteq> None"
    and keeps_healthy: "healthy h \<Longrightarrow> handle u h = Some (r, h') \<Longrightarrow> healthy h'"

section \<open>Configuration\<close>

record link_update_consumer_config =
  cc_bootstrap_servers :: string
  cc_topic :: string
  cc_dlq_topic :: string
  cc_consumer_group :: string
  cc_client_id :: string
  cc_max_retries :: int
  cc_schema_registry_url :: string
  cc_link_updates_subject :: string
  cc_serialization_format :: string

record link_update_consumer =
  lc_topic :: string
  lc_dlq_topic :: string
  lc_max_retries :: int
  lc_codec :: "(string \<Rightarrow> link_update result) option"

definition consumer_max_retries_floor :: int where
  "consumer_max_retries_floor = 0"

text \<open>Arguments: the errors of the two library constructors, if any, and the codec's constructor.\<close>

definition new_link_update_consumer ::
    "link_update_consumer_config \<Rightarrow> bool \<Rightarrow> go_error option \<Rightarrow> go_error option \<Rightarrow>
     (string \<Rightarrow> string \<Rightarrow> (string \<Rightarrow> link_update result) result) \<Rightarrow> link_update_consumer result" where
  "new_link_update_consumer cfg handler_given consumer_err dlq_err new_codec =
     (if cc_bootstrap_servers cfg = [] then Inl ErrKafkaBootstrapServersEmpty
      else if cc_topic cfg = [] then Inl ErrKafkaTopicEmpty
      else if cc_dlq_topic cfg = [] then Inl ErrKafkaDLQTopicEmpty
      else if cc_consumer_group cfg = [] then Inl ErrKafkaConsumerGroupEmpty
      else if \<not> handler_given then Inl ErrKafkaHandlerEmpty
      else
        (case consumer_err of
           Some e \<Rightarrow> Inl (WrapErr ''create kafka consumer'' e)
         | None \<Rightarrow>
             (case new_dead_letter_producer (cc_bootstrap_servers cfg) (cc_dlq_topic cfg) dlq_err of
                Inl e \<Rightarrow> Inl e
              | Inr dlq_topic \<Rightarrow>
                  (let max_retries =
                         (if cc_max_retries cfg < consumer_max_retries_floor
                          then consumer_max_retries_floor else cc_max_retries cfg);
                       consumer = \<lparr>lc_topic = cc_topic cfg, lc_dlq_topic = dlq_topic,
                                   lc_max_retries = max_retries, lc_codec = None\<rparr>
                   in if equal_fold_ascii (cc_serialization_format cfg) serialization_format_avro then
                        (let subject =
                               (if cc_link_updates_subject cfg = [] then cc_topic cfg @ ''-value''
                                else cc_link_updates_subject cfg)
                         in case new_codec (cc_schema_registry_url cfg) subject of
                              Inl e \<Rightarrow> Inl e
                            | Inr codec \<Rightarrow> Inr (consumer\<lparr>lc_codec := Some codec\<rparr>))
                      else Inr consumer))))"

section \<open>State\<close>

text \<open>A commit that fails may have taken effect: the flag says whether it has.\<close>

datatype commit_outcome = Committed | CommitFailed go_error bool

record 'h consumer_state =
  cs_handler :: 'h
  cs_attempts :: nat
  cs_dlq :: broker
  cs_committed :: "consumed_message list"
  cs_commit_script :: "commit_outcome list"
  cs_backoff_cancelled :: "bool list"
  cs_now :: instant

text \<open>\<open>cs_attempts\<close> counts the calls of the handler.  A script that has run out means no fault.\<close>

definition commit_message ::
    "consumed_message \<Rightarrow> 'h consumer_state \<Rightarrow> unit result \<times> 'h consumer_state" where
  "commit_message m s =
     (let commit = (\<lambda>st. if st then s\<lparr>cs_committed := cs_committed s @ [m]\<rparr> else s) in
      case cs_commit_script s of
        [] \<Rightarrow> (Inr (), commit True)
      | o1 # os \<Rightarrow>
          (case o1 of
             Committed \<Rightarrow> (Inr (), (commit True)\<lparr>cs_commit_script := os\<rparr>)
           | CommitFailed e st \<Rightarrow>
               (Inl (WrapErr ''commit kafka message'' e), (commit st)\<lparr>cs_commit_script := os\<rparr>)))"

definition sleep_with_context :: "'h consumer_state \<Rightarrow> unit result \<times> 'h consumer_state" where
  "sleep_with_context s =
     (case cs_backoff_cancelled s of
        [] \<Rightarrow> (Inr (), s)
      | c # cs \<Rightarrow> (if c then Inl ErrContextDone else Inr (), s\<lparr>cs_backoff_cancelled := cs\<rparr>))"

definition validate_link_update :: "link_update \<Rightarrow> go_error option" where
  "validate_link_update u =
     (if uURL u = [] \<or> length (uTgChatIDs u) = 0 then Some ErrInvalidKafkaLinkUpdate else None)"

section \<open>Handling a message\<close>

definition call_handler ::
    "'h handler \<Rightarrow> link_update \<Rightarrow> 'h consumer_state \<Rightarrow> (unit result \<times> 'h consumer_state) option" where
  "call_handler handle u s =
     (case handle u (cs_handler s) of
        None \<Rightarrow> None
      | Some (r, h) \<Rightarrow> Some (r, s\<lparr>cs_handler := h, cs_attempts := Suc (cs_attempts s)\<rparr>))"

text \<open>
  The loop \<open>for attempt := 0; attempt <= maxRetries; attempt++\<close>; after it,
  \<open>return lastErr\<close> with a \<open>lastErr\<close> still nil.
\<close>

function retry_loop ::
    "'h handler \<Rightarrow> int \<Rightarrow> link_update \<Rightarrow> int \<Rightarrow> 'h consumer_state \<Rightarrow>
     (unit result \<times> 'h consumer_state) option" where
  "retry_loop handle max_retries u k s =
     (if k \<le> max_retries then
        (case call_handler handle u s of
           None \<Rightarrow> None
         | Some (Inr _, s1) \<Rightarrow> Some (Inr (), s1)
         | Some (Inl e, s1) \<Rightarrow>
             (if k < max_retries then
                (case sleep_with_context s1 of
                   (Inl c, s2) \<Rightarrow> Some (Inl c, s2)
                 | (Inr _, s2) \<Rightarrow> retry_loop handle max_retries u (k + 1) s2)
              else Some (Inl e, s1)))
      else Some (Inr (), s))"
  by pat_completeness auto

termination
  by (relation "measure (\<lambda>(_, max_retries, _, k, _). nat (max_retries + 1 - k))") auto

declare retry_loop.simps [simp del]

definition handle_with_retries ::
    "'h handler \<Rightarrow> link_update_consumer \<Rightarrow> link_update \<Rightarrow> 'h consumer_state \<Rightarrow>
     (unit result \<times> 'h consumer_state) option" where
  "handle_with_retries handle c u s = retry_loop handle (lc_max_retries c) u 0 s"

definition dead_letter_reason_deserialization :: string where
  "dead_letter_reason_deserialization = ''deserialization_error''"

definition dead_letter_reason_validation :: string where
  "dead_letter_reason_validation = ''validation_error''"

definition dead_letter_reason_processing :: string where
  "dead_letter_reason_processing = ''processing_error''"

definition send_to_dlq_and_commit ::
    "(dead_letter_message \<Rightarrow> string result) \<Rightarrow> link_update_consumer \<Rightarrow> consumed_message \<Rightarrow> string \<Rightarrow>
     go_error \<Rightarrow> 'h consumer_state \<Rightarrow> unit result \<times> 'h consumer_state" where
  "send_to_dlq_and_commit marshal c m reason err s =
     (case dlq_produce marshal (lc_dlq_topic c) (cs_now s) m reason (Some err) (cs_dlq s) of
        (Inl e, d) \<Rightarrow> (Inl e, s\<lparr>cs_dlq := d\<rparr>)
      | (Inr _, d) \<Rightarrow> commit_message m (s\<lparr>cs_dlq := d\<rparr>))"

definition decode_message ::
    "(string \<Rightarrow> link_update result) \<Rightarrow> link_update_consumer \<Rightarrow> consumed_message \<Rightarrow> link_update result" where
  "decode_message unmarshal c m =
     (case lc_codec c of Some deserialize \<Rightarrow> deserialize (cm_value m) | None \<Rightarrow> unmarshal (cm_value m))"

definition handle_message ::
    "'h handler \<Rightarrow> (string \<Rightarrow> link_update result) \<Rightarrow> (dead_letter_message \<Rightarrow> string result) \<Rightarrow>
     link_update_consumer \<Rightarrow> consumed_message \<Rightarrow> 'h consumer_state \<Rightarrow>
     (unit result \<times> 'h consumer_state) option" where
  "handle_message handle unmarshal marshal c m s =
     (case decode_message unmarshal c m of
        Inl e \<Rightarrow> Some (send_to_dlq_and_commit marshal c m dead_letter_reason_deserialization e s)
      | Inr u \<Rightarrow>
          (case validate_link_update u of
             Some e \<Rightarrow> Some (send_to_dlq_and_commit marshal c m dead_letter_reason_validation e s)
           | None \<Rightarrow>
               (case handle_with_retries handle c u s of
                  None \<Rightarrow> None
                | Some (Inl e, s1) \<Rightarrow>
                    Some (send_to_dlq_and_commit marshal c m dead_letter_reason_processing e s1)
                | Some (Inr _, s1) \<Rightarrow> Some (commit_message m s1))))"

section \<open>The polling loop\<close>

text \<open>
  One iteration of the loop of \<open>Start\<close>: the context is done, nothing was polled, a message, an
  error of the client, or an event of another type.
\<close>

datatype poll_event =
    PollContextDone
  | PollNothing
  | PollMessage consumed_message
  | PollError go_error bool
  | PollOther

datatype loop_result = Running | Returned go_error | Panicked

fun start_loop ::
    "'h handler \<Rightarrow> (string \<Rightarrow> link_update result) \<Rightarrow> (dead_letter_message \<Rightarrow> string result) \<Rightarrow>
     link_update_consumer \<Rightarrow> poll_event list \<Rightarrow> 'h consumer_state \<Rightarrow> loop_result \<times> 'h consumer_state" where
  "start_loop handle unmarshal marshal c [] s = (Running, s)"
| "start_loop handle unmarshal marshal c (e # es) s =
     (case e of
        PollContextDone \<Rightarrow> (Returned ErrContextDone, s)
      | PollNothing \<Rightarrow> start_loop handle unmarshal marshal c es s
      | PollMessage m \<Rightarrow>
          (case handle_message handle unmarshal marshal c m s of
             None \<Rightarrow> (Panicked, s)
           | Some (Inl err, s1) \<Rightarrow> (Returned err, s1)
           | Some (Inr _, s1) \<Rightarrow> start_loop handle unmarshal marshal c es s1)
      | PollError err fatal \<Rightarrow>
          (if fatal then (Returned (WrapErr ''fatal kafka consumer error'' err), s)
           else start_loop handle unmarshal marshal c es s)
      | PollOther \<Rightarrow> start_loop handle unmarshal marshal c es s)"

definition start_consumer ::
    "'h handler \<Rightarrow> (string \<Rightarrow> link_update result) \<Rightarrow> (dead_letter_message \<Rightarrow> string result) \<Rightarrow>
     link_update_consumer \<Rightarrow> go_error option \<Rightarrow> poll_event list \<Rightarrow> 'h consumer_state \<Rightarrow>
     loop_result \<times> 'h consumer_state" where
  "start_consumer handle unmarshal marshal c subscribe_err events s =
     (case subscribe_err of
        Some e \<Rightarrow> (Returned (WrapErr ''subscribe to kafka topic'' e), s)
      | None \<Rightarrow> start_loop handle unmarshal marshal c events s)"

section \<open>Facts\<close>

lemma commit_message_facts [simp]:
  "cs_handler (snd (commit_message m s)) = cs_handler s"
  "cs_dlq (snd (commit_message m s)) = cs_dlq s"
  "cs_attempts (snd (commit_message m s)) = cs_attempts s"
  by (auto simp: commit_message_def Let_def split: list.split commit_outcome.split)

lemma commit_message_committed:
  assumes "commit_message m s = (r, s')"
  shows "cs_committed s' = cs_committed s @ [m] \<or> cs_committed s' = cs_committed s \<and> r \<noteq> Inr ()"
  using assms
  by (auto simp: commit_message_def Let_def split: list.splits commit_outcome.splits if_splits)

lemma sleep_with_context_facts [simp]:
  "cs_handler (snd (sleep_with_context s)) = cs_handler s"
  "cs_dlq (snd (sleep_with_context s)) = cs_dlq s"
  "cs_committed (snd (sleep_with_context s)) = cs_committed s"
  "cs_attempts (snd (sleep_with_context s)) = cs_attempts s"
  by (auto simp: sleep_with_context_def split: list.split)

lemma call_handler_SomeD:
  "call_handler handle u s = Some (r, s1) \<Longrightarrow>
     handle u (cs_handler s) = Some (r, cs_handler s1) \<and> cs_attempts s1 = Suc (cs_attempts s) \<and>
     cs_dlq s1 = cs_dlq s \<and> cs_committed s1 = cs_committed s \<and> cs_now s1 = cs_now s \<and>
     cs_backoff_cancelled s1 = cs_backoff_cancelled s"
  by (auto simp: call_handler_def split: option.splits)

lemma retry_loop_facts:
  assumes "retry_loop handle mx u k s = Some (r, s')" "k \<le> mx"
  shows "cs_dlq s' = cs_dlq s \<and> cs_committed s' = cs_committed s \<and>
     cs_attempts s < cs_attempts s' \<and> int (cs_attempts s') \<le> int (cs_attempts s) + (mx + 1 - k) \<and>
     (r = Inr () \<longrightarrow> (\<exists>h. handle u h = Some (Inr (), cs_handler s')))"
  using assms
proof (induction handle mx u k s rule: retry_loop.induct)
  case (1 handle mx u k s)
  from "1.prems" obtain r1 s1 where call: "call_handler handle u s = Some (r1, s1)"
    by (auto simp: retry_loop.simps split: option.splits)
  note c = call_handler_SomeD [OF call]
  note run = "1.prems"(1) [unfolded retry_loop.simps [of handle mx u k s]]
  show ?case
  proof (cases r1)
    case (Inr x)
    then have "r1 = Inr ()" by simp
    moreover have "Some (Inr (), s1) = Some (r, s')"
      using run "1.prems"(2) call Inr by simp
    ultimately show ?thesis using c "1.prems"(2) by auto
  next
    case (Inl e)
    show ?thesis
    proof (cases "k < mx")
      case False
      then show ?thesis using run "1.prems"(2) call Inl c by auto
    next
      case True
      obtain sr s2 where sl: "sleep_with_context s1 = (sr, s2)" by fastforce
      have sf: "cs_handler s2 = cs_handler s1" "cs_dlq s2 = cs_dlq s1" "cs_committed s2 = cs_committed s1"
        "cs_attempts s2 = cs_attempts s1"
        using sleep_with_context_facts [of s1] sl by simp_all
      show ?thesis
      proof (cases sr)
        case (Inl e1)
        then show ?thesis using run "1.prems"(2) call \<open>r1 = Inl e\<close> True sl c sf
          by auto
      next
        case (Inr x)
        have "retry_loop handle mx u (k + 1) s2 = Some (r, s')"
          using run "1.prems"(2) call \<open>r1 = Inl e\<close> True sl Inr by simp
        from "1.IH" [OF "1.prems"(2) call _ _ True sl [symmetric] Inr this] True \<open>r1 = Inl e\<close> c sf
        show ?thesis by auto
      qed
    qed
  qed
qed

text \<open>
  What committing a message rests on: a call of the handler on its decoded update that
  returned nil, or a dead letter for it in the log of the dead letter topic.
\<close>

definition handled_ok ::
    "'h handler \<Rightarrow> (string \<Rightarrow> link_update result) \<Rightarrow> link_update_consumer \<Rightarrow> consumed_message \<Rightarrow> bool" where
  "handled_ok handle unmarshal c m \<longleftrightarrow>
     (\<exists>u h h'. decode_message unmarshal c m = Inr u \<and> validate_link_update u = None \<and>
        handle u h = Some (Inr (), h'))"

definition dead_lettered ::
    "(dead_letter_message \<Rightarrow> string result) \<Rightarrow> link_update_consumer \<Rightarrow> consumed_message \<Rightarrow>
     kafka_message list \<Rightarrow> bool" where
  "dead_lettered marshal c m log \<longleftrightarrow>
     (\<exists>now reason e payload. marshal (dead_letter_of now m reason (Some e)) = Inr payload \<and>
        reason \<in> {dead_letter_reason_deserialization, dead_letter_reason_validation,
                    dead_letter_reason_processing} \<and>
        dlq_kafka_message (lc_dlq_topic c) (cm_key m) payload \<in> set log)"

lemma dead_lettered_mono: "dead_lettered marshal c m log \<Longrightarrow> set log \<subseteq> set log' \<Longrightarrow> dead_lettered marshal c m log'"
  unfolding dead_lettered_def by blast

lemma dlq_produce_log_grows:
  "set (b_log b) \<subseteq> set (b_log (snd (dlq_produce marshal topic now m reason err b)))"
  by (auto simp: dlq_produce_def next_outcome_def store_if_def Let_def
      split: sum.splits produce_outcome.splits list.splits)

lemma send_to_dlq_outcome:
  assumes "send_to_dlq_and_commit marshal c m reason e s = (r, s')"
    and "reason \<in> {dead_letter_reason_deserialization, dead_letter_reason_validation,
                   dead_letter_reason_processing}"
  shows "set (b_log (cs_dlq s)) \<subseteq> set (b_log (cs_dlq s')) \<and> cs_handler s' = cs_handler s \<and>
    (cs_committed s' = cs_committed s \<and> r \<noteq> Inr () \<or>
     cs_committed s' = cs_committed s @ [m] \<and> dead_lettered marshal c m (b_log (cs_dlq s')))"
proof -
  obtain r1 d where d: "dlq_produce marshal (lc_dlq_topic c) (cs_now s) m reason (Some e) (cs_dlq s) = (r1, d)"
    by fastforce
  have grows: "set (b_log (cs_dlq s)) \<subseteq> set (b_log d)" using dlq_produce_log_grows d by (metis snd_conv)
  show ?thesis
  proof (cases r1)
    case (Inl e1)
    then show ?thesis using assms(1) d grows by (auto simp: send_to_dlq_and_commit_def)
  next
    case (Inr x)
    then obtain payload where p: "marshal (dead_letter_of (cs_now s) m reason (Some e)) = Inr payload"
      "b_log d = b_log (cs_dlq s) @ [dlq_kafka_message (lc_dlq_topic c) (cm_key m) payload]"
      using dlq_produce_ok d by (metis (full_types) old.unit.exhaust)
    have dl: "dead_lettered marshal c m (b_log d)"
      using p assms(2) by (fastforce simp: dead_lettered_def)
    have cm: "commit_message m (s\<lparr>cs_dlq := d\<rparr>) = (r, s')"
      using assms(1) d Inr by (simp add: send_to_dlq_and_commit_def)
    have "cs_dlq s' = d" "cs_handler s' = cs_handler s"
      using commit_message_facts [of m "s\<lparr>cs_dlq := d\<rparr>"] cm by simp_all
    then show ?thesis using commit_message_committed [OF cm] dl grows by auto
  qed
qed

text \<open>One message, whatever the handler, the broker, the clock and the context do.\<close>

lemma handle_message_outcome:
  assumes "handle_message handle unmarshal marshal c m s = Some (r, s')" "0 \<le> lc_max_retries c"
  shows "set (b_log (cs_dlq s)) \<subseteq> set (b_log (cs_dlq s')) \<and>
    (cs_committed s' = cs_committed s \<and> r \<noteq> Inr () \<or>
     cs_committed s' = cs_committed s @ [m] \<and>
       (handled_ok handle unmarshal c m \<or> dead_lettered marshal c m (b_log (cs_dlq s'))))"
proof (cases "decode_message unmarshal c m")
  case (Inl e)
  then show ?thesis using assms(1) send_to_dlq_outcome [of marshal c m _ e s r s']
    by (auto simp: handle_message_def)
next
  case (Inr u)
  show ?thesis
  proof (cases "validate_link_update u")
    case (Some e)
    then show ?thesis using assms(1) Inr send_to_dlq_outcome [of marshal c m _ e s r s']
      by (auto simp: handle_message_def)
  next
    case None
    from assms(1) Inr None obtain r1 s1 where h: "handle_with_retries handle c u s = Some (r1, s1)"
      by (auto simp: handle_message_def split: option.splits)
    note f = retry_loop_facts [OF h [unfolded handle_with_retries_def] assms(2)]
    show ?thesis
    proof (cases r1)
      case (Inl e)
      then have "send_to_dlq_and_commit marshal c m dead_letter_reason_processing e s1 = (r, s')"
        using assms(1) \<open>decode_message unmarshal c m = Inr u\<close> None h by (simp add: handle_message_def)
      from send_to_dlq_outcome [OF this] f show ?thesis by auto
    next
      case (Inr x)
      then have cm: "commit_message m s1 = (r, s')"
        using assms(1) \<open>decode_message unmarshal c m = Inr u\<close> None h by (simp add: handle_message_def)
      have "handled_ok handle unmarshal c m"
        using f Inr \<open>decode_message unmarshal c m = Inr u\<close> None by (auto simp: handled_ok_def)
      moreover have "cs_dlq s' = cs_dlq s1" using commit_message_facts(2) [of m s1] cm by simp
      ultimately show ?thesis using commit_message_committed [OF cm] f by auto
    qed
  qed
qed

fun polled :: "poll_event list \<Rightarrow> consumed_message list" where
  "polled [] = []"
| "polled (PollMessage m # es) = m # polled es"
| "polled (_ # es) = polled es"

lemma start_loop_commits:
  assumes "0 \<le> lc_max_retries c"
    and "start_loop handle unmarshal marshal c events s = (res, s')"
  shows "\<exists>ms rest. polled events = ms @ rest \<and> cs_committed s' = cs_committed s @ ms \<and>
     (res = Running \<longrightarrow> rest = []) \<and> set (b_log (cs_dlq s)) \<subseteq> set (b_log (cs_dlq s')) \<and>
     (\<forall>m \<in> set ms. handled_ok handle unmarshal c m \<or> dead_lettered marshal c m (b_log (cs_dlq s')))"
  using assms(2)
proof (induction events arbitrary: s)
  case (Cons e es)
  show ?case
  proof (cases "\<exists>m. e = PollMessage m")
    case False
    then show ?thesis using Cons by (auto split: poll_event.splits if_splits)
  next
    case True
    then obtain m where m: "e = PollMessage m" by blast
    show ?thesis
    proof (cases "handle_message handle unmarshal marshal c m s")
      case None
      then show ?thesis using Cons.prems m by simp
    next
      case (Some p)
      obtain r s1 where p: "p = (r, s1)" by fastforce
      note o = handle_message_outcome [OF Some [unfolded p] assms(1)]
      show ?thesis
      proof (cases r)
        case (Inl err)
        then have "s' = s1" "res = Returned err" using Cons.prems m Some p by simp_all
        then show ?thesis using o m
          by (cases "cs_committed s1 = cs_committed s") (auto intro: exI [of _ "[m]"])
      next
        case (Inr x)
        then have run: "start_loop handle unmarshal marshal c es s1 = (res, s')"
          using Cons.prems m Some p by simp
        from Cons.IH [OF this] obtain ms rest where ih: "polled es = ms @ rest"
          "cs_committed s' = cs_committed s1 @ ms" "res = Running \<longrightarrow> rest = []"
          "set (b_log (cs_dlq s1)) \<subseteq> set (b_log (cs_dlq s'))"
          "\<forall>m \<in> set ms. handled_ok handle unmarshal c m \<or> dead_lettered marshal c m (b_log (cs_dlq s'))"
          by blast
        from o Inr have o1: "cs_committed s1 = cs_committed s @ [m]"
          "handled_ok handle unmarshal c m \<or> dead_lettered marshal c m (b_log (cs_dlq s1))"
          "set (b_log (cs_dlq s)) \<subseteq> set (b_log (cs_dlq s1))" by auto
        then have "handled_ok handle unmarshal c m \<or> dead_lettered marshal c m (b_log (cs_dlq s'))"
          using dead_lettered_mono [OF _ ih(4)] by blast
        then show ?thesis using ih o1 m
          by (intro exI [of _ "m # ms"] exI [of _ rest]) auto
      qed
    qed
  qed
qed simp

lemma new_link_update_consumer_retries:
  "new_link_update_consumer cfg given consumer_err dlq_err new_codec = Inr c \<Longrightarrow> 0 \<le> lc_max_retries c"
  by (auto simp: new_link_update_consumer_def consumer_max_retries_floor_def Let_def
      split: if_splits option.splits sum.splits)

lemma retry_loop_exhausts:
  assumes "retry_loop handle mx u k s = Some (Inl e, s')" "k \<le> mx" "cs_backoff_cancelled s = []"
  shows "int (cs_attempts s') = int (cs_attempts s) + (mx + 1 - k) \<and>
     (\<exists>h. handle u h = Some (Inl e, cs_handler s'))"
  using assms
proof (induction handle mx u k s rule: retry_loop.induct)
  case (1 handle mx u k s)
  note run = "1.prems"(1) [unfolded retry_loop.simps [of handle mx u k s]]
  from run "1.prems"(2) obtain e1 s1 where call: "call_handler handle u s = Some (Inl e1, s1)"
    by (auto split: option.splits sum.splits)
  note c = call_handler_SomeD [OF call]
  show ?case
  proof (cases "k < mx")
    case False
    then show ?thesis using run "1.prems"(2) call c by auto
  next
    case True
    have sl: "sleep_with_context s1 = (Inr (), s1)"
      using c "1.prems"(3) by (simp add: sleep_with_context_def)
    then have "retry_loop handle mx u (k + 1) s1 = Some (Inl e, s')"
      using run "1.prems"(2) call True by simp
    from "1.IH" [OF "1.prems"(2) call _ _ True sl [symmetric] _ this] True c "1.prems"(3)
    show ?thesis by auto
  qed
qed

section \<open>Under the handler's contract\<close>

context link_update_handler
begin

lemma call_handler_healthy:
  "healthy (cs_handler s) \<Longrightarrow>
     \<exists>r s1. call_handler handle u s = Some (r, s1) \<and> healthy (cs_handler s1)"
  using no_panic [of "cs_handler s" u] keeps_healthy [of "cs_handler s" u]
  by (auto simp: call_handler_def)

lemma retry_loop_healthy:
  "healthy (cs_handler s) \<Longrightarrow>
     \<exists>r s1. retry_loop handle mx u k s = Some (r, s1) \<and> healthy (cs_handler s1)"
proof (induction "nat (mx + 1 - k)" arbitrary: k s rule: less_induct)
  case less
  obtain r s1 where call: "call_handler handle u s = Some (r, s1)" "healthy (cs_handler s1)"
    using call_handler_healthy [OF less.prems] by blast
  obtain sr s2 where sl: "sleep_with_context s1 = (sr, s2)" by fastforce
  then have h2: "healthy (cs_handler s2)" using call(2) sleep_with_context_facts(1) [of s1] by simp
  show ?case
  proof (cases "k < mx \<and> isl r \<and> \<not> isl sr")
    case True
    then have "nat (mx + 1 - (k + 1)) < nat (mx + 1 - k)" by simp
    from less.hyps [OF this h2] True call sl show ?thesis
      by (cases r; cases sr) (simp_all add: retry_loop.simps [of handle mx u k s])
  next
    case False
    then show ?thesis using call sl h2 less.prems
      by (cases r; cases sr) (auto simp: retry_loop.simps [of handle mx u k s])
  qed
qed

lemma handle_message_healthy:
  assumes "healthy (cs_handler s)"
  shows "\<exists>r s1. handle_message handle unmarshal marshal c m s = Some (r, s1) \<and> healthy (cs_handler s1)"
proof -
  have dlq: "\<exists>r s1. send_to_dlq_and_commit marshal c m reason e t = (r, s1) \<and> healthy (cs_handler s1)"
    if "healthy (cs_handler t)" for reason e and t :: "'h consumer_state"
  proof -
    have "healthy (cs_handler (snd (send_to_dlq_and_commit marshal c m reason e t)))"
      using that by (auto simp: send_to_dlq_and_commit_def split: prod.split sum.split)
    then show ?thesis by (metis prod.collapse)
  qed
  show ?thesis
  proof (cases "decode_message unmarshal c m")
    case (Inl e)
    then show ?thesis using dlq [OF assms] by (simp add: handle_message_def)
  next
    case (Inr u)
    obtain r1 s1 where "retry_loop handle (lc_max_retries c) u 0 s = Some (r1, s1)"
      "healthy (cs_handler s1)"
      using retry_loop_healthy [OF assms] by blast
    moreover from this(2) have "\<exists>r t. commit_message m s1 = (r, t) \<and> healthy (cs_handler t)"
      using commit_message_facts(1) [of m s1] by (metis prod.collapse)
    ultimately show ?thesis using Inr dlq [OF assms] dlq [of s1]
      by (cases "validate_link_update u"; cases r1)
        (simp_all add: handle_message_def handle_with_retries_def)
  qed
qed

lemma start_loop_healthy:
  "healthy (cs_handler s) \<Longrightarrow>
     fst (start_loop handle unmarshal marshal c events s) \<noteq> Panicked \<and>
     healthy (cs_handler (snd (start_loop handle unmarshal marshal c events s)))"
proof (induction events arbitrary: s)
  case (Cons e es)
  show ?case
  proof (cases "\<exists>m. e = PollMessage m")
    case True
    then obtain m where "e = PollMessage m" by blast
    moreover obtain r s1 where "handle_message handle unmarshal marshal c m s = Some (r, s1)"
      "healthy (cs_handler s1)"
      using handle_message_healthy [OF Cons.prems] by blast
    ultimately show ?thesis using Cons.IH [of s1] by (cases r) simp_all
  next
    case False
    then show ?thesis using Cons by (auto split: poll_event.splits)
  qed
qed simp

lemma start_consumer_healthy:
  "healthy (cs_handler s) \<Longrightarrow>
     fst (start_consumer handle unmarshal marshal c err events s) \<noteq> Panicked \<and>
     healthy (cs_handler (snd (start_consumer handle unmarshal marshal c err events s)))"
  using start_loop_healthy by (simp add: start_consumer_def split: option.split)

end

section \<open>Properties\<close>

text \<open>
  (C6) A consumer the constructor returns commits the messages it polled in their order, without
  gaps, and a message is committed only if a handler call on its decoded, valid update
  returned nil or a dead letter holding it is stored in the dead letter topic: whatever
  the handler answers, the producer and the broker do, and whenever the context is
  cancelled.  While the loop runs every polled message is committed.
\<close>

theorem consumer_commits_only_settled:
  assumes "new_link_update_consumer cfg True consumer_err dlq_err new_codec = Inr c"
    and "start_consumer handle unmarshal marshal c subscribe_err events s = (res, s')"
  shows "\<exists>ms rest. polled events = ms @ rest \<and> cs_committed s' = cs_committed s @ ms \<and>
     (res = Running \<longrightarrow> rest = []) \<and>
     (\<forall>m \<in> set ms. handled_ok handle unmarshal c m \<or> dead_lettered marshal c m (b_log (cs_dlq s')))"
proof (cases subscribe_err)
  case (Some e)
  then show ?thesis using assms(2) by (auto simp: start_consumer_def)
next
  case None
  then have "start_loop handle unmarshal marshal c events s = (res, s')"
    using assms(2) by (simp add: start_consumer_def)
  from start_loop_commits [OF new_link_update_consumer_retries [OF assms(1)] this]
  show ?thesis by blast
qed

definition example_consumer_config :: link_update_consumer_config where
  "example_consumer_config =
     \<lparr>cc_bootstrap_servers = ''localhost:9092'', cc_topic = ''link.updates'', cc_dlq_topic = ''link.updates-dlq'',
      cc_consumer_group = ''bot'', cc_client_id = ''bot'', cc_max_retries = 2, cc_schema_registry_url = [],
      cc_link_updates_subject = [], cc_serialization_format = ''JSON''\<rparr>"

definition example_consumer_state :: "nat consumer_state" where
  "example_consumer_state =
     \<lparr>cs_handler = 0, cs_attempts = 0, cs_dlq = \<lparr>b_log = [], b_script = []\<rparr>, cs_committed = [],
      cs_commit_script = [], cs_backoff_cancelled = [], cs_now = 1\<rparr>"

definition example_message :: "string \<Rightarrow> consumed_message" where
  "example_message v =
     \<lparr>cm_topic = Some ''link.updates'', cm_partition = 0, cm_offset = 0, cm_key = ''1'', cm_value = v\<rparr>"

definition example_consumer :: link_update_consumer where
  "example_consumer =
     \<lparr>lc_topic = ''link.updates'', lc_dlq_topic = ''link.updates-dlq'', lc_max_retries = 2, lc_codec = None\<rparr>"

lemma example_consumer_new:
  "new_link_update_consumer example_consumer_config True None None (\<lambda>_ _. Inl ErrInvalidRequest)
     = Inr example_consumer"
proof -
  have "\<not> equal_fold_ascii ''JSON'' serialization_format_avro" by code_simp
  then show ?thesis
    by (simp add: new_link_update_consumer_def new_dead_letter_producer_def example_consumer_config_def
        consumer_max_retries_floor_def example_consumer_def Let_def)
qed

text \<open>A decoder for the examples: the value is the URL, for chat 7; an empty value does not decode.\<close>

definition example_unmarshal :: "string \<Rightarrow> link_update result" where
  "example_unmarshal v =
     (if v = [] then Inl (LibError ''json.Unmarshal'' v)
      else Inr (empty_update\<lparr>uURL := v, uTgChatIDs := [7]\<rparr>))"

theorem consumer_commits_only_settled_witness:
  "\<exists>ms rest. [example_message ''u'', example_message []] = ms @ rest \<and>
     cs_committed (snd (start_consumer (\<lambda>u n. Some (Inr (), Suc n)) example_unmarshal (\<lambda>d. Inr (dl_error d))
       example_consumer None [PollMessage (example_message ''u''), PollMessage (example_message [])]
       example_consumer_state)) = ms"
  using consumer_commits_only_settled [OF example_consumer_new surjective_pairing,
      where handle = "\<lambda>u n. Some (Inr (), Suc n)" and unmarshal = example_unmarshal
        and marshal = "\<lambda>d. Inr (dl_error d)" and subscribe_err = None
        and events = "[PollMessage (example_message ''u''), PollMessage (example_message [])]"
        and s = example_consumer_state]
  by (auto simp: example_consumer_state_def)

text \<open>
  (C26) A handler is called at least once and at most maxRetries + 1 times for an update; nil
  comes only from a call that returned nil.  When no backoff is cut short by the context, an
  error comes only after exactly maxRetries + 1 calls, and is the last one's.
\<close>

theorem handle_with_retries_calls:
  assumes "new_link_update_consumer cfg True consumer_err dlq_err new_codec = Inr c"
    and "handle_with_retries handle c u s = Some (r, s')"
  shows "cs_attempts s < cs_attempts s' \<and>
     int (cs_attempts s') \<le> int (cs_attempts s) + lc_max_retries c + 1 \<and>
     lc_max_retries c = max 0 (cc_max_retries cfg) \<and>
     (r = Inr () \<longrightarrow> (\<exists>h. handle u h = Some (Inr (), cs_handler s'))) \<and>
     (\<forall>e. r = Inl e \<and> cs_backoff_cancelled s = [] \<longrightarrow>
        int (cs_attempts s') = int (cs_attempts s) + lc_max_retries c + 1 \<and>
        (\<exists>h. handle u h = Some (Inl e, cs_handler s')))"
proof -
  have mx: "lc_max_retries c = max 0 (cc_max_retries cfg)" using assms(1)
    by (auto simp: new_link_update_consumer_def consumer_max_retries_floor_def Let_def max_def
      split: if_splits option.splits sum.splits)
  then have le: "0 \<le> lc_max_retries c" by simp
  have run: "retry_loop handle (lc_max_retries c) u 0 s = Some (r, s')"
    using assms(2) by (simp add: handle_with_retries_def)
  show ?thesis using retry_loop_facts [OF run le] mx retry_loop_exhausts [of handle _ u 0 s _ s'] run le by auto
qed

theorem handle_with_retries_calls_witness:
  "\<exists>s'. handle_with_retries (\<lambda>u n. Some (Inl ErrChatNotFound, Suc n)) example_consumer empty_update
      example_consumer_state = Some (Inl ErrChatNotFound, s') \<and> cs_attempts s' = 3"
proof -
  let ?h = "\<lambda>u n. Some (Inl ErrChatNotFound, Suc n)"
  have none: "cs_backoff_cancelled example_consumer_state = []" by (simp add: example_consumer_state_def)
  obtain r s' where "handle_with_retries ?h example_consumer empty_update example_consumer_state = Some (r, s')"
    by (simp add: handle_with_retries_def example_consumer_def example_consumer_state_def
        retry_loop.simps call_handler_def sleep_with_context_def)
  with handle_with_retries_calls [OF example_consumer_new this] none show ?thesis
    by (cases r) (auto simp: example_consumer_state_def example_consumer_def)
qed

end
