(* ===== verification/Agent_Pipeline.thy ===== *)
theory Agent_Pipeline
  imports Agent_Summarizer Agent_Grouping Kafka_Consumer
begin

text \<open>
  The agent's pipeline: the processor (\<open>agent/internal/application/procerssor.go\<close>) filters an
  update, sets its priority and shortens its description, and the handler
  (\<open>handler.go\<close>) passes it on to the grouping service.  The summarizer is the interface
  of \<open>Agent_Summarizer\<close>; a panic of it is \<open>None\<close>.
\<close>

section \<open>Processor and handler\<close>

record processor =
  p_filter :: filter_service
  p_summarize :: "string \<Rightarrow> int \<Rightarrow> string result option"
  p_priority :: priority_service
  p_threshold :: int

definition new_processor ::
    "filter_service \<Rightarrow> (string \<Rightarrow> int \<Rightarrow> string result option) \<Rightarrow> priority_service \<Rightarrow> int \<Rightarrow> processor" where
  "new_processor f summarize p threshold =
     \<lparr>p_filter = f, p_summarize = summarize, p_priority = p, p_threshold = threshold\<rparr>"

definition process :: "unicode \<Rightarrow> processor \<Rightarrow> link_update \<Rightarrow> (link_update \<times> bool) result option" where
  "process uc p update =
     (if \<not> should_process uc (p_filter p) update then Some (Inr (empty_update, False))
      else
        (let priority = determine_priority uc (p_priority p) (uDescription update) in
         if int (rune_count (uDescription update)) > p_threshold p then
           (case p_summarize p (uDescription update) (p_threshold p) of
              None \<Rightarrow> None
            | Some (Inl e) \<Rightarrow> Some (Inl e)
            | Some (Inr summary) \<Rightarrow>
                Some (Inr (update\<lparr>uDescription := summary, uPriority := priority\<rparr>, True)))
         else Some (Inr (update\<lparr>uPriority := priority\<rparr>, True))))"

definition handle_link_update ::
    "unicode \<Rightarrow> processor \<Rightarrow> (link_update \<Rightarrow> ('p, unit) eff) \<Rightarrow> duration \<Rightarrow> 'p grouping handler" where
  "handle_link_update uc p produce window update s =
     (case process uc p update of
        None \<Rightarrow> None
      | Some (Inl e) \<Rightarrow> Some (Inl e, s)
      | Some (Inr (processed_update, ok)) \<Rightarrow>
          (if \<not> ok then Some (Inr (), s)
           else Some (Inr (), add produce window processed_update s)))"

section \<open>Under the summarizer's contract\<close>

context summarizer
begin

lemma process_no_panic: "process uc (new_processor f summarize p threshold) u \<noteq> None"
  using no_panic [of "uDescription u" threshold]
  by (auto simp: process_def new_processor_def Let_def split: option.splits sum.splits)

lemma handle_no_panic:
  "handle_link_update uc (new_processor f summarize p threshold) produce window u s \<noteq> None"
  using process_no_panic [of uc f p threshold u]
  by (auto simp: handle_link_update_def split: option.splits sum.splits)

lemma process_threshold_off:
  assumes "threshold \<le> 0" "process uc (new_processor f summarize p threshold) u = Some (Inr (v, True))"
  shows "uDescription v = uDescription u"
  using assms non_positive [OF assms(1)]
  by (auto simp: process_def new_processor_def Let_def split: option.splits sum.splits if_splits)

end

context bounded_summarizer
begin

lemma process_bounded:
  assumes "0 < threshold" "process uc (new_processor f summarize p threshold) u = Some (Inr (v, True))"
  shows "int (rune_count (uDescription v)) \<le> threshold + 3"
  using assms bounded [OF assms(1)]
  by (auto simp: process_def new_processor_def Let_def split: option.splits sum.splits if_splits)

end

lemma handle_keeps_filled:
  "buffers_filled (g_buffers s) \<Longrightarrow> handle_link_update uc p produce window u s = Some (r, s') \<Longrightarrow>
     buffers_filled (g_buffers s')"
  by (auto simp: handle_link_update_def buffers_filled_add split: option.splits sum.splits if_splits)

interpretation agent_stub: link_update_handler
    "handle_link_update uc (new_processor f (stub_summarize ctx_done) p threshold) produce window"
    "\<lambda>s. buffers_filled (g_buffers s)"
  for uc f ctx_done p threshold produce window
  using stub.handle_no_panic handle_keeps_filled by unfold_locales blast+

interpretation agent_hf: link_update_handler
    "handle_link_update uc (new_processor f (hf_summarize service http) p threshold) produce window"
    "\<lambda>s. buffers_filled (g_buffers s)"
  for uc f service http p threshold produce window
  using hf.handle_no_panic handle_keeps_filled by unfold_locales blast+

section \<open>Properties\<close>

text \<open>
  (C25) The agent never panics on an update: with either summarizer, any configuration and
  window, any sequence of Kafka events, its consumer only keeps running or returns an error.
\<close>

theorem agent_consumer_never_panics:
  assumes "buffers_filled (g_buffers (cs_handler s))"
    and "summarize = stub_summarize ctx_done \<or> summarize = hf_summarize service http"
  shows "fst (start_consumer (handle_link_update uc (new_processor f summarize p threshold) produce window)
      unmarshal marshal c err events s) \<noteq> Panicked"
  using assms(2)
proof
  assume "summarize = stub_summarize ctx_done"
  then show ?thesis using agent_stub.start_consumer_healthy [OF assms(1)] by simp
next
  assume "summarize = hf_summarize service http"
  then show ?thesis using agent_hf.start_consumer_healthy [OF assms(1)] by simp
qed

definition example_agent_state :: "unit grouping consumer_state" where
  "example_agent_state =
     \<lparr>cs_handler = new_grouping_service (), cs_attempts = 0, cs_dlq = \<lparr>b_log = [], b_script = []\<rparr>,
      cs_committed = [], cs_commit_script = [], cs_backoff_cancelled = [], cs_now = 1\<rparr>"

definition example_filter :: filter_service where
  "example_filter = \<lparr>stop_words = [], excluded_authors = {}, min_length = 0\<rparr>"

definition example_priority :: priority_service where
  "example_priority = \<lparr>high_keywords = [''urgent''], low_keywords = []\<rparr>"

theorem agent_consumer_never_panics_witness:
  "fst (start_consumer (handle_link_update latin1_tables
      (new_processor example_filter (stub_summarize False) example_priority 3) (\<lambda>_. ret ()) 5)
      example_unmarshal (\<lambda>d. Inr []) example_consumer None [PollMessage (example_message ''u'')]
      example_agent_state) \<noteq> Panicked"
proof (rule agent_consumer_never_panics)
  show "buffers_filled (g_buffers (cs_handler example_agent_state))"
    by (simp add: example_agent_state_def new_grouping_service_def buffers_filled_def)
  show "stub_summarize False = stub_summarize False \<or> stub_summarize False = hf_summarize service http"
    by (rule disjI1) (rule refl)
qed

lemma process_stub:
  assumes "0 < threshold"
  shows "process uc (new_processor f (stub_summarize False) p threshold) u =
    (if \<not> should_process uc f u then Some (Inr (empty_update, False))
     else
       Some (Inr (u\<lparr>uDescription :=
           (if int (rune_count (uDescription u)) \<le> threshold then uDescription u
            else encode_runes (take (nat threshold) (runes_of (uDescription u))) @ ''...''),
         uPriority := determine_priority uc p (uDescription u)\<rparr>, True)))"
  using assms by (auto simp: process_def new_processor_def stub_summarize_def cut_with_ellipsis_def Let_def)

text \<open>
  (C14) The agent's whole step, with the stub summarizer: an update that the filter rejects changes
  nothing; any other is buffered, once for every mention of a chat, under its own fields with
  the priority of its original description, and with a description over the threshold shortened
  to its first \<open>threshold\<close> characters and three dots.  Nothing is published at once and
  no error is returned.
\<close>

theorem agent_handles_update:
  fixes u :: link_update and uc :: unicode and p :: priority_service
  assumes "0 < threshold" "0 < window"
  defines "v \<equiv> u\<lparr>uDescription :=
         (if int (rune_count (uDescription u)) \<le> threshold then uDescription u
          else encode_runes (take (nat threshold) (runes_of (uDescription u))) @ ''...''),
       uPriority := determine_priority uc p (uDescription u)\<rparr>"
  shows "\<exists>s'. handle_link_update uc (new_processor f (stub_summarize False) p threshold) produce window u s
       = Some (Inr (), s') \<and>
     g_producer s' = g_producer s \<and>
     (\<forall>chat. buffered (g_buffers s') chat = buffered (g_buffers s) chat @
        (if should_process uc f u
         then map (\<lambda>_. v\<lparr>uTgChatIDs := [chat]\<rparr>) (filter (\<lambda>c. c = chat) (uTgChatIDs u)) else []))"
proof (cases "should_process uc f u")
  case False
  then show ?thesis by (simp add: handle_link_update_def process_def new_processor_def)
next
  case True
  have "handle_link_update uc (new_processor f (stub_summarize False) p threshold) produce window u s
      = Some (Inr (), add produce window v s)"
    using True assms(1) by (simp add: handle_link_update_def process_stub v_def)
  moreover have "uTgChatIDs v = uTgChatIDs u" by (simp add: v_def)
  ultimately show ?thesis using True assms(2) by (simp add: add_producer add_buffers)
qed

theorem agent_handles_update_witness:
  "\<exists>s'. handle_link_update latin1_tables (new_processor example_filter (stub_summarize False) example_priority 3)
      (\<lambda>_. ret ()) 5 (empty_update\<lparr>uDescription := ''abc'', uTgChatIDs := [7]\<rparr>) (new_grouping_service ())
      = Some (Inr (), s') \<and> length (buffered (g_buffers s') 7) = 1"
proof -
  have "should_process latin1_tables example_filter (empty_update\<lparr>uDescription := ''abc'', uTgChatIDs := [7]\<rparr>)"
    by (simp add: should_process_def example_filter_def Let_def)
  then show ?thesis
    using agent_handles_update [where threshold = 3 and window = 5 and uc = latin1_tables
        and u = "empty_update\<lparr>uDescription := ''abc'', uTgChatIDs := [7]\<rparr>" and p = example_priority
        and f = example_filter and produce = "\<lambda>_. ret ()" and s = "new_grouping_service ()"]
    by (auto simp: new_grouping_service_def buffered_def)
qed

end
