(* ===== verification/Scrapper_Db.thy ===== *)
theory Scrapper_Db
  imports Prelude Go_Strings
begin

text \<open>
  The scrapper's PostgreSQL database, as the schema of
  \<open>migrations/scrapper\<close> declares it: tables are lists of rows in the order of
  insertion, with the sequences of their BIGSERIAL keys, and the statements the
  repositories send are functions on it, with constraint violations as SQLSTATE errors
  and deletes that cascade.  \<open>db_ok\<close> collects the schema's keys, foreign keys
  and checks.  A script of faults says what happens to the next statements: a
  statement may be refused, or executed with its answer lost.
\<close>

section \<open>Domain types\<close>

record link =
  linkID :: int
  linkURL :: string
  linkTags :: "string list"
  linkLastUpdatedAt :: instant

datatype outbox_status = OutboxPending | OutboxSent | OutboxFailed

record outbox_message =
  omID :: int
  omTopic :: string
  omMessageKey :: string
  omPayload :: string
  omStatus :: outbox_status
  omAttempts :: int
  omLastError :: "string option"
  omCreatedAt :: instant
  omUpdatedAt :: instant
  omSentAt :: "instant option"

record tag =
  tagID :: int
  tagChatID :: int
  tagName :: string

section \<open>Tables\<close>

record link_row =
  lr_id :: int
  lr_url :: string
  lr_last_updated :: instant

datatype db_fault = Healthy | Refused go_error | AckLost go_error

record db =
  d_chats :: "int list"
  d_links :: "link_row list"
  d_link_seq :: int
  d_subs :: "(int \<times> int) list"
  d_tags :: "tag list"
  d_tag_seq :: int
  d_sub_tags :: "(int \<times> int \<times> int) list"
  d_outbox :: "outbox_message list"
  d_outbox_seq :: int
  d_now :: instant
  d_faults :: "db_fault list"

definition empty_db :: "instant \<Rightarrow> db" where
  "empty_db now =
     \<lparr>d_chats = [], d_links = [], d_link_seq = 0, d_subs = [], d_tags = [], d_tag_seq = 0,
      d_sub_tags = [], d_outbox = [], d_outbox_seq = 0, d_now = now, d_faults = []\<rparr>"

definition foreign_key_violation :: string where
  "foreign_key_violation = ''23503''"

definition unique_violation :: string where
  "unique_violation = ''23505''"

section \<open>Statements\<close>

text \<open>One statement (or a query, \<open>BEGIN\<close>, \<open>COMMIT\<close>), under the script of faults.\<close>

definition stmt :: "(db, 'a) eff \<Rightarrow> (db, 'a) eff" where
  "stmt f d =
     (case d_faults d of
        [] \<Rightarrow> f d
      | Healthy # fs \<Rightarrow> f (d\<lparr>d_faults := fs\<rparr>)
      | Refused e # fs \<Rightarrow> (Inl e, d\<lparr>d_faults := fs\<rparr>)
      | AckLost e # fs \<Rightarrow> (Inl e, snd (f (d\<lparr>d_faults := fs\<rparr>))))"

text \<open>Sequences are not rolled back.\<close>

definition rollback :: "db \<Rightarrow> db \<Rightarrow> db" where
  "rollback d0 d =
     d\<lparr>d_chats := d_chats d0, d_links := d_links d0, d_subs := d_subs d0, d_tags := d_tags d0,
       d_sub_tags := d_sub_tags d0, d_outbox := d_outbox d0\<rparr>"

definition commit_lost :: "db \<Rightarrow> bool" where
  "commit_lost d = (case d_faults d of AckLost e # fs \<Rightarrow> True | _ \<Rightarrow> False)"

text \<open>\<open>BeginTx\<close>, a body, and \<open>Commit\<close>; an error of the body or a refused commit rolls back.\<close>

definition transaction :: "(db, 'a) eff \<Rightarrow> (db, 'a) eff" where
  "transaction body d =
     (case stmt (ret ()) d of
        (Inl e, d1) \<Rightarrow> (Inl e, d1)
      | (Inr _, d1) \<Rightarrow>
          (case body d1 of
             (Inl e, d2) \<Rightarrow> (Inl e, rollback d1 d2)
           | (Inr x, d2) \<Rightarrow>
               (case stmt (ret ()) d2 of
                  (Inr _, d3) \<Rightarrow> (Inr x, d3)
                | (Inl e, d3) \<Rightarrow> (Inl e, if commit_lost d2 then d3 else rollback d1 d3))))"

definition insert_chat :: "int \<Rightarrow> (db, unit) eff" where
  "insert_chat chat d =
     (Inr (), if chat \<in> set (d_chats d) then d else d\<lparr>d_chats := d_chats d @ [chat]\<rparr>)"

text \<open>\<open>ON DELETE CASCADE\<close> from chats to subscriptions and tags, and on to subscription_tags.\<close>

definition delete_chat :: "int \<Rightarrow> (db, int) eff" where
  "delete_chat chat d =
     (Inr (int (length (filter (\<lambda>c. c = chat) (d_chats d)))),
      d\<lparr>d_chats := filter (\<lambda>c. c \<noteq> chat) (d_chats d),
        d_subs := filter (\<lambda>(c, l). c \<noteq> chat) (d_subs d),
        d_tags := filter (\<lambda>t. tagChatID t \<noteq> chat) (d_tags d),
        d_sub_tags := filter (\<lambda>(c, l, t). c \<noteq> chat) (d_sub_tags d)\<rparr>)"

definition chat_exists :: "int \<Rightarrow> (db, bool) eff" where
  "chat_exists chat d = (Inr (chat \<in> set (d_chats d)), d)"

definition find_link :: "string \<Rightarrow> db \<Rightarrow> link_row option" where
  "find_link url d = find (\<lambda>r. lr_url r = url) (d_links d)"

definition set_last_updated :: "(link_row \<Rightarrow> bool) \<Rightarrow> instant \<Rightarrow> db \<Rightarrow> db" where
  "set_last_updated P t d =
     d\<lparr>d_links := map (\<lambda>r. if P r then r\<lparr>lr_last_updated := t\<rparr> else r) (d_links d)\<rparr>"

text \<open>
  \<open>INSERT INTO links ... ON CONFLICT (url) DO UPDATE SET last_updated = EXCLUDED.last_updated
  RETURNING id\<close>; the sequence advances either way.
\<close>

definition upsert_link :: "string \<Rightarrow> instant \<Rightarrow> (db, int) eff" where
  "upsert_link url t d =
     (let d1 = d\<lparr>d_link_seq := d_link_seq d + 1\<rparr> in
      case find_link url d of
        Some r \<Rightarrow> (Inr (lr_id r), set_last_updated (\<lambda>r. lr_url r = url) t d1)
      | None \<Rightarrow>
          (Inr (d_link_seq d1),
           d1\<lparr>d_links := d_links d1 @ [\<lparr>lr_id = d_link_seq d1, lr_url = url, lr_last_updated = t\<rparr>]\<rparr>))"

definition insert_subscription :: "int \<Rightarrow> int \<Rightarrow> (db, unit) eff" where
  "insert_subscription chat l d =
     (if (chat, l) \<in> set (d_subs d) then (Inr (), d)
      else if chat \<notin> set (d_chats d) \<or> l \<notin> lr_id ` set (d_links d)
      then (Inl (PqError foreign_key_violation), d)
      else (Inr (), d\<lparr>d_subs := d_subs d @ [(chat, l)]\<rparr>))"

text \<open>Deleting subscriptions cascades to their subscription_tags; the count is the rows deleted.\<close>

definition delete_subscriptions :: "(int \<times> int \<Rightarrow> bool) \<Rightarrow> (db, int) eff" where
  "delete_subscriptions P d =
     (Inr (int (length (filter P (d_subs d)))),
      d\<lparr>d_subs := filter (\<lambda>s. \<not> P s) (d_subs d),
        d_sub_tags := filter (\<lambda>(c, l, t). \<not> P (c, l)) (d_sub_tags d)\<rparr>)"

definition find_tag :: "int \<Rightarrow> string \<Rightarrow> db \<Rightarrow> tag option" where
  "find_tag chat name d = find (\<lambda>t. tagChatID t = chat \<and> tagName t = name) (d_tags d)"

text \<open>
  \<open>INSERT INTO tags ...\<close>, failing on a duplicate before the foreign key is checked, and the
  same \<open>ON CONFLICT (chat_id, name) DO UPDATE SET name = EXCLUDED.name RETURNING id\<close>.
\<close>

definition insert_tag :: "int \<Rightarrow> string \<Rightarrow> (db, int) eff" where
  "insert_tag chat name d =
     (let d1 = d\<lparr>d_tag_seq := d_tag_seq d + 1\<rparr> in
      case find_tag chat name d of
        Some t \<Rightarrow> (Inl (PqError unique_violation), d1)
      | None \<Rightarrow>
          (if chat \<notin> set (d_chats d) then (Inl (PqError foreign_key_violation), d1)
           else
             (Inr (d_tag_seq d1),
              d1\<lparr>d_tags := d_tags d1 @ [\<lparr>tagID = d_tag_seq d1, tagChatID = chat, tagName = name\<rparr>]\<rparr>)))"

definition upsert_tag :: "int \<Rightarrow> string \<Rightarrow> (db, int) eff" where
  "upsert_tag chat name d =
     (case find_tag chat name d of
        Some t \<Rightarrow> (Inr (tagID t), d\<lparr>d_tag_seq := d_tag_seq d + 1\<rparr>)
      | None \<Rightarrow> insert_tag chat name d)"

definition insert_subscription_tag :: "int \<Rightarrow> int \<Rightarrow> int \<Rightarrow> (db, unit) eff" where
  "insert_subscription_tag chat l t d =
     (if (chat, l, t) \<in> set (d_sub_tags d) then (Inr (), d)
      else if (chat, l) \<notin> set (d_subs d) \<or> \<not> (\<exists>r \<in> set (d_tags d). tagID r = t \<and> tagChatID r = chat)
      then (Inl (PqError foreign_key_violation), d)
      else (Inr (), d\<lparr>d_sub_tags := d_sub_tags d @ [(chat, l, t)]\<rparr>))"

text \<open>
  \<open>UPDATE tags SET name = new WHERE chat_id = chat AND name = old\<close>: a renamed row that meets
  another one violates the unique key.
\<close>

definition rename_tag :: "int \<Rightarrow> string \<Rightarrow> string \<Rightarrow> (db, int) eff" where
  "rename_tag chat old new d =
     (case find_tag chat old d of
        None \<Rightarrow> (Inr 0, d)
      | Some t \<Rightarrow>
          (if new \<noteq> old \<and> find_tag chat new d \<noteq> None then (Inl (PqError unique_violation), d)
           else
             (Inr 1,
              d\<lparr>d_tags := map (\<lambda>r. if tagChatID r = chat \<and> tagName r = old then r\<lparr>tagName := new\<rparr> else r)
                           (d_tags d)\<rparr>)))"

definition delete_tag :: "int \<Rightarrow> string \<Rightarrow> (db, int) eff" where
  "delete_tag chat name d =
     (let P = (\<lambda>t. tagChatID t = chat \<and> tagName t = name) in
      (Inr (int (length (filter P (d_tags d)))),
       d\<lparr>d_tags := filter (\<lambda>t. \<not> P t) (d_tags d),
         d_sub_tags := filter (\<lambda>(c, l, i). \<not> (\<exists>t \<in> set (d_tags d). P t \<and> tagID t = i \<and> tagChatID t = c))
                         (d_sub_tags d)\<rparr>))"

definition insert_outbox :: "outbox_message \<Rightarrow> (db, unit) eff" where
  "insert_outbox m d =
     (let i = d_outbox_seq d + 1 in
      (Inr (), d\<lparr>d_outbox_seq := i,
                 d_outbox := d_outbox d @ [m\<lparr>omID := i, omLastError := None, omSentAt := None\<rparr>]\<rparr>))"

definition update_outbox :: "int \<Rightarrow> (outbox_message \<Rightarrow> outbox_message) \<Rightarrow> (db, unit) eff" where
  "update_outbox i f d =
     (Inr (), d\<lparr>d_outbox := map (\<lambda>m. if omID m = i then f m else m) (d_outbox d)\<rparr>)"

text \<open>A query leaves the tables alone.\<close>

definition query :: "(db \<Rightarrow> 'a) \<Rightarrow> (db, 'a) eff" where
  "query q = stmt (\<lambda>d. (Inr (q d), d))"

section \<open>The schema's constraints\<close>

definition db_ok :: "db \<Rightarrow> bool" where
  "db_ok d \<longleftrightarrow>
     distinct (d_chats d) \<and>
     distinct (map lr_id (d_links d)) \<and> distinct (map lr_url (d_links d)) \<and>
     (\<forall>r \<in> set (d_links d). lr_id r \<le> d_link_seq d) \<and>
     distinct (d_subs d) \<and>
     (\<forall>(c, l) \<in> set (d_subs d). c \<in> set (d_chats d) \<and> l \<in> lr_id ` set (d_links d)) \<and>
     distinct (map tagID (d_tags d)) \<and> distinct (map (\<lambda>t. (tagChatID t, tagName t)) (d_tags d)) \<and>
     (\<forall>t \<in> set (d_tags d). tagID t \<le> d_tag_seq d \<and> tagChatID t \<in> set (d_chats d)) \<and>
     distinct (d_sub_tags d) \<and>
     (\<forall>(c, l, i) \<in> set (d_sub_tags d). (c, l) \<in> set (d_subs d) \<and>
        (\<exists>t \<in> set (d_tags d). tagID t = i \<and> tagChatID t = c)) \<and>
     distinct (map omID (d_outbox d)) \<and> (\<forall>m \<in> set (d_outbox d). omID m \<le> d_outbox_seq d)"

lemma db_ok_empty: "db_ok (empty_db now)"
  by (simp add: db_ok_def empty_db_def)

lemma db_ok_faults [simp]: "db_ok (d\<lparr>d_faults := fs\<rparr>) = db_ok d"
  by (simp add: db_ok_def)

lemma find_link_Some: "find_link url d = Some r \<Longrightarrow> r \<in> set (d_links d) \<and> lr_url r = url"
  by (auto simp: find_link_def find_Some_iff)

lemma find_link_None: "find_link url d = None \<longleftrightarrow> url \<notin> lr_url ` set (d_links d)"
  by (auto simp: find_link_def find_None_iff)

lemma find_tag_Some:
  "find_tag chat name d = Some t \<Longrightarrow> t \<in> set (d_tags d) \<and> tagChatID t = chat \<and> tagName t = name"
  by (auto simp: find_tag_def find_Some_iff)

lemma find_tag_None:
  "find_tag chat name d = None \<longleftrightarrow> (chat, name) \<notin> (\<lambda>t. (tagChatID t, tagName t)) ` set (d_tags d)"
  by (auto simp: find_tag_def find_None_iff)

lemma ok_insert_chat: "preserves db_ok (insert_chat c)"
  by (auto simp: preserves_def insert_chat_def db_ok_def)

lemma ok_delete_chat: "preserves db_ok (delete_chat c)"
  by (auto simp: preserves_def delete_chat_def db_ok_def map_filter_distinct)

lemma ok_chat_exists: "preserves db_ok (chat_exists c)"
  by (simp add: preserves_def chat_exists_def)

lemma map_set_last_updated [simp]:
  "map lr_id (d_links (set_last_updated P t d)) = map lr_id (d_links d)"
  "map lr_url (d_links (set_last_updated P t d)) = map lr_url (d_links d)"
  by (auto simp: set_last_updated_def)

lemma image_set_last_updated [simp]:
  "lr_id ` set (d_links (set_last_updated P t d)) = lr_id ` set (d_links d)"
  "lr_url ` set (d_links (set_last_updated P t d)) = lr_url ` set (d_links d)"
  using map_set_last_updated(1) [of P t d, THEN arg_cong, of set]
    map_set_last_updated(2) [of P t d, THEN arg_cong, of set]
  unfolding set_map .

lemma set_last_updated_other [simp]:
  "d_chats (set_last_updated P t d) = d_chats d" "d_subs (set_last_updated P t d) = d_subs d"
  "d_tags (set_last_updated P t d) = d_tags d" "d_sub_tags (set_last_updated P t d) = d_sub_tags d"
  "d_outbox (set_last_updated P t d) = d_outbox d" "d_link_seq (set_last_updated P t d) = d_link_seq d"
  "d_tag_seq (set_last_updated P t d) = d_tag_seq d" "d_outbox_seq (set_last_updated P t d) = d_outbox_seq d"
  "d_faults (set_last_updated P t d) = d_faults d" "d_now (set_last_updated P t d) = d_now d"
  by (simp_all add: set_last_updated_def)

lemma db_ok_set_last_updated: "db_ok d \<Longrightarrow> db_ok (set_last_updated P t d)"
proof -
  assume ok: "db_ok d"
  have "\<forall>r \<in> set (d_links (set_last_updated P t d)). lr_id r \<le> d_link_seq d"
    using ok by (auto simp: db_ok_def set_last_updated_def)
  with ok show ?thesis by (simp add: db_ok_def)
qed

lemma db_ok_link_seq: "db_ok d \<Longrightarrow> db_ok (d\<lparr>d_link_seq := d_link_seq d + 1\<rparr>)"
  by (force simp: db_ok_def)

lemma db_ok_tag_seq: "db_ok d \<Longrightarrow> db_ok (d\<lparr>d_tag_seq := d_tag_seq d + 1\<rparr>)"
  by (force simp: db_ok_def)

lemma db_ok_upsert_link: "db_ok d \<Longrightarrow> db_ok (snd (upsert_link url t d))"
proof (cases "find_link url d")
  case None
  assume ok: "db_ok d"
  then have "\<forall>r \<in> set (d_links d). lr_id r \<noteq> d_link_seq d + 1" by (force simp: db_ok_def)
  moreover have "snd (upsert_link url t d) = d\<lparr>d_link_seq := d_link_seq d + 1,
      d_links := d_links d @ [\<lparr>lr_id = d_link_seq d + 1, lr_url = url, lr_last_updated = t\<rparr>]\<rparr>"
    using None by (simp add: upsert_link_def Let_def)
  ultimately show ?thesis using ok None [unfolded find_link_None] by (auto simp: db_ok_def)
next
  case (Some r)
  assume "db_ok d"
  with Some show ?thesis
    by (simp add: upsert_link_def Let_def db_ok_set_last_updated db_ok_link_seq)
qed

lemma ok_upsert_link: "preserves db_ok (upsert_link url t)"
  by (simp add: preserves_def db_ok_upsert_link)

lemma ok_insert_subscription: "preserves db_ok (insert_subscription c l)"
  by (auto simp: preserves_def insert_subscription_def db_ok_def)

lemma ok_delete_subscriptions: "preserves db_ok (delete_subscriptions P)"
  by (auto simp: preserves_def delete_subscriptions_def db_ok_def)

lemma db_ok_insert_tag: "db_ok d \<Longrightarrow> db_ok (snd (insert_tag c n d))"
proof (cases "find_tag c n d = None \<and> c \<in> set (d_chats d)")
  case True
  assume ok: "db_ok d"
  then have "\<forall>r \<in> set (d_tags d). tagID r \<noteq> d_tag_seq d + 1" by (force simp: db_ok_def)
  moreover have "snd (insert_tag c n d) = d\<lparr>d_tag_seq := d_tag_seq d + 1,
      d_tags := d_tags d @ [\<lparr>tagID = d_tag_seq d + 1, tagChatID = c, tagName = n\<rparr>]\<rparr>"
    using True by (simp add: insert_tag_def Let_def)
  ultimately show ?thesis using ok True [unfolded find_tag_None] by (auto simp: db_ok_def)
next
  case False
  assume "db_ok d"
  with False show ?thesis
    by (auto simp: insert_tag_def Let_def db_ok_tag_seq split: option.split)
qed

lemma ok_insert_tag: "preserves db_ok (insert_tag c n)"
  by (simp add: preserves_def db_ok_insert_tag)

lemma ok_upsert_tag: "preserves db_ok (upsert_tag c n)"
  by (auto simp: preserves_def upsert_tag_def db_ok_insert_tag db_ok_tag_seq split: option.split)

lemma ok_insert_subscription_tag:
  "preserves db_ok (insert_subscription_tag c l t)"
  by (auto simp: preserves_def insert_subscription_tag_def db_ok_def)

lemma distinct_map_rename:
  assumes "distinct (map (\<lambda>t. (tagChatID t, tagName t)) ts)"
    and "new = old \<or> (c, new) \<notin> (\<lambda>t. (tagChatID t, tagName t)) ` set ts"
  shows "distinct (map (\<lambda>t. (tagChatID t, tagName t))
    (map (\<lambda>r. if tagChatID r = c \<and> tagName r = old then r\<lparr>tagName := new\<rparr> else r) ts))"
  using assms by (induction ts) (auto simp: image_iff)

lemma db_ok_rename_tag: "db_ok d \<Longrightarrow> db_ok (snd (rename_tag c old new d))"
proof (cases "find_tag c old d = None \<or> (new \<noteq> old \<and> find_tag c new d \<noteq> None)")
  case True
  then show "db_ok d \<Longrightarrow> ?thesis" by (auto simp: rename_tag_def split: option.split)
next
  case False
  assume ok: "db_ok d"
  let ?f = "\<lambda>r. if tagChatID r = c \<and> tagName r = old then r\<lparr>tagName := new\<rparr> else r"
  from False have "new = old \<or> (c, new) \<notin> (\<lambda>t. (tagChatID t, tagName t)) ` set (d_tags d)"
    by (auto simp: find_tag_None)
  then have names: "distinct (map (\<lambda>t. (tagChatID t, tagName t)) (map ?f (d_tags d)))"
    using ok by (intro distinct_map_rename) (auto simp: db_ok_def)
  have ids: "map tagID (map ?f (d_tags d)) = map tagID (d_tags d)" by simp
  have st: "\<forall>(c, l, i) \<in> set (d_sub_tags d). (c, l) \<in> set (d_subs d) \<and>
      (\<exists>t \<in> set (map ?f (d_tags d)). tagID t = i \<and> tagChatID t = c)"
  proof clarify
    fix a l i assume "(a, l, i) \<in> set (d_sub_tags d)"
    then obtain t where t: "(a, l) \<in> set (d_subs d)" "t \<in> set (d_tags d)" "tagID t = i" "tagChatID t = a"
      using ok by (auto simp: db_ok_def)
    then have "?f t \<in> set (map ?f (d_tags d))" "tagID (?f t) = i" "tagChatID (?f t) = a" by auto
    with t(1) show "(a, l) \<in> set (d_subs d) \<and> (\<exists>t \<in> set (map ?f (d_tags d)). tagID t = i \<and> tagChatID t = a)"
      by blast
  qed
  have rows: "\<forall>t \<in> set (map ?f (d_tags d)). tagID t \<le> d_tag_seq d \<and> tagChatID t \<in> set (d_chats d)"
    using ok by (auto simp: db_ok_def)
  have eq: "snd (rename_tag c old new d) = d\<lparr>d_tags := map ?f (d_tags d)\<rparr>"
    using False by (auto simp: rename_tag_def split: option.split)
  have "db_ok (d\<lparr>d_tags := ts\<rparr>)"
    if "distinct (map tagID ts)" "distinct (map (\<lambda>t. (tagChatID t, tagName t)) ts)"
      "\<forall>t \<in> set ts. tagID t \<le> d_tag_seq d \<and> tagChatID t \<in> set (d_chats d)"
      "\<forall>(c, l, i) \<in> set (d_sub_tags d). (c, l) \<in> set (d_subs d) \<and> (\<exists>t \<in> set ts. tagID t = i \<and> tagChatID t = c)"
    for ts using ok that by (simp add: db_ok_def)
  moreover have "distinct (map tagID (map ?f (d_tags d)))"
    using ok unfolding ids by (simp only: db_ok_def)
  ultimately show ?thesis unfolding eq using names rows st by blast
qed

lemma ok_rename_tag: "preserves db_ok (rename_tag c old new)"
  by (simp add: preserves_def db_ok_rename_tag)

lemma ok_delete_tag: "preserves db_ok (delete_tag c n)"
proof (rule preservesI)
  fix d assume ok: "db_ok d"
  let ?P = "\<lambda>t. tagChatID t = c \<and> tagName t = n"
  let ?st = "filter (\<lambda>(a, l, i). \<not> (\<exists>t \<in> set (d_tags d). ?P t \<and> tagID t = i \<and> tagChatID t = a)) (d_sub_tags d)"
  have st: "\<forall>(a, l, i) \<in> set ?st. (a, l) \<in> set (d_subs d) \<and>
      (\<exists>t \<in> set (filter (\<lambda>t. \<not> ?P t) (d_tags d)). tagID t = i \<and> tagChatID t = a)"
  proof clarify
    fix a l i assume "(a, l, i) \<in> set ?st"
    then have st: "(a, l, i) \<in> set (d_sub_tags d)"
      "\<not> (\<exists>t \<in> set (d_tags d). ?P t \<and> tagID t = i \<and> tagChatID t = a)" by simp_all
    then obtain t where t: "(a, l) \<in> set (d_subs d)" "t \<in> set (d_tags d)" "tagID t = i" "tagChatID t = a"
      using ok by (auto simp: db_ok_def)
    with st(2) have "\<not> ?P t" by blast
    with t show "(a, l) \<in> set (d_subs d) \<and>
        (\<exists>t \<in> set (filter (\<lambda>t. \<not> ?P t) (d_tags d)). tagID t = i \<and> tagChatID t = a)" by auto
  qed
  have eq: "snd (delete_tag c n d) = d\<lparr>d_tags := filter (\<lambda>t. \<not> ?P t) (d_tags d), d_sub_tags := ?st\<rparr>"
    by (simp only: delete_tag_def Let_def snd_conv)
  have "distinct ?st" using ok by (simp add: db_ok_def)
  then have "db_ok (d\<lparr>d_tags := filter (\<lambda>t. \<not> ?P t) (d_tags d), d_sub_tags := st'\<rparr>)"
    if "st' = ?st" for st'
    using ok st unfolding that [symmetric] by (auto simp: db_ok_def map_filter_distinct)
  then show "db_ok (snd (delete_tag c n d))" unfolding eq by blast
qed

lemma ok_insert_outbox: "preserves db_ok (insert_outbox m)"
proof (rule preservesI)
  fix d assume ok: "db_ok d"
  then have "\<forall>x \<in> set (d_outbox d). omID x \<noteq> d_outbox_seq d + 1" by (force simp: db_ok_def)
  with ok show "db_ok (snd (insert_outbox m d))"
    by (auto simp: insert_outbox_def db_ok_def Let_def)
qed

lemma ok_update_outbox:
  assumes "\<And>m. omID (f m) = omID m"
  shows "preserves db_ok (update_outbox i f)"
proof (rule preservesI)
  fix d assume ok: "db_ok d"
  have "map omID (map (\<lambda>m. if omID m = i then f m else m) (d_outbox d)) = map omID (d_outbox d)"
    using assms by simp
  then show "db_ok (snd (update_outbox i f d))"
    using ok assms by (auto simp: update_outbox_def db_ok_def simp del: map_map)
qed

lemma ok_set_last_updated:
  "preserves db_ok (\<lambda>d. (Inr (), set_last_updated P t d))"
  by (simp add: preserves_def db_ok_set_last_updated)

section \<open>The invariant of effects on the database\<close>

text \<open>
  The constraints together with sequences that only grow: rolling back to the start of a
  transaction keeps the constraints because of the latter.
\<close>

definition seqs_le :: "db \<Rightarrow> db \<Rightarrow> bool" where
  "seqs_le d0 d \<longleftrightarrow> d_link_seq d0 \<le> d_link_seq d \<and> d_tag_seq d0 \<le> d_tag_seq d \<and> d_outbox_seq d0 \<le> d_outbox_seq d"

definition db_inv :: "db \<Rightarrow> db \<Rightarrow> bool" where
  "db_inv d0 d \<longleftrightarrow> db_ok d \<and> seqs_le d0 d"

lemma db_inv_refl: "db_inv d d \<longleftrightarrow> db_ok d"
  by (simp add: db_inv_def seqs_le_def)

lemma preserves_db_ok: "(\<And>d0. preserves (db_inv d0) f) \<Longrightarrow> preserves db_ok f"
  by (metis db_inv_def db_inv_refl preserves_def)

lemma db_invI:
  "preserves db_ok f \<Longrightarrow> (\<And>d. seqs_le d (snd (f d))) \<Longrightarrow> preserves (db_inv d0) f"
  unfolding preserves_def db_inv_def seqs_le_def by (meson order_trans)

lemma inv_insert_chat [preserves_intros]: "preserves (db_inv d0) (insert_chat c)"
  by (rule db_invI [OF ok_insert_chat]) (simp add: seqs_le_def insert_chat_def)

lemma inv_delete_chat [preserves_intros]: "preserves (db_inv d0) (delete_chat c)"
  by (rule db_invI [OF ok_delete_chat]) (simp add: seqs_le_def delete_chat_def)

lemma inv_upsert_link [preserves_intros]: "preserves (db_inv d0) (upsert_link url t)"
  by (rule db_invI [OF ok_upsert_link])
    (auto simp: seqs_le_def upsert_link_def Let_def split: option.split)

lemma inv_insert_subscription [preserves_intros]: "preserves (db_inv d0) (insert_subscription c l)"
  by (rule db_invI [OF ok_insert_subscription]) (simp add: seqs_le_def insert_subscription_def)

lemma inv_delete_subscriptions [preserves_intros]: "preserves (db_inv d0) (delete_subscriptions P)"
  by (rule db_invI [OF ok_delete_subscriptions]) (simp add: seqs_le_def delete_subscriptions_def)

lemma inv_insert_tag [preserves_intros]: "preserves (db_inv d0) (insert_tag c n)"
  by (rule db_invI [OF ok_insert_tag]) (auto simp: seqs_le_def insert_tag_def Let_def split: option.split)

lemma inv_upsert_tag [preserves_intros]: "preserves (db_inv d0) (upsert_tag c n)"
  by (rule db_invI [OF ok_upsert_tag])
    (auto simp: seqs_le_def upsert_tag_def insert_tag_def Let_def split: option.split)

lemma inv_insert_subscription_tag [preserves_intros]:
  "preserves (db_inv d0) (insert_subscription_tag c l t)"
  by (rule db_invI [OF ok_insert_subscription_tag]) (simp add: seqs_le_def insert_subscription_tag_def)

lemma inv_rename_tag [preserves_intros]: "preserves (db_inv d0) (rename_tag c old new)"
  by (rule db_invI [OF ok_rename_tag]) (simp add: seqs_le_def rename_tag_def split: option.split)

lemma inv_delete_tag [preserves_intros]: "preserves (db_inv d0) (delete_tag c n)"
  by (rule db_invI [OF ok_delete_tag]) (simp add: seqs_le_def delete_tag_def Let_def)

lemma inv_insert_outbox [preserves_intros]: "preserves (db_inv d0) (insert_outbox m)"
  by (rule db_invI [OF ok_insert_outbox]) (simp add: seqs_le_def insert_outbox_def Let_def)

lemma inv_update_outbox [preserves_intros]:
  "(\<And>m. omID (f m) = omID m) \<Longrightarrow> preserves (db_inv d0) (update_outbox i f)"
  by (rule db_invI [OF ok_update_outbox]) (auto simp: seqs_le_def update_outbox_def)

lemma inv_set_last_updated [preserves_intros]:
  "preserves (db_inv d0) (\<lambda>d. (Inr (), set_last_updated P t d))"
  by (rule db_invI [OF ok_set_last_updated]) (simp add: seqs_le_def)

lemma inv_stmt [preserves_intros]: "preserves (db_inv d0) f \<Longrightarrow> preserves (db_inv d0) (stmt f)"
  by (auto simp: preserves_def stmt_def db_inv_def seqs_le_def split: list.split db_fault.split)

lemma inv_chat_exists [preserves_intros]: "preserves (db_inv d0) (chat_exists c)"
  by (simp add: preserves_def chat_exists_def)

lemma inv_query [preserves_intros]: "preserves (db_inv d0) (query q)"
  unfolding query_def by (rule inv_stmt) (simp add: preserves_def)

lemma db_inv_rollback: "db_ok d1 \<Longrightarrow> db_inv d1 d \<Longrightarrow> db_ok (rollback d1 d)"
  by (force simp: db_inv_def rollback_def db_ok_def seqs_le_def)

lemma stmt_ret_tables:
  "snd (stmt (ret x) d) = d\<lparr>d_faults := d_faults (snd (stmt (ret x) d))\<rparr>"
  by (simp add: stmt_def split: list.split db_fault.split)

lemma inv_transaction [preserves_intros]:
  assumes "\<And>d0. preserves (db_inv d0) body"
  shows "preserves (db_inv d0) (transaction body)"
proof (rule preservesI)
  fix d assume inv: "db_inv d0 d"
  obtain r1 d1 where s1: "stmt (ret ()) d = (r1, d1)" by fastforce
  then have inv1: "db_inv d0 d1"
    using preservesD [OF inv_stmt [OF preserves_ret] inv, of "()"] by simp
  obtain r2 d2 where s2: "body d1 = (r2, d2)" by fastforce
  have "db_inv d1 d1" using inv1 by (simp add: db_inv_def seqs_le_def)
  then have inv2: "db_inv d1 d2" "db_inv d0 d2"
    using preservesD [OF assms, of _ d1] inv1 s2 by fastforce+
  obtain r3 d3 where s3: "stmt (ret ()) d2 = (r3, d3)" by fastforce
  then have inv3: "db_inv d0 d3" "db_inv d1 d3"
    using preservesD [OF inv_stmt [OF preserves_ret] inv2(1), of "()"]
      preservesD [OF inv_stmt [OF preserves_ret] inv2(2), of "()"] by simp_all
  have rb: "db_inv d0 (rollback d1 x)" if "db_inv d1 x" "db_inv d0 x" for x
    using db_inv_rollback [OF _ that(1)] inv1 that(2)
    by (simp add: db_inv_def seqs_le_def rollback_def)
  show "db_inv d0 (snd (transaction body d))"
    using s1 s2 s3 inv1 inv2 inv3 rb by (auto simp: transaction_def split: sum.split)
qed

end
