(* ===== verification/Tracker.thy ===== *)
theory Tracker
  imports Scrapper_Db
begin

text \<open>
  What the scrapper's storage promises, without rows, keys and sequences: which chats are
  registered, which URLs each tracks, the tags each has and has put on its links, and the
  instant up to which a URL's updates have been seen.  \<open>tracker_of\<close> reads it off a database,
  and each statement of \<open>Scrapper_Db\<close> is shown to be one operation on it.
\<close>

record tracker =
  tk_chats :: "int set"
  tk_subs :: "(int \<times> string) set"
  tk_tags :: "(int \<times> string) set"
  tk_tagged :: "(int \<times> string \<times> string) set"
  tk_checkpoint :: "string \<Rightarrow> instant option"

definition tracker_of :: "db \<Rightarrow> tracker" where
  "tracker_of d =
     \<lparr>tk_chats = set (d_chats d),
      tk_subs = {(c, lr_url r) | c r. (c, lr_id r) \<in> set (d_subs d) \<and> r \<in> set (d_links d)},
      tk_tags = {(tagChatID t, tagName t) | t. t \<in> set (d_tags d)},
      tk_tagged = {(c, lr_url r, tagName t) | c r t. (c, lr_id r, tagID t) \<in> set (d_sub_tags d) \<and>
        r \<in> set (d_links d) \<and> t \<in> set (d_tags d) \<and> tagChatID t = c},
      tk_checkpoint = map_of (map (\<lambda>r. (lr_url r, lr_last_updated r)) (d_links d))\<rparr>"

section \<open>Operations\<close>

definition tk_register :: "int \<Rightarrow> tracker \<Rightarrow> tracker" where
  "tk_register c t = t\<lparr>tk_chats := insert c (tk_chats t)\<rparr>"

definition tk_unregister :: "int \<Rightarrow> tracker \<Rightarrow> tracker" where
  "tk_unregister c t =
     t\<lparr>tk_chats := tk_chats t - {c}, tk_subs := {(a, u) \<in> tk_subs t. a \<noteq> c},
       tk_tags := {(a, n) \<in> tk_tags t. a \<noteq> c}, tk_tagged := {(a, u, n) \<in> tk_tagged t. a \<noteq> c}\<rparr>"

definition tk_add :: "int \<Rightarrow> string \<Rightarrow> string list \<Rightarrow> instant \<Rightarrow> tracker \<Rightarrow> tracker" where
  "tk_add c url names at t =
     t\<lparr>tk_subs := insert (c, url) (tk_subs t),
       tk_tags := tk_tags t \<union> Pair c ` set names,
       tk_tagged := tk_tagged t \<union> (\<lambda>n. (c, url, n)) ` set names,
       tk_checkpoint := (tk_checkpoint t)(url \<mapsto> at)\<rparr>"

definition tk_untrack :: "int \<Rightarrow> string set \<Rightarrow> tracker \<Rightarrow> tracker" where
  "tk_untrack c urls t =
     t\<lparr>tk_subs := {(a, u) \<in> tk_subs t. \<not> (a = c \<and> u \<in> urls)},
       tk_tagged := {(a, u, n) \<in> tk_tagged t. \<not> (a = c \<and> u \<in> urls)}\<rparr>"

definition tk_urls_with_tag :: "int \<Rightarrow> string \<Rightarrow> tracker \<Rightarrow> string set" where
  "tk_urls_with_tag c name t = {u. (c, u, name) \<in> tk_tagged t}"

definition tk_new_tag :: "int \<Rightarrow> string \<Rightarrow> tracker \<Rightarrow> tracker" where
  "tk_new_tag c name t = t\<lparr>tk_tags := insert (c, name) (tk_tags t)\<rparr>"

definition tk_drop_tag :: "int \<Rightarrow> string \<Rightarrow> tracker \<Rightarrow> tracker" where
  "tk_drop_tag c name t =
     t\<lparr>tk_tags := tk_tags t - {(c, name)}, tk_tagged := {(a, u, n) \<in> tk_tagged t. \<not> (a = c \<and> n = name)}\<rparr>"

definition tk_rename_tag :: "int \<Rightarrow> string \<Rightarrow> string \<Rightarrow> tracker \<Rightarrow> tracker" where
  "tk_rename_tag c old new t =
     t\<lparr>tk_tags := (\<lambda>(a, n). (a, if a = c \<and> n = old then new else n)) ` tk_tags t,
       tk_tagged := (\<lambda>(a, u, n). (a, u, if a = c \<and> n = old then new else n)) ` tk_tagged t\<rparr>"

definition tk_checkpointed :: "string \<Rightarrow> instant \<Rightarrow> tracker \<Rightarrow> tracker" where
  "tk_checkpointed url at t = t\<lparr>tk_checkpoint := (tk_checkpoint t)(url \<mapsto> at)\<rparr>"

section \<open>Statements as operations\<close>

text \<open>Everything but the tables is invisible.\<close>

definition same_tables :: "db \<Rightarrow> db \<Rightarrow> bool" where
  "same_tables d e \<longleftrightarrow> d_chats d = d_chats e \<and> d_links d = d_links e \<and> d_subs d = d_subs e \<and>
     d_tags d = d_tags e \<and> d_sub_tags d = d_sub_tags e \<and> d_outbox d = d_outbox e"

lemma same_tables_tracker: "same_tables d e \<Longrightarrow> tracker_of d = tracker_of e"
  by (simp add: same_tables_def tracker_of_def)

lemma same_tables_faults [simp]: "same_tables (d\<lparr>d_faults := fs\<rparr>) d" "same_tables d d"
  by (simp_all add: same_tables_def)

lemma tracker_of_faults [simp]: "tracker_of (d\<lparr>d_faults := fs\<rparr>) = tracker_of d"
  by (simp add: tracker_of_def)

lemma same_tables_sym: "same_tables d e \<Longrightarrow> same_tables e d"
  by (simp add: same_tables_def)

lemma same_tables_trans: "same_tables d e \<Longrightarrow> same_tables e f \<Longrightarrow> same_tables d f"
  by (simp add: same_tables_def)

lemma same_tables_rollback [simp]: "same_tables (rollback d0 d) d0"
  by (simp add: same_tables_def rollback_def)

lemma stmt_form:
  "(\<exists>e fs. stmt f d = (Inl e, d\<lparr>d_faults := fs\<rparr>)) \<or>
   (\<exists>fs. stmt f d = f (d\<lparr>d_faults := fs\<rparr>)) \<or>
   (\<exists>e fs. stmt f d = (Inl e, snd (f (d\<lparr>d_faults := fs\<rparr>))))"
proof (cases "d_faults d")
  case Nil
  have "d = d\<lparr>d_faults := d_faults d\<rparr>" by simp
  moreover have "stmt f d = f d" using Nil by (simp add: stmt_def)
  ultimately show ?thesis by metis
next
  case (Cons x fs)
  then show ?thesis by (cases x) (simp_all add: stmt_def, blast+)
qed

lemma stmt_Inr:
  assumes "stmt f d = (Inr x, d')"
  obtains fs where "f (d\<lparr>d_faults := fs\<rparr>) = (Inr x, d')"
  using assms stmt_form [of f d] by force

text \<open>Whatever a statement reports, it has had no effect or the one of its function.\<close>

lemma stmt_cases:
  assumes "stmt f d = (r, d')"
  obtains (not_run) e where "r = Inl e" "same_tables d' d"
  | (ran) fs r1 where "f (d\<lparr>d_faults := fs\<rparr>) = (r1, d')" "r = r1 \<or> (\<exists>e. r = Inl e)"
proof -
  from stmt_form [of f d] show thesis
  proof (elim disjE exE)
    fix e fs assume "stmt f d = (Inl e, d\<lparr>d_faults := fs\<rparr>)"
    then show thesis using assms not_run by simp
  next
    fix fs assume "stmt f d = f (d\<lparr>d_faults := fs\<rparr>)"
    then have "f (d\<lparr>d_faults := fs\<rparr>) = (r, d')" using assms by simp
    then show thesis using ran by blast
  next
    fix e fs assume "stmt f d = (Inl e, snd (f (d\<lparr>d_faults := fs\<rparr>)))"
    then have "f (d\<lparr>d_faults := fs\<rparr>) = (fst (f (d\<lparr>d_faults := fs\<rparr>)), d')" "r = Inl e" using assms by simp_all
    then show thesis using ran by blast
  qed
qed

lemma stmt_ret_same: "stmt (ret x) d = (r, d') \<Longrightarrow> same_tables d' d"
  by (erule stmt_cases) (auto simp: same_tables_def)

lemma transaction_cases:
  assumes "transaction body d = (r, d')"
  obtains (rolled_back) e where "r = Inl e" "same_tables d' d"
  | (committed) x d1 d2 where "same_tables d1 d" "d_link_seq d1 = d_link_seq d" "d_tag_seq d1 = d_tag_seq d"
      "d_outbox_seq d1 = d_outbox_seq d" "body d1 = (Inr x, d2)" "same_tables d' d2" "r = Inr x \<or> (\<exists>e. r = Inl e)"
proof -
  obtain r1 d1 where s1: "stmt (ret ()) d = (r1, d1)" by fastforce
  then have d1: "same_tables d1 d" by (rule stmt_ret_same)
  have "snd (stmt (ret ()) d) = d\<lparr>d_faults := d_faults (snd (stmt (ret ()) d))\<rparr>" by (rule stmt_ret_tables)
  with s1 have "d1 = d\<lparr>d_faults := d_faults d1\<rparr>" by simp
  then have seqs: "d_link_seq d1 = d_link_seq d" "d_tag_seq d1 = d_tag_seq d" "d_outbox_seq d1 = d_outbox_seq d"
    by (metis db.select_convs db.surjective db.update_convs(11))+
  obtain r2 d2 where s2: "body d1 = (r2, d2)" by fastforce
  obtain r3 d3 where s3: "stmt (ret ()) d2 = (r3, d3)" by fastforce
  then have d3: "same_tables d3 d2" by (rule stmt_ret_same)
  have rb: "same_tables (rollback d1 x) d" for x
    using d1 same_tables_rollback same_tables_trans by blast
  show thesis
  proof (cases r1)
    case (Inl e)
    then show thesis using assms s1 d1 rolled_back by (auto simp: transaction_def)
  next
    case (Inr u)
    note r1 = this
    show thesis
    proof (cases r2)
      case (Inl e)
      then show thesis using assms s1 s2 r1 rb rolled_back by (auto simp: transaction_def)
    next
      case (Inr x)
      then show thesis
        using assms s1 s2 s3 r1 rb rolled_back committed [OF d1 seqs s2 [unfolded Inr]] d3
        by (cases r3) (auto simp: transaction_def split: if_splits)
    qed
  qed
qed

lemma db_ok_link_inj: "db_ok d \<Longrightarrow> r \<in> set (d_links d) \<Longrightarrow> s \<in> set (d_links d) \<Longrightarrow> lr_id r = lr_id s \<Longrightarrow> r = s"
  by (auto simp: db_ok_def distinct_map inj_on_def)

lemma db_ok_url_inj: "db_ok d \<Longrightarrow> r \<in> set (d_links d) \<Longrightarrow> s \<in> set (d_links d) \<Longrightarrow> lr_url r = lr_url s \<Longrightarrow> r = s"
  by (auto simp: db_ok_def distinct_map inj_on_def)

lemma db_ok_tag_inj: "db_ok d \<Longrightarrow> t \<in> set (d_tags d) \<Longrightarrow> u \<in> set (d_tags d) \<Longrightarrow> tagID t = tagID u \<Longrightarrow> t = u"
  by (auto simp: db_ok_def distinct_map inj_on_def)

lemma db_ok_tag_name_inj:
  "db_ok d \<Longrightarrow> t \<in> set (d_tags d) \<Longrightarrow> u \<in> set (d_tags d) \<Longrightarrow> tagChatID t = tagChatID u \<Longrightarrow>
     tagName t = tagName u \<Longrightarrow> t = u"
  by (auto simp: db_ok_def distinct_map inj_on_def)

lemma db_ok_subD: "db_ok d \<Longrightarrow> (c, l) \<in> set (d_subs d) \<Longrightarrow> \<exists>r \<in> set (d_links d). lr_id r = l"
  by (force simp: db_ok_def)

lemma db_ok_sub_tagD:
  "db_ok d \<Longrightarrow> (c, l, i) \<in> set (d_sub_tags d) \<Longrightarrow>
     (c, l) \<in> set (d_subs d) \<and> (\<exists>t \<in> set (d_tags d). tagID t = i \<and> tagChatID t = c)"
  by (force simp: db_ok_def)

lemma tk_chats_tracker_of [simp]: "tk_chats (tracker_of d) = set (d_chats d)"
  by (simp add: tracker_of_def)

lemma tk_subs_iff:
  "(c, u) \<in> tk_subs (tracker_of d) \<longleftrightarrow> (\<exists>r \<in> set (d_links d). lr_url r = u \<and> (c, lr_id r) \<in> set (d_subs d))"
  by (auto simp: tracker_of_def)

lemma tk_tags_iff:
  "(c, n) \<in> tk_tags (tracker_of d) \<longleftrightarrow> (\<exists>t \<in> set (d_tags d). tagChatID t = c \<and> tagName t = n)"
  by (auto simp: tracker_of_def)

lemma tk_tagged_iff:
  "(c, u, n) \<in> tk_tagged (tracker_of d) \<longleftrightarrow>
     (\<exists>r \<in> set (d_links d). lr_url r = u \<and> (\<exists>t \<in> set (d_tags d). tagName t = n \<and> tagChatID t = c \<and>
        (c, lr_id r, tagID t) \<in> set (d_sub_tags d)))"
  by (auto simp: tracker_of_def)

lemma tk_checkpoint_tracker_of:
  "tk_checkpoint (tracker_of d) = map_of (map (\<lambda>r. (lr_url r, lr_last_updated r)) (d_links d))"
  by (simp add: tracker_of_def)

lemmas tracker_iffs = tk_subs_iff tk_tags_iff tk_tagged_iff tk_checkpoint_tracker_of

lemma tracker_eqI:
  fixes t t' :: tracker
  assumes "tk_chats t = tk_chats t'" "\<And>c u. (c, u) \<in> tk_subs t \<longleftrightarrow> (c, u) \<in> tk_subs t'"
    and "\<And>c n. (c, n) \<in> tk_tags t \<longleftrightarrow> (c, n) \<in> tk_tags t'"
    and "\<And>c u n. (c, u, n) \<in> tk_tagged t \<longleftrightarrow> (c, u, n) \<in> tk_tagged t'"
    and "tk_checkpoint t = tk_checkpoint t'"
  shows "t = t'"
  using assms by (intro tracker.equality) (auto simp: set_eq_iff split_paired_all)

lemma tracker_insert_chat: "tracker_of (snd (insert_chat c d)) = tk_register c (tracker_of d)"
  by (auto simp: tracker_of_def insert_chat_def tk_register_def)

lemma tracker_delete_chat: "tracker_of (snd (delete_chat c d)) = tk_unregister c (tracker_of d)"
  by (auto simp: tracker_of_def delete_chat_def tk_unregister_def)

lemma map_of_last_updated:
  "map_of (map (\<lambda>r. (lr_url r, lr_last_updated r)) (map (\<lambda>r. if lr_url r = url then r\<lparr>lr_last_updated := at\<rparr> else r) rs)) u
     = (if u = url \<and> url \<in> lr_url ` set rs then Some at
        else map_of (map (\<lambda>r. (lr_url r, lr_last_updated r)) rs) u)"
  by (induction rs) auto

lemma tracker_links_map:
  assumes "\<And>r. lr_id (f r) = lr_id r" "\<And>r. lr_url (f r) = lr_url r"
  shows "tracker_of (d\<lparr>d_links := map f (d_links d)\<rparr>) =
     (tracker_of d)\<lparr>tk_checkpoint := map_of (map (\<lambda>r. (lr_url r, lr_last_updated r)) (map f (d_links d)))\<rparr>"
  by (rule tracker_eqI) (simp_all add: tracker_iffs assms)

lemma upsert_link_tracker:
  assumes "db_ok d" "upsert_link url at d = (Inr l, d')"
  shows "tracker_of d' = tk_checkpointed url at (tracker_of d) \<and>
     (\<exists>r \<in> set (d_links d'). lr_id r = l \<and> lr_url r = url)"
proof (cases "find_link url d")
  case (Some r)
  let ?f = "\<lambda>r. if lr_url r = url then r\<lparr>lr_last_updated := at\<rparr> else r"
  have d': "d' = d\<lparr>d_link_seq := d_link_seq d + 1, d_links := map ?f (d_links d)\<rparr>" "l = lr_id r"
    using assms(2) Some by (simp_all add: upsert_link_def set_last_updated_def Let_def)
  have r: "r \<in> set (d_links d)" "lr_url r = url" using find_link_Some [OF Some] by auto
  have "tracker_of d' = tracker_of (d\<lparr>d_links := map ?f (d_links d)\<rparr>)"
    unfolding d' by (rule same_tables_tracker) (simp add: same_tables_def)
  also have "\<dots> = (tracker_of d)\<lparr>tk_checkpoint :=
      map_of (map (\<lambda>r. (lr_url r, lr_last_updated r)) (map ?f (d_links d)))\<rparr>"
    by (rule tracker_links_map) simp_all
  also have "map_of (map (\<lambda>r. (lr_url r, lr_last_updated r)) (map ?f (d_links d)))
      = (tk_checkpoint (tracker_of d))(url \<mapsto> at)"
    using r by (intro ext) (auto simp: map_of_last_updated tracker_of_def simp del: map_map)
  finally have "tracker_of d' = tk_checkpointed url at (tracker_of d)" by (simp only: tk_checkpointed_def)
  moreover have "?f r \<in> set (d_links d')" "lr_id (?f r) = l" "lr_url (?f r) = url" using r d' by auto
  ultimately show ?thesis by blast
next
  case None
  let ?r = "\<lparr>lr_id = d_link_seq d + 1, lr_url = url, lr_last_updated = at\<rparr>"
  have d': "d' = d\<lparr>d_link_seq := d_link_seq d + 1, d_links := d_links d @ [?r]\<rparr>" "l = d_link_seq d + 1"
    using assms(2) None by (auto simp: upsert_link_def Let_def)
  have "url \<notin> lr_url ` set (d_links d)" using None by (simp add: find_link_None)
  moreover have fresh: "(c, d_link_seq d + 1) \<notin> set (d_subs d)" "(c, d_link_seq d + 1, i) \<notin> set (d_sub_tags d)" for c i
    using assms(1) db_ok_sub_tagD [OF assms(1)] by (force simp: db_ok_def)+
  moreover have "map_of (map (\<lambda>r. (lr_url r, lr_last_updated r)) (d_links d @ [?r]))
      = (map_of (map (\<lambda>r. (lr_url r, lr_last_updated r)) (d_links d)))(url \<mapsto> at)"
  proof
    fix u
    have "url \<notin> dom (map_of (map (\<lambda>r. (lr_url r, lr_last_updated r)) (d_links d)))"
      using \<open>url \<notin> lr_url ` set (d_links d)\<close> by (auto simp: dom_map_of_conv_image_fst image_image)
    then show "map_of (map (\<lambda>r. (lr_url r, lr_last_updated r)) (d_links d @ [?r])) u
      = ((map_of (map (\<lambda>r. (lr_url r, lr_last_updated r)) (d_links d)))(url \<mapsto> at)) u"
      by (auto simp: map_add_def domIff split: option.split)
  qed
  ultimately have "tracker_of d' = tk_checkpointed url at (tracker_of d)" unfolding d'
    by (intro tracker_eqI) (simp_all add: tracker_iffs tk_checkpointed_def)
  then show ?thesis unfolding d' by simp
qed

lemma insert_subscription_tracker:
  assumes "db_ok d" "insert_subscription c l d = (Inr (), d')" "r \<in> set (d_links d)" "lr_id r = l"
  shows "tracker_of d' = (tracker_of d)\<lparr>tk_subs := insert (c, lr_url r) (tk_subs (tracker_of d))\<rparr> \<and>
     d_links d' = d_links d"
proof -
  have d': "d_links d' = d_links d" "d_chats d' = d_chats d" "d_tags d' = d_tags d" "d_sub_tags d' = d_sub_tags d"
    "set (d_subs d') = insert (c, l) (set (d_subs d))"
    using assms(2) by (auto simp: insert_subscription_def split: if_splits)
  have "lr_url s = lr_url r \<longleftrightarrow> s = r" "lr_id s = l \<longleftrightarrow> s = r" if "s \<in> set (d_links d)" for s
    using that assms db_ok_link_inj db_ok_url_inj by metis+
  then show ?thesis using assms(3) d'
    by (intro conjI tracker_eqI) (auto simp: tracker_iffs)
qed

lemma insert_tag_tracker:
  assumes "db_ok d" "insert_tag c name d = (Inr i, d')"
  shows "tracker_of d' = tk_new_tag c name (tracker_of d) \<and> d_links d' = d_links d \<and>
     (c, name) \<notin> tk_tags (tracker_of d) \<and>
     (\<exists>t \<in> set (d_tags d'). tagID t = i \<and> tagChatID t = c \<and> tagName t = name)"
proof -
  have fresh: "(a, l, d_tag_seq d + 1) \<notin> set (d_sub_tags d)" for a l
    using assms(1) db_ok_sub_tagD [OF assms(1)] by (force simp: db_ok_def)
  from assms(2) have "find_tag c name d = None"
    and d': "d' = d\<lparr>d_tag_seq := d_tag_seq d + 1,
      d_tags := d_tags d @ [\<lparr>tagID = d_tag_seq d + 1, tagChatID = c, tagName = name\<rparr>]\<rparr>" "i = d_tag_seq d + 1"
    by (auto simp: insert_tag_def Let_def split: option.splits if_splits)
  then have "(c, name) \<notin> tk_tags (tracker_of d)" by (auto simp: find_tag_None tracker_of_def)
  moreover have "tracker_of d' = tk_new_tag c name (tracker_of d)"
    using fresh unfolding d' by (intro tracker_eqI) (auto simp: tracker_iffs tk_new_tag_def)
  ultimately show ?thesis unfolding d' by simp
qed

lemma upsert_tag_tracker:
  assumes "db_ok d" "upsert_tag c name d = (Inr i, d')"
  shows "tracker_of d' = tk_new_tag c name (tracker_of d) \<and> d_links d' = d_links d \<and>
     (\<exists>t \<in> set (d_tags d'). tagID t = i \<and> tagChatID t = c \<and> tagName t = name)"
proof (cases "find_tag c name d")
  case None
  then show ?thesis using insert_tag_tracker [of d c name i d'] assms by (simp add: upsert_tag_def)
next
  case (Some t)
  then have d': "d' = d\<lparr>d_tag_seq := d_tag_seq d + 1\<rparr>" "i = tagID t"
    using assms(2) by (simp_all add: upsert_tag_def)
  have t: "t \<in> set (d_tags d)" "tagChatID t = c" "tagName t = name" using find_tag_Some [OF Some] by auto
  then have "(c, name) \<in> tk_tags (tracker_of d)" by (auto simp: tracker_of_def)
  then have "tk_new_tag c name (tracker_of d) = tracker_of d" by (simp add: tk_new_tag_def insert_absorb)
  moreover have "tracker_of d' = tracker_of d" unfolding d' by (rule same_tables_tracker) (simp add: same_tables_def)
  ultimately show ?thesis using t unfolding d' by auto
qed

lemma insert_subscription_tag_tracker:
  assumes "db_ok d" "insert_subscription_tag c l i d = (Inr (), d')"
    and "r \<in> set (d_links d)" "lr_id r = l" "t \<in> set (d_tags d)" "tagID t = i" "tagChatID t = c"
  shows "tracker_of d' = (tracker_of d)\<lparr>tk_tagged := insert (c, lr_url r, tagName t) (tk_tagged (tracker_of d))\<rparr> \<and>
     d_links d' = d_links d"
proof -
  have d': "d_links d' = d_links d" "d_chats d' = d_chats d" "d_tags d' = d_tags d" "d_subs d' = d_subs d"
    "set (d_sub_tags d') = insert (c, l, i) (set (d_sub_tags d))"
    using assms(2) by (auto simp: insert_subscription_tag_def split: if_splits)
  have l: "lr_url s = lr_url r \<longleftrightarrow> s = r" "lr_id s = l \<longleftrightarrow> s = r" if "s \<in> set (d_links d)" for s
    using that assms db_ok_link_inj db_ok_url_inj by metis+
  have t: "tagID s = i \<longleftrightarrow> s = t" if "s \<in> set (d_tags d)" for s
    using that assms db_ok_tag_inj by metis
  have n: "tagName s = tagName t \<longleftrightarrow> s = t" if "s \<in> set (d_tags d)" "tagChatID s = c" for s
    using that assms db_ok_tag_name_inj by metis
  have "(a, u, m) \<in> tk_tagged (tracker_of d') \<longleftrightarrow>
      (a, u, m) = (c, lr_url r, tagName t) \<or> (a, u, m) \<in> tk_tagged (tracker_of d)" for a u m
  proof
    assume "(a, u, m) \<in> tk_tagged (tracker_of d')"
    then show "(a, u, m) = (c, lr_url r, tagName t) \<or> (a, u, m) \<in> tk_tagged (tracker_of d)"
      using l t d' by (auto simp: tk_tagged_iff)
  next
    assume "(a, u, m) = (c, lr_url r, tagName t) \<or> (a, u, m) \<in> tk_tagged (tracker_of d)"
    then show "(a, u, m) \<in> tk_tagged (tracker_of d')"
      using assms d' by (auto simp: tk_tagged_iff)
  qed
  then show ?thesis using d'
    by (intro conjI tracker_eqI) (simp_all add: tk_subs_iff tk_tags_iff tk_checkpoint_tracker_of)
qed

lemma delete_subscriptions_tracker:
  assumes "db_ok d"
  shows "tracker_of (snd (delete_subscriptions (\<lambda>(a, l). a = c \<and> l \<in> L) d)) =
    tk_untrack c {lr_url r | r. r \<in> set (d_links d) \<and> lr_id r \<in> L} (tracker_of d)"
  using db_ok_url_inj [OF assms]
  by (auto simp: delete_subscriptions_def tracker_of_def tk_untrack_def) blast+

lemma tracker_delete_tag:
  assumes "db_ok d"
  shows "tracker_of (snd (delete_tag c name d)) = tk_drop_tag c name (tracker_of d)"
  using db_ok_tag_inj [OF assms]
  by (auto simp: delete_tag_def tracker_of_def tk_drop_tag_def Let_def) blast+

lemma tracker_set_last_updated:
  assumes "db_ok d" "r \<in> set (d_links d)"
  shows "tracker_of (set_last_updated (\<lambda>s. lr_id s = lr_id r) at d) = tk_checkpointed (lr_url r) at (tracker_of d)"
proof -
  have "map (\<lambda>s. if lr_id s = lr_id r then s\<lparr>lr_last_updated := at\<rparr> else s) (d_links d)
      = map (\<lambda>s. if lr_url s = lr_url r then s\<lparr>lr_last_updated := at\<rparr> else s) (d_links d)"
    using db_ok_link_inj [OF assms(1) _ assms(2)] db_ok_url_inj [OF assms(1) _ assms(2)] by auto
  then have "tracker_of (set_last_updated (\<lambda>s. lr_id s = lr_id r) at d) = (tracker_of d)\<lparr>tk_checkpoint :=
      map_of (map (\<lambda>r. (lr_url r, lr_last_updated r))
        (map (\<lambda>s. if lr_url s = lr_url r then s\<lparr>lr_last_updated := at\<rparr> else s) (d_links d)))\<rparr>"
    by (simp only: set_last_updated_def) (rule tracker_links_map; simp)
  also have "\<dots> = tk_checkpointed (lr_url r) at (tracker_of d)"
    using assms(2) by (auto simp: tk_checkpointed_def tracker_of_def map_of_last_updated fun_eq_iff simp del: map_map)
  finally show ?thesis .
qed

lemma rename_tag_tracker:
  assumes "db_ok d" "rename_tag c old new d = (Inr n, d')"
  shows "n = (if (c, old) \<in> tk_tags (tracker_of d) then 1 else 0) \<and>
    tracker_of d' = (if (c, old) \<in> tk_tags (tracker_of d) then tk_rename_tag c old new (tracker_of d) else tracker_of d) \<and>
    ((c, old) \<in> tk_tags (tracker_of d) \<longrightarrow> new = old \<or> (c, new) \<notin> tk_tags (tracker_of d))"
proof (cases "find_tag c old d")
  case None
  then have "(c, old) \<notin> tk_tags (tracker_of d)" by (auto simp: find_tag_None tk_tags_iff)
  then show ?thesis using assms(2) None by (simp add: rename_tag_def)
next
  case (Some t)
  let ?f = "\<lambda>r. if tagChatID r = c \<and> tagName r = old then r\<lparr>tagName := new\<rparr> else r"
  have t: "(c, old) \<in> tk_tags (tracker_of d)" using find_tag_Some [OF Some] by (auto simp: tk_tags_iff)
  have d': "n = 1" "d' = d\<lparr>d_tags := map ?f (d_tags d)\<rparr>" "new = old \<or> find_tag c new d = None"
    using assms(2) Some by (auto simp: rename_tag_def split: if_splits)
  have "(c, new) \<notin> tk_tags (tracker_of d)" if "new \<noteq> old"
    using d'(3) that by (auto simp: find_tag_None tk_tags_iff)
  moreover have "tracker_of d' = tk_rename_tag c old new (tracker_of d)"
  proof (rule tracker_eqI)
    fix a m
    show "(a, m) \<in> tk_tags (tracker_of d') \<longleftrightarrow> (a, m) \<in> tk_tags (tk_rename_tag c old new (tracker_of d))"
    proof -
      have "(a, m) \<in> tk_tags (tracker_of d') \<longleftrightarrow> (\<exists>t \<in> set (d_tags d). tagChatID t = a \<and>
          (if tagChatID t = c \<and> tagName t = old then new else tagName t) = m)"
        unfolding d' by (auto simp: tk_tags_iff simp del: if_image_distrib)
      also have "\<dots> \<longleftrightarrow> (a, m) \<in> tk_tags (tk_rename_tag c old new (tracker_of d))"
      proof -
        have "tk_tags (tracker_of d) = (\<lambda>t. (tagChatID t, tagName t)) ` set (d_tags d)"
          by (auto simp: tracker_of_def)
        then show ?thesis by (simp add: tk_rename_tag_def image_image) (auto simp: image_iff)
      qed
      finally show ?thesis .
    qed
  next
    fix a u m
    show "(a, u, m) \<in> tk_tagged (tracker_of d') \<longleftrightarrow> (a, u, m) \<in> tk_tagged (tk_rename_tag c old new (tracker_of d))"
    proof -
      have "(a, u, m) \<in> tk_tagged (tracker_of d') \<longleftrightarrow> (\<exists>r \<in> set (d_links d). lr_url r = u \<and>
          (\<exists>t \<in> set (d_tags d). (if tagChatID t = c \<and> tagName t = old then new else tagName t) = m \<and>
             tagChatID t = a \<and> (a, lr_id r, tagID t) \<in> set (d_sub_tags d)))"
        unfolding d' by (auto simp: tk_tagged_iff simp del: if_image_distrib)
      also have "\<dots> \<longleftrightarrow> (a, u, m) \<in> tk_tagged (tk_rename_tag c old new (tracker_of d))"
      proof -
        have "(a, u, m) \<in> tk_tagged (tk_rename_tag c old new (tracker_of d)) \<longleftrightarrow>
            (\<exists>n. (a, u, n) \<in> tk_tagged (tracker_of d) \<and> m = (if a = c \<and> n = old then new else n))"
          by (force simp: tk_rename_tag_def)
        then show ?thesis unfolding tk_tagged_iff by metis
      qed
      finally show ?thesis .
    qed
  qed (simp_all add: d' tk_rename_tag_def tk_subs_iff tk_checkpoint_tracker_of)
  ultimately show ?thesis using t d'(1) by auto
qed

lemma tracker_of_finite_tagged: "finite (tk_urls_with_tag c n (tracker_of d))"
  by (rule finite_subset [where B = "lr_url ` set (d_links d)"])
    (auto simp: tk_urls_with_tag_def tracker_of_def)

lemma tracker_of_unregister_none:
  assumes "db_ok d" "c \<notin> set (d_chats d)"
  shows "tk_unregister c (tracker_of d) = tracker_of d"
proof -
  have "(a, l) \<in> set (d_subs d) \<Longrightarrow> a \<noteq> c" "t \<in> set (d_tags d) \<Longrightarrow> tagChatID t \<noteq> c" for a l t
    using assms by (auto simp: db_ok_def)
  with assms(2) show ?thesis by (intro tracker_eqI) (auto simp: tracker_iffs tk_unregister_def)
qed

section \<open>The interface of the storage\<close>

text \<open>What the services use of \<open>ChatRepository\<close> and \<open>LinkRepository\<close>, with its contract: an operation
  that returns nil had its effect, an operation that returns an error had no effect or its effect;
  in a calm state, with no fault to come, the result is determined.\<close>

definition tk_add_link :: "int \<Rightarrow> link \<Rightarrow> tracker \<Rightarrow> tracker" where
  "tk_add_link c link = tk_add c (linkURL link) (linkTags link) (linkLastUpdatedAt link)"

definition tk_remove_by_tag :: "int \<Rightarrow> string \<Rightarrow> tracker \<Rightarrow> tracker" where
  "tk_remove_by_tag c name t = tk_untrack c (tk_urls_with_tag c name t) t"

definition lists_links :: "int \<Rightarrow> link list \<Rightarrow> tracker \<Rightarrow> bool" where
  "lists_links c ls t \<longleftrightarrow>
     linkURL ` set ls = {u. (c, u) \<in> tk_subs t} \<and> distinct (map linkURL ls) \<and>
     (\<forall>l \<in> set ls. set (linkTags l) = {n. (c, linkURL l, n) \<in> tk_tagged t} \<and>
        tk_checkpoint t (linkURL l) = Some (linkLastUpdatedAt l))"

locale tracker_store =
  fixes inv :: "'s \<Rightarrow> bool" and calm :: "'s \<Rightarrow> bool" and abs :: "'s \<Rightarrow> tracker"
    and chat_add chat_remove :: "int \<Rightarrow> ('s, unit) eff" and chat_exists :: "int \<Rightarrow> ('s, bool) eff"
    and link_add :: "int \<Rightarrow> link \<Rightarrow> ('s, unit) eff" and link_remove :: "int \<Rightarrow> string \<Rightarrow> ('s, unit) eff"
    and link_remove_by_tag :: "int \<Rightarrow> string \<Rightarrow> ('s, int) eff" and link_list :: "int \<Rightarrow> ('s, link list) eff"
  assumes chat_add: "inv s \<Longrightarrow> chat_add c s = (r, s') \<Longrightarrow> inv s' \<and>
      (r = Inr () \<longrightarrow> abs s' = tk_register c (abs s)) \<and> (abs s' = abs s \<or> abs s' = tk_register c (abs s)) \<and>
      (calm s \<longrightarrow> calm s' \<and> r = Inr ())"
    and chat_remove: "inv s \<Longrightarrow> chat_remove c s = (r, s') \<Longrightarrow> inv s' \<and>
      (r = Inr () \<longrightarrow> abs s' = tk_unregister c (abs s)) \<and> (abs s' = abs s \<or> abs s' = tk_unregister c (abs s)) \<and>
      (calm s \<longrightarrow> calm s' \<and> r = (if c \<in> tk_chats (abs s) then Inr () else Inl RepoErrChatNotFound))"
    and chat_exists: "inv s \<Longrightarrow> chat_exists c s = (rb, s') \<Longrightarrow> inv s' \<and> abs s' = abs s \<and>
      (\<forall>b. rb = Inr b \<longrightarrow> b = (c \<in> tk_chats (abs s))) \<and> (calm s \<longrightarrow> calm s' \<and> (\<exists>b. rb = Inr b))"
    and link_add: "inv s \<Longrightarrow> link_add c l s = (r, s') \<Longrightarrow> inv s' \<and>
      (r = Inr () \<longrightarrow> abs s' = tk_add_link c l (abs s)) \<and> (abs s' = abs s \<or> abs s' = tk_add_link c l (abs s)) \<and>
      (calm s \<and> c \<in> tk_chats (abs s) \<longrightarrow> calm s' \<and> r = Inr ())"
    and link_remove: "inv s \<Longrightarrow> link_remove c u s = (r, s') \<Longrightarrow> inv s' \<and>
      (r = Inr () \<longrightarrow> (c, u) \<in> tk_subs (abs s) \<and> abs s' = tk_untrack c {u} (abs s)) \<and>
      (abs s' = abs s \<or> abs s' = tk_untrack c {u} (abs s)) \<and>
      ((c, u) \<notin> tk_subs (abs s) \<longrightarrow> abs s' = abs s) \<and>
      (calm s \<longrightarrow> calm s' \<and> r = (if (c, u) \<in> tk_subs (abs s) then Inr () else Inl ErrLinkNotFound))"
    and link_remove_by_tag: "inv s \<Longrightarrow> link_remove_by_tag c n s = (rk, s') \<Longrightarrow> inv s' \<and>
      (\<forall>k. rk = Inr k \<longrightarrow> abs s' = tk_remove_by_tag c n (abs s) \<and> k = int (card (tk_urls_with_tag c n (abs s)))) \<and>
      (abs s' = abs s \<or> abs s' = tk_remove_by_tag c n (abs s)) \<and> (calm s \<longrightarrow> calm s' \<and> (\<exists>k. rk = Inr k))"
    and link_list: "inv s \<Longrightarrow> link_list c s = (rl, s') \<Longrightarrow> inv s' \<and> abs s' = abs s \<and>
      (\<forall>ls. rl = Inr ls \<longrightarrow> lists_links c ls (abs s)) \<and> (calm s \<longrightarrow> calm s' \<and> (\<exists>ls. rl = Inr ls))"
    and finite_tagged: "inv s \<Longrightarrow> finite (tk_urls_with_tag c n (abs s))"
    and unregister_none: "inv s \<Longrightarrow> c \<notin> tk_chats (abs s) \<Longrightarrow> tk_unregister c (abs s) = abs s"

end
