(* ===== verification/Sql_Repositories.thy ===== *)
theory Sql_Repositories
  imports Tracker
begin

text \<open>
  The repositories over plain SQL (\<open>scrapper/internal/infrastructure/persistence/sql\<close>),
  one definition per method, each statement through \<open>stmt\<close> or \<open>query\<close>, with the
  interface of \<open>scrapper/internal/repositories/interfaces.go\<close> as the locale \<open>link_store\<close>,
  whose laws are the operations of \<open>Tracker\<close>.  The order of rows without ORDER BY is the
  table's; the collation of ORDER BY name is an argument.
\<close>

section \<open>Chats\<close>

definition sql_chat_add :: "int \<Rightarrow> (db, unit) eff" where
  "sql_chat_add chat = stmt (insert_chat chat)"

definition sql_chat_remove :: "int \<Rightarrow> (db, unit) eff" where
  "sql_chat_remove chat =
     bindE (stmt (delete_chat chat)) (\<lambda>rows. if rows = 0 then throw RepoErrChatNotFound else ret ())"

definition sql_chat_exists :: "int \<Rightarrow> (db, bool) eff" where
  "sql_chat_exists chat = stmt (chat_exists chat)"

section \<open>Links\<close>

definition sql_add_tag :: "int \<Rightarrow> int \<Rightarrow> string \<Rightarrow> (db, unit) eff" where
  "sql_add_tag chat link_id name =
     bindE (stmt (upsert_tag chat name)) (\<lambda>tag_id. stmt (insert_subscription_tag chat link_id tag_id))"

definition sql_link_add :: "int \<Rightarrow> link \<Rightarrow> (db, unit) eff" where
  "sql_link_add chat link =
     transaction
       (bindE (stmt (upsert_link (linkURL link) (linkLastUpdatedAt link))) (\<lambda>link_id.
        bindE (stmt (insert_subscription chat link_id)) (\<lambda>_.
        foreachE (sql_add_tag chat link_id) (linkTags link))))"

text \<open>\<open>link_id = (SELECT id FROM links WHERE url = $2)\<close>\<close>

definition link_ids_of_url :: "string \<Rightarrow> db \<Rightarrow> int set" where
  "link_ids_of_url url d = lr_id ` {r \<in> set (d_links d). lr_url r = url}"

definition sql_link_remove :: "int \<Rightarrow> string \<Rightarrow> (db, unit) eff" where
  "sql_link_remove chat url =
     bindE (stmt (\<lambda>d. delete_subscriptions (\<lambda>(c, l). c = chat \<and> l \<in> link_ids_of_url url d) d))
       (\<lambda>rows_affected. if rows_affected = 0 then throw ErrLinkNotFound else ret ())"

definition tag_names_by_link :: "int \<Rightarrow> int set \<Rightarrow> db \<Rightarrow> (int \<times> string) list" where
  "tag_names_by_link chat ids d =
     [(l, tagName t). (c, l, i) \<leftarrow> d_sub_tags d, t \<leftarrow> d_tags d,
        tagID t = i \<and> tagChatID t = c \<and> c = chat \<and> l \<in> ids]"

text \<open>\<open>result[linkID] = append(result[linkID], tag)\<close> over the rows.\<close>

definition group_tags :: "(int \<times> string) list \<Rightarrow> int \<Rightarrow> string list" where
  "group_tags rows l = map snd (filter (\<lambda>(i, n). i = l) rows)"

definition sql_get_tags_by_link_ids :: "int \<Rightarrow> int list \<Rightarrow> (db, int \<Rightarrow> string list) eff" where
  "sql_get_tags_by_link_ids chat ids =
     (if length ids = 0 then ret (\<lambda>_. [])
      else bindE (query (tag_names_by_link chat (set ids))) (\<lambda>rows. ret (group_tags rows)))"

definition link_of_row :: "(int \<Rightarrow> string list) \<Rightarrow> link_row \<Rightarrow> link" where
  "link_of_row tags r =
     \<lparr>linkID = 0, linkURL = lr_url r, linkTags = tags (lr_id r), linkLastUpdatedAt = lr_last_updated r\<rparr>"

definition listed_rows :: "int \<Rightarrow> db \<Rightarrow> link_row list" where
  "listed_rows chat d = [r. (c, l) \<leftarrow> d_subs d, r \<leftarrow> d_links d, lr_id r = l \<and> c = chat]"

definition sql_link_list :: "int \<Rightarrow> (db, link list) eff" where
  "sql_link_list chat =
     bindE (query (listed_rows chat)) (\<lambda>rows.
     bindE (sql_get_tags_by_link_ids chat (map lr_id rows)) (\<lambda>tags.
     ret (map (link_of_row tags) rows)))"

text \<open>\<open>SELECT DISTINCT\<close> over the joins: a row is there once, if it has the tag.\<close>

definition link_rows_by_tag :: "int \<Rightarrow> string \<Rightarrow> db \<Rightarrow> link_row list" where
  "link_rows_by_tag chat name d =
     remdups [r. (c, l) \<leftarrow> d_subs d, r \<leftarrow> d_links d, (c', l', i) \<leftarrow> d_sub_tags d, t \<leftarrow> d_tags d,
        lr_id r = l \<and> l' = l \<and> c' = c \<and> tagID t = i \<and> tagChatID t = c \<and> c = chat \<and> tagName t = name]"

definition sql_link_list_by_tag :: "int \<Rightarrow> string \<Rightarrow> (db, link list) eff" where
  "sql_link_list_by_tag chat name =
     bindE (query (link_rows_by_tag chat name)) (\<lambda>rows.
     bindE (sql_get_tags_by_link_ids chat (map lr_id rows)) (\<lambda>tags.
     ret (map (link_of_row tags) rows)))"

definition link_ids_with_tag :: "int \<Rightarrow> string \<Rightarrow> db \<Rightarrow> int set" where
  "link_ids_with_tag chat name d =
     {l. \<exists>i. (chat, l, i) \<in> set (d_sub_tags d) \<and>
        (\<exists>t \<in> set (d_tags d). tagID t = i \<and> tagChatID t = chat \<and> tagName t = name)}"

lemma link_ids_with_tag_code [code]:
  "link_ids_with_tag chat name d =
     set [l. (c, l, i) \<leftarrow> d_sub_tags d, c = chat \<and>
        list_ex (\<lambda>t. tagID t = i \<and> tagChatID t = chat \<and> tagName t = name) (d_tags d)]"
  by (auto simp: link_ids_with_tag_def list_ex_iff split: if_splits)

definition sql_link_remove_by_tag :: "int \<Rightarrow> string \<Rightarrow> (db, int) eff" where
  "sql_link_remove_by_tag chat name =
     stmt (\<lambda>d. delete_subscriptions (\<lambda>(c, l). c = chat \<and> l \<in> link_ids_with_tag chat name d) d)"

section \<open>Tags\<close>

text \<open>\<open>errors.As(err, &pqErr)\<close>\<close>

fun as_pq_error :: "go_error \<Rightarrow> string option" where
  "as_pq_error (PqError code) = Some code"
| "as_pq_error (WrapErr p e) = as_pq_error e"
| "as_pq_error (JoinErr e f) = (case as_pq_error e of Some c \<Rightarrow> Some c | None \<Rightarrow> as_pq_error f)"
| "as_pq_error _ = None"

definition tag_error :: "go_error \<Rightarrow> go_error" where
  "tag_error e = (if as_pq_error e = Some unique_violation then ErrTagExists else e)"

definition sql_tag_create :: "int \<Rightarrow> string \<Rightarrow> (db, unit) eff" where
  "sql_tag_create chat name =
     bindE (attempt (stmt (insert_tag chat name)))
       (\<lambda>r. case r of Inl e \<Rightarrow> throw (tag_error e) | Inr _ \<Rightarrow> ret ())"

definition sql_tag_list :: "(string \<Rightarrow> int) \<Rightarrow> int \<Rightarrow> (db, tag list) eff" where
  "sql_tag_list collate chat =
     query (\<lambda>d. sort_key (\<lambda>t. collate (tagName t)) (filter (\<lambda>t. tagChatID t = chat) (d_tags d)))"

definition sql_tag_rename :: "int \<Rightarrow> string \<Rightarrow> string \<Rightarrow> (db, unit) eff" where
  "sql_tag_rename chat old new =
     bindE (attempt (stmt (rename_tag chat old new)))
       (\<lambda>r. case r of Inl e \<Rightarrow> throw (tag_error e)
          | Inr affected \<Rightarrow> if affected = 0 then throw ErrTagNotFound else ret ())"

definition sql_tag_delete :: "int \<Rightarrow> string \<Rightarrow> (db, unit) eff" where
  "sql_tag_delete chat name =
     bindE (stmt (delete_tag chat name)) (\<lambda>affected. if affected = 0 then throw ErrTagNotFound else ret ())"

section \<open>Tracking\<close>

definition sql_find_subscribers :: "int \<Rightarrow> (db, int list) eff" where
  "sql_find_subscribers link_id = query (\<lambda>d. map fst (filter (\<lambda>(c, l). l = link_id) (d_subs d)))"

text \<open>
  \<open>SELECT DISTINCT ... JOIN subscriptions ... ORDER BY l.id LIMIT $1 OFFSET $2\<close>; a negative limit or
  offset is refused.
\<close>

definition tracked_rows :: "db \<Rightarrow> link_row list" where
  "tracked_rows d = sort_key lr_id (filter (\<lambda>r. list_ex (\<lambda>(c, l). l = lr_id r) (d_subs d)) (d_links d))"

definition tracked_link_of_row :: "link_row \<Rightarrow> link" where
  "tracked_link_of_row r =
     \<lparr>linkID = lr_id r, linkURL = lr_url r, linkTags = [], linkLastUpdatedAt = lr_last_updated r\<rparr>"

definition sql_get_tracked_links_batch :: "int \<Rightarrow> int \<Rightarrow> (db, link list) eff" where
  "sql_get_tracked_links_batch limit offset =
     stmt (\<lambda>d. (if limit < 0 then Inl (PqError ''2201W'')
                else if offset < 0 then Inl (PqError ''2201X'')
                else Inr (map tracked_link_of_row (take (nat limit) (drop (nat offset) (tracked_rows d)))), d))"

definition update_last_updated :: "int \<Rightarrow> instant \<Rightarrow> (db, unit) eff" where
  "update_last_updated link_id t d = (Inr (), set_last_updated (\<lambda>r. lr_id r = link_id) t d)"

definition sql_update_last_updated :: "int \<Rightarrow> instant \<Rightarrow> (db, unit) eff" where
  "sql_update_last_updated link_id t = stmt (update_last_updated link_id t)"

section \<open>Outbox\<close>

definition sql_insert_outbox_message :: "outbox_message \<Rightarrow> (db, unit) eff" where
  "sql_insert_outbox_message m = stmt (insert_outbox m)"

definition sql_save_link_update_outbox :: "int \<Rightarrow> instant \<Rightarrow> outbox_message list \<Rightarrow> (db, unit) eff" where
  "sql_save_link_update_outbox link_id new_updated_at messages =
     transaction
       (bindE (if \<not> is_zero new_updated_at then stmt (update_last_updated link_id new_updated_at) else ret ())
         (\<lambda>_. foreachE sql_insert_outbox_message messages))"

definition sql_save_outbox_messages :: "outbox_message list \<Rightarrow> (db, unit) eff" where
  "sql_save_outbox_messages messages = transaction (foreachE sql_insert_outbox_message messages)"

definition pending_messages :: "db \<Rightarrow> outbox_message list" where
  "pending_messages d = sort_key omCreatedAt (filter (\<lambda>m. omStatus m = OutboxPending) (d_outbox d))"

definition sql_get_pending_messages :: "int \<Rightarrow> (db, outbox_message list) eff" where
  "sql_get_pending_messages limit =
     stmt (\<lambda>d. (if limit < 0 then Inl (PqError ''2201W'') else Inr (take (nat limit) (pending_messages d)), d))"

definition sql_mark_as_sent :: "int \<Rightarrow> (db, unit) eff" where
  "sql_mark_as_sent i =
     stmt (\<lambda>d. update_outbox i (\<lambda>m. m\<lparr>omStatus := OutboxSent, omSentAt := Some (d_now d), omUpdatedAt := d_now d\<rparr>) d)"

definition sql_mark_publish_failed :: "int \<Rightarrow> go_error option \<Rightarrow> (db, unit) eff" where
  "sql_mark_publish_failed i publish_err =
     stmt (\<lambda>d. update_outbox i
       (\<lambda>m. m\<lparr>omAttempts := omAttempts m + 1,
              omLastError := Some (case publish_err of None \<Rightarrow> [] | Some e \<Rightarrow> err_text e),
              omUpdatedAt := d_now d\<rparr>) d)"

section \<open>The schema is kept\<close>

lemma inv_pure [preserves_intros]: "preserves (db_inv d0) (\<lambda>d. (r d, d))"
  by (simp add: preserves_def)

lemma inv_update_last_updated [preserves_intros]: "preserves (db_inv d0) (update_last_updated i t)"
  unfolding update_last_updated_def by (rule inv_set_last_updated)

lemma inv_delete_subscriptions_of [preserves_intros]:
  "preserves (db_inv d0) (\<lambda>d. delete_subscriptions (P d) d)"
  using inv_delete_subscriptions by (auto simp: preserves_def)

lemma inv_update_outbox_of [preserves_intros]:
  "(\<And>d m. omID (f d m) = omID m) \<Longrightarrow> preserves (db_inv d0) (\<lambda>d. update_outbox i (f d) d)"
  using inv_update_outbox by (auto simp: preserves_def)

lemmas sql_defs = sql_chat_add_def sql_chat_remove_def sql_chat_exists_def sql_add_tag_def sql_link_add_def
  sql_link_remove_def sql_get_tags_by_link_ids_def sql_link_list_def sql_link_list_by_tag_def
  sql_link_remove_by_tag_def sql_tag_create_def sql_tag_list_def sql_tag_rename_def sql_tag_delete_def
  sql_find_subscribers_def sql_get_tracked_links_batch_def sql_update_last_updated_def
  sql_insert_outbox_message_def sql_save_link_update_outbox_def sql_save_outbox_messages_def
  sql_get_pending_messages_def sql_mark_as_sent_def sql_mark_publish_failed_def

lemma sql_repositories_inv [preserves_intros]:
  "preserves (db_inv d0) (sql_chat_add c)" "preserves (db_inv d0) (sql_chat_remove c)"
  "preserves (db_inv d0) (sql_chat_exists c)" "preserves (db_inv d0) (sql_link_add c l)"
  "preserves (db_inv d0) (sql_link_remove c u)" "preserves (db_inv d0) (sql_link_list c)"
  "preserves (db_inv d0) (sql_link_list_by_tag c n)" "preserves (db_inv d0) (sql_link_remove_by_tag c n)"
  "preserves (db_inv d0) (sql_tag_create c n)" "preserves (db_inv d0) (sql_tag_list col c)"
  "preserves (db_inv d0) (sql_tag_rename c n m)" "preserves (db_inv d0) (sql_tag_delete c n)"
  "preserves (db_inv d0) (sql_find_subscribers i)" "preserves (db_inv d0) (sql_get_tracked_links_batch x y)"
  "preserves (db_inv d0) (sql_update_last_updated i t)" "preserves (db_inv d0) (sql_save_link_update_outbox i t ms)"
  "preserves (db_inv d0) (sql_save_outbox_messages ms)" "preserves (db_inv d0) (sql_get_pending_messages x)"
  "preserves (db_inv d0) (sql_mark_as_sent i)" "preserves (db_inv d0) (sql_mark_publish_failed i e)"
  unfolding sql_defs by (intro preserves_intros; simp)+

section \<open>Refinement of the tracker\<close>

lemma db_ok_same:
  "same_tables d e \<Longrightarrow> d_link_seq d = d_link_seq e \<Longrightarrow> d_tag_seq d = d_tag_seq e \<Longrightarrow>
     d_outbox_seq d = d_outbox_seq e \<Longrightarrow> db_ok d = db_ok e"
  by (simp add: db_ok_def same_tables_def)

lemma keeps_db_ok:
  assumes "\<And>d0. preserves (db_inv d0) f" "db_ok d" "f d = (r, d')"
  shows "db_ok d'"
  using preservesD [OF preserves_db_ok [OF assms(1)] assms(2)] assms(3) by simp

lemma sql_add_tag_tracker:
  assumes "db_ok d" "r \<in> set (d_links d)" "lr_id r = l" "sql_add_tag c l name d = (Inr (), d')"
  shows "db_ok d' \<and> d_links d' = d_links d \<and>
    tracker_of d' = (tracker_of d)\<lparr>tk_tags := insert (c, name) (tk_tags (tracker_of d)),
      tk_tagged := insert (c, lr_url r, name) (tk_tagged (tracker_of d))\<rparr>"
proof -
  obtain i d1 where 1: "stmt (upsert_tag c name) d = (Inr i, d1)"
    and 2: "stmt (insert_subscription_tag c l i) d1 = (Inr (), d')"
    using assms(4) unfolding sql_add_tag_def by (rule bindE_Inr_E)
  obtain fs where u: "upsert_tag c name (d\<lparr>d_faults := fs\<rparr>) = (Inr i, d1)" using stmt_Inr [OF 1] .
  from upsert_tag_tracker [OF _ this] assms(1)
  obtain t where t: "tracker_of d1 = tk_new_tag c name (tracker_of d)" "d_links d1 = d_links d"
    "t \<in> set (d_tags d1)" "tagID t = i" "tagChatID t = c" "tagName t = name"
    by auto
  have ok1: "db_ok d1" using keeps_db_ok [OF inv_upsert_tag _ u] assms(1) by simp
  obtain gs where s: "insert_subscription_tag c l i (d1\<lparr>d_faults := gs\<rparr>) = (Inr (), d')" using stmt_Inr [OF 2] .
  have "db_ok d'" using keeps_db_ok [OF inv_insert_subscription_tag _ s] ok1 by simp
  with insert_subscription_tag_tracker [OF _ s, of r t] ok1 t assms(2,3)
  show ?thesis by (simp add: tk_new_tag_def)
qed

lemma sql_add_tags_tracker:
  assumes "db_ok d" "r \<in> set (d_links d)" "lr_id r = l" "foreachE (sql_add_tag c l) names d = (Inr (), d')"
  shows "db_ok d' \<and> d_links d' = d_links d \<and>
    tracker_of d' = (tracker_of d)\<lparr>tk_tags := tk_tags (tracker_of d) \<union> Pair c ` set names,
      tk_tagged := tk_tagged (tracker_of d) \<union> (\<lambda>n. (c, lr_url r, n)) ` set names\<rparr>"
  using assms
proof (induction names arbitrary: d)
  case (Cons n ns)
  obtain x d1 where 1: "sql_add_tag c l n d = (Inr x, d1)" and 2: "foreachE (sql_add_tag c l) ns d1 = (Inr (), d')"
    using Cons.prems(4) unfolding foreachE.simps by (rule bindE_Inr_E)
  from sql_add_tag_tracker [OF Cons.prems(1-3), of c n d1] 1
  have s1: "db_ok d1" "d_links d1 = d_links d"
    "tracker_of d1 = (tracker_of d)\<lparr>tk_tags := insert (c, n) (tk_tags (tracker_of d)),
      tk_tagged := insert (c, lr_url r, n) (tk_tagged (tracker_of d))\<rparr>" by simp_all
  from Cons.IH [OF s1(1) _ Cons.prems(3) 2] Cons.prems(2) s1 show ?case by simp
qed simp

lemma sql_link_add_tracker:
  assumes "db_ok d" "sql_link_add c link d = (r, d')"
  shows "db_ok d' \<and> (r = Inr () \<longrightarrow> tracker_of d' = tk_add_link c link (tracker_of d)) \<and>
    (tracker_of d' = tracker_of d \<or> tracker_of d' = tk_add_link c link (tracker_of d))"
proof -
  have ok': "db_ok d'" using keeps_db_ok [OF sql_repositories_inv(4) assms] .
  from assms(2) [unfolded sql_link_add_def] show ?thesis
  proof (cases rule: transaction_cases)
    case (rolled_back e)
    then show ?thesis using same_tables_tracker ok' by auto
  next
    case (committed x d1 d2)
    have ok1: "db_ok d1" using assms(1) committed(1-4) db_ok_same by blast
    from committed(5) obtain l da where
      1: "stmt (upsert_link (linkURL link) (linkLastUpdatedAt link)) d1 = (Inr l, da)" and
      k: "bindE (stmt (insert_subscription c l)) (\<lambda>_. foreachE (sql_add_tag c l) (linkTags link)) da = (Inr x, d2)"
      by (rule bindE_Inr_E)
    from k obtain y dbb where 2: "stmt (insert_subscription c l) da = (Inr y, dbb)" and
      3: "foreachE (sql_add_tag c l) (linkTags link) dbb = (Inr x, d2)"
      by (rule bindE_Inr_E)
    obtain fs where u: "upsert_link (linkURL link) (linkLastUpdatedAt link) (d1\<lparr>d_faults := fs\<rparr>) = (Inr l, da)"
      using stmt_Inr [OF 1] .
    from upsert_link_tracker [OF _ this] ok1
    obtain row where row: "tracker_of da = tk_checkpointed (linkURL link) (linkLastUpdatedAt link) (tracker_of d1)"
      "row \<in> set (d_links da)" "lr_id row = l" "lr_url row = linkURL link" by auto
    have oka: "db_ok da" using keeps_db_ok [OF inv_upsert_link _ u] ok1 by simp
    obtain gs where s: "insert_subscription c l (da\<lparr>d_faults := gs\<rparr>) = (Inr (), dbb)"
      using stmt_Inr [OF 2] by (metis (full_types) old.unit.exhaust)
    from insert_subscription_tracker [OF _ s, of row] oka row
    have sb: "tracker_of dbb = (tracker_of da)\<lparr>tk_subs := insert (c, lr_url row) (tk_subs (tracker_of da))\<rparr>"
      "d_links dbb = d_links da" by simp_all
    have okb: "db_ok dbb" using keeps_db_ok [OF inv_insert_subscription _ s] oka by simp
    from sql_add_tags_tracker [OF okb _ row(3), of c "linkTags link" d2] 3 row(2) sb(2)
    have "tracker_of d2 = (tracker_of dbb)\<lparr>tk_tags := tk_tags (tracker_of dbb) \<union> Pair c ` set (linkTags link),
      tk_tagged := tk_tagged (tracker_of dbb) \<union> (\<lambda>n. (c, lr_url row, n)) ` set (linkTags link)\<rparr>" by simp
    moreover have "tracker_of d1 = tracker_of d" "tracker_of d' = tracker_of d2"
      using committed(1,6) same_tables_tracker by blast+
    ultimately have "tracker_of d' = tk_add_link c link (tracker_of d)"
      using sb row by (simp add: tk_add_link_def tk_add_def tk_checkpointed_def)
    then show ?thesis using ok' by blast
  qed
qed

lemma tk_untrack_none: "\<not> (\<exists>u \<in> U. (c, u) \<in> tk_subs (tracker_of d)) \<Longrightarrow> db_ok d \<Longrightarrow> tk_untrack c U (tracker_of d) = tracker_of d"
proof -
  assume a: "\<not> (\<exists>u \<in> U. (c, u) \<in> tk_subs (tracker_of d))" "db_ok d"
  have "(c, u) \<in> tk_subs (tracker_of d)" if "(c, u, n) \<in> tk_tagged (tracker_of d)" for u n
    using that db_ok_sub_tagD [OF a(2)] by (auto simp: tk_tagged_iff tk_subs_iff)
  with a(1) show ?thesis by (intro tracker_eqI) (auto simp: tk_untrack_def)
qed

lemma delete_subscriptions_count:
  assumes "db_ok d" "delete_subscriptions (\<lambda>(a, l). a = c \<and> l \<in> L) d = (Inr n, d')"
  shows "n = int (card {u. (c, u) \<in> tk_subs (tracker_of d) \<and> (\<exists>r \<in> set (d_links d). lr_url r = u \<and> lr_id r \<in> L)})"
proof -
  let ?S = "{s \<in> set (d_subs d). case s of (a, l) \<Rightarrow> a = c \<and> l \<in> L}"
  let ?U = "{u. (c, u) \<in> tk_subs (tracker_of d) \<and> (\<exists>r \<in> set (d_links d). lr_url r = u \<and> lr_id r \<in> L)}"
  let ?R = "{r \<in> set (d_links d). (c, lr_id r) \<in> set (d_subs d) \<and> lr_id r \<in> L}"
  have "n = int (length (filter (\<lambda>(a, l). a = c \<and> l \<in> L) (d_subs d)))"
    using assms(2) by (simp add: delete_subscriptions_def)
  also have "length (filter (\<lambda>(a, l). a = c \<and> l \<in> L) (d_subs d)) = card ?S"
    using assms(1) by (subst distinct_card [symmetric]) (simp_all add: db_ok_def)
  also have "?S = (\<lambda>r. (c, lr_id r)) ` ?R"
    using db_ok_subD [OF assms(1)] by (auto simp: image_iff)
  also have "card \<dots> = card ?R"
    using db_ok_link_inj [OF assms(1)] by (intro card_image) (auto simp: inj_on_def)
  also have "card ?R = card (lr_url ` ?R)"
    using db_ok_url_inj [OF assms(1)] by (intro card_image [symmetric]) (auto simp: inj_on_def)
  also have "lr_url ` ?R = ?U"
    using db_ok_url_inj [OF assms(1)] by (auto simp: tk_subs_iff image_iff)
  finally show ?thesis .
qed

lemma urls_of_ids:
  assumes "db_ok d"
  shows "tk_untrack c {lr_url r | r. r \<in> set (d_links d) \<and> lr_id r \<in> link_ids_of_url u d} t = tk_untrack c ({u} \<inter> lr_url ` set (d_links d)) t"
proof -
  have "{lr_url r | r. r \<in> set (d_links d) \<and> lr_id r \<in> link_ids_of_url u d} = {u} \<inter> lr_url ` set (d_links d)"
    using db_ok_link_inj [OF assms] by (force simp: link_ids_of_url_def)
  then show ?thesis by simp
qed

lemma tk_untrack_known_urls:
  "db_ok d \<Longrightarrow> tk_untrack c (U \<inter> lr_url ` set (d_links d)) (tracker_of d) = tk_untrack c U (tracker_of d)"
  by (intro tracker_eqI) (auto simp: tk_untrack_def tk_subs_iff tk_tagged_iff)

lemma untrack_url:
  assumes "db_ok d" "delete_subscriptions (\<lambda>(a, l). a = c \<and> l \<in> link_ids_of_url u d) d = (Inr n, d')"
  shows "tracker_of d' = tk_untrack c {u} (tracker_of d) \<and> (n = 0 \<longleftrightarrow> (c, u) \<notin> tk_subs (tracker_of d))"
proof -
  have "tracker_of d' = tk_untrack c {u} (tracker_of d)"
    using delete_subscriptions_tracker [OF assms(1), of c "link_ids_of_url u d"] assms(2)
    by (simp add: urls_of_ids [OF assms(1)] tk_untrack_known_urls [OF assms(1)] del: Int_insert_left)
  moreover have "{v. (c, v) \<in> tk_subs (tracker_of d) \<and> (\<exists>r \<in> set (d_links d). lr_url r = v \<and> lr_id r \<in> link_ids_of_url u d)}
      = (if (c, u) \<in> tk_subs (tracker_of d) then {u} else {})"
    using db_ok_link_inj [OF assms(1)] by (force simp: link_ids_of_url_def tk_subs_iff)
  with delete_subscriptions_count [OF assms] have "n = 0 \<longleftrightarrow> (c, u) \<notin> tk_subs (tracker_of d)"
    by (simp split: if_splits)
  ultimately show ?thesis by blast
qed

lemma urls_with_tag:
  assumes "db_ok d"
  shows "{lr_url r | r. r \<in> set (d_links d) \<and> lr_id r \<in> link_ids_with_tag c n d} = tk_urls_with_tag c n (tracker_of d)"
  by (force simp: link_ids_with_tag_def tk_urls_with_tag_def tk_tagged_iff)

lemma untrack_tag:
  assumes "db_ok d" "delete_subscriptions (\<lambda>(a, l). a = c \<and> l \<in> link_ids_with_tag c n d) d = (Inr k, d')"
  shows "tracker_of d' = tk_remove_by_tag c n (tracker_of d) \<and> k = int (card (tk_urls_with_tag c n (tracker_of d)))"
proof -
  have "tracker_of d' = tk_remove_by_tag c n (tracker_of d)"
    using delete_subscriptions_tracker [OF assms(1), of c "link_ids_with_tag c n d"] assms(2)
    by (simp add: urls_with_tag [OF assms(1)] tk_remove_by_tag_def)
  moreover have "{v. (c, v) \<in> tk_subs (tracker_of d) \<and> (\<exists>r \<in> set (d_links d). lr_url r = v \<and> lr_id r \<in> link_ids_with_tag c n d)}
      = tk_urls_with_tag c n (tracker_of d)"
    using db_ok_sub_tagD [OF assms(1)]
    by (auto simp: link_ids_with_tag_def tk_urls_with_tag_def tk_tagged_iff tk_subs_iff)
  ultimately show ?thesis using delete_subscriptions_count [OF assms] by simp
qed

text \<open>A statement on a calm database runs, and one that does not fail keeps its law under faults.\<close>

lemma stmt_calm: "d_faults d = [] \<Longrightarrow> stmt f d = f d"
  by (simp add: stmt_def)

lemma query_calm: "d_faults d = [] \<Longrightarrow> query q d = (Inr (q d), d)"
  by (simp add: query_def stmt_calm)

lemma transaction_calm:
  "d_faults d = [] \<Longrightarrow> body d = (Inr x, d') \<Longrightarrow> d_faults d' = [] \<Longrightarrow> transaction body d = (Inr x, d')"
  by (simp add: transaction_def stmt_calm)

lemma query_Inr: "query q d = (r, d') \<Longrightarrow> same_tables d' d \<and> (\<forall>x. r = Inr x \<longrightarrow> x = q d') \<and> tracker_of d' = tracker_of d"
  unfolding query_def
proof (erule stmt_cases)
  assume "same_tables d' d"
  then have "tracker_of d' = tracker_of d" by (rule same_tables_tracker)
  moreover fix e assume "r = Inl e"
  ultimately show "same_tables d' d \<and> (\<forall>x. r = Inr x \<longrightarrow> x = q d') \<and> tracker_of d' = tracker_of d"
    using \<open>same_tables d' d\<close> by simp
qed auto

lemma add_tag_calm:
  assumes "db_ok d" "d_faults d = []" "c \<in> set (d_chats d)" "(c, l) \<in> set (d_subs d)"
  shows "\<exists>d'. sql_add_tag c l n d = (Inr (), d') \<and> d_faults d' = [] \<and> d_chats d' = d_chats d \<and> d_subs d' = d_subs d \<and> db_ok d'"
proof -
  have "\<exists>i d1. upsert_tag c n d = (Inr i, d1) \<and> d_faults d1 = [] \<and> d_chats d1 = d_chats d \<and>
      d_subs d1 = d_subs d \<and> d_sub_tags d1 = d_sub_tags d"
    using assms(2,3) by (cases "find_tag c n d") (simp_all add: upsert_tag_def insert_tag_def Let_def)
  then obtain i d1 where u: "upsert_tag c n d = (Inr i, d1)"
    and d1: "d_faults d1 = []" "d_chats d1 = d_chats d" "d_subs d1 = d_subs d" "d_sub_tags d1 = d_sub_tags d"
    by blast
  have ok1: "db_ok d1" using keeps_db_ok [OF inv_upsert_tag assms(1) u] .
  obtain t where t: "t \<in> set (d_tags d1)" "tagID t = i" "tagChatID t = c"
    using upsert_tag_tracker [OF assms(1) u] by blast
  have "\<exists>d2. insert_subscription_tag c l i d1 = (Inr (), d2) \<and> d_faults d2 = [] \<and> d_chats d2 = d_chats d \<and> d_subs d2 = d_subs d"
    using t d1 assms(4) unfolding insert_subscription_tag_def by auto
  then obtain d2 where s: "insert_subscription_tag c l i d1 = (Inr (), d2)"
    and d2: "d_faults d2 = []" "d_chats d2 = d_chats d" "d_subs d2 = d_subs d" by blast
  have "db_ok d2" using keeps_db_ok [OF inv_insert_subscription_tag ok1 s] .
  moreover have "sql_add_tag c l n d = (Inr (), d2)"
    using u s assms(2) d1(1) by (simp add: sql_add_tag_def stmt_calm)
  ultimately show ?thesis using d2 by blast
qed

lemma add_tags_calm:
  assumes "db_ok d" "d_faults d = []" "c \<in> set (d_chats d)" "(c, l) \<in> set (d_subs d)"
  shows "\<exists>d'. foreachE (sql_add_tag c l) ns d = (Inr (), d') \<and> d_faults d' = []"
  using assms
proof (induction ns arbitrary: d)
  case (Cons n ns)
  from add_tag_calm [OF Cons.prems, of n] obtain d1 where d1: "sql_add_tag c l n d = (Inr (), d1)"
    "d_faults d1 = []" "d_chats d1 = d_chats d" "d_subs d1 = d_subs d" "db_ok d1" by blast
  with Cons.IH [of d1] Cons.prems show ?case by simp
qed simp

lemma sql_link_add_calm:
  assumes "db_ok d" "d_faults d = []" "c \<in> set (d_chats d)"
  shows "\<exists>d'. sql_link_add c link d = (Inr (), d') \<and> d_faults d' = []"
proof -
  have "\<exists>l d1. upsert_link (linkURL link) (linkLastUpdatedAt link) d = (Inr l, d1) \<and> d_faults d1 = [] \<and> d_chats d1 = d_chats d"
    using assms(2) by (auto simp: upsert_link_def Let_def split: option.split)
  then obtain l d1 where u: "upsert_link (linkURL link) (linkLastUpdatedAt link) d = (Inr l, d1)"
    and d1: "d_faults d1 = []" "d_chats d1 = d_chats d" by blast
  have ok1: "db_ok d1" using keeps_db_ok [OF inv_upsert_link assms(1) u] .
  obtain r where "r \<in> set (d_links d1)" "lr_id r = l" using upsert_link_tracker [OF assms(1) u] by blast
  then have "\<exists>d2. insert_subscription c l d1 = (Inr (), d2) \<and> d_faults d2 = [] \<and> d_chats d2 = d_chats d \<and> (c, l) \<in> set (d_subs d2)"
    using d1 assms(3) by (auto simp: insert_subscription_def)
  then obtain d2 where s: "insert_subscription c l d1 = (Inr (), d2)"
    and d2: "d_faults d2 = []" "d_chats d2 = d_chats d" "(c, l) \<in> set (d_subs d2)" by blast
  have ok2: "db_ok d2" using keeps_db_ok [OF inv_insert_subscription ok1 s] .
  obtain d3 where "foreachE (sql_add_tag c l) (linkTags link) d2 = (Inr (), d3)" "d_faults d3 = []"
    using add_tags_calm [OF ok2 d2(1) _ d2(3)] d2(2) assms(3) by auto
  then have "sql_link_add c link d = (Inr (), d3)"
    unfolding sql_link_add_def using u s assms(2) d1 d2
    by (intro transaction_calm) (simp_all add: stmt_calm)
  with \<open>d_faults d3 = []\<close> show ?thesis by blast
qed

section \<open>Listing\<close>

lemma set_listed_rows:
  "set (listed_rows c d) = {r \<in> set (d_links d). (c, lr_id r) \<in> set (d_subs d)}"
  by (auto simp: listed_rows_def split: if_splits)

lemma concat_map_if: "concat (map (\<lambda>x. if P x then [x] else []) xs) = filter P xs"
  by (induction xs) auto

lemma filter_unique:
  "distinct (map f xs) \<Longrightarrow> x \<in> set xs \<Longrightarrow> filter (\<lambda>y. f y = f x) xs = [x]"
proof (induction xs)
  case (Cons a xs)
  show ?case
  proof (cases "a = x")
    case True
    with Cons.prems have "\<forall>y \<in> set xs. f y \<noteq> f x" by (auto simp: image_iff)
    then show ?thesis using True by (simp add: filter_False)
  next
    case False
    with Cons show ?thesis by (auto simp: image_iff)
  qed
qed simp

lemma distinct_listed_rows:
  assumes "db_ok d"
  shows "distinct (map lr_url (listed_rows c d))"
proof -
  have rows: "listed_rows c d = concat (map (\<lambda>(a, l). if a = c then filter (\<lambda>r. lr_id r = l) (d_links d) else []) (d_subs d))"
    unfolding listed_rows_def
    by (rule arg_cong [where f = concat], rule map_cong) (auto simp: concat_map_if)
  have ids: "map lr_id (concat (map (\<lambda>(a, l). if a = c then filter (\<lambda>r. lr_id r = l) (d_links d) else []) ss))
      = map snd (filter (\<lambda>(a, l). a = c) ss)" if "set ss \<subseteq> set (d_subs d)" for ss
    using that
  proof (induction ss)
    case (Cons s ss)
    obtain a l where s: "s = (a, l)" by fastforce
    then obtain r where "r \<in> set (d_links d)" "lr_id r = l" using db_ok_subD [OF assms, of a l] Cons.prems by auto
    moreover have "distinct (map lr_id (d_links d))" using assms by (simp add: db_ok_def)
    ultimately have "filter (\<lambda>r. lr_id r = l) (d_links d) = [r]" using filter_unique [of lr_id "d_links d" r] by simp
    with Cons s \<open>lr_id r = l\<close> show ?case by simp
  qed simp
  have "distinct (map snd (filter (\<lambda>(a, l). a = c) (d_subs d)))"
    using assms by (auto simp: distinct_map inj_on_def db_ok_def)
  then have "distinct (map lr_id (listed_rows c d))" using ids [of "d_subs d"] rows by simp
  then have "distinct (listed_rows c d)" by (simp add: distinct_map)
  then show ?thesis using db_ok_url_inj [OF assms]
    by (auto simp: distinct_map inj_on_def set_listed_rows)
qed

lemma set_group_tags:
  assumes "l \<in> ids"
  shows "set (group_tags (tag_names_by_link c ids d) l) =
     {tagName t | t. t \<in> set (d_tags d) \<and> tagChatID t = c \<and> (c, l, tagID t) \<in> set (d_sub_tags d)}"
  using assms by (auto simp: group_tags_def tag_names_by_link_def image_iff split: if_splits) blast+

lemma link_of_row_simps [simp]:
  "linkURL (link_of_row t r) = lr_url r" "linkTags (link_of_row t r) = t (lr_id r)"
  "linkLastUpdatedAt (link_of_row t r) = lr_last_updated r"
  by (simp_all add: link_of_row_def)

lemma lists_links_rows:
  assumes "db_ok d"
  shows "lists_links c (map (link_of_row (group_tags (tag_names_by_link c (lr_id ` set (listed_rows c d)) d)))
      (listed_rows c d)) (tracker_of d)"
proof -
  let ?rows = "listed_rows c d"
  let ?tags = "group_tags (tag_names_by_link c (lr_id ` set ?rows) d)"
  have tagged: "set (?tags (lr_id r)) = {n. (c, lr_url r, n) \<in> tk_tagged (tracker_of d)}" if "r \<in> set ?rows" for r
  proof -
    have r: "r \<in> set (d_links d)" using that by (simp add: set_listed_rows)
    have "lr_url s = lr_url r \<longleftrightarrow> s = r" if "s \<in> set (d_links d)" for s
      using db_ok_url_inj [OF assms that r] by blast
    then have "(c, lr_url r, n) \<in> tk_tagged (tracker_of d) \<longleftrightarrow>
        (\<exists>t \<in> set (d_tags d). tagName t = n \<and> tagChatID t = c \<and> (c, lr_id r, tagID t) \<in> set (d_sub_tags d))" for n
      using r by (auto simp: tk_tagged_iff)
    then show ?thesis using set_group_tags [of "lr_id r" "lr_id ` set ?rows" c d] that by auto
  qed
  have cp: "tk_checkpoint (tracker_of d) (lr_url r) = Some (lr_last_updated r)" if "r \<in> set ?rows" for r
    using that assms
    by (auto simp: tk_checkpoint_tracker_of set_listed_rows db_ok_def comp_def intro!: map_of_is_SomeI)
  show ?thesis unfolding lists_links_def
  proof (intro conjI ballI)
    show "linkURL ` set (map (link_of_row ?tags) ?rows) = {u. (c, u) \<in> tk_subs (tracker_of d)}"
      by (auto simp: tk_subs_iff set_listed_rows image_iff)
    show "distinct (map linkURL (map (link_of_row ?tags) ?rows))"
      using distinct_listed_rows [OF assms] by (simp add: comp_def)
    fix l assume "l \<in> set (map (link_of_row ?tags) ?rows)"
    then obtain r where "r \<in> set ?rows" "l = link_of_row ?tags r" by auto
    then show "set (linkTags l) = {n. (c, linkURL l, n) \<in> tk_tagged (tracker_of d)}"
      and "tk_checkpoint (tracker_of d) (linkURL l) = Some (linkLastUpdatedAt l)"
      using tagged cp by simp_all
  qed
qed

lemma same_tables_listed:
  "same_tables d e \<Longrightarrow> listed_rows c d = listed_rows c e \<and> tag_names_by_link c ids d = tag_names_by_link c ids e"
  by (simp add: same_tables_def listed_rows_def tag_names_by_link_def)

lemma group_tags_none: "listed_rows c d = [] \<Longrightarrow> map (link_of_row t) (listed_rows c d) = []"
  by simp

lemma sql_link_list_law:
  assumes "db_ok d" "sql_link_list c d = (r, d')"
  shows "db_ok d' \<and> tracker_of d' = tracker_of d \<and> (\<forall>ls. r = Inr ls \<longrightarrow> lists_links c ls (tracker_of d)) \<and>
    (d_faults d = [] \<longrightarrow> d_faults d' = [] \<and> (\<exists>ls. r = Inr ls))"
proof -
  have ok': "db_ok d'" using keeps_db_ok [OF sql_repositories_inv(6) assms] .
  note def = sql_link_list_def [of c]
  obtain r1 d1 where q1: "query (listed_rows c) d = (r1, d1)" by fastforce
  note s1 = query_Inr [OF q1]
  show ?thesis
  proof (cases r1)
    case (Inl e)
    have "d_faults d \<noteq> []" using q1 Inl query_calm [of d "listed_rows c"] by auto
    then show ?thesis using assms(2) def q1 Inl ok' s1 by auto
  next
    case (Inr rows)
    then have rows: "rows = listed_rows c d1" using s1 by auto
    have eq: "listed_rows c d1 = listed_rows c d" using s1 same_tables_listed by blast
    show ?thesis
    proof (cases "rows = []")
      case True
      then have "(r, d') = (Inr [], d1)" using assms(2) q1 Inr
        by (simp add: def sql_get_tags_by_link_ids_def bindE_def)
      moreover have "lists_links c [] (tracker_of d)"
        using lists_links_rows [OF assms(1), of c] True rows eq by simp
      ultimately show ?thesis using s1 ok' q1 query_calm [of d "listed_rows c"] by auto
    next
      case False
      obtain r2 d2 where q2: "query (tag_names_by_link c (lr_id ` set rows)) d1 = (r2, d2)" by fastforce
      note s2 = query_Inr [OF q2]
      have res: "(r, d') = (case r2 of Inl e \<Rightarrow> (Inl e, d2)
          | Inr ns \<Rightarrow> (Inr (map (link_of_row (group_tags ns)) rows), d2))"
        using assms(2) q1 Inr q2 False by (cases r2) (simp_all add: def sql_get_tags_by_link_ids_def bindE_def)
      have tr: "tracker_of d' = tracker_of d" using s1 s2 res by (auto split: sum.splits)
      have "lists_links c ls (tracker_of d)" if "r = Inr ls" for ls
      proof -
        from that res obtain ns where ns: "r2 = Inr ns" "ls = map (link_of_row (group_tags ns)) rows"
          by (auto split: sum.splits)
        then have "ns = tag_names_by_link c (lr_id ` set rows) d2" using s2 by blast
        also have "\<dots> = tag_names_by_link c (lr_id ` set rows) d"
          using s1 s2 same_tables_listed same_tables_trans by blast
        finally show ?thesis using lists_links_rows [OF assms(1), of c] ns rows eq by simp
      qed
      moreover have "d_faults d = [] \<longrightarrow> d_faults d' = [] \<and> (\<exists>ls. r = Inr ls)"
        using q1 q2 res query_calm [of d "listed_rows c"]
          query_calm [of d1 "tag_names_by_link c (lr_id ` set rows)"] by auto
      ultimately show ?thesis using ok' tr by blast
    qed
  qed
qed

lemma calm_delete: "delete_subscriptions P d = (Inr n, d') \<Longrightarrow> d_faults d' = d_faults d"
  by (auto simp: delete_subscriptions_def)

lemma delete_subscriptions_Inr: "\<exists>n d'. delete_subscriptions P d = (Inr n, d')"
  by (simp add: delete_subscriptions_def)

text \<open>
  A delete of subscriptions under faults, for the two methods that use it: the law of the statement
  (\<open>E\<close> its effect, \<open>N\<close> what its count says) gives the law of the method.
\<close>

lemma delete_stmt_law:
  assumes "db_ok d" "stmt (\<lambda>d. delete_subscriptions (\<lambda>(a, l). a = c \<and> l \<in> L d) d) d = (r, d')"
    and law: "\<And>e n e'. db_ok e \<Longrightarrow> tracker_of e = tracker_of d \<Longrightarrow>
      delete_subscriptions (\<lambda>(a, l). a = c \<and> l \<in> L e) e = (Inr n, e') \<Longrightarrow> tracker_of e' = T \<and> N n"
  shows "(tracker_of d' = tracker_of d \<or> tracker_of d' = T) \<and> (\<forall>n. r = Inr n \<longrightarrow> tracker_of d' = T \<and> N n) \<and>
    (d_faults d = [] \<longrightarrow> d_faults d' = [] \<and> (\<exists>n. r = Inr n))"
proof (intro conjI impI)
  show "(tracker_of d' = tracker_of d \<or> tracker_of d' = T)"
    using assms(2)
  proof (cases rule: stmt_cases)
    case (not_run e)
    then show ?thesis using same_tables_tracker by blast
  next
    case (ran fs r1)
    obtain n e' where "delete_subscriptions (\<lambda>(a, l). a = c \<and> l \<in> L (d\<lparr>d_faults := fs\<rparr>)) (d\<lparr>d_faults := fs\<rparr>) = (Inr n, e')"
      using delete_subscriptions_Inr by blast
    with law [OF _ _ this] ran assms(1) show ?thesis by auto
  qed
  show "\<forall>n. r = Inr n \<longrightarrow> tracker_of d' = T \<and> N n"
  proof (intro allI impI)
    fix n assume "r = Inr n"
    then have "stmt (\<lambda>d. delete_subscriptions (\<lambda>(a, l). a = c \<and> l \<in> L d) d) d = (Inr n, d')"
      using assms(2) by simp
    then obtain fs where "delete_subscriptions (\<lambda>(a, l). a = c \<and> l \<in> L (d\<lparr>d_faults := fs\<rparr>)) (d\<lparr>d_faults := fs\<rparr>) = (Inr n, d')"
      by (rule stmt_Inr)
    with law [OF _ _ this] assms(1) show "tracker_of d' = T \<and> N n" by simp
  qed
  show "d_faults d' = []" "\<exists>n. r = Inr n" if "d_faults d = []"
    using assms(2) that by (auto simp: stmt_calm delete_subscriptions_def)
qed

lemma sql_link_remove_law:
  assumes "db_ok d" "sql_link_remove c u d = (r, d')"
  shows "db_ok d' \<and> (r = Inr () \<longrightarrow> (c, u) \<in> tk_subs (tracker_of d) \<and> tracker_of d' = tk_untrack c {u} (tracker_of d)) \<and>
    (tracker_of d' = tracker_of d \<or> tracker_of d' = tk_untrack c {u} (tracker_of d)) \<and>
    ((c, u) \<notin> tk_subs (tracker_of d) \<longrightarrow> tracker_of d' = tracker_of d) \<and>
    (d_faults d = [] \<longrightarrow> d_faults d' = [] \<and> r = (if (c, u) \<in> tk_subs (tracker_of d) then Inr () else Inl ErrLinkNotFound))"
proof -
  obtain r1 d1 where s: "stmt (\<lambda>d. delete_subscriptions (\<lambda>(a, l). a = c \<and> l \<in> link_ids_of_url u d) d) d = (r1, d1)"
    by fastforce
  have law: "tracker_of e' = tk_untrack c {u} (tracker_of d) \<and> (n = 0 \<longleftrightarrow> (c, u) \<notin> tk_subs (tracker_of d))"
    if "db_ok e" "tracker_of e = tracker_of d"
      "delete_subscriptions (\<lambda>(a, l). a = c \<and> l \<in> link_ids_of_url u e) e = (Inr n, e')" for e n e'
    using untrack_url [OF that(1,3)] that(2) by simp
  have l: "(tracker_of d1 = tracker_of d \<or> tracker_of d1 = tk_untrack c {u} (tracker_of d)) \<and>
      (\<forall>n. r1 = Inr n \<longrightarrow> tracker_of d1 = tk_untrack c {u} (tracker_of d) \<and> (n = 0 \<longleftrightarrow> (c, u) \<notin> tk_subs (tracker_of d))) \<and>
      (d_faults d = [] \<longrightarrow> d_faults d1 = [] \<and> (\<exists>n. r1 = Inr n))"
    by (rule delete_stmt_law [OF assms(1) s]) (rule law)
  have "db_ok d'" using keeps_db_ok [OF sql_repositories_inv(5) assms] .
  moreover have "d' = d1" "r = (case r1 of Inl e \<Rightarrow> Inl e | Inr n \<Rightarrow> if n = 0 then Inl ErrLinkNotFound else Inr ())"
    using assms(2) s by (auto simp: sql_link_remove_def bindE_def split: sum.splits if_splits)
  moreover have "(c, u) \<notin> tk_subs (tracker_of d) \<Longrightarrow> tk_untrack c {u} (tracker_of d) = tracker_of d"
    using tk_untrack_none [of "{u}" c d] assms(1) by simp
  ultimately show ?thesis using l by (cases r1) auto
qed

lemma sql_link_remove_by_tag_law:
  assumes "db_ok d" "sql_link_remove_by_tag c n d = (r, d')"
  shows "db_ok d' \<and>
    (\<forall>k. r = Inr k \<longrightarrow> tracker_of d' = tk_remove_by_tag c n (tracker_of d) \<and> k = int (card (tk_urls_with_tag c n (tracker_of d)))) \<and>
    (tracker_of d' = tracker_of d \<or> tracker_of d' = tk_remove_by_tag c n (tracker_of d)) \<and>
    (d_faults d = [] \<longrightarrow> d_faults d' = [] \<and> (\<exists>k. r = Inr k))"
proof -
  have law: "tracker_of e' = tk_remove_by_tag c n (tracker_of d) \<and> k = int (card (tk_urls_with_tag c n (tracker_of d)))"
    if "db_ok e" "tracker_of e = tracker_of d"
      "delete_subscriptions (\<lambda>(a, l). a = c \<and> l \<in> link_ids_with_tag c n e) e = (Inr k, e')" for e k e'
    using untrack_tag [OF that(1,3)] that(2) by simp
  have "(tracker_of d' = tracker_of d \<or> tracker_of d' = tk_remove_by_tag c n (tracker_of d)) \<and>
      (\<forall>k. r = Inr k \<longrightarrow> tracker_of d' = tk_remove_by_tag c n (tracker_of d) \<and>
         k = int (card (tk_urls_with_tag c n (tracker_of d)))) \<and>
      (d_faults d = [] \<longrightarrow> d_faults d' = [] \<and> (\<exists>k. r = Inr k))"
    by (rule delete_stmt_law [OF assms(1) assms(2) [unfolded sql_link_remove_by_tag_def]]) (rule law)
  moreover have "db_ok d'" using keeps_db_ok [OF sql_repositories_inv(8) assms] .
  ultimately show ?thesis by blast
qed

lemma sql_chat_exists_law:
  assumes "db_ok d" "sql_chat_exists c d = (r, d')"
  shows "db_ok d' \<and> tracker_of d' = tracker_of d \<and> (\<forall>b. r = Inr b \<longrightarrow> b = (c \<in> tk_chats (tracker_of d))) \<and>
    (d_faults d = [] \<longrightarrow> d_faults d' = [] \<and> (\<exists>b. r = Inr b))"
proof -
  have "db_ok d'" using keeps_db_ok [OF sql_repositories_inv(3) assms] .
  then show ?thesis using assms(2) stmt_form [of "chat_exists c" d]
    by (auto simp: sql_chat_exists_def chat_exists_def stmt_calm)
qed

lemma sql_chat_add_law:
  assumes "db_ok d" "sql_chat_add c d = (r, d')"
  shows "db_ok d' \<and> (r = Inr () \<longrightarrow> tracker_of d' = tk_register c (tracker_of d)) \<and>
    (tracker_of d' = tracker_of d \<or> tracker_of d' = tk_register c (tracker_of d)) \<and>
    (d_faults d = [] \<longrightarrow> d_faults d' = [] \<and> r = Inr ())"
proof -
  have "db_ok d'" using keeps_db_ok [OF sql_repositories_inv(1) assms] .
  moreover have tr: "tracker_of (snd (insert_chat c (d\<lparr>d_faults := fs\<rparr>))) = tk_register c (tracker_of d)" for fs
    by (simp add: tracker_insert_chat)
  have "tracker_of d' = tracker_of d \<or> tracker_of d' = tk_register c (tracker_of d)"
    "r = Inr () \<longrightarrow> tracker_of d' = tk_register c (tracker_of d)"
    using assms(2) stmt_form [of "insert_chat c" d] tr unfolding sql_chat_add_def by (auto, (metis snd_conv)+)
  moreover have "d_faults d = [] \<longrightarrow> d_faults d' = [] \<and> r = Inr ()"
    using assms(2) by (auto simp: sql_chat_add_def stmt_calm insert_chat_def)
  ultimately show ?thesis by blast
qed

lemma sql_chat_remove_law:
  assumes "db_ok d" "sql_chat_remove c d = (r, d')"
  shows "db_ok d' \<and> (r = Inr () \<longrightarrow> tracker_of d' = tk_unregister c (tracker_of d)) \<and>
    (tracker_of d' = tracker_of d \<or> tracker_of d' = tk_unregister c (tracker_of d)) \<and>
    (d_faults d = [] \<longrightarrow> d_faults d' = [] \<and> r = (if c \<in> tk_chats (tracker_of d) then Inr () else Inl RepoErrChatNotFound))"
proof -
  have ok: "db_ok d'" using keeps_db_ok [OF sql_repositories_inv(2) assms] .
  obtain r1 d1 where s: "stmt (delete_chat c) d = (r1, d1)" by fastforce
  have d': "d' = d1" "r = (case r1 of Inl e \<Rightarrow> Inl e | Inr n \<Rightarrow> if n = 0 then Inl RepoErrChatNotFound else Inr ())"
    using assms(2) s by (auto simp: sql_chat_remove_def bindE_def split: sum.splits if_splits)
  have tr: "tracker_of (snd (delete_chat c (d\<lparr>d_faults := fs\<rparr>))) = tk_unregister c (tracker_of d)" for fs
    by (simp add: tracker_delete_chat)
  have eff: "tracker_of d1 = tracker_of d \<or> tracker_of d1 = tk_unregister c (tracker_of d)"
    "\<forall>n. r1 = Inr n \<longrightarrow> tracker_of d1 = tk_unregister c (tracker_of d)"
    using s stmt_form [of "delete_chat c" d] tr by (auto, (metis snd_conv)+)
  have calm: "d_faults d1 = [] \<and> r1 = Inr (int (length (filter (\<lambda>x. x = c) (d_chats d))))" if "d_faults d = []"
    using s that by (auto simp: stmt_calm delete_chat_def)
  have "length (filter (\<lambda>x. x = c) (d_chats d)) = 0 \<longleftrightarrow> c \<notin> set (d_chats d)" by (auto simp: filter_empty_conv)
  with ok eff calm d' show ?thesis by (cases r1) auto
qed

interpretation sql: tracker_store db_ok "\<lambda>d. d_faults d = []" tracker_of sql_chat_add sql_chat_remove
  sql_chat_exists sql_link_add sql_link_remove sql_link_remove_by_tag sql_link_list
proof (unfold_locales, goal_cases)
  case (4 s c l r s')
  then show ?case using sql_link_add_tracker [of s c l r s'] sql_link_add_calm [of s c l]
    by fastforce
next
  case (1 s c r s')
  then show ?case by (rule sql_chat_add_law)
next
  case (2 s c r s')
  then show ?case by (rule sql_chat_remove_law)
next
  case (3 s c r s')
  then show ?case by (rule sql_chat_exists_law)
next
  case (5 s c u r s')
  then show ?case by (rule sql_link_remove_law)
next
  case (6 s c n r s')
  then show ?case by (rule sql_link_remove_by_tag_law)
next
  case (7 s c r s')
  then show ?case by (rule sql_link_list_law)
next
  case (8 s c n)
  show ?case by (rule tracker_of_finite_tagged)
next
  case (9 s c)
  then show ?case using tracker_of_unregister_none [of s c] by simp
qed

end
