(* ===== verification/Orm_Repositories.thy ===== *)
theory Orm_Repositories
  imports Sql_Repositories
begin

text \<open>
  The repositories over gorm (\<open>scrapper/internal/infrastructure/persistence/orm\<close>).  gorm turns
  the calls into the statements of \<open>Scrapper_Db\<close>: a write outside a transaction is wrapped in
  one of its own, \<open>First\<close> fails when there is no row, and errors of the driver are passed on
  as they are unless \<open>TranslateError\<close> is set, an argument here.
\<close>

section \<open>gorm\<close>

definition gorm_write :: "(db, 'a) eff \<Rightarrow> (db, 'a) eff" where
  "gorm_write f = transaction (stmt f)"

definition gorm_record_not_found :: go_error where
  "gorm_record_not_found = LibError ''gorm'' ''record not found''"

definition gorm_duplicated_key :: go_error where
  "gorm_duplicated_key = LibError ''gorm'' ''duplicated key not allowed''"

definition gorm_error :: "bool \<Rightarrow> go_error \<Rightarrow> go_error" where
  "gorm_error translate e = (if translate \<and> e = PqError unique_violation then gorm_duplicated_key else e)"

section \<open>Chats\<close>

definition orm_chat_add :: "int \<Rightarrow> (db, unit) eff" where
  "orm_chat_add chat = gorm_write (insert_chat chat)"

definition orm_chat_remove :: "int \<Rightarrow> (db, unit) eff" where
  "orm_chat_remove chat =
     bindE (gorm_write (delete_chat chat)) (\<lambda>rows. if rows = 0 then throw RepoErrChatNotFound else ret ())"

definition orm_chat_exists :: "int \<Rightarrow> (db, bool) eff" where
  "orm_chat_exists chat =
     bindE (query (\<lambda>d. length (filter (\<lambda>c. c = chat) (d_chats d)))) (\<lambda>count. ret (count > 0))"

section \<open>Links\<close>

definition gorm_first_link :: "string \<Rightarrow> (db, link_row) eff" where
  "gorm_first_link url =
     stmt (\<lambda>d. (case find_link url d of None \<Rightarrow> Inl gorm_record_not_found | Some r \<Rightarrow> Inr r, d))"

definition gorm_first_tag :: "int \<Rightarrow> string \<Rightarrow> (db, tag) eff" where
  "gorm_first_tag chat name =
     stmt (\<lambda>d. (case find_tag chat name d of None \<Rightarrow> Inl gorm_record_not_found | Some t \<Rightarrow> Inr t, d))"

definition orm_add_tag :: "int \<Rightarrow> int \<Rightarrow> string \<Rightarrow> (db, unit) eff" where
  "orm_add_tag chat link_id name =
     bindE (stmt (upsert_tag chat name)) (\<lambda>_.
     bindE (gorm_first_tag chat name) (\<lambda>persisted_tag.
     stmt (insert_subscription_tag chat link_id (tagID persisted_tag))))"

definition orm_link_add :: "int \<Rightarrow> link \<Rightarrow> (db, unit) eff" where
  "orm_link_add chat link =
     transaction
       (bindE (stmt (upsert_link (linkURL link) (linkLastUpdatedAt link))) (\<lambda>_.
        bindE (gorm_first_link (linkURL link)) (\<lambda>persisted_link.
        bindE (stmt (insert_subscription chat (lr_id persisted_link))) (\<lambda>_.
        foreachE (orm_add_tag chat (lr_id persisted_link)) (linkTags link)))))"

definition orm_link_remove :: "int \<Rightarrow> string \<Rightarrow> (db, unit) eff" where
  "orm_link_remove chat url =
     bindE (gorm_write (\<lambda>d. delete_subscriptions (\<lambda>(c, l). c = chat \<and> l \<in> link_ids_of_url url d) d))
       (\<lambda>rows_affected. if rows_affected = 0 then throw ErrLinkNotFound else ret ())"

definition orm_get_tags_by_link_ids :: "int \<Rightarrow> int list \<Rightarrow> (db, int \<Rightarrow> string list) eff" where
  "orm_get_tags_by_link_ids chat ids =
     (if length ids = 0 then ret (\<lambda>_. [])
      else bindE (query (tag_names_by_link chat (set ids))) (\<lambda>rows. ret (group_tags rows)))"

definition orm_link_list :: "int \<Rightarrow> (db, link list) eff" where
  "orm_link_list chat =
     bindE (query (listed_rows chat)) (\<lambda>rows.
     bindE (orm_get_tags_by_link_ids chat (map lr_id rows)) (\<lambda>tags.
     ret (map (link_of_row tags) rows)))"

definition orm_link_list_by_tag :: "int \<Rightarrow> string \<Rightarrow> (db, link list) eff" where
  "orm_link_list_by_tag chat name =
     bindE (query (link_rows_by_tag chat name)) (\<lambda>rows.
     bindE (orm_get_tags_by_link_ids chat (map lr_id rows)) (\<lambda>tags.
     ret (map (link_of_row tags) rows)))"

definition orm_link_remove_by_tag :: "int \<Rightarrow> string \<Rightarrow> (db, int) eff" where
  "orm_link_remove_by_tag chat name =
     gorm_write (\<lambda>d. delete_subscriptions (\<lambda>(c, l). c = chat \<and> l \<in> link_ids_with_tag chat name d) d)"

section \<open>Tags\<close>

definition orm_tag_create :: "bool \<Rightarrow> int \<Rightarrow> string \<Rightarrow> (db, unit) eff" where
  "orm_tag_create translate chat name =
     bindE (attempt (gorm_write (insert_tag chat name)))
       (\<lambda>r. case r of
          Inl e \<Rightarrow>
            (if err_is (gorm_error translate e) gorm_duplicated_key then throw ErrTagExists
             else throw (gorm_error translate e))
        | Inr _ \<Rightarrow> ret ())"

definition orm_tag_list :: "(string \<Rightarrow> int) \<Rightarrow> int \<Rightarrow> (db, tag list) eff" where
  "orm_tag_list collate chat =
     query (\<lambda>d. sort_key (\<lambda>t. collate (tagName t)) (filter (\<lambda>t. tagChatID t = chat) (d_tags d)))"

definition orm_tag_rename :: "bool \<Rightarrow> int \<Rightarrow> string \<Rightarrow> string \<Rightarrow> (db, unit) eff" where
  "orm_tag_rename translate chat old new =
     bindE (attempt (gorm_write (rename_tag chat old new)))
       (\<lambda>r. case r of
          Inl e \<Rightarrow>
            (if err_is (gorm_error translate e) gorm_duplicated_key then throw ErrTagExists
             else throw (gorm_error translate e))
        | Inr affected \<Rightarrow> if affected = 0 then throw ErrTagNotFound else ret ())"

definition orm_tag_delete :: "int \<Rightarrow> string \<Rightarrow> (db, unit) eff" where
  "orm_tag_delete chat name =
     bindE (gorm_write (delete_tag chat name)) (\<lambda>affected. if affected = 0 then throw ErrTagNotFound else ret ())"

section \<open>Tracking\<close>

definition orm_find_subscribers :: "int \<Rightarrow> (db, int list) eff" where
  "orm_find_subscribers link_id = query (\<lambda>d. map fst (filter (\<lambda>(c, l). l = link_id) (d_subs d)))"

text \<open>gorm drops a limit or an offset that is not positive (a limit of 0 is kept).\<close>

definition orm_get_tracked_links_batch :: "int \<Rightarrow> int \<Rightarrow> (db, link list) eff" where
  "orm_get_tracked_links_batch limit offset =
     query (\<lambda>d. let rows = drop (nat offset) (tracked_rows d)
                in map tracked_link_of_row (if limit < 0 then rows else take (nat limit) rows))"

definition orm_update_last_updated :: "int \<Rightarrow> instant \<Rightarrow> (db, unit) eff" where
  "orm_update_last_updated link_id t = gorm_write (update_last_updated link_id t)"

section \<open>Outbox\<close>

definition orm_to_outbox_model :: "outbox_message \<Rightarrow> outbox_message" where
  "orm_to_outbox_model m =
     \<lparr>omID = 0, omTopic = omTopic m, omMessageKey = omMessageKey m, omPayload = omPayload m,
      omStatus = omStatus m, omAttempts = omAttempts m, omLastError = None,
      omCreatedAt = omCreatedAt m, omUpdatedAt = omUpdatedAt m, omSentAt = None\<rparr>"

definition orm_save_link_update_outbox :: "int \<Rightarrow> instant \<Rightarrow> outbox_message list \<Rightarrow> (db, unit) eff" where
  "orm_save_link_update_outbox link_id new_updated_at messages =
     transaction
       (bindE (if \<not> is_zero new_updated_at then stmt (update_last_updated link_id new_updated_at) else ret ())
         (\<lambda>_. foreachE (\<lambda>m. stmt (insert_outbox (orm_to_outbox_model m))) messages))"

definition orm_save_outbox_messages :: "outbox_message list \<Rightarrow> (db, unit) eff" where
  "orm_save_outbox_messages messages =
     transaction (foreachE (\<lambda>m. stmt (insert_outbox (orm_to_outbox_model m))) messages)"

definition orm_get_pending_messages :: "int \<Rightarrow> (db, outbox_message list) eff" where
  "orm_get_pending_messages limit =
     query (\<lambda>d. if limit < 0 then pending_messages d else take (nat limit) (pending_messages d))"

definition orm_mark_as_sent :: "int \<Rightarrow> (db, unit) eff" where
  "orm_mark_as_sent i =
     gorm_write (\<lambda>d. update_outbox i (\<lambda>m. m\<lparr>omStatus := OutboxSent, omSentAt := Some (d_now d), omUpdatedAt := d_now d\<rparr>) d)"

definition orm_mark_publish_failed :: "int \<Rightarrow> go_error option \<Rightarrow> (db, unit) eff" where
  "orm_mark_publish_failed i publish_err =
     gorm_write (\<lambda>d. update_outbox i
       (\<lambda>m. m\<lparr>omAttempts := omAttempts m + 1,
              omLastError := Some (case publish_err of None \<Rightarrow> [] | Some e \<Rightarrow> err_text e),
              omUpdatedAt := d_now d\<rparr>) d)"

section \<open>The schema is kept\<close>

lemma inv_gorm_write [preserves_intros]:
  "(\<And>d0. preserves (db_inv d0) f) \<Longrightarrow> preserves (db_inv d0) (gorm_write f)"
  unfolding gorm_write_def by (intro inv_transaction inv_stmt)

lemmas orm_defs = orm_chat_add_def orm_chat_remove_def orm_chat_exists_def gorm_first_link_def gorm_first_tag_def
  orm_add_tag_def orm_link_add_def orm_link_remove_def orm_get_tags_by_link_ids_def orm_link_list_def
  orm_link_list_by_tag_def orm_link_remove_by_tag_def orm_tag_create_def orm_tag_list_def orm_tag_rename_def
  orm_tag_delete_def orm_find_subscribers_def orm_get_tracked_links_batch_def orm_update_last_updated_def
  orm_save_link_update_outbox_def orm_save_outbox_messages_def orm_get_pending_messages_def
  orm_mark_as_sent_def orm_mark_publish_failed_def

lemma orm_repositories_inv [preserves_intros]:
  "preserves (db_inv d0) (orm_chat_add c)" "preserves (db_inv d0) (orm_chat_remove c)"
  "preserves (db_inv d0) (orm_chat_exists c)" "preserves (db_inv d0) (orm_link_add c l)"
  "preserves (db_inv d0) (orm_link_remove c u)" "preserves (db_inv d0) (orm_link_list c)"
  "preserves (db_inv d0) (orm_link_list_by_tag c n)" "preserves (db_inv d0) (orm_link_remove_by_tag c n)"
  "preserves (db_inv d0) (orm_tag_create tr c n)" "preserves (db_inv d0) (orm_tag_list col c)"
  "preserves (db_inv d0) (orm_tag_rename tr c n m)" "preserves (db_inv d0) (orm_tag_delete c n)"
  "preserves (db_inv d0) (orm_find_subscribers i)" "preserves (db_inv d0) (orm_get_tracked_links_batch x y)"
  "preserves (db_inv d0) (orm_update_last_updated i t)" "preserves (db_inv d0) (orm_save_link_update_outbox i t ms)"
  "preserves (db_inv d0) (orm_save_outbox_messages ms)" "preserves (db_inv d0) (orm_get_pending_messages x)"
  "preserves (db_inv d0) (orm_mark_as_sent i)" "preserves (db_inv d0) (orm_mark_publish_failed i e)"
  unfolding orm_defs by (intro preserves_intros; simp)+

section \<open>Refinement of the tracker\<close>

text \<open>What a write outside a transaction can do, for any statement that depends on the tables alone.\<close>

lemma gorm_write_law:
  assumes "gorm_write f d = (r, d')" "db_ok d"
    and law: "\<And>e x e'. db_ok e \<Longrightarrow> tracker_of e = tracker_of d \<Longrightarrow> f e = (Inr x, e') \<Longrightarrow> tracker_of e' = T \<and> N x"
  shows "(tracker_of d' = tracker_of d \<or> tracker_of d' = T) \<and> (\<forall>x. r = Inr x \<longrightarrow> tracker_of d' = T \<and> N x)"
  using assms(1) unfolding gorm_write_def
proof (cases rule: transaction_cases)
  case (rolled_back e)
  then show ?thesis using same_tables_tracker by auto
next
  case (committed x d1 d2)
  obtain fs where f: "f (d1\<lparr>d_faults := fs\<rparr>) = (Inr x, d2)" using stmt_Inr [OF committed(5)] .
  have "db_ok d1" using committed(1-4) assms(2) db_ok_same by blast
  moreover have "tracker_of d1 = tracker_of d" using committed(1) by (rule same_tables_tracker)
  ultimately have "tracker_of d2 = T \<and> N x" using law [OF _ _ f] by simp
  moreover have "tracker_of d' = tracker_of d2" using committed(6) by (rule same_tables_tracker)
  ultimately show ?thesis using committed(7) by auto
qed

lemma gorm_write_calm:
  "d_faults d = [] \<Longrightarrow> f d = (Inr x, d') \<Longrightarrow> d_faults d' = [] \<Longrightarrow> gorm_write f d = (Inr x, d')"
  unfolding gorm_write_def by (intro transaction_calm) (simp_all add: stmt_calm)

lemma orm_add_tag_tracker:
  assumes "db_ok d" "r \<in> set (d_links d)" "lr_id r = l" "orm_add_tag c l name d = (Inr (), d')"
  shows "db_ok d' \<and> d_links d' = d_links d \<and>
    tracker_of d' = (tracker_of d)\<lparr>tk_tags := insert (c, name) (tk_tags (tracker_of d)),
      tk_tagged := insert (c, lr_url r, name) (tk_tagged (tracker_of d))\<rparr>"
proof -
  obtain i d1 where 1: "stmt (upsert_tag c name) d = (Inr i, d1)" and
    k: "bindE (gorm_first_tag c name) (\<lambda>t. stmt (insert_subscription_tag c l (tagID t))) d1 = (Inr (), d')"
    using assms(4) unfolding orm_add_tag_def by (rule bindE_Inr_E)
  obtain t d2 where 2: "gorm_first_tag c name d1 = (Inr t, d2)" and
    3: "stmt (insert_subscription_tag c l (tagID t)) d2 = (Inr (), d')"
    using k by (rule bindE_Inr_E)
  obtain fs where u: "upsert_tag c name (d\<lparr>d_faults := fs\<rparr>) = (Inr i, d1)" using stmt_Inr [OF 1] .
  from upsert_tag_tracker [OF _ this] assms(1)
  have d1: "tracker_of d1 = tk_new_tag c name (tracker_of d)" "d_links d1 = d_links d" by auto
  have ok1: "db_ok d1" using keeps_db_ok [OF inv_upsert_tag _ u] assms(1) by simp
  obtain gs where "(case find_tag c name (d1\<lparr>d_faults := gs\<rparr>) of None \<Rightarrow> Inl gorm_record_not_found | Some t \<Rightarrow> Inr t,
      d1\<lparr>d_faults := gs\<rparr>) = (Inr t, d2)"
    using stmt_Inr [OF 2 [unfolded gorm_first_tag_def]] .
  then have d2: "d2 = d1\<lparr>d_faults := gs\<rparr>" and "find_tag c name d1 = Some t"
    by (auto simp: find_tag_def split: option.splits)
  then have t: "t \<in> set (d_tags d1)" "tagChatID t = c" "tagName t = name" using find_tag_Some by blast+
  obtain hs where s: "insert_subscription_tag c l (tagID t) (d2\<lparr>d_faults := hs\<rparr>) = (Inr (), d')" using stmt_Inr [OF 3] .
  have "db_ok d'" using keeps_db_ok [OF inv_insert_subscription_tag _ s] ok1 d2 by simp
  with insert_subscription_tag_tracker [OF _ s, of r t] ok1 d1 d2 t assms(2,3)
  show ?thesis by (simp add: tk_new_tag_def)
qed

lemma orm_add_tags_tracker:
  assumes "db_ok d" "r \<in> set (d_links d)" "lr_id r = l" "foreachE (orm_add_tag c l) names d = (Inr (), d')"
  shows "db_ok d' \<and> d_links d' = d_links d \<and>
    tracker_of d' = (tracker_of d)\<lparr>tk_tags := tk_tags (tracker_of d) \<union> Pair c ` set names,
      tk_tagged := tk_tagged (tracker_of d) \<union> (\<lambda>n. (c, lr_url r, n)) ` set names\<rparr>"
  using assms
proof (induction names arbitrary: d)
  case (Cons n ns)
  obtain x d1 where 1: "orm_add_tag c l n d = (Inr x, d1)" and 2: "foreachE (orm_add_tag c l) ns d1 = (Inr (), d')"
    using Cons.prems(4) unfolding foreachE.simps by (rule bindE_Inr_E)
  from orm_add_tag_tracker [OF Cons.prems(1-3), of c n d1] 1
  have s1: "db_ok d1" "d_links d1 = d_links d"
    "tracker_of d1 = (tracker_of d)\<lparr>tk_tags := insert (c, n) (tk_tags (tracker_of d)),
      tk_tagged := insert (c, lr_url r, n) (tk_tagged (tracker_of d))\<rparr>" by simp_all
  from Cons.IH [OF s1(1) _ Cons.prems(3) 2] Cons.prems(2) s1 show ?case by simp
qed simp

lemma orm_link_add_tracker:
  assumes "db_ok d" "orm_link_add c link d = (r, d')"
  shows "db_ok d' \<and> (r = Inr () \<longrightarrow> tracker_of d' = tk_add_link c link (tracker_of d)) \<and>
    (tracker_of d' = tracker_of d \<or> tracker_of d' = tk_add_link c link (tracker_of d))"
proof -
  have ok': "db_ok d'" using keeps_db_ok [OF orm_repositories_inv(4) assms] .
  from assms(2) [unfolded orm_link_add_def] show ?thesis
  proof (cases rule: transaction_cases)
    case (rolled_back e)
    then show ?thesis using same_tables_tracker ok' by auto
  next
    case (committed x d1 d2)
    have ok1: "db_ok d1" using assms(1) committed(1-4) db_ok_same by blast
    from committed(5) obtain l da where
      1: "stmt (upsert_link (linkURL link) (linkLastUpdatedAt link)) d1 = (Inr l, da)" and
      k: "bindE (gorm_first_link (linkURL link)) (\<lambda>p. bindE (stmt (insert_subscription c (lr_id p)))
            (\<lambda>_. foreachE (orm_add_tag c (lr_id p)) (linkTags link))) da = (Inr x, d2)"
      by (rule bindE_Inr_E)
    from k obtain row db1 where 2: "gorm_first_link (linkURL link) da = (Inr row, db1)" and
      k2: "bindE (stmt (insert_subscription c (lr_id row)))
            (\<lambda>_. foreachE (orm_add_tag c (lr_id row)) (linkTags link)) db1 = (Inr x, d2)"
      by (rule bindE_Inr_E)
    from k2 obtain y dc where 3: "stmt (insert_subscription c (lr_id row)) db1 = (Inr y, dc)" and
      4: "foreachE (orm_add_tag c (lr_id row)) (linkTags link) dc = (Inr x, d2)"
      by (rule bindE_Inr_E)
    obtain fs where u: "upsert_link (linkURL link) (linkLastUpdatedAt link) (d1\<lparr>d_faults := fs\<rparr>) = (Inr l, da)"
      using stmt_Inr [OF 1] .
    from upsert_link_tracker [OF _ this] ok1
    have da: "tracker_of da = tk_checkpointed (linkURL link) (linkLastUpdatedAt link) (tracker_of d1)" by auto
    have oka: "db_ok da" using keeps_db_ok [OF inv_upsert_link _ u] ok1 by simp
    obtain gs where "(case find_link (linkURL link) (da\<lparr>d_faults := gs\<rparr>) of None \<Rightarrow> Inl gorm_record_not_found
        | Some r \<Rightarrow> Inr r, da\<lparr>d_faults := gs\<rparr>) = (Inr row, db1)"
      using stmt_Inr [OF 2 [unfolded gorm_first_link_def]] .
    then have db1: "db1 = da\<lparr>d_faults := gs\<rparr>" and "find_link (linkURL link) da = Some row"
      by (auto simp: find_link_def split: option.splits)
    then have row: "row \<in> set (d_links da)" "lr_url row = linkURL link" using find_link_Some by blast+
    obtain hs where s: "insert_subscription c (lr_id row) (db1\<lparr>d_faults := hs\<rparr>) = (Inr (), dc)"
      using stmt_Inr [OF 3] by (metis (full_types) old.unit.exhaust)
    from insert_subscription_tracker [OF _ s, of row] oka row db1
    have sb: "tracker_of dc = (tracker_of da)\<lparr>tk_subs := insert (c, lr_url row) (tk_subs (tracker_of da))\<rparr>"
      "d_links dc = d_links da" by simp_all
    have okc: "db_ok dc" using keeps_db_ok [OF inv_insert_subscription _ s] oka db1 by simp
    from orm_add_tags_tracker [OF okc _ refl, of row c "linkTags link" d2] 4 row(1) sb(2)
    have "tracker_of d2 = (tracker_of dc)\<lparr>tk_tags := tk_tags (tracker_of dc) \<union> Pair c ` set (linkTags link),
      tk_tagged := tk_tagged (tracker_of dc) \<union> (\<lambda>n. (c, lr_url row, n)) ` set (linkTags link)\<rparr>" by simp
    moreover have "tracker_of d1 = tracker_of d" "tracker_of d' = tracker_of d2"
      using committed(1,6) same_tables_tracker by blast+
    ultimately have "tracker_of d' = tk_add_link c link (tracker_of d)"
      using sb row da by (simp add: tk_add_link_def tk_add_def tk_checkpointed_def)
    then show ?thesis using ok' by blast
  qed
qed

section \<open>Without faults both persistence packages do the same\<close>

lemma find_link_own:
  assumes "db_ok d" "r \<in> set (d_links d)" "lr_url r = u"
  shows "find_link u d = Some r"
proof (cases "find_link u d")
  case None
  with assms show ?thesis by (auto simp: find_link_None)
next
  case (Some s)
  with find_link_Some [OF Some] assms db_ok_url_inj [OF assms(1)] show ?thesis by simp
qed

lemma find_tag_own:
  assumes "db_ok d" "t \<in> set (d_tags d)" "tagChatID t = c" "tagName t = n"
  shows "find_tag c n d = Some t"
proof (cases "find_tag c n d")
  case None
  with assms show ?thesis by (force simp: find_tag_None)
next
  case (Some s)
  with find_tag_Some [OF Some] assms db_ok_tag_name_inj [OF assms(1)] show ?thesis by simp
qed

lemma orm_add_tag_eq:
  assumes "db_ok d" "d_faults d = []"
  shows "orm_add_tag c l n d = sql_add_tag c l n d"
proof (cases "upsert_tag c n d")
  case (Pair r d1)
  have f1: "d_faults d1 = []" using Pair assms(2)
    by (auto simp: upsert_tag_def insert_tag_def Let_def split: option.splits if_splits)
  show ?thesis
  proof (cases r)
    case (Inl e)
    then show ?thesis using Pair assms(2) by (simp add: orm_add_tag_def sql_add_tag_def stmt_calm)
  next
    case (Inr i)
    with Pair have u: "upsert_tag c n d = (Inr i, d1)" by simp
    have "db_ok d1" using keeps_db_ok [OF inv_upsert_tag assms(1) u] .
    with upsert_tag_tracker [OF assms(1) u] find_tag_own
    obtain t where "find_tag c n d1 = Some t" "tagID t = i" by blast
    then show ?thesis using u f1 assms(2)
      by (simp add: orm_add_tag_def sql_add_tag_def gorm_first_tag_def stmt_calm)
  qed
qed

lemma sql_add_tag_faults:
  "d_faults d = [] \<Longrightarrow> sql_add_tag c l n d = (r, d') \<Longrightarrow> d_faults d' = []"
  by (auto simp: sql_add_tag_def bindE_def stmt_calm upsert_tag_def insert_tag_def insert_subscription_tag_def Let_def
      split: option.splits if_splits sum.splits prod.splits)

lemma inv_sql_add_tag: "preserves (db_inv d0) (sql_add_tag c l n)"
  unfolding sql_add_tag_def by (intro preserves_intros)

lemma orm_add_tags_eq:
  "db_ok d \<Longrightarrow> d_faults d = [] \<Longrightarrow> foreachE (orm_add_tag c l) ns d = foreachE (sql_add_tag c l) ns d"
proof (induction ns arbitrary: d)
  case (Cons n ns)
  obtain r d1 where s: "sql_add_tag c l n d = (r, d1)" by fastforce
  have "db_ok d1" using keeps_db_ok [OF inv_sql_add_tag Cons.prems(1) s] .
  with Cons.IH [of d1] sql_add_tag_faults [OF Cons.prems(2) s] orm_add_tag_eq [OF Cons.prems, of c l n] s
  show ?case by (cases r) simp_all
qed simp

lemma orm_link_add_eq:
  assumes "db_ok d" "d_faults d = []"
  shows "orm_link_add c link d = sql_link_add c link d"
proof -
  have "\<exists>l d1. upsert_link (linkURL link) (linkLastUpdatedAt link) d = (Inr l, d1) \<and> d_faults d1 = []"
    using assms(2) by (auto simp: upsert_link_def Let_def split: option.split)
  then obtain l d1 where u: "upsert_link (linkURL link) (linkLastUpdatedAt link) d = (Inr l, d1)" "d_faults d1 = []" by blast
  have ok1: "db_ok d1" using keeps_db_ok [OF inv_upsert_link assms(1) u(1)] .
  obtain row where row: "lr_id row = l" "find_link (linkURL link) d1 = Some row"
    using upsert_link_tracker [OF assms(1) u(1)] find_link_own [OF ok1] by blast
  obtain r2 d2 where s: "insert_subscription c l d1 = (r2, d2)" by fastforce
  have ok2: "db_ok d2" using keeps_db_ok [OF inv_insert_subscription ok1 s] .
  have f2: "d_faults d2 = []" using s u(2) by (auto simp: insert_subscription_def split: if_splits)
  have sub: "bindE (stmt (insert_subscription c l)) (\<lambda>_. foreachE (orm_add_tag c l) (linkTags link)) d1
      = bindE (stmt (insert_subscription c l)) (\<lambda>_. foreachE (sql_add_tag c l) (linkTags link)) d1"
    using s u(2) orm_add_tags_eq [OF ok2 f2] by (cases r2) (simp_all add: stmt_calm)
  show ?thesis unfolding orm_link_add_def sql_link_add_def transaction_def
    using assms(2) u row sub by (simp add: stmt_calm gorm_first_link_def)
qed

section \<open>The interface over gorm\<close>

lemma orm_link_list_eq: "orm_link_list = sql_link_list"
  by (simp add: fun_eq_iff orm_link_list_def sql_link_list_def orm_get_tags_by_link_ids_def sql_get_tags_by_link_ids_def)

lemma orm_chat_add_law:
  assumes "db_ok d" "orm_chat_add c d = (r, d')"
  shows "db_ok d' \<and> (r = Inr () \<longrightarrow> tracker_of d' = tk_register c (tracker_of d)) \<and>
    (tracker_of d' = tracker_of d \<or> tracker_of d' = tk_register c (tracker_of d)) \<and>
    (d_faults d = [] \<longrightarrow> d_faults d' = [] \<and> r = Inr ())"
proof -
  have "db_ok d'" using keeps_db_ok [OF orm_repositories_inv(1) assms] .
  moreover have "(tracker_of d' = tracker_of d \<or> tracker_of d' = tk_register c (tracker_of d)) \<and>
      (\<forall>x. r = Inr x \<longrightarrow> tracker_of d' = tk_register c (tracker_of d) \<and> True)"
    using assms(2) unfolding orm_chat_add_def
  proof (rule gorm_write_law [OF _ assms(1)])
    fix e x e' assume "tracker_of e = tracker_of d" "insert_chat c e = (Inr x, e')"
    then show "tracker_of e' = tk_register c (tracker_of d) \<and> True"
      using tracker_insert_chat [of c e] by simp
  qed
  moreover have "d_faults d' = [] \<and> r = Inr ()" if "d_faults d = []"
  proof -
    have "insert_chat c d = (Inr (), snd (insert_chat c d))" "d_faults (snd (insert_chat c d)) = []"
      using that by (simp_all add: insert_chat_def)
    from gorm_write_calm [where f = "insert_chat c" and d = d, OF that this] this(2) assms(2) show ?thesis by (simp add: orm_chat_add_def)
  qed
  ultimately show ?thesis by blast
qed

lemma orm_chat_remove_law:
  assumes "db_ok d" "orm_chat_remove c d = (r, d')"
  shows "db_ok d' \<and> (r = Inr () \<longrightarrow> tracker_of d' = tk_unregister c (tracker_of d)) \<and>
    (tracker_of d' = tracker_of d \<or> tracker_of d' = tk_unregister c (tracker_of d)) \<and>
    (d_faults d = [] \<longrightarrow> d_faults d' = [] \<and> r = (if c \<in> tk_chats (tracker_of d) then Inr () else Inl RepoErrChatNotFound))"
proof -
  have ok: "db_ok d'" using keeps_db_ok [OF orm_repositories_inv(2) assms] .
  obtain r1 d1 where s: "gorm_write (delete_chat c) d = (r1, d1)" by fastforce
  have d': "d' = d1" "r = (case r1 of Inl e \<Rightarrow> Inl e | Inr n \<Rightarrow> if n = 0 then Inl RepoErrChatNotFound else Inr ())"
    using assms(2) s by (auto simp: orm_chat_remove_def bindE_def split: sum.splits if_splits)
  have eff: "(tracker_of d1 = tracker_of d \<or> tracker_of d1 = tk_unregister c (tracker_of d)) \<and>
      (\<forall>n. r1 = Inr n \<longrightarrow> tracker_of d1 = tk_unregister c (tracker_of d) \<and> True)"
  proof (rule gorm_write_law [OF s assms(1)])
    fix e x e' assume "tracker_of e = tracker_of d" "delete_chat c e = (Inr x, e')"
    then show "tracker_of e' = tk_unregister c (tracker_of d) \<and> True"
      using tracker_delete_chat [of c e] by simp
  qed
  have calm: "d_faults d1 = [] \<and> r1 = Inr (int (length (filter (\<lambda>x. x = c) (d_chats d))))" if "d_faults d = []"
  proof -
    have "delete_chat c d = (Inr (int (length (filter (\<lambda>x. x = c) (d_chats d)))), snd (delete_chat c d))"
      "d_faults (snd (delete_chat c d)) = []" using that by (simp_all add: delete_chat_def)
    from gorm_write_calm [where f = "delete_chat c" and d = d, OF that this] this(2) s show ?thesis by simp
  qed
  have "length (filter (\<lambda>x. x = c) (d_chats d)) = 0 \<longleftrightarrow> c \<notin> set (d_chats d)" by (auto simp: filter_empty_conv)
  with ok eff calm d' show ?thesis by (cases r1) auto
qed

lemma orm_chat_exists_law:
  assumes "db_ok d" "orm_chat_exists c d = (r, d')"
  shows "db_ok d' \<and> tracker_of d' = tracker_of d \<and> (\<forall>b. r = Inr b \<longrightarrow> b = (c \<in> tk_chats (tracker_of d))) \<and>
    (d_faults d = [] \<longrightarrow> d_faults d' = [] \<and> (\<exists>b. r = Inr b))"
proof -
  have ok: "db_ok d'" using keeps_db_ok [OF orm_repositories_inv(3) assms] .
  obtain r1 d1 where s: "query (\<lambda>d. length (filter (\<lambda>x. x = c) (d_chats d))) d = (r1, d1)" by fastforce
  note q = query_Inr [OF s]
  have "(0 < length (filter (\<lambda>x. x = c) (d_chats d1))) = (c \<in> set (d_chats d1))"
    by (auto simp: filter_empty_conv)
  moreover have "d_chats d1 = d_chats d" using q by (simp add: same_tables_def)
  moreover have "d' = d1" "r = (case r1 of Inl e \<Rightarrow> Inl e | Inr n \<Rightarrow> Inr (0 < n))"
    using assms(2) s by (auto simp: orm_chat_exists_def bindE_def split: sum.splits)
  moreover have "d_faults d = [] \<Longrightarrow> d_faults d1 = [] \<and> (\<exists>n. r1 = Inr n)"
    using s query_calm [of d "\<lambda>d. length (filter (\<lambda>x. x = c) (d_chats d))"] by auto
  ultimately show ?thesis using ok q by (cases r1) auto
qed

lemma orm_link_remove_law:
  assumes "db_ok d" "orm_link_remove c u d = (r, d')"
  shows "db_ok d' \<and> (r = Inr () \<longrightarrow> (c, u) \<in> tk_subs (tracker_of d) \<and> tracker_of d' = tk_untrack c {u} (tracker_of d)) \<and>
    (tracker_of d' = tracker_of d \<or> tracker_of d' = tk_untrack c {u} (tracker_of d)) \<and>
    ((c, u) \<notin> tk_subs (tracker_of d) \<longrightarrow> tracker_of d' = tracker_of d) \<and>
    (d_faults d = [] \<longrightarrow> d_faults d' = [] \<and> r = (if (c, u) \<in> tk_subs (tracker_of d) then Inr () else Inl ErrLinkNotFound))"
proof -
  let ?f = "\<lambda>d. delete_subscriptions (\<lambda>(a, l). a = c \<and> l \<in> link_ids_of_url u d) d"
  obtain r1 d1 where s: "gorm_write ?f d = (r1, d1)" by fastforce
  have l: "(tracker_of d1 = tracker_of d \<or> tracker_of d1 = tk_untrack c {u} (tracker_of d)) \<and>
      (\<forall>n. r1 = Inr n \<longrightarrow> tracker_of d1 = tk_untrack c {u} (tracker_of d) \<and> (n = 0 \<longleftrightarrow> (c, u) \<notin> tk_subs (tracker_of d)))"
  proof (rule gorm_write_law [OF s assms(1)])
    fix e n e' assume "db_ok e" "tracker_of e = tracker_of d" "?f e = (Inr n, e')"
    then show "tracker_of e' = tk_untrack c {u} (tracker_of d) \<and> (n = 0 \<longleftrightarrow> (c, u) \<notin> tk_subs (tracker_of d))"
      using untrack_url [of e c u n e'] by simp
  qed
  have calm: "d_faults d1 = [] \<and> (\<exists>n. r1 = Inr n)" if "d_faults d = []"
  proof -
    obtain n e where e: "?f d = (Inr n, e)" using delete_subscriptions_Inr by blast
    have "d_faults e = []" using calm_delete [OF e] that by simp
    from gorm_write_calm [where f = "?f" and d = d, OF that e this] this s show ?thesis by simp
  qed
  have "db_ok d'" using keeps_db_ok [OF orm_repositories_inv(5) assms] .
  moreover have "d' = d1" "r = (case r1 of Inl e \<Rightarrow> Inl e | Inr n \<Rightarrow> if n = 0 then Inl ErrLinkNotFound else Inr ())"
    using assms(2) s by (auto simp: orm_link_remove_def bindE_def split: sum.splits if_splits)
  moreover have "(c, u) \<notin> tk_subs (tracker_of d) \<Longrightarrow> tk_untrack c {u} (tracker_of d) = tracker_of d"
    using tk_untrack_none [of "{u}" c d] assms(1) by simp
  ultimately show ?thesis using l calm by (cases r1) auto
qed

lemma orm_link_remove_by_tag_law:
  assumes "db_ok d" "orm_link_remove_by_tag c n d = (r, d')"
  shows "db_ok d' \<and>
    (\<forall>k. r = Inr k \<longrightarrow> tracker_of d' = tk_remove_by_tag c n (tracker_of d) \<and> k = int (card (tk_urls_with_tag c n (tracker_of d)))) \<and>
    (tracker_of d' = tracker_of d \<or> tracker_of d' = tk_remove_by_tag c n (tracker_of d)) \<and>
    (d_faults d = [] \<longrightarrow> d_faults d' = [] \<and> (\<exists>k. r = Inr k))"
proof -
  let ?f = "\<lambda>d. delete_subscriptions (\<lambda>(a, l). a = c \<and> l \<in> link_ids_with_tag c n d) d"
  have s: "gorm_write ?f d = (r, d')" using assms(2) by (simp only: orm_link_remove_by_tag_def)
  have "(tracker_of d' = tracker_of d \<or> tracker_of d' = tk_remove_by_tag c n (tracker_of d)) \<and>
      (\<forall>k. r = Inr k \<longrightarrow> tracker_of d' = tk_remove_by_tag c n (tracker_of d) \<and>
         k = int (card (tk_urls_with_tag c n (tracker_of d))))"
  proof (rule gorm_write_law [OF s assms(1)])
    fix e k e' assume "db_ok e" "tracker_of e = tracker_of d" "?f e = (Inr k, e')"
    then show "tracker_of e' = tk_remove_by_tag c n (tracker_of d) \<and> k = int (card (tk_urls_with_tag c n (tracker_of d)))"
      using untrack_tag [of e c n k e'] by simp
  qed
  moreover have "d_faults d' = [] \<and> (\<exists>k. r = Inr k)" if "d_faults d = []"
  proof -
    obtain k e where e: "?f d = (Inr k, e)" using delete_subscriptions_Inr by blast
    have "d_faults e = []" using calm_delete [OF e] that by simp
    from gorm_write_calm [where f = "?f" and d = d, OF that e this] this s show ?thesis by simp
  qed
  moreover have "db_ok d'" using keeps_db_ok [OF orm_repositories_inv(8) assms] .
  ultimately show ?thesis by blast
qed

interpretation orm: tracker_store db_ok "\<lambda>d. d_faults d = []" tracker_of orm_chat_add orm_chat_remove
  orm_chat_exists orm_link_add orm_link_remove orm_link_remove_by_tag orm_link_list
proof (unfold_locales, goal_cases)
  case (1 s c r s')
  then show ?case by (rule orm_chat_add_law)
next
  case (2 s c r s')
  then show ?case by (rule orm_chat_remove_law)
next
  case (3 s c r s')
  then show ?case by (rule orm_chat_exists_law)
next
  case (4 s c l r s')
  then show ?case using orm_link_add_tracker [of s c l r s'] sql_link_add_calm [of s c l]
      orm_link_add_eq [of s c l] by fastforce
next
  case (5 s c u r s')
  then show ?case by (rule orm_link_remove_law)
next
  case (6 s c n r s')
  then show ?case by (rule orm_link_remove_by_tag_law)
next
  case (7 s c r s')
  then show ?case unfolding orm_link_list_eq by (rule sql_link_list_law)
next
  case (8 s c n)
  show ?case by (rule tracker_of_finite_tagged)
next
  case (9 s c)
  then show ?case using tracker_of_unregister_none [of s c] by simp
qed

end
