(* ===== verification/Storage_Properties.thy ===== *)
theory Storage_Properties
  imports Orm_Repositories
begin

text \<open>
  Properties of the two persistence packages: the schema is kept, each method of the link and chat
  repositories is an operation of \<open>Tracker\<close> or has no effect, listing gives back what was added,
  and without faults both packages do the same, but for a duplicate tag.
\<close>

section \<open>An example\<close>

definition example_link :: "string \<Rightarrow> string list \<Rightarrow> instant \<Rightarrow> link" where
  "example_link url names t = \<lparr>linkID = 0, linkURL = url, linkTags = names, linkLastUpdatedAt = t\<rparr>"

definition example_db :: db where
  "example_db = (empty_db 100)\<lparr>d_chats := [7, 8]\<rparr>"

lemma example_db_ok: "db_ok example_db"
  by (simp add: example_db_def db_ok_def empty_db_def)

lemma example_db_calm: "d_faults example_db = []"
  by (simp add: example_db_def empty_db_def)

lemma example_db_chats: "d_chats example_db = [7, 8]"
  by (simp add: example_db_def)

section \<open>Facts\<close>

lemma gorm_write_Inl:
  "d_faults d = [] \<Longrightarrow> f d = (Inl e, d') \<Longrightarrow> gorm_write f d = (Inl e, rollback d d')"
  by (simp add: gorm_write_def transaction_def stmt_calm)

lemma gorm_write_total:
  assumes "d_faults d = []" "\<exists>x. fst (f d) = Inr x" "d_faults (snd (f d)) = []"
  shows "gorm_write f d = stmt f d"
proof -
  from assms(2) obtain x where "f d = (Inr x, snd (f d))" by (metis prod.collapse)
  from gorm_write_calm [where f = f and d = d, OF assms(1) this assms(3)] this show ?thesis
    using assms(1) by (simp add: stmt_calm)
qed

lemma sql_tag_create_calm:
  assumes "db_ok d" "d_faults d = []"
  shows "fst (sql_tag_create c n d) =
    (if (c, n) \<in> tk_tags (tracker_of d) then Inl ErrTagExists
     else if c \<in> set (d_chats d) then Inr () else Inl (PqError foreign_key_violation))"
proof (cases "find_tag c n d")
  case (Some t)
  then have "(c, n) \<in> tk_tags (tracker_of d)" using find_tag_Some [OF Some] by (auto simp: tk_tags_iff)
  then show ?thesis using Some assms(2)
    by (simp add: sql_tag_create_def stmt_calm insert_tag_def bindE_apply tag_error_def Let_def)
next
  case None
  then have "(c, n) \<notin> tk_tags (tracker_of d)" by (auto simp: find_tag_None tk_tags_iff)
  moreover have "foreign_key_violation \<noteq> unique_violation"
    by (simp add: foreign_key_violation_def unique_violation_def)
  ultimately show ?thesis using None assms(2)
    by (simp add: sql_tag_create_def stmt_calm insert_tag_def bindE_apply tag_error_def Let_def)
qed

lemma orm_tag_create_duplicate:
  assumes "d_faults d = []" "(c, n) \<in> tk_tags (tracker_of d)"
  shows "fst (orm_tag_create tr c n d) = Inl (if tr then ErrTagExists else PqError unique_violation)"
proof -
  have "find_tag c n d \<noteq> None" using assms(2) by (auto simp: find_tag_None tk_tags_iff)
  then obtain t where "find_tag c n d = Some t" by blast
  then have "insert_tag c n d = (Inl (PqError unique_violation), d\<lparr>d_tag_seq := d_tag_seq d + 1\<rparr>)"
    by (simp add: insert_tag_def Let_def)
  from gorm_write_Inl [where f = "insert_tag c n" and d = d, OF assms(1) this] show ?thesis
    by (simp add: orm_tag_create_def bindE_apply gorm_error_def gorm_duplicated_key_def)
qed

section \<open>Properties\<close>

text \<open>
  (C17) No repository method, in either persistence package and under any fault of the database, breaks
  the schema's keys, foreign keys and checks.
\<close>

theorem repositories_keep_schema:
  "preserves db_ok (sql_chat_add c) \<and> preserves db_ok (sql_chat_remove c) \<and> preserves db_ok (sql_link_add c l) \<and>
   preserves db_ok (sql_link_remove c u) \<and> preserves db_ok (sql_link_remove_by_tag c n) \<and>
   preserves db_ok (sql_tag_create c n) \<and> preserves db_ok (sql_tag_rename c n m) \<and> preserves db_ok (sql_tag_delete c n) \<and>
   preserves db_ok (sql_update_last_updated i t) \<and> preserves db_ok (sql_save_link_update_outbox i t ms) \<and>
   preserves db_ok (sql_save_outbox_messages ms) \<and> preserves db_ok (sql_mark_as_sent i) \<and>
   preserves db_ok (sql_mark_publish_failed i e) \<and>
   preserves db_ok (orm_chat_add c) \<and> preserves db_ok (orm_chat_remove c) \<and> preserves db_ok (orm_link_add c l) \<and>
   preserves db_ok (orm_link_remove c u) \<and> preserves db_ok (orm_link_remove_by_tag c n) \<and>
   preserves db_ok (orm_tag_create tr c n) \<and> preserves db_ok (orm_tag_rename tr c n m) \<and> preserves db_ok (orm_tag_delete c n) \<and>
   preserves db_ok (orm_update_last_updated i t) \<and> preserves db_ok (orm_save_link_update_outbox i t ms) \<and>
   preserves db_ok (orm_save_outbox_messages ms) \<and> preserves db_ok (orm_mark_as_sent i) \<and>
   preserves db_ok (orm_mark_publish_failed i e)"
  by (intro conjI; rule preserves_db_ok; rule sql_repositories_inv orm_repositories_inv)

text \<open>
  (C9) Adding a link, in either package and under any fault: a nil error means the chat tracks the URL
  with its tags added and the URL's checkpoint is the one given; an error means
  that happened whole (a lost answer to the commit) or nothing of it did.  Without faults, a registered
  chat's add succeeds.
\<close>

theorem link_add_all_or_nothing:
  assumes "db_ok d" and "add_link = sql_link_add \<or> add_link = orm_link_add" and "add_link c link d = (r, d')"
  shows "db_ok d' \<and>
    (r = Inr () \<longrightarrow> tracker_of d' = tk_add c (linkURL link) (linkTags link) (linkLastUpdatedAt link) (tracker_of d)) \<and>
    (tracker_of d' = tracker_of d \<or>
     tracker_of d' = tk_add c (linkURL link) (linkTags link) (linkLastUpdatedAt link) (tracker_of d)) \<and>
    (d_faults d = [] \<and> c \<in> set (d_chats d) \<longrightarrow> r = Inr ())"
  using assms(2)
proof
  assume "add_link = sql_link_add"
  with sql.link_add [OF assms(1), of c link r d'] assms(3) show ?thesis by (simp add: tk_add_link_def)
next
  assume "add_link = orm_link_add"
  with orm.link_add [OF assms(1), of c link r d'] assms(3) show ?thesis by (simp add: tk_add_link_def)
qed

theorem link_add_all_or_nothing_witness:
  "fst (orm_link_add 7 (example_link ''u'' [''go''] 5) example_db) = Inr () \<and>
   (7, ''u'') \<in> tk_subs (tracker_of (snd (orm_link_add 7 (example_link ''u'' [''go''] 5) example_db)))"
  using link_add_all_or_nothing [OF example_db_ok disjI2 [OF refl] surjective_pairing, of 7 "example_link ''u'' [''go''] 5"]
  by (simp add: example_db_calm example_db_chats example_link_def tk_add_def)

text \<open>
  (C22) Round trip: the list of a chat after an add that returned nil has the added link, once, with at least the
  tags given and the given checkpoint, and all the chat's other links as before.
\<close>

theorem list_after_add:
  assumes "db_ok d" and "sql_link_add c link d = (Inr (), d1)" and "sql_link_list c d1 = (Inr ls, d2)"
  shows "distinct (map linkURL ls) \<and>
    linkURL ` set ls = insert (linkURL link) {u. (c, u) \<in> tk_subs (tracker_of d)} \<and>
    (\<forall>m \<in> set ls.
       (if linkURL m = linkURL link
        then set (linkTags m) = set (linkTags link) \<union> {n. (c, linkURL link, n) \<in> tk_tagged (tracker_of d)} \<and>
             linkLastUpdatedAt m = linkLastUpdatedAt link
        else set (linkTags m) = {n. (c, linkURL m, n) \<in> tk_tagged (tracker_of d)} \<and>
             tk_checkpoint (tracker_of d) (linkURL m) = Some (linkLastUpdatedAt m)))"
proof -
  from sql.link_add [OF assms(1,2)] have "db_ok d1" "tracker_of d1 = tk_add_link c link (tracker_of d)" by auto
  with sql.link_list [OF _ assms(3)] have "lists_links c ls (tk_add_link c link (tracker_of d))" by auto
  then show ?thesis by (auto simp: lists_links_def tk_add_link_def tk_add_def split: if_splits)
qed

theorem list_after_add_witness:
  "\<exists>d1 ls d2. sql_link_add 7 (example_link ''u'' [''go''] 5) example_db = (Inr (), d1) \<and>
     sql_link_list 7 d1 = (Inr ls, d2) \<and> linkURL ` set ls = {''u''}"
proof -
  obtain d1 where 1: "sql_link_add 7 (example_link ''u'' [''go''] 5) example_db = (Inr (), d1)" "d_faults d1 = []"
    using sql_link_add_calm [OF example_db_ok example_db_calm, of 7] example_db_chats by auto
  have "db_ok d1" using sql.link_add [OF example_db_ok 1(1)] by blast
  moreover obtain r d2 where "sql_link_list 7 d1 = (r, d2)" by fastforce
  ultimately obtain ls where 2: "sql_link_list 7 d1 = (Inr ls, d2)" using sql.link_list [of d1 7 r d2] 1(2) by auto
  have "{u. (7, u) \<in> tk_subs (tracker_of example_db)} = {}"
    by (simp add: tk_subs_iff example_db_def empty_db_def)
  with list_after_add [OF example_db_ok 1(1) 2] 1 2 show ?thesis by (auto simp: example_link_def)
qed

text \<open>
  (C21) Removing, in either package: removing a link that is not tracked is an error and changes nothing, removing a
  tracked one removes it with its tags and nothing else; removing by tag removes exactly the chat's
  links with that tag and says how many they were; removing a chat removes everything of the chat
  and nothing of the others.
\<close>

theorem removals_exact:
  assumes "db_ok d" and "d_faults d = []"
    and "remove = sql_link_remove \<or> remove = orm_link_remove"
    and "remove_by_tag = sql_link_remove_by_tag \<or> remove_by_tag = orm_link_remove_by_tag"
    and "remove_chat = sql_chat_remove \<or> remove_chat = orm_chat_remove"
  shows "(if (c, u) \<in> tk_subs (tracker_of d)
      then fst (remove c u d) = Inr () \<and> tracker_of (snd (remove c u d)) = tk_untrack c {u} (tracker_of d)
      else fst (remove c u d) = Inl ErrLinkNotFound \<and> tracker_of (snd (remove c u d)) = tracker_of d) \<and>
    fst (remove_by_tag c n d) = Inr (int (card (tk_urls_with_tag c n (tracker_of d)))) \<and>
    tracker_of (snd (remove_by_tag c n d)) = tk_untrack c (tk_urls_with_tag c n (tracker_of d)) (tracker_of d) \<and>
    fst (remove_chat c d) = (if c \<in> set (d_chats d) then Inr () else Inl RepoErrChatNotFound) \<and>
    tracker_of (snd (remove_chat c d)) = (if c \<in> set (d_chats d) then tk_unregister c (tracker_of d) else tracker_of d)"
proof -
  have untracked: "tk_untrack c {u} (tracker_of d) = tracker_of d" if "(c, u) \<notin> tk_subs (tracker_of d)"
    using tk_untrack_none [of "{u}" c d] that assms(1) by simp
  have unregistered: "tk_unregister c (tracker_of d) = tracker_of d" if "c \<notin> set (d_chats d)"
  proof -
    have subs: "(c, l) \<notin> set (d_subs d)" for l using assms(1) that by (auto simp: db_ok_def)
    have tags: "tagChatID t \<noteq> c" if "t \<in> set (d_tags d)" for t
      using assms(1) that \<open>c \<notin> set (d_chats d)\<close> by (auto simp: db_ok_def)
    show ?thesis using that subs tags
      by (intro tracker_eqI) (auto simp: tk_unregister_def tk_subs_iff tk_tags_iff tk_tagged_iff)
  qed
  have rem: "op c u d = (if (c, u) \<in> tk_subs (tracker_of d) then (Inr (), snd (op c u d)) else (Inl ErrLinkNotFound, snd (op c u d))) \<and>
      tracker_of (snd (op c u d)) = tk_untrack c {u} (tracker_of d)"
    if "op = sql_link_remove \<or> op = orm_link_remove" for op
    using that
  proof
    assume "op = sql_link_remove"
    with sql.link_remove [OF assms(1) surjective_pairing, of c u] assms(2) untracked show ?thesis
      by (cases "(c, u) \<in> tk_subs (tracker_of d)") (auto simp: prod_eq_iff)
  next
    assume "op = orm_link_remove"
    with orm.link_remove [OF assms(1) surjective_pairing, of c u] assms(2) untracked show ?thesis
      by (cases "(c, u) \<in> tk_subs (tracker_of d)") (auto simp: prod_eq_iff)
  qed
  have "(if (c, u) \<in> tk_subs (tracker_of d)
      then fst (remove c u d) = Inr () \<and> tracker_of (snd (remove c u d)) = tk_untrack c {u} (tracker_of d)
      else fst (remove c u d) = Inl ErrLinkNotFound \<and> tracker_of (snd (remove c u d)) = tracker_of d)"
  proof (cases "(c, u) \<in> tk_subs (tracker_of d)")
    case True
    with rem [OF assms(3)] show ?thesis by (metis fst_conv)
  next
    case False
    with rem [OF assms(3)] untracked show ?thesis by (metis fst_conv)
  qed
  moreover have "fst (remove_by_tag c n d) = Inr (int (card (tk_urls_with_tag c n (tracker_of d)))) \<and>
    tracker_of (snd (remove_by_tag c n d)) = tk_untrack c (tk_urls_with_tag c n (tracker_of d)) (tracker_of d)"
    using assms(4)
  proof
    assume "remove_by_tag = sql_link_remove_by_tag"
    with sql.link_remove_by_tag [OF assms(1) surjective_pairing, of c n] assms(2) show ?thesis
      by (auto simp: tk_remove_by_tag_def)
  next
    assume "remove_by_tag = orm_link_remove_by_tag"
    with orm.link_remove_by_tag [OF assms(1) surjective_pairing, of c n] assms(2) show ?thesis
      by (auto simp: tk_remove_by_tag_def)
  qed
  moreover have "fst (remove_chat c d) = (if c \<in> set (d_chats d) then Inr () else Inl RepoErrChatNotFound) \<and>
    tracker_of (snd (remove_chat c d)) = (if c \<in> set (d_chats d) then tk_unregister c (tracker_of d) else tracker_of d)"
    using assms(5)
  proof
    assume "remove_chat = sql_chat_remove"
    with sql.chat_remove [OF assms(1) surjective_pairing, of c] assms(2) unregistered show ?thesis
      by (cases "c \<in> set (d_chats d)") auto
  next
    assume "remove_chat = orm_chat_remove"
    with orm.chat_remove [OF assms(1) surjective_pairing, of c] assms(2) unregistered show ?thesis
      by (cases "c \<in> set (d_chats d)") auto
  qed
  ultimately show ?thesis by blast
qed

theorem removals_exact_witness:
  "fst (sql_link_remove 7 ''u'' example_db) = Inl ErrLinkNotFound \<and> fst (sql_chat_remove 8 example_db) = Inr () \<and>
   fst (orm_link_remove_by_tag 7 ''go'' example_db) = Inr 0"
proof -
  have "(7, ''u'') \<notin> tk_subs (tracker_of example_db)" "tk_urls_with_tag 7 ''go'' (tracker_of example_db) = {}"
    by (simp_all add: tk_subs_iff tk_urls_with_tag_def tk_tagged_iff example_db_def empty_db_def)
  with removals_exact [OF example_db_ok example_db_calm disjI1 [OF refl] disjI2 [OF refl] disjI1 [OF refl], of 7 "''u''" "''go''"]
    removals_exact [OF example_db_ok example_db_calm disjI1 [OF refl] disjI2 [OF refl] disjI1 [OF refl], of 8 "''u''" "''go''"]
  show ?thesis by (simp add: example_db_chats)
qed



text \<open>
  (C24) A duplicate tag: the SQL package answers "tag already exists", the gorm package passes the database's error on,
  because its errors are not translated (the command opens gorm with an empty configuration); translated,
  it would answer the same.
\<close>

theorem duplicate_tag_errors_differ:
  assumes "db_ok d" and "d_faults d = []" and "(c, n) \<in> tk_tags (tracker_of d)"
  shows "fst (sql_tag_create c n d) = Inl ErrTagExists \<and>
    fst (orm_tag_create False c n d) = Inl (PqError unique_violation) \<and>
    \<not> err_is (PqError unique_violation) ErrTagExists \<and>
    fst (orm_tag_create True c n d) = Inl ErrTagExists"
  using assms by (simp add: sql_tag_create_calm orm_tag_create_duplicate)

theorem duplicate_tag_errors_differ_witness:
  "let d = example_db\<lparr>d_tags := [\<lparr>tagID = 1, tagChatID = 7, tagName = ''go''\<rparr>], d_tag_seq := 1\<rparr>
   in fst (orm_tag_create False 7 ''go'' d) \<noteq> fst (sql_tag_create 7 ''go'' d)"
proof -
  let ?d = "example_db\<lparr>d_tags := [\<lparr>tagID = 1, tagChatID = 7, tagName = ''go''\<rparr>], d_tag_seq := 1\<rparr>"
  have "db_ok ?d" "d_faults ?d = []" "(7, ''go'') \<in> tk_tags (tracker_of ?d)"
    by (simp_all add: example_db_def empty_db_def db_ok_def tk_tags_iff)
  from duplicate_tag_errors_differ [OF this] show ?thesis by (simp add: Let_def)
qed

end
