(* ===== verification/List_Cache.thy ===== *)
theory List_Cache
  imports Prelude Go_Strings
begin

text \<open>
  The cache of link lists: the interface \<open>ListCache\<close>
  (\<open>scrapper/internal/application/cache/list_cache.go\<close>) as a locale, and
  \<open>ValkeyListCache\<close> (\<open>scrapper/internal/infrastructure/cache/valkey_list_cache.go\<close>)
  on a model of the server: entries with an instant of expiry, a clock, a
  script of the faults of the next commands, and the copies a client keeps
  when client-side caching is on, which a write of the key invalidates.
\<close>

text \<open>
  \<open>content\<close> is what the cache may answer; entries may go away at any time (expiry, eviction), nothing
  comes up that was not set, and a delete that returns nil leaves nothing.
\<close>

locale list_cache =
  fixes get :: "int \<Rightarrow> ('c, string option) eff" and set :: "int \<Rightarrow> string \<Rightarrow> duration \<Rightarrow> ('c, unit) eff"
    and delete :: "int \<Rightarrow> ('c, unit) eff" and content :: "'c \<Rightarrow> int \<Rightarrow> string option" and sound :: "'c \<Rightarrow> bool"
  assumes get_content: "sound c \<Longrightarrow> get k c = (r, c') \<Longrightarrow> sound c' \<and> content c' \<subseteq>\<^sub>m content c \<and>
      (\<forall>b. r = Inr (Some b) \<longrightarrow> content c k = Some b)"
    and set_content: "sound c \<Longrightarrow> set k b ttl c = (r', c') \<Longrightarrow> sound c' \<and>
      (content c' \<subseteq>\<^sub>m content c \<or> content c' \<subseteq>\<^sub>m (content c)(k \<mapsto> b))"
    and delete_content: "sound c \<Longrightarrow> delete k c = (r', c') \<Longrightarrow> sound c' \<and> content c' \<subseteq>\<^sub>m content c \<and>
      (r' = Inr () \<longrightarrow> content c' k = None)"

text \<open>A cache without faults: deletes succeed.\<close>

locale reliable_list_cache = list_cache +
  fixes reliable :: "'a \<Rightarrow> bool"
  assumes get_reliable: "reliable c \<Longrightarrow> get k c = (r, c') \<Longrightarrow> reliable c'"
    and set_reliable: "reliable c \<Longrightarrow> set k b ttl c = (r', c') \<Longrightarrow> reliable c'"
    and delete_reliable: "reliable c \<Longrightarrow> delete k c = (r', c') \<Longrightarrow> reliable c' \<and> r' = Inr ()"

section \<open>Valkey\<close>

text \<open>A command may fail before it reaches the server, or after it took effect.\<close>

datatype vk_fault = VkHealthy | VkRefused go_error | VkAckLost go_error

record valkey =
  vk_entries :: "string \<Rightarrow> (string \<times> instant) option"
  vk_local :: "string \<Rightarrow> (string \<times> instant) option"
  vk_now :: instant
  vk_faults :: "vk_fault list"

definition vk_command :: "(valkey \<Rightarrow> valkey) \<Rightarrow> (valkey, unit) eff" where
  "vk_command f c =
     (case vk_faults c of
        [] \<Rightarrow> (Inr (), f c)
      | VkHealthy # fs \<Rightarrow> (Inr (), f (c\<lparr>vk_faults := fs\<rparr>))
      | VkRefused e # fs \<Rightarrow> (Inl e, c\<lparr>vk_faults := fs\<rparr>)
      | VkAckLost e # fs \<Rightarrow> (Inl e, f (c\<lparr>vk_faults := fs\<rparr>)))"

definition live :: "instant \<Rightarrow> (string \<times> instant) option \<Rightarrow> string option" where
  "live now e = (case e of None \<Rightarrow> None | Some (b, expires) \<Rightarrow> if now < expires then Some b else None)"

record valkey_list_cache =
  client_side_cache_enabled :: bool
  client_side_cache_ttl :: duration

definition new_valkey_list_cache ::
    "string list \<Rightarrow> bool \<Rightarrow> duration \<Rightarrow> go_error option \<Rightarrow> valkey_list_cache result" where
  "new_valkey_list_cache addresses enabled client_ttl client_err =
     (if length addresses = 0 then Inl (ErrText ''valkey addresses must not be empty'')
      else if enabled \<and> client_ttl \<le> 0 then Inl (ErrText ''client side cache ttl must be positive'')
      else
        (case client_err of
           Some e \<Rightarrow> Inl (WrapErr ''create valkey client'' e)
         | None \<Rightarrow> Inr \<lparr>client_side_cache_enabled = enabled, client_side_cache_ttl = client_ttl\<rparr>))"

definition cache_key :: "int \<Rightarrow> string" where
  "cache_key chat = format_int chat"

definition get_from_valkey :: "int \<Rightarrow> (valkey, string option) eff" where
  "get_from_valkey chat c =
     (case vk_command (\<lambda>c. c) c of
        (Inl e, c1) \<Rightarrow> (Inl e, c1)
      | (Inr _, c1) \<Rightarrow> (Inr (live (vk_now c1) (vk_entries c1 (cache_key chat))), c1))"

text \<open>
  \<open>DoCache\<close>: a live local copy answers; otherwise the server does, and its answer is kept for the
  client's time to live, or the entry's own if that is shorter.  Durations are nanoseconds, instants microseconds.
\<close>

definition get_with_client_side_cache :: "valkey_list_cache \<Rightarrow> int \<Rightarrow> (valkey, string option) eff" where
  "get_with_client_side_cache v chat c =
     (let key = cache_key chat in
      case live (vk_now c) (vk_local c key) of
        Some b \<Rightarrow> (Inr (Some b), c)
      | None \<Rightarrow>
          (case vk_command (\<lambda>c. c) c of
             (Inl e, c1) \<Rightarrow> (Inl e, c1)
           | (Inr _, c1) \<Rightarrow>
               (case live (vk_now c1) (vk_entries c1 key) of
                  None \<Rightarrow> (Inr None, c1)
                | Some b \<Rightarrow>
                    (Inr (Some b),
                     c1\<lparr>vk_local := (vk_local c1)(key \<mapsto>
                          (b, min (snd (the (vk_entries c1 key))) (vk_now c1 + client_side_cache_ttl v div 1000)))\<rparr>))))"

definition valkey_get :: "valkey_list_cache \<Rightarrow> int \<Rightarrow> (valkey, string option) eff" where
  "valkey_get v chat =
     (if client_side_cache_enabled v then get_with_client_side_cache v chat else get_from_valkey chat)"

definition valkey_set :: "int \<Rightarrow> string \<Rightarrow> duration \<Rightarrow> (valkey, unit) eff" where
  "valkey_set chat body ttl =
     (if ttl \<le> 0 then throw (ErrText ''cache ttl must be positive'')
      else
        vk_command (\<lambda>c. c\<lparr>vk_entries := (vk_entries c)(cache_key chat \<mapsto> (body, vk_now c + ttl div 1000)),
                         vk_local := (vk_local c)(cache_key chat := None)\<rparr>))"

definition valkey_delete :: "int \<Rightarrow> (valkey, unit) eff" where
  "valkey_delete chat =
     vk_command (\<lambda>c. c\<lparr>vk_entries := (vk_entries c)(cache_key chat := None),
                      vk_local := (vk_local c)(cache_key chat := None)\<rparr>)"

definition valkey_content :: "valkey \<Rightarrow> int \<Rightarrow> string option" where
  "valkey_content c chat = live (vk_now c) (vk_entries c (cache_key chat))"

text \<open>A live local copy is the server's entry, and goes no later.\<close>

definition valkey_sound :: "valkey \<Rightarrow> bool" where
  "valkey_sound c \<longleftrightarrow>
     (\<forall>k b x. vk_local c k = Some (b, x) \<and> vk_now c < x \<longrightarrow> (\<exists>y. vk_entries c k = Some (b, y) \<and> x \<le> y))"

definition valkey_tick :: "nat \<Rightarrow> valkey \<Rightarrow> valkey" where
  "valkey_tick n c = c\<lparr>vk_now := vk_now c + int n\<rparr>"

lemma valkey_tick_law:
  assumes "valkey_sound c"
  shows "valkey_sound (valkey_tick n c)" "valkey_content (valkey_tick n c) \<subseteq>\<^sub>m valkey_content c"
    "vk_faults (valkey_tick n c) = vk_faults c"
  using assms by (fastforce simp: valkey_sound_def valkey_tick_def valkey_content_def live_def map_le_def dom_def
      split: option.splits if_splits)+

section \<open>The interface\<close>

lemma digits_inj: "digits m = digits n \<longleftrightarrow> m = n"
proof
  assume "digits m = digits n"
  then have "parse_digits 0 (digits m) = parse_digits 0 (digits n)" by simp
  then show "m = n" by (simp only: parse_digits_digits option.inject)
qed simp

lemma cache_key_inj [simp]: "cache_key a = cache_key b \<longleftrightarrow> a = b"
proof
  assume eq: "cache_key a = cache_key b"
  have hd: "digits k \<noteq> CHR ''-'' # s" "CHR ''-'' # s \<noteq> digits k" for k s
    using hd_digits [of k] by (auto dest: sym)
  show "a = b"
  proof (cases "a < 0")
    case True
    then show ?thesis using eq hd by (auto simp: cache_key_def format_int_def digits_inj split: if_splits)
  next
    case False
    then show ?thesis using eq hd by (auto simp: cache_key_def format_int_def digits_inj split: if_splits)
  qed
qed simp

lemma vk_command_cases:
  assumes "vk_command f c = (r, c')"
  obtains (ran) fs where "c' = f (c\<lparr>vk_faults := fs\<rparr>)"
  | (refused) fs e where "r = Inl e" "c' = c\<lparr>vk_faults := fs\<rparr>"
proof (cases "vk_faults c")
  case Nil
  have "c = c\<lparr>vk_faults := vk_faults c\<rparr>" by simp
  moreover have "c' = f c" using assms Nil by (simp add: vk_command_def)
  ultimately have "c' = f (c\<lparr>vk_faults := vk_faults c\<rparr>)" by metis
  then show thesis by (rule ran)
next
  case (Cons x fs)
  show thesis
  proof (cases x)
    case (VkRefused e)
    with assms Cons have "r = Inl e" "c' = c\<lparr>vk_faults := fs\<rparr>" by (auto simp: vk_command_def)
    then show thesis by (rule refused)
  next
    case VkHealthy
    with assms Cons have "c' = f (c\<lparr>vk_faults := fs\<rparr>)" by (auto simp: vk_command_def)
    then show thesis by (rule ran)
  next
    case (VkAckLost e)
    with assms Cons have "c' = f (c\<lparr>vk_faults := fs\<rparr>)" by (auto simp: vk_command_def)
    then show thesis by (rule ran)
  qed
qed

lemma live_faults [simp]:
  "valkey_content (c\<lparr>vk_faults := fs\<rparr>) = valkey_content c"
  "valkey_sound (c\<lparr>vk_faults := fs\<rparr>) = valkey_sound c"
  by (simp_all add: valkey_content_def valkey_sound_def fun_eq_iff)

lemma get_from_valkey_law:
  assumes "valkey_sound c" "get_from_valkey k c = (r, c')"
  shows "valkey_sound c' \<and> valkey_content c' = valkey_content c \<and> (\<forall>b. r = Inr (Some b) \<longrightarrow> valkey_content c k = Some b)"
proof -
  obtain r1 c1 where v: "vk_command (\<lambda>c. c) c = (r1, c1)" by fastforce
  then obtain fs where c1: "c1 = c\<lparr>vk_faults := fs\<rparr>" by (cases rule: vk_command_cases) blast+
  then show ?thesis using assms v
    by (cases r1) (auto simp: get_from_valkey_def valkey_content_def)
qed

lemma get_local_law:
  assumes "valkey_sound c" "get_with_client_side_cache v k c = (r, c')"
  shows "valkey_sound c' \<and> valkey_content c' = valkey_content c \<and> (\<forall>b. r = Inr (Some b) \<longrightarrow> valkey_content c k = Some b)"
proof (cases "live (vk_now c) (vk_local c (cache_key k))")
  case (Some b)
  then have "r = Inr (Some b)" "c' = c" using assms(2) by (auto simp: get_with_client_side_cache_def)
  with assms(1) Some show ?thesis
    by (fastforce simp: valkey_sound_def valkey_content_def live_def split: option.splits if_splits)
next
  case None
  obtain r1 c1 where v: "vk_command (\<lambda>c. c) c = (r1, c1)" by fastforce
  then obtain fs where c1: "c1 = c\<lparr>vk_faults := fs\<rparr>" by (cases rule: vk_command_cases) blast+
  show ?thesis
  proof (cases r1)
    case (Inl e)
    then show ?thesis using assms v None c1 by (auto simp: get_with_client_side_cache_def)
  next
    case (Inr u)
    show ?thesis
    proof (cases "live (vk_now c) (vk_entries c (cache_key k))")
      case None
      then show ?thesis using assms v \<open>live (vk_now c) (vk_local c (cache_key k)) = None\<close> c1 Inr
        by (auto simp: get_with_client_side_cache_def)
    next
      case (Some b)
      then obtain ex where ex: "vk_entries c (cache_key k) = Some (b, ex)" "vk_now c < ex"
        by (auto simp: live_def split: option.splits if_splits)
      have "r = Inr (Some b)" "c' = c1\<lparr>vk_local := (vk_local c1)(cache_key k \<mapsto>
          (b, min ex (vk_now c1 + client_side_cache_ttl v div 1000)))\<rparr>"
        using assms(2) v None c1 Inr Some ex by (auto simp: get_with_client_side_cache_def)
      then show ?thesis using assms(1) c1 ex
        by (auto simp: valkey_sound_def valkey_content_def fun_eq_iff live_def split: if_splits)
    qed
  qed
qed

interpretation valkey: list_cache "valkey_get v" valkey_set valkey_delete valkey_content valkey_sound for v
proof (unfold_locales, goal_cases)
  case (1 c k r c')
  then show ?case using get_local_law [of c v k r c'] get_from_valkey_law [of c k r c']
    by (auto simp: valkey_get_def split: if_splits)
next
  case (2 c k b ttl r c')
  show ?case
  proof (cases "ttl \<le> 0")
    case True
    then have "c' = c" using 2 by (simp add: valkey_set_def)
    then show ?thesis using 2(1) by simp
  next
    case False
    then have "vk_command (\<lambda>c. c\<lparr>vk_entries := (vk_entries c)(cache_key k \<mapsto> (b, vk_now c + ttl div 1000)),
        vk_local := (vk_local c)(cache_key k := None)\<rparr>) c = (r, c')" using 2(2) by (simp add: valkey_set_def)
    then show ?thesis
    proof (cases rule: vk_command_cases)
      case (ran fs)
      then show ?thesis using 2(1)
        by (auto simp: map_le_def valkey_content_def valkey_sound_def live_def split: if_splits)
    next
      case (refused fs e)
      then show ?thesis using 2(1) by simp
    qed
  qed
next
  case (3 c k r c')
  then have "vk_command (\<lambda>c. c\<lparr>vk_entries := (vk_entries c)(cache_key k := None),
      vk_local := (vk_local c)(cache_key k := None)\<rparr>) c = (r, c')" by (simp add: valkey_delete_def)
  then show ?case
  proof (cases rule: vk_command_cases)
    case (ran fs)
    then show ?thesis using 3(1)
      by (auto simp: map_le_def valkey_content_def valkey_sound_def live_def)
  next
    case (refused fs e)
    then show ?thesis using 3(1) by simp
  qed
qed

interpretation valkey: reliable_list_cache "valkey_get v" valkey_set valkey_delete valkey_content valkey_sound
  "\<lambda>c. vk_faults c = []" for v
proof (unfold_locales, goal_cases)
  case (1 c k r c')
  then show ?case
    by (auto simp: valkey_get_def get_with_client_side_cache_def get_from_valkey_def vk_command_def Let_def
        split: if_splits option.splits)
next
  case (2 c k b ttl r c')
  then show ?case by (auto simp: valkey_set_def vk_command_def split: if_splits)
next
  case (3 c k r c')
  then show ?case by (auto simp: valkey_delete_def vk_command_def)
qed

end
