(* ===== verification/Net_Url.thy ===== *)
theory Net_Url
  imports Go_Strings
begin

text \<open>
  \<open>net/url\<close> as far as the program uses it: \<open>url.Parse\<close> with its scheme, host and decoded path,
  and \<open>Hostname\<close> (Go 1.24).  An error is \<open>LibError\<close> with the input.
\<close>

record url =
  url_scheme :: string
  url_host :: string
  url_path :: string

datatype encoding = EncodeHost | EncodeZone | EncodePath

definition ascii_letter :: "char \<Rightarrow> bool" where
  "ascii_letter c \<longleftrightarrow> (let n = of_char c :: nat in 0x41 \<le> n \<and> n \<le> 0x5A \<or> 0x61 \<le> n \<and> n \<le> 0x7A)"

definition ascii_digit :: "char \<Rightarrow> bool" where
  "ascii_digit c \<longleftrightarrow> (let n = of_char c :: nat in 0x30 \<le> n \<and> n \<le> 0x39)"

definition hex_val :: "char \<Rightarrow> nat option" where
  "hex_val c =
     (let n = of_char c :: nat in
      if 0x30 \<le> n \<and> n \<le> 0x39 then Some (n - 0x30)
      else if 0x61 \<le> n \<and> n \<le> 0x66 then Some (n - 0x61 + 10)
      else if 0x41 \<le> n \<and> n \<le> 0x46 then Some (n - 0x41 + 10)
      else None)"

text \<open>\<open>strings.Cut\<close>, \<open>strings.LastIndex\<close> as a split, and the scan for control bytes.\<close>

fun cut_at :: "char \<Rightarrow> string \<Rightarrow> (string \<times> string) option" where
  "cut_at d [] = None"
| "cut_at d (c # cs) =
     (if c = d then Some ([], cs) else map_option (\<lambda>(a, b). (c # a, b)) (cut_at d cs))"

definition cut_last :: "char \<Rightarrow> string \<Rightarrow> (string \<times> string) option" where
  "cut_last d s = map_option (\<lambda>(a, b). (rev b, rev a)) (cut_at d (rev s))"

definition has_ctl :: "string \<Rightarrow> bool" where
  "has_ctl s \<longleftrightarrow> list_ex (\<lambda>c. let n = of_char c :: nat in n < 0x20 \<or> n = 0x7F) s"

definition host_char :: "char \<Rightarrow> bool" where
  "host_char c \<longleftrightarrow> ascii_letter c \<or> ascii_digit c \<or>
     c \<in> set (''-_.~!$&()*+,;=:[]<>'' @ [CHR 0x22, CHR 0x27])"

definition user_char :: "char \<Rightarrow> bool" where
  "user_char c \<longleftrightarrow> ascii_letter c \<or> ascii_digit c \<or> c \<in> set (''-._:~!$&()*+,;=%@'' @ [CHR 0x27])"

text \<open>\<open>unescape\<close>: percent-decoding, with the checks each part of a URL has; \<open>None\<close> is an error.\<close>

fun unescape :: "encoding \<Rightarrow> string \<Rightarrow> string option" where
  "unescape m [] = Some []"
| "unescape m (c # cs) =
     (if c = CHR ''%'' then
        (case cs of
           h # l # rest \<Rightarrow>
             (case (hex_val h, hex_val l) of
                (Some a, Some b) \<Rightarrow>
                  (let v = char_of (16 * a + b) in
                   if m = EncodeHost \<and> a < 8 \<and> \<not> (h = CHR ''2'' \<and> l = CHR ''5'') then None
                   else if m = EncodeZone \<and> \<not> (h = CHR ''2'' \<and> l = CHR ''5'') \<and> v \<noteq> CHR '' '' \<and> \<not> host_char v then None
                   else map_option (\<lambda>r. v # r) (unescape m rest))
              | _ \<Rightarrow> None)
         | _ \<Rightarrow> None)
      else if m \<noteq> EncodePath \<and> (of_char c :: nat) < 0x80 \<and> \<not> host_char c then None
      else map_option (\<lambda>r. c # r) (unescape m cs))"

definition valid_optional_port :: "string \<Rightarrow> bool" where
  "valid_optional_port p \<longleftrightarrow> (case p of [] \<Rightarrow> True | c # cs \<Rightarrow> c = CHR '':'' \<and> list_all ascii_digit cs)"

fun cut_zone :: "string \<Rightarrow> (string \<times> string) option" where
  "cut_zone [] = None"
| "cut_zone (c # cs) =
     (if has_prefix (c # cs) ''%25'' then Some ([], c # cs)
      else map_option (\<lambda>(a, b). (c # a, b)) (cut_zone cs))"

definition parse_host :: "string \<Rightarrow> string option" where
  "parse_host host =
     (if has_prefix host ''['' then
        (case cut_last CHR '']'' host of
           None \<Rightarrow> None
         | Some (inner, colon_port) \<Rightarrow>
             (if \<not> valid_optional_port colon_port then None
              else
                (case cut_zone inner of
                   None \<Rightarrow> unescape EncodeHost host
                 | Some (addr, zone) \<Rightarrow>
                     (case (unescape EncodeHost addr, unescape EncodeZone zone, unescape EncodeHost (CHR '']'' # colon_port)) of
                        (Some a, Some z, Some p) \<Rightarrow> Some (a @ z @ p)
                      | _ \<Rightarrow> None))))
      else
        (case cut_last CHR '':'' host of
           None \<Rightarrow> unescape EncodeHost host
         | Some (_, port) \<Rightarrow>
             (if valid_optional_port (CHR '':'' # port) then unescape EncodeHost host else None)))"

definition valid_userinfo :: "string \<Rightarrow> bool" where
  "valid_userinfo s \<longleftrightarrow> list_all user_char s \<and>
     (case cut_at CHR '':'' s of
        None \<Rightarrow> unescape EncodePath s \<noteq> None
      | Some (user, password) \<Rightarrow> unescape EncodePath user \<noteq> None \<and> unescape EncodePath password \<noteq> None)"

definition parse_authority :: "string \<Rightarrow> string option" where
  "parse_authority authority =
     (case cut_last CHR ''@'' authority of
        None \<Rightarrow> parse_host authority
      | Some (userinfo, host) \<Rightarrow>
          (case parse_host host of
             None \<Rightarrow> None
           | Some h \<Rightarrow> if valid_userinfo userinfo then Some h else None))"

text \<open>\<open>getScheme\<close>: \<open>None\<close> is the error of a missing scheme before a colon; \<open>pre\<close> is what was read.\<close>

fun get_scheme_from :: "string \<Rightarrow> string \<Rightarrow> string \<Rightarrow> (string \<times> string) option" where
  "get_scheme_from raw pre [] = Some ([], raw)"
| "get_scheme_from raw pre (c # cs) =
     (if ascii_letter c then get_scheme_from raw (pre @ [c]) cs
      else if ascii_digit c \<or> c \<in> set ''+-.'' then
        (if pre = [] then Some ([], raw) else get_scheme_from raw (pre @ [c]) cs)
      else if c = CHR '':'' then (if pre = [] then None else Some (pre, cs))
      else Some ([], raw))"

definition get_scheme :: "string \<Rightarrow> (string \<times> string) option" where
  "get_scheme raw = get_scheme_from raw [] raw"

definition drop_query :: "string \<Rightarrow> string" where
  "drop_query rest = (case cut_at CHR ''?'' rest of None \<Rightarrow> rest | Some (a, b) \<Rightarrow> a)"

definition with_path :: "string \<Rightarrow> string \<Rightarrow> string \<Rightarrow> url option" where
  "with_path scheme host path =
     map_option (\<lambda>p. \<lparr>url_scheme = scheme, url_host = host, url_path = p\<rparr>) (unescape EncodePath path)"

definition parse_rest :: "string \<Rightarrow> string \<Rightarrow> url option" where
  "parse_rest scheme rest =
     (if \<not> has_prefix rest ''/'' then
        (if scheme \<noteq> [] then Some \<lparr>url_scheme = scheme, url_host = [], url_path = []\<rparr>
         else if contains (case cut_at CHR ''/'' rest of None \<Rightarrow> rest | Some (a, b) \<Rightarrow> a) '':'' then None
         else with_path scheme [] rest)
      else if (scheme \<noteq> [] \<or> \<not> has_prefix rest ''///'') \<and> has_prefix rest ''//'' then
        (let (authority, path) =
           (case cut_at CHR ''/'' (drop 2 rest) of None \<Rightarrow> (drop 2 rest, []) | Some (a, b) \<Rightarrow> (a, CHR ''/'' # b))
         in case parse_authority authority of
              None \<Rightarrow> None
            | Some host \<Rightarrow> with_path scheme host path)
      else with_path scheme [] rest)"

definition parse_no_fragment :: "string \<Rightarrow> url option" where
  "parse_no_fragment raw =
     (if has_ctl raw then None
      else if raw = ''*'' then Some \<lparr>url_scheme = [], url_host = [], url_path = ''*''\<rparr>
      else
        (case get_scheme raw of
           None \<Rightarrow> None
         | Some (scheme, rest) \<Rightarrow> parse_rest (map ascii_lower scheme) (drop_query rest)))"

definition url_parse :: "string \<Rightarrow> url result" where
  "url_parse raw =
     (let (u, frag) = (case cut_at CHR ''#'' raw of None \<Rightarrow> (raw, []) | Some p \<Rightarrow> p)
      in case parse_no_fragment u of
           None \<Rightarrow> Inl (LibError ''net/url.Parse'' raw)
         | Some v \<Rightarrow>
             (if unescape EncodePath frag = None then Inl (LibError ''net/url.Parse'' raw) else Inr v))"

definition url_hostname :: "url \<Rightarrow> string" where
  "url_hostname u =
     (let host = (case cut_last CHR '':'' (url_host u) of
                    None \<Rightarrow> url_host u
                  | Some (h, port) \<Rightarrow> if valid_optional_port (CHR '':'' # port) then h else url_host u)
      in if has_prefix host ''['' \<and> has_suffix host '']'' then butlast (tl host) else host)"

section \<open>Examples\<close>

lemma url_parse_github:
  "url_parse ''https://github.com/owner/repo''
     = Inr \<lparr>url_scheme = ''https'', url_host = ''github.com'', url_path = ''/owner/repo''\<rparr>"
  by code_simp

lemma url_parse_port:
  "map_sum id url_hostname (url_parse ''HTTP://Example.com:8080/a%20b?q#f'') = Inr ''Example.com''"
  by code_simp

end
