(* ===== verification/Link_Parsers.thy ===== *)
theory Link_Parsers
  imports Net_Url
begin

text \<open>
  The two parsers of tracked links: the scrapper's
  (\<open>scrapper/internal/infrastructure/parsers/link_parser.go\<close>) and the bot's
  (\<open>bot/internal/infrastructure/parsers/parser.go\<close>).
\<close>

record parsed_link =
  plRawURL :: string
  plSource :: string
  plGithubOwner :: string
  plGithubRepo :: string
  plStackOverflowQuestionID :: int

definition source_github :: string where "source_github = ''github''"

definition source_stackoverflow :: string where "source_stackoverflow = ''stackoverflow''"

definition empty_parsed_link :: parsed_link where
  "empty_parsed_link =
     \<lparr>plRawURL = [], plSource = [], plGithubOwner = [], plGithubRepo = [], plStackOverflowQuestionID = 0\<rparr>"

definition is_host :: "string \<Rightarrow> string \<Rightarrow> bool" where
  "is_host actual expected \<longleftrightarrow> actual = expected \<or> has_suffix actual (''.'' @ expected)"

definition path_parts :: "url \<Rightarrow> string list" where
  "path_parts u = split_on CHR ''/'' (trim_char CHR ''/'' (url_path u))"

definition scrapper_parse_link :: "unicode \<Rightarrow> string \<Rightarrow> parsed_link result" where
  "scrapper_parse_link uc raw =
     (case url_parse raw of
        Inl e \<Rightarrow> Inl e
      | Inr u \<Rightarrow>
          (if url_scheme u \<noteq> ''http'' \<and> url_scheme u \<noteq> ''https'' then Inl (ErrText ''unsupported link scheme'')
           else
             (let host = to_lower uc (url_hostname u); parts = path_parts u in
              if is_host host ''github.com'' \<and> length parts \<ge> 2 then
                Inr (empty_parsed_link\<lparr>plRawURL := raw, plSource := source_github,
                       plGithubOwner := parts ! 0, plGithubRepo := parts ! 1\<rparr>)
              else if is_host host ''stackoverflow.com'' \<and> length parts \<ge> 2 \<and> parts ! 0 = ''questions'' then
                (case parse_int64 (parts ! 1) of
                   Inl e \<Rightarrow> Inl e
                 | Inr i \<Rightarrow>
                     Inr (empty_parsed_link\<lparr>plRawURL := raw, plSource := source_stackoverflow,
                            plStackOverflowQuestionID := i\<rparr>))
              else Inl (ErrText ''unsupported link''))))"

definition bot_parse_link :: "string \<Rightarrow> parsed_link result" where
  "bot_parse_link raw =
     (case url_parse raw of
        Inl e \<Rightarrow> Inl e
      | Inr u \<Rightarrow>
          (if url_scheme u \<noteq> ''http'' \<and> url_scheme u \<noteq> ''https'' then Inl (ErrText ''unsupported link'')
           else
             (let host = url_host u; parts = path_parts u in
              if contains host ''github.com'' \<and> length parts \<ge> 2 then
                Inr (empty_parsed_link\<lparr>plRawURL := raw, plSource := source_github,
                       plGithubOwner := parts ! 0, plGithubRepo := parts ! 1\<rparr>)
              else if contains host ''stackoverflow.com'' \<and> length parts \<ge> 2 \<and> parts ! 0 = ''questions'' then
                (case parse_int64 (parts ! 1) of
                   Inl e \<Rightarrow> Inl e
                 | Inr i \<Rightarrow>
                     Inr (empty_parsed_link\<lparr>plRawURL := raw, plSource := source_stackoverflow,
                            plStackOverflowQuestionID := i\<rparr>))
              else Inl (ErrText ''unsupported link''))))"

section \<open>Facts\<close>

lemma to_lower_ascii: "is_ascii s \<Longrightarrow> to_lower uc s = map ascii_lower s"
  by (simp add: to_lower_def)

lemma is_host_contains: "is_host h e \<Longrightarrow> contains h e"
proof -
  assume "is_host h e"
  then obtain t where "h = t @ e @ []" by (force simp: is_host_def has_suffix_iff)
  then show ?thesis unfolding contains_iff by blast
qed

lemma scrapper_parse_link_cases:
  assumes "scrapper_parse_link uc raw = Inr p"
  obtains (github) u where "url_parse raw = Inr u" "url_scheme u \<in> {''http'', ''https''}"
      "is_host (to_lower uc (url_hostname u)) ''github.com''" "length (path_parts u) \<ge> 2"
      "p = empty_parsed_link\<lparr>plRawURL := raw, plSource := source_github,
         plGithubOwner := path_parts u ! 0, plGithubRepo := path_parts u ! 1\<rparr>"
  | (stackoverflow) u i where "url_parse raw = Inr u" "url_scheme u \<in> {''http'', ''https''}"
      "is_host (to_lower uc (url_hostname u)) ''stackoverflow.com''" "length (path_parts u) \<ge> 2"
      "path_parts u ! 0 = ''questions''" "parse_int64 (path_parts u ! 1) = Inr i"
      "p = empty_parsed_link\<lparr>plRawURL := raw, plSource := source_stackoverflow, plStackOverflowQuestionID := i\<rparr>"
proof -
  from assms obtain u where u: "url_parse raw = Inr u" by (auto simp: scrapper_parse_link_def split: sum.splits)
  with assms have scheme: "url_scheme u \<in> {''http'', ''https''}"
    by (auto simp: scrapper_parse_link_def split: if_splits)
  note r = assms [unfolded scrapper_parse_link_def u sum.case Let_def]
  show thesis
  proof (cases "is_host (to_lower uc (url_hostname u)) ''github.com'' \<and> length (path_parts u) \<ge> 2")
    case True
    then show thesis using r scheme u github by (auto split: if_splits)
  next
    case False
    then have "is_host (to_lower uc (url_hostname u)) ''stackoverflow.com'' \<and> length (path_parts u) \<ge> 2 \<and>
        path_parts u ! 0 = ''questions''"
      using r scheme by (auto split: if_splits)
    with False show thesis using r scheme u stackoverflow by (auto split: sum.splits)
  qed
qed

section \<open>Properties\<close>

text \<open>
  (C32) What the scrapper accepts is an http or https URL of github.com or stackoverflow.com or a
  subdomain of them, in any case and with any port; it is read as the repository or the
  question its path names, slashes at the ends ignored, and the raw text is kept.
\<close>

theorem scrapper_parse_link_sound:
  assumes "scrapper_parse_link uc raw = Inr p"
  shows "plRawURL p = raw \<and>
    (\<exists>u. url_parse raw = Inr u \<and> url_scheme u \<in> {''http'', ''https''} \<and>
      (plSource p = source_github \<and> is_host (to_lower uc (url_hostname u)) ''github.com'' \<and>
         (\<exists>rest. trim_char CHR ''/'' (url_path u) = plGithubOwner p @ ''/'' @ plGithubRepo p @ rest \<and>
            (rest = [] \<or> has_prefix rest ''/'')) \<and>
         CHR ''/'' \<notin> set (plGithubOwner p) \<and> CHR ''/'' \<notin> set (plGithubRepo p) \<or>
       plSource p = source_stackoverflow \<and> is_host (to_lower uc (url_hostname u)) ''stackoverflow.com'' \<and>
         (\<exists>n rest. trim_char CHR ''/'' (url_path u) = ''questions/'' @ n @ rest \<and>
            (rest = [] \<or> has_prefix rest ''/'') \<and> parse_int64 n = Inr (plStackOverflowQuestionID p))))"
proof -
  have parts: "\<exists>rest. trim_char CHR ''/'' (url_path u) = path_parts u ! 0 @ ''/'' @ path_parts u ! 1 @ rest \<and>
      (rest = [] \<or> has_prefix rest ''/'')" if two: "length (path_parts u) \<ge> 2" for u
  proof -
    obtain a b ps where ps: "path_parts u = a # b # ps"
      using two by (cases "path_parts u"; cases "tl (path_parts u)") auto
    have "join ''/'' (path_parts u) = trim_char CHR ''/'' (url_path u)"
      unfolding path_parts_def by (rule join_split_on)
    then have "trim_char CHR ''/'' (url_path u) = a @ ''/'' @ b @ (if ps = [] then [] else ''/'' @ join ''/'' ps)"
      using ps by (cases ps) simp_all
    then show ?thesis using ps
      by (intro exI [of _ "if ps = [] then [] else ''/'' @ join ''/'' ps"]) (simp add: has_prefix_def)
  qed
  have no_sep: "CHR ''/'' \<notin> set (path_parts u ! i)" if "i < length (path_parts u)" for u i
    using split_on_no_sep nth_mem [OF that] unfolding path_parts_def by blast
  from assms show ?thesis
  proof (cases rule: scrapper_parse_link_cases)
    case (github u)
    have "CHR ''/'' \<notin> set (path_parts u ! 0)" "CHR ''/'' \<notin> set (path_parts u ! 1)"
      using github(4) by (auto intro!: no_sep)
    moreover have "plRawURL p = raw" "plSource p = source_github" "plGithubOwner p = path_parts u ! 0"
      "plGithubRepo p = path_parts u ! 1" using github(5) by (simp_all add: empty_parsed_link_def)
    ultimately show ?thesis using parts [OF github(4)] github(1-3) by metis
  next
    case (stackoverflow u i)
    have "plRawURL p = raw" "plSource p = source_stackoverflow" "plStackOverflowQuestionID p = i"
      using stackoverflow(7) by (simp_all add: empty_parsed_link_def)
    moreover obtain rest where "trim_char CHR ''/'' (url_path u) = ''questions/'' @ path_parts u ! 1 @ rest"
      "rest = [] \<or> has_prefix rest ''/''"
      using parts [OF stackoverflow(4)] stackoverflow(5) by auto
    ultimately show ?thesis using stackoverflow(1-3,6) by blast
  qed
qed

theorem scrapper_parse_link_sound_witness:
  "\<exists>p. scrapper_parse_link \<lparr>uni_letter = (\<lambda>_. False), uni_digit = (\<lambda>_. False), uni_lower = (\<lambda>r. r)\<rparr>
      ''https://GitHub.com:443/owner/repo/issues/'' = Inr p \<and>
     plRawURL p = ''https://GitHub.com:443/owner/repo/issues/'' \<and> plGithubRepo p = ''repo''"
proof -
  let ?uc = "\<lparr>uni_letter = (\<lambda>_. False), uni_digit = (\<lambda>_. False), uni_lower = (\<lambda>r. r)\<rparr>"
  have "map_sum id plGithubRepo (scrapper_parse_link ?uc ''https://GitHub.com:443/owner/repo/issues/'') = Inr ''repo''"
    by code_simp
  then obtain p where "scrapper_parse_link ?uc ''https://GitHub.com:443/owner/repo/issues/'' = Inr p" "plGithubRepo p = ''repo''"
    by (cases "scrapper_parse_link ?uc ''https://GitHub.com:443/owner/repo/issues/''") auto
  with scrapper_parse_link_sound [OF this(1)] show ?thesis by blast
qed

text \<open>
  (C33) The two parsers accept the same links with the same result whenever the host is lower case,
  has no port and contains "github.com" and "stackoverflow.com" only as itself or its parent domain.
\<close>

theorem parsers_agree:
  assumes "url_parse raw = Inr u" and "to_lower uc (url_hostname u) = url_host u"
    and "contains (url_host u) ''github.com'' \<Longrightarrow> is_host (url_host u) ''github.com''"
    and "contains (url_host u) ''stackoverflow.com'' \<Longrightarrow> is_host (url_host u) ''stackoverflow.com''"
  shows "(case (scrapper_parse_link uc raw, bot_parse_link raw) of
      (Inr p, Inr q) \<Rightarrow> p = q | (Inl _, Inl _) \<Rightarrow> True | _ \<Rightarrow> False)"
proof -
  have "is_host (url_host u) ''github.com'' = contains (url_host u) ''github.com''"
    "is_host (url_host u) ''stackoverflow.com'' = contains (url_host u) ''stackoverflow.com''"
    using assms(3,4) is_host_contains by blast+
  then show ?thesis using assms(1,2)
    by (auto simp: scrapper_parse_link_def bot_parse_link_def Let_def split: sum.split)
qed

theorem parsers_agree_witness:
  "scrapper_parse_link \<lparr>uni_letter = (\<lambda>_. False), uni_digit = (\<lambda>_. False), uni_lower = (\<lambda>r. r)\<rparr>
      ''https://github.com/owner/repo'' = bot_parse_link ''https://github.com/owner/repo''"
proof -
  let ?uc = "\<lparr>uni_letter = (\<lambda>_. False), uni_digit = (\<lambda>_. False), uni_lower = (\<lambda>r. r)\<rparr>"
  let ?u = "\<lparr>url_scheme = ''https'', url_host = ''github.com'', url_path = ''/owner/repo''\<rparr>"
  have "to_lower ?uc (url_hostname ?u) = url_host ?u" by code_simp
  moreover have "is_host (url_host ?u) ''github.com''" "\<not> contains (url_host ?u) ''stackoverflow.com''" by code_simp+
  moreover have "\<exists>p. bot_parse_link ''https://github.com/owner/repo'' = Inr p"
  proof -
    have "split_on CHR ''/'' (trim_char CHR ''/'' ''/owner/repo'') = [''owner'', ''repo'']"
      "contains ''github.com'' ''github.com''" by code_simp+
    then show ?thesis by (simp add: bot_parse_link_def url_parse_github path_parts_def)
  qed
  ultimately show ?thesis
    using parsers_agree [OF url_parse_github, of ?uc] by (auto split: sum.splits)
qed


section \<open>Metric labels\<close>

text \<open>\<open>trackedSource\<close> of the link service.\<close>

definition tracked_source :: "unicode \<Rightarrow> string \<Rightarrow> string" where
  "tracked_source uc raw =
     (case url_parse raw of
        Inl _ \<Rightarrow> ''unknown''
      | Inr u \<Rightarrow>
          (if url_host u = [] then ''unknown''
           else
             (let host = trim_prefix (to_lower uc (url_host u)) ''www.'' in
              if contains host ''github.com'' then ''github''
              else if contains host ''stackoverflow.com'' then ''stackoverflow''
              else host)))"

end
