(* ===== verification/Scrapper_Services.thy ===== *)
theory Scrapper_Services
  imports Storage_Properties List_Cache Link_Parsers
begin

text \<open>
  The services of \<open>scrapper/internal/application/services\<close>: \<open>link_service.go\<close>,
  \<open>chat_service.go\<close> and \<open>tag_service.go\<close>, over any storage and list cache.  Their state is the
  storage's, the cache's and the gauge \<open>LinksOnTrackTotal\<close>.  The JSON encoding of a list of
  links is an argument.
\<close>

section \<open>State and collaborators\<close>

record ('s, 'c) services =
  sv_store :: 's
  sv_cache :: 'c
  sv_gauge :: "string \<Rightarrow> int"

record 's store_ops =
  so_chat_add :: "int \<Rightarrow> ('s, unit) eff"
  so_chat_remove :: "int \<Rightarrow> ('s, unit) eff"
  so_chat_exists :: "int \<Rightarrow> ('s, bool) eff"
  so_link_add :: "int \<Rightarrow> link \<Rightarrow> ('s, unit) eff"
  so_link_remove :: "int \<Rightarrow> string \<Rightarrow> ('s, unit) eff"
  so_link_remove_by_tag :: "int \<Rightarrow> string \<Rightarrow> ('s, int) eff"
  so_link_list :: "int \<Rightarrow> ('s, link list) eff"

record 'c cache_ops =
  co_get :: "int \<Rightarrow> ('c, string option) eff"
  co_set :: "int \<Rightarrow> string \<Rightarrow> duration \<Rightarrow> ('c, unit) eff"
  co_delete :: "int \<Rightarrow> ('c, unit) eff"

record json_links =
  marshal_links :: "link list \<Rightarrow> string result"
  unmarshal_links :: "string \<Rightarrow> link list result"

text \<open>\<open>LinkService\<close>: a cache may be missing.\<close>

record ('s, 'c) link_service =
  ls_store :: "'s store_ops"
  ls_cache :: "'c cache_ops option"
  ls_ttl :: duration
  ls_json :: json_links
  ls_unicode :: unicode

definition on_store :: "('s, 'a) eff \<Rightarrow> (('s, 'c) services, 'a) eff" where
  "on_store m s = (case m (sv_store s) of (r, st) \<Rightarrow> (r, s\<lparr>sv_store := st\<rparr>))"

definition on_cache :: "('c, 'a) eff \<Rightarrow> (('s, 'c) services, 'a) eff" where
  "on_cache m s = (case m (sv_cache s) of (r, c) \<Rightarrow> (r, s\<lparr>sv_cache := c\<rparr>))"

text \<open>\<open>_ = f()\<close>\<close>

definition ignore :: "('s, 'a) eff \<Rightarrow> ('s, unit) eff" where
  "ignore m = bindE (attempt m) (\<lambda>_. ret ())"

definition gauge_add :: "string \<Rightarrow> int \<Rightarrow> (('s, 'c) services, unit) eff" where
  "gauge_add label n s = (Inr (), s\<lparr>sv_gauge := (sv_gauge s)(label := sv_gauge s label + n)\<rparr>)"

section \<open>The link service\<close>

definition cache_enabled :: "('s, 'c) link_service \<Rightarrow> bool" where
  "cache_enabled svc \<longleftrightarrow> ls_cache svc \<noteq> None \<and> ls_ttl svc > 0"

definition invalidate_list_cache :: "('s, 'c) link_service \<Rightarrow> int \<Rightarrow> (('s, 'c) services, unit) eff" where
  "invalidate_list_cache svc chat =
     (case ls_cache svc of
        Some ops \<Rightarrow> if cache_enabled svc then ignore (on_cache (co_delete ops chat)) else ret ()
      | None \<Rightarrow> ret ())"

definition svc_add_link :: "('s, 'c) link_service \<Rightarrow> int \<Rightarrow> link \<Rightarrow> (('s, 'c) services, unit) eff" where
  "svc_add_link svc chat link =
     bindE (on_store (so_chat_exists (ls_store svc) chat)) (\<lambda>exists.
       if \<not> exists then throw ErrChatNotFound
       else
         bindE (on_store (so_link_add (ls_store svc) chat link)) (\<lambda>_.
         bindE (gauge_add (tracked_source (ls_unicode svc) (linkURL link)) 1) (\<lambda>_.
         invalidate_list_cache svc chat)))"

definition svc_remove_link :: "('s, 'c) link_service \<Rightarrow> int \<Rightarrow> string \<Rightarrow> (('s, 'c) services, unit) eff" where
  "svc_remove_link svc chat url =
     bindE (on_store (so_chat_exists (ls_store svc) chat)) (\<lambda>exists.
       if \<not> exists then throw ErrChatNotFound
       else
         bindE (on_store (so_link_remove (ls_store svc) chat url)) (\<lambda>_.
         bindE (gauge_add (tracked_source (ls_unicode svc) url) (- 1)) (\<lambda>_.
         invalidate_list_cache svc chat)))"

text \<open>The part of \<open>ListLinks\<close> that reads the storage, and the one that fills the cache.\<close>

definition svc_read_links :: "('s, 'c) link_service \<Rightarrow> int \<Rightarrow> (('s, 'c) services, link list) eff" where
  "svc_read_links svc chat =
     bindE (on_store (so_chat_exists (ls_store svc) chat)) (\<lambda>exists.
       if \<not> exists then throw ErrChatNotFound else on_store (so_link_list (ls_store svc) chat))"

definition svc_fill_cache :: "('s, 'c) link_service \<Rightarrow> int \<Rightarrow> link list \<Rightarrow> (('s, 'c) services, unit) eff" where
  "svc_fill_cache svc chat links =
     (case ls_cache svc of
        Some ops \<Rightarrow>
          (if cache_enabled svc then
             (case marshal_links (ls_json svc) links of
                Inr body \<Rightarrow> ignore (on_cache (co_set ops chat body (ls_ttl svc)))
              | Inl _ \<Rightarrow> ret ())
           else ret ())
      | None \<Rightarrow> ret ())"

definition svc_fetch_links :: "('s, 'c) link_service \<Rightarrow> int \<Rightarrow> (('s, 'c) services, link list) eff" where
  "svc_fetch_links svc chat =
     bindE (svc_read_links svc chat) (\<lambda>links. bindE (svc_fill_cache svc chat links) (\<lambda>_. ret links))"

definition svc_list_links :: "('s, 'c) link_service \<Rightarrow> int \<Rightarrow> (('s, 'c) services, link list) eff" where
  "svc_list_links svc chat =
     (case ls_cache svc of
        Some ops \<Rightarrow>
          (if cache_enabled svc then
             bindE (attempt (on_cache (co_get ops chat))) (\<lambda>cached.
               case cached of
                 Inr (Some body) \<Rightarrow>
                   (case unmarshal_links (ls_json svc) body of
                      Inr links \<Rightarrow> ret links
                    | Inl _ \<Rightarrow> bindE (invalidate_list_cache svc chat) (\<lambda>_. svc_fetch_links svc chat))
               | _ \<Rightarrow> svc_fetch_links svc chat)
           else svc_fetch_links svc chat)
      | None \<Rightarrow> svc_fetch_links svc chat)"

definition svc_remove_links_by_tag :: "('s, 'c) link_service \<Rightarrow> int \<Rightarrow> string \<Rightarrow> (('s, 'c) services, int) eff" where
  "svc_remove_links_by_tag svc chat tag =
     bindE (on_store (so_chat_exists (ls_store svc) chat)) (\<lambda>exists.
       if \<not> exists then throw ErrChatNotFound
       else
         bindE (on_store (so_link_remove_by_tag (ls_store svc) chat tag)) (\<lambda>removed_count.
         bindE (if removed_count > 0 then invalidate_list_cache svc chat else ret ()) (\<lambda>_.
         ret removed_count)))"

section \<open>The chat service\<close>

definition svc_register_chat :: "('s, 'c) link_service \<Rightarrow> int \<Rightarrow> (('s, 'c) services, unit) eff" where
  "svc_register_chat svc chat = on_store (so_chat_add (ls_store svc) chat)"

definition svc_delete_chat :: "('s, 'c) link_service \<Rightarrow> int \<Rightarrow> (('s, 'c) services, unit) eff" where
  "svc_delete_chat svc chat =
     bindE (on_store (so_chat_remove (ls_store svc) chat)) (\<lambda>_.
       case ls_cache svc of
         None \<Rightarrow> ret ()
       | Some ops \<Rightarrow> ignore (on_cache (co_delete ops chat)))"

definition svc_chat_exists :: "('s, 'c) link_service \<Rightarrow> int \<Rightarrow> (('s, 'c) services, bool) eff" where
  "svc_chat_exists svc chat = on_store (so_chat_exists (ls_store svc) chat)"

section \<open>The tag service\<close>

record 's tag_ops =
  to_chat_exists :: "int \<Rightarrow> ('s, bool) eff"
  to_create :: "int \<Rightarrow> string \<Rightarrow> ('s, unit) eff"
  to_list :: "int \<Rightarrow> ('s, tag list) eff"
  to_rename :: "int \<Rightarrow> string \<Rightarrow> string \<Rightarrow> ('s, unit) eff"
  to_delete :: "int \<Rightarrow> string \<Rightarrow> ('s, unit) eff"

definition svc_create_tag :: "'s tag_ops \<Rightarrow> int \<Rightarrow> string \<Rightarrow> ('s, unit) eff" where
  "svc_create_tag ops chat name =
     bindE (to_chat_exists ops chat) (\<lambda>exists.
       if \<not> exists then throw ErrChatNotFound
       else (let name = trim_space name in
             if name = [] then throw ErrInvalidRequest else to_create ops chat name))"

definition svc_list_tags :: "'s tag_ops \<Rightarrow> int \<Rightarrow> ('s, tag list) eff" where
  "svc_list_tags ops chat =
     bindE (to_chat_exists ops chat) (\<lambda>exists.
       if \<not> exists then throw ErrChatNotFound else to_list ops chat)"

definition svc_rename_tag :: "'s tag_ops \<Rightarrow> int \<Rightarrow> string \<Rightarrow> string \<Rightarrow> ('s, unit) eff" where
  "svc_rename_tag ops chat old_name new_name =
     bindE (to_chat_exists ops chat) (\<lambda>exists.
       if \<not> exists then throw ErrChatNotFound
       else (let old_name = trim_space old_name; new_name = trim_space new_name in
             if old_name = [] \<or> new_name = [] then throw ErrInvalidRequest
             else to_rename ops chat old_name new_name))"

definition svc_delete_tag :: "'s tag_ops \<Rightarrow> int \<Rightarrow> string \<Rightarrow> ('s, unit) eff" where
  "svc_delete_tag ops chat name =
     bindE (to_chat_exists ops chat) (\<lambda>exists.
       if \<not> exists then throw ErrChatNotFound
       else (let name = trim_space name in
             if name = [] then throw ErrInvalidRequest else to_delete ops chat name))"

section \<open>Coherence of the cache\<close>

text \<open>A list of the chat's links by URL and tags; the instants may be older.\<close>

definition lists_urls :: "int \<Rightarrow> link list \<Rightarrow> tracker \<Rightarrow> bool" where
  "lists_urls c ls t \<longleftrightarrow>
     linkURL ` set ls = {u. (c, u) \<in> tk_subs t} \<and> distinct (map linkURL ls) \<and>
     (\<forall>l \<in> set ls. set (linkTags l) = {n. (c, linkURL l, n) \<in> tk_tagged t})"

lemma lists_links_urls: "lists_links c ls t \<Longrightarrow> lists_urls c ls t"
  by (simp add: lists_links_def lists_urls_def)

definition json_round_trip :: "json_links \<Rightarrow> bool" where
  "json_round_trip j \<longleftrightarrow> (\<forall>ls body. marshal_links j ls = Inr body \<longrightarrow> unmarshal_links j body = Inr ls)"

text \<open>What is cached is an up-to-date list of a registered chat.\<close>

definition cache_coherent ::
    "json_links \<Rightarrow> ('c \<Rightarrow> int \<Rightarrow> string option) \<Rightarrow> ('s \<Rightarrow> tracker) \<Rightarrow> ('s, 'c) services \<Rightarrow> bool" where
  "cache_coherent json content view s \<longleftrightarrow>
     (\<forall>c b. content (sv_cache s) c = Some b \<longrightarrow> c \<in> tk_chats (view (sv_store s)) \<and>
        (\<exists>ls. unmarshal_links json b = Inr ls \<and> lists_urls c ls (view (sv_store s))))"

lemma cache_coherent_sub:
  assumes "cache_coherent json content view s" "content c' \<subseteq>\<^sub>m content (sv_cache s)" "view st' = view (sv_store s)"
  shows "cache_coherent json content view (s\<lparr>sv_cache := c', sv_store := st'\<rparr>)"
  using assms by (fastforce simp: cache_coherent_def map_le_def dom_def)

text \<open>A change of the storage that concerns one chat, whose entry is gone.\<close>

lemma cache_coherent_change:
  assumes "cache_coherent json content view s" "content c' \<subseteq>\<^sub>m content (sv_cache s)" "content c' k = None"
    and "\<And>c ls. c \<noteq> k \<Longrightarrow> c \<in> tk_chats (view (sv_store s)) \<Longrightarrow> lists_urls c ls (view (sv_store s)) \<Longrightarrow>
       c \<in> tk_chats (view st') \<and> lists_urls c ls (view st')"
  shows "cache_coherent json content view (s\<lparr>sv_cache := c', sv_store := st', sv_gauge := g\<rparr>)"
  unfolding cache_coherent_def
proof (intro allI impI)
  fix c b assume "content (sv_cache (s\<lparr>sv_cache := c', sv_store := st', sv_gauge := g\<rparr>)) c = Some b"
  then have cb: "content c' c = Some b" by simp
  then have "c \<noteq> k" "content (sv_cache s) c = Some b" using assms(2,3) by (auto simp: map_le_def dom_def)
  with assms(1) assms(4) show "c \<in> tk_chats (view (sv_store (s\<lparr>sv_cache := c', sv_store := st', sv_gauge := g\<rparr>))) \<and>
      (\<exists>ls. unmarshal_links json b = Inr ls \<and> lists_urls c ls (view (sv_store (s\<lparr>sv_cache := c', sv_store := st', sv_gauge := g\<rparr>))))"
    by (fastforce simp: cache_coherent_def)
qed

lemma lists_urls_other:
  "c \<noteq> k \<Longrightarrow> lists_urls c ls (tk_add_link k l t) = lists_urls c ls t"
  "c \<noteq> k \<Longrightarrow> lists_urls c ls (tk_untrack k U t) = lists_urls c ls t"
  "c \<noteq> k \<Longrightarrow> lists_urls c ls (tk_unregister k t) = lists_urls c ls t"
  by (auto simp: lists_urls_def tk_add_link_def tk_add_def tk_untrack_def tk_unregister_def)

lemma tk_chats_ops [simp]:
  "tk_chats (tk_add_link k l t) = tk_chats t" "tk_chats (tk_untrack k U t) = tk_chats t"
  "tk_chats (tk_unregister k t) = tk_chats t - {k}" "tk_chats (tk_register k t) = insert k (tk_chats t)"
  by (simp_all add: tk_add_link_def tk_add_def tk_untrack_def tk_unregister_def tk_register_def)

definition new_link_service_with_cache ::
    "'s store_ops \<Rightarrow> 'c cache_ops \<Rightarrow> duration \<Rightarrow> json_links \<Rightarrow> unicode \<Rightarrow> ('s, 'c) link_service" where
  "new_link_service_with_cache store cache ttl json uc =
     \<lparr>ls_store = store, ls_cache = Some cache, ls_ttl = ttl, ls_json = json, ls_unicode = uc\<rparr>"

definition new_link_service :: "'s store_ops \<Rightarrow> json_links \<Rightarrow> unicode \<Rightarrow> ('s, 'c) link_service" where
  "new_link_service store json uc =
     \<lparr>ls_store = store, ls_cache = None, ls_ttl = 0, ls_json = json, ls_unicode = uc\<rparr>"

text \<open>Reading through the cache.\<close>

definition reads_links :: "int \<Rightarrow> link list result \<Rightarrow> tracker \<Rightarrow> bool" where
  "reads_links c r t \<longleftrightarrow>
     (case r of
        Inl e \<Rightarrow> c \<notin> tk_chats t \<and> e = ErrChatNotFound
      | Inr ls \<Rightarrow> c \<in> tk_chats t \<and> lists_urls c ls t)"

section \<open>Requests\<close>

text \<open>What the API servers ask of the services, one request at a time, and what the chats see.\<close>

datatype request =
    RegisterChat int
  | DeleteChat int
  | AddLink int link
  | RemoveLink int string
  | ListLinks int
  | RemoveLinksByTag int string

datatype answer = Done | Links "link list" | Removed int | Failed go_error

definition answered :: "('a \<Rightarrow> answer) \<Rightarrow> 'a result \<times> 's \<Rightarrow> answer \<times> 's" where
  "answered f rs = (case fst rs of Inl e \<Rightarrow> Failed e | Inr x \<Rightarrow> f x, snd rs)"

fun serve :: "('s, 'c) link_service \<Rightarrow> request \<Rightarrow> ('s, 'c) services \<Rightarrow> answer \<times> ('s, 'c) services" where
  "serve svc (RegisterChat c) s = answered (\<lambda>_. Done) (svc_register_chat svc c s)"
| "serve svc (DeleteChat c) s = answered (\<lambda>_. Done) (svc_delete_chat svc c s)"
| "serve svc (AddLink c l) s = answered (\<lambda>_. Done) (svc_add_link svc c l s)"
| "serve svc (RemoveLink c u) s = answered (\<lambda>_. Done) (svc_remove_link svc c u s)"
| "serve svc (ListLinks c) s = answered Links (svc_list_links svc c s)"
| "serve svc (RemoveLinksByTag c n) s = answered Removed (svc_remove_links_by_tag svc c n s)"

text \<open>Between two requests the cache may lose entries, by \<open>tick\<close>.\<close>

fun serve_all :: "(nat \<Rightarrow> 'c \<Rightarrow> 'c) \<Rightarrow> ('s, 'c) link_service \<Rightarrow> (request \<times> nat) list \<Rightarrow> ('s, 'c) services \<Rightarrow>
    answer list \<times> ('s, 'c) services" where
  "serve_all tick svc [] s = ([], s)"
| "serve_all tick svc ((req, n) # reqs) s =
     (let (a, s1) = serve svc req s;
          (rest, s2) = serve_all tick svc reqs (s1\<lparr>sv_cache := tick n (sv_cache s1)\<rparr>)
      in (a # rest, s2))"

text \<open>The specification: the effect of a request on the tracker and the answers it may get.\<close>

fun tk_effect :: "request \<Rightarrow> tracker \<Rightarrow> tracker" where
  "tk_effect (RegisterChat c) t = tk_register c t"
| "tk_effect (DeleteChat c) t = tk_unregister c t"
| "tk_effect (AddLink c l) t = (if c \<in> tk_chats t then tk_add_link c l t else t)"
| "tk_effect (RemoveLink c u) t = (if c \<in> tk_chats t \<and> (c, u) \<in> tk_subs t then tk_untrack c {u} t else t)"
| "tk_effect (ListLinks c) t = t"
| "tk_effect (RemoveLinksByTag c n) t = (if c \<in> tk_chats t then tk_remove_by_tag c n t else t)"

fun tk_answer :: "request \<Rightarrow> tracker \<Rightarrow> answer \<Rightarrow> bool" where
  "tk_answer (RegisterChat c) t a = (a = Done)"
| "tk_answer (DeleteChat c) t a = (a = (if c \<in> tk_chats t then Done else Failed RepoErrChatNotFound))"
| "tk_answer (AddLink c l) t a = (a = (if c \<in> tk_chats t then Done else Failed ErrChatNotFound))"
| "tk_answer (RemoveLink c u) t a =
     (a = (if c \<notin> tk_chats t then Failed ErrChatNotFound
           else if (c, u) \<in> tk_subs t then Done else Failed ErrLinkNotFound))"
| "tk_answer (ListLinks c) t a =
     (if c \<in> tk_chats t then (case a of Links ls \<Rightarrow> lists_urls c ls t | _ \<Rightarrow> False) else a = Failed ErrChatNotFound)"
| "tk_answer (RemoveLinksByTag c n) t a =
     (a = (if c \<in> tk_chats t then Removed (int (card (tk_urls_with_tag c n t))) else Failed ErrChatNotFound))"

fun tk_answers :: "request list \<Rightarrow> tracker \<Rightarrow> answer list \<Rightarrow> bool" where
  "tk_answers [] t as = (as = [])"
| "tk_answers (r # rs) t [] = False"
| "tk_answers (r # rs) t (a # as) = (tk_answer r t a \<and> tk_answers rs (tk_effect r t) as)"

section \<open>The services over a storage and a cache without faults\<close>

locale cached_services =
  tracker_store inv calm abs chat_add chat_remove chat_exists link_add link_remove link_remove_by_tag link_list +
  reliable_list_cache get set delete content sound reliable
  for inv calm :: "'s \<Rightarrow> bool" and abs chat_add chat_remove chat_exists link_add link_remove link_remove_by_tag link_list
    and get set delete content and sound reliable :: "'c \<Rightarrow> bool" +
  fixes json :: json_links and ttl :: duration and uc :: unicode and tick :: "nat \<Rightarrow> 'c \<Rightarrow> 'c"
  assumes tick: "sound c \<Longrightarrow> reliable c \<Longrightarrow> sound (tick n c) \<and> reliable (tick n c) \<and> content (tick n c) \<subseteq>\<^sub>m content c"
begin

abbreviation svc :: "('s, 'c) link_service" where
  "svc \<equiv> new_link_service_with_cache
     \<lparr>so_chat_add = chat_add, so_chat_remove = chat_remove, so_chat_exists = chat_exists,
      so_link_add = link_add, so_link_remove = link_remove, so_link_remove_by_tag = link_remove_by_tag,
      so_link_list = link_list\<rparr>
     \<lparr>co_get = get, co_set = set, co_delete = delete\<rparr> ttl json uc"

abbreviation good :: "('s, 'c) services \<Rightarrow> bool" where
  "good s \<equiv> json_round_trip json \<and> 0 < ttl \<and> inv (sv_store s) \<and> calm (sv_store s) \<and> sound (sv_cache s) \<and> reliable (sv_cache s) \<and>
     cache_coherent json content abs s"

lemma enabled: "0 < ttl \<Longrightarrow> cache_enabled svc"
  by (simp add: cache_enabled_def new_link_service_with_cache_def)

lemma exists_step:
  assumes "good s"
  shows "\<exists>st. on_store (chat_exists c) s = (Inr (c \<in> tk_chats (abs (sv_store s))), s\<lparr>sv_store := st\<rparr>) \<and>
     inv st \<and> calm st \<and> abs st = abs (sv_store s)"
  using chat_exists [of "sv_store s" c] assms by (cases "chat_exists c (sv_store s)") (auto simp: on_store_def)

lemma invalidate_step:
  assumes "0 < ttl" "sound (sv_cache s)" "reliable (sv_cache s)"
  shows "\<exists>c'. invalidate_list_cache svc k s = (Inr (), s\<lparr>sv_cache := c'\<rparr>) \<and> sound c' \<and> reliable c' \<and>
     content c' \<subseteq>\<^sub>m content (sv_cache s) \<and> content c' k = None"
  using assms enabled delete_content [of "sv_cache s" k] delete_reliable [of "sv_cache s" k]
  by (cases "delete k (sv_cache s)")
    (auto simp: invalidate_list_cache_def new_link_service_with_cache_def ignore_def bindE_apply on_cache_def)

text \<open>A write to the storage followed by invalidation, the shape of adding and removing a link.\<close>

lemma write_step:
  assumes "good s" "inv st" "calm st" "abs st = f (abs (sv_store s))"
    and "\<And>c ls t. c \<noteq> k \<Longrightarrow> c \<in> tk_chats t \<Longrightarrow> lists_urls c ls t \<Longrightarrow> c \<in> tk_chats (f t) \<and> lists_urls c ls (f t)"
  shows "\<exists>s'. invalidate_list_cache svc k (s\<lparr>sv_store := st, sv_gauge := g\<rparr>) = (Inr (), s') \<and> good s' \<and>
     abs (sv_store s') = f (abs (sv_store s))"
proof -
  obtain c' where c': "invalidate_list_cache svc k (s\<lparr>sv_store := st, sv_gauge := g\<rparr>)
      = (Inr (), s\<lparr>sv_store := st, sv_gauge := g, sv_cache := c'\<rparr>)" "sound c'" "reliable c'"
    "content c' \<subseteq>\<^sub>m content (sv_cache s)" "content c' k = None"
    using invalidate_step [of "s\<lparr>sv_store := st, sv_gauge := g\<rparr>" k] assms(1) by auto
  have "cache_coherent json content abs (s\<lparr>sv_cache := c', sv_store := st, sv_gauge := g\<rparr>)"
    using assms(1,4,5) c' by (intro cache_coherent_change [where k = k]) auto
  then have "cache_coherent json content abs (s\<lparr>sv_store := st, sv_gauge := g, sv_cache := c'\<rparr>)"
    by (simp add: cache_coherent_def)
  with c' assms(1-4) show ?thesis by auto
qed

lemma add_link_good:
  assumes "good s"
  shows "\<exists>s'. svc_add_link svc c link s = (if c \<in> tk_chats (abs (sv_store s)) then Inr () else Inl ErrChatNotFound, s') \<and>
    good s' \<and> abs (sv_store s') =
      (if c \<in> tk_chats (abs (sv_store s)) then tk_add_link c link (abs (sv_store s)) else abs (sv_store s))"
proof -
  obtain st where st: "on_store (chat_exists c) s = (Inr (c \<in> tk_chats (abs (sv_store s))), s\<lparr>sv_store := st\<rparr>)"
    "inv st" "calm st" "abs st = abs (sv_store s)" using exists_step [OF assms] by blast
  show ?thesis
  proof (cases "c \<in> tk_chats (abs (sv_store s))")
    case False
    have "cache_coherent json content abs (s\<lparr>sv_store := st\<rparr>)"
      using assms st(4) by (simp add: cache_coherent_def)
    with False st assms show ?thesis by (simp add: svc_add_link_def new_link_service_with_cache_def)
  next
    case True
    obtain st2 where st2: "link_add c link st = (Inr (), st2)" "inv st2" "calm st2"
      "abs st2 = tk_add_link c link (abs (sv_store s))"
      using link_add [of st c link] st True by (cases "link_add c link st") auto
    let ?g = "(sv_gauge s)(tracked_source uc (linkURL link) := sv_gauge s (tracked_source uc (linkURL link)) + 1)"
    obtain s' where s': "invalidate_list_cache svc c (s\<lparr>sv_store := st2, sv_gauge := ?g\<rparr>) = (Inr (), s')" "good s'"
      "abs (sv_store s') = tk_add_link c link (abs (sv_store s))"
      using write_step [where f = "tk_add_link c link", OF assms st2(2-4), of c ?g] by (auto simp: lists_urls_other)
    have "svc_add_link svc c link s = (Inr (), s')"
      using st True st2 s'(1)
      by (simp add: svc_add_link_def new_link_service_with_cache_def on_store_def gauge_add_def bindE_apply)
    with s' True show ?thesis by auto
  qed
qed

lemma remove_link_good:
  assumes "good s"
  shows "\<exists>s'. svc_remove_link svc c u s =
      (if c \<notin> tk_chats (abs (sv_store s)) then Inl ErrChatNotFound
       else if (c, u) \<in> tk_subs (abs (sv_store s)) then Inr () else Inl ErrLinkNotFound, s') \<and>
    good s' \<and> abs (sv_store s') =
      (if c \<in> tk_chats (abs (sv_store s)) \<and> (c, u) \<in> tk_subs (abs (sv_store s)) then tk_untrack c {u} (abs (sv_store s)) else abs (sv_store s))"
proof -
  obtain st where st: "on_store (chat_exists c) s = (Inr (c \<in> tk_chats (abs (sv_store s))), s\<lparr>sv_store := st\<rparr>)"
    "inv st" "calm st" "abs st = abs (sv_store s)" using exists_step [OF assms] by blast
  obtain r st2 where st2: "link_remove c u st = (r, st2)" by fastforce
  note law = link_remove [OF st(2) st2, unfolded st(4)]
  have r: "inv st2" "calm st2"
    "r = (if (c, u) \<in> tk_subs (abs (sv_store s)) then Inr () else Inl ErrLinkNotFound)"
    "(c, u) \<notin> tk_subs (abs (sv_store s)) \<Longrightarrow> abs st2 = abs (sv_store s)"
    "(c, u) \<in> tk_subs (abs (sv_store s)) \<Longrightarrow> abs st2 = tk_untrack c {u} (abs (sv_store s))"
  proof -
    show 1: "inv st2" and "calm st2" and 3: "r = (if (c, u) \<in> tk_subs (abs (sv_store s)) then Inr () else Inl ErrLinkNotFound)"
      and "(c, u) \<notin> tk_subs (abs (sv_store s)) \<Longrightarrow> abs st2 = abs (sv_store s)"
      using law st(3) by blast+
    show "abs st2 = tk_untrack c {u} (abs (sv_store s))" if "(c, u) \<in> tk_subs (abs (sv_store s))"
      using law 3 [unfolded if_P [OF that]] by blast
  qed
  show ?thesis
  proof (cases "c \<in> tk_chats (abs (sv_store s)) \<and> (c, u) \<in> tk_subs (abs (sv_store s))")
    case True
    let ?g = "(sv_gauge s)(tracked_source uc u := sv_gauge s (tracked_source uc u) + - 1)"
    obtain s' where s': "invalidate_list_cache svc c (s\<lparr>sv_store := st2, sv_gauge := ?g\<rparr>) = (Inr (), s')" "good s'"
      "abs (sv_store s') = tk_untrack c {u} (abs (sv_store s))"
      using write_step [where f = "tk_untrack c {u}" and k = c and g = ?g, OF assms r(1,2)] r(5) True
      by (auto simp: lists_urls_other)
    have "svc_remove_link svc c u s = (Inr (), s')"
      using st True st2 r(3) s'(1)
      by (simp add: svc_remove_link_def new_link_service_with_cache_def on_store_def gauge_add_def bindE_apply)
    with s' True show ?thesis by auto
  next
    case False
    show ?thesis
    proof (cases "c \<in> tk_chats (abs (sv_store s))")
      case True
      with False have "svc_remove_link svc c u s = (Inl ErrLinkNotFound, s\<lparr>sv_store := st2\<rparr>)"
        using st st2 r(3) by (simp add: svc_remove_link_def new_link_service_with_cache_def on_store_def bindE_apply)
      with True False assms r show ?thesis by (auto simp: cache_coherent_def)
    next
      case no_chat: False
      then have "svc_remove_link svc c u s = (Inl ErrChatNotFound, s\<lparr>sv_store := st\<rparr>)"
        using st by (simp add: svc_remove_link_def new_link_service_with_cache_def)
      with no_chat assms st show ?thesis by (auto simp: cache_coherent_def)
    qed
  qed
qed

lemma fill_step:
  assumes "good s" "c \<in> tk_chats (abs (sv_store s))" "lists_urls c ls (abs (sv_store s))"
  shows "\<exists>s'. svc_fill_cache svc c ls s = (Inr (), s') \<and> good s' \<and> sv_store s' = sv_store s"
proof (cases "marshal_links json ls")
  case (Inl e)
  then show ?thesis using assms by (simp add: svc_fill_cache_def new_link_service_with_cache_def)
next
  case (Inr body)
  obtain r c' where set: "set c body ttl (sv_cache s) = (r, c')" by fastforce
  have c': "sound c'" "reliable c'" "content c' \<subseteq>\<^sub>m (content (sv_cache s))(c \<mapsto> body) \<or> content c' \<subseteq>\<^sub>m content (sv_cache s)"
    using set_content [OF _ set] set_reliable [OF _ set] assms(1) by auto
  have "svc_fill_cache svc c ls s = (Inr (), s\<lparr>sv_cache := c'\<rparr>)"
    using Inr set enabled assms(1)
    by (simp add: svc_fill_cache_def new_link_service_with_cache_def ignore_def bindE_apply on_cache_def)
  moreover have "cache_coherent json content abs (s\<lparr>sv_cache := c'\<rparr>)"
    unfolding cache_coherent_def
  proof (intro allI impI)
    fix k b assume "content (sv_cache (s\<lparr>sv_cache := c'\<rparr>)) k = Some b"
    then have "k \<in> dom (content c')" "content c' k = Some b" by auto
    then have "k = c \<and> b = body \<or> content (sv_cache s) k = Some b"
      using c'(3) unfolding map_le_def by (metis fun_upd_apply option.inject)
    then show "k \<in> tk_chats (abs (sv_store (s\<lparr>sv_cache := c'\<rparr>))) \<and>
        (\<exists>ls. unmarshal_links json b = Inr ls \<and> lists_urls k ls (abs (sv_store (s\<lparr>sv_cache := c'\<rparr>))))"
      using assms Inr by (fastforce simp: cache_coherent_def json_round_trip_def)
  qed
  ultimately show ?thesis using assms(1) c' by auto
qed

lemma fetch_good:
  assumes "good s"
  shows "\<exists>r s'. svc_fetch_links svc c s = (r, s') \<and> good s' \<and> abs (sv_store s') = abs (sv_store s) \<and>
     reads_links c r (abs (sv_store s))"
proof -
  obtain st where st: "on_store (chat_exists c) s = (Inr (c \<in> tk_chats (abs (sv_store s))), s\<lparr>sv_store := st\<rparr>)"
    "inv st" "calm st" "abs st = abs (sv_store s)" using exists_step [OF assms] by blast
  show ?thesis
  proof (cases "c \<in> tk_chats (abs (sv_store s))")
    case False
    then have "svc_fetch_links svc c s = (Inl ErrChatNotFound, s\<lparr>sv_store := st\<rparr>)"
      using st(1) by (simp add: svc_fetch_links_def svc_read_links_def new_link_service_with_cache_def)
    with False assms st(2-4) show ?thesis by (auto simp: reads_links_def cache_coherent_def)
  next
    case True
    obtain rl st2 where l: "link_list c st = (rl, st2)" by fastforce
    obtain ls where ls: "rl = Inr ls" "inv st2" "calm st2" "abs st2 = abs (sv_store s)" "lists_urls c ls (abs (sv_store s))"
      using link_list [OF st(2) l, unfolded st(4)] st(3) lists_links_urls by blast
    have "good (s\<lparr>sv_store := st2\<rparr>)" using assms ls(2-4) by (simp add: cache_coherent_def)
    then obtain s' where s': "svc_fill_cache svc c ls (s\<lparr>sv_store := st2\<rparr>) = (Inr (), s')" "good s'" "sv_store s' = st2"
      using fill_step [of "s\<lparr>sv_store := st2\<rparr>" c ls] True ls(4,5) by auto
    have "svc_read_links svc c s = (Inr ls, s\<lparr>sv_store := st2\<rparr>)"
      using st(1) True l ls(1) by (simp add: svc_read_links_def new_link_service_with_cache_def on_store_def)
    then have "svc_fetch_links svc c s = (Inr ls, s')"
      using s'(1) by (simp add: svc_fetch_links_def)
    with True s'(2,3) ls(4,5) show ?thesis by (auto simp: reads_links_def)
  qed
qed

lemma list_links_good:
  assumes "good s"
  shows "\<exists>r s'. svc_list_links svc c s = (r, s') \<and> good s' \<and> abs (sv_store s') = abs (sv_store s) \<and>
     reads_links c r (abs (sv_store s))"
proof -
  obtain r c' where get: "get c (sv_cache s) = (r, c')" by fastforce
  have c': "sound c'" "reliable c'" "content c' \<subseteq>\<^sub>m content (sv_cache s)"
    "\<And>b. r = Inr (Some b) \<Longrightarrow> content (sv_cache s) c = Some b"
    using get_content [OF _ get] get_reliable [OF _ get] assms by blast+
  let ?s = "s\<lparr>sv_cache := c'\<rparr>"
  have good': "good ?s" using cache_coherent_sub [of json content abs s c' "sv_store s"] assms c' by simp
  have unfold: "svc_list_links svc c s = (case r of
      Inr (Some body) \<Rightarrow> (case unmarshal_links json body of Inr links \<Rightarrow> ret links
          | Inl _ \<Rightarrow> bindE (invalidate_list_cache svc c) (\<lambda>_. svc_fetch_links svc c)) ?s
    | _ \<Rightarrow> svc_fetch_links svc c ?s)"
    using get enabled assms by (simp add: svc_list_links_def new_link_service_with_cache_def on_cache_def bindE_apply
        split: sum.split option.split)
  show ?thesis
  proof (cases "\<exists>b. r = Inr (Some b)")
    case True
    then obtain b where b: "r = Inr (Some b)" by blast
    with c'(4) assms obtain ls where "c \<in> tk_chats (abs (sv_store s))" "unmarshal_links json b = Inr ls"
      "lists_urls c ls (abs (sv_store s))" by (auto simp: cache_coherent_def)
    with b good' show ?thesis by (simp add: unfold reads_links_def)
  next
    case False
    then have "svc_list_links svc c s = svc_fetch_links svc c ?s"
      by (auto simp: unfold split: sum.split option.split)
    with fetch_good [OF good', of c] show ?thesis by simp
  qed
qed

lemma remove_by_tag_good:
  assumes "good s"
  shows "\<exists>s'. svc_remove_links_by_tag svc c n s =
      (if c \<in> tk_chats (abs (sv_store s)) then Inr (int (card (tk_urls_with_tag c n (abs (sv_store s))))) else Inl ErrChatNotFound, s') \<and>
    good s' \<and> abs (sv_store s') =
      (if c \<in> tk_chats (abs (sv_store s)) then tk_remove_by_tag c n (abs (sv_store s)) else abs (sv_store s))"
proof -
  let ?t = "abs (sv_store s)"
  obtain st where st: "on_store (chat_exists c) s = (Inr (c \<in> tk_chats ?t), s\<lparr>sv_store := st\<rparr>)"
    "inv st" "calm st" "abs st = ?t" using exists_step [OF assms] by blast
  show ?thesis
  proof (cases "c \<in> tk_chats ?t")
    case False
    then have "svc_remove_links_by_tag svc c n s = (Inl ErrChatNotFound, s\<lparr>sv_store := st\<rparr>)"
      using st(1) by (simp add: svc_remove_links_by_tag_def new_link_service_with_cache_def)
    with False assms st(2-4) show ?thesis by (auto simp: cache_coherent_def)
  next
    case True
    obtain rk st2 where rk: "link_remove_by_tag c n st = (rk, st2)" by fastforce
    note law = link_remove_by_tag [OF st(2) rk, unfolded st(4)]
    have st2: "inv st2" "calm st2" "rk = Inr (int (card (tk_urls_with_tag c n ?t)))" "abs st2 = tk_remove_by_tag c n ?t"
      using law st(3) by blast+
    show ?thesis
    proof (cases "0 < int (card (tk_urls_with_tag c n ?t))")
      case pos: True
      obtain s' where s': "invalidate_list_cache svc c (s\<lparr>sv_store := st2, sv_gauge := sv_gauge s\<rparr>) = (Inr (), s')" "good s'"
        "abs (sv_store s') = tk_remove_by_tag c n ?t"
        using write_step [where f = "tk_remove_by_tag c n" and k = c and g = "sv_gauge s", OF assms st2(1,2,4)]
        by (auto simp: lists_urls_other tk_remove_by_tag_def)
      have "svc_remove_links_by_tag svc c n s = (Inr (int (card (tk_urls_with_tag c n ?t))), s')"
        using st True rk st2(3) s'(1) pos
        by (simp add: svc_remove_links_by_tag_def new_link_service_with_cache_def on_store_def bindE_apply)
      with s' True show ?thesis by auto
    next
      case zero: False
      have none: "tk_remove_by_tag c n ?t = ?t" if "tk_urls_with_tag c n ?t = {}"
        using that by (simp add: tk_remove_by_tag_def tk_untrack_def)
      have "svc_remove_links_by_tag svc c n s = (Inr (int (card (tk_urls_with_tag c n ?t))), s\<lparr>sv_store := st2\<rparr>)"
        using st True rk st2(3) zero
        by (simp add: svc_remove_links_by_tag_def new_link_service_with_cache_def on_store_def bindE_apply)
      moreover have "tk_urls_with_tag c n ?t = {}" using zero finite_tagged [of "sv_store s" c n] assms by simp
      ultimately show ?thesis using True assms st2 none by (simp add: cache_coherent_def)
    qed
  qed
qed

lemma register_good:
  assumes "good s"
  shows "\<exists>s'. svc_register_chat svc c s = (Inr (), s') \<and> good s' \<and> abs (sv_store s') = tk_register c (abs (sv_store s))"
proof -
  obtain r st where st: "chat_add c (sv_store s) = (r, st)" by fastforce
  note law = chat_add [OF _ st]
  have "r = Inr ()" "inv st" "calm st" "abs st = tk_register c (abs (sv_store s))" using law assms by blast+
  moreover from this have "cache_coherent json content abs (s\<lparr>sv_store := st\<rparr>)"
    using assms by (auto simp: cache_coherent_def lists_urls_def tk_register_def)
  ultimately show ?thesis using st assms
    by (simp add: svc_register_chat_def new_link_service_with_cache_def on_store_def)
qed

lemma delete_chat_good:
  assumes "good s"
  shows "\<exists>s'. svc_delete_chat svc c s = (if c \<in> tk_chats (abs (sv_store s)) then Inr () else Inl RepoErrChatNotFound, s') \<and>
    good s' \<and> abs (sv_store s') = tk_unregister c (abs (sv_store s))"
proof -
  let ?t = "abs (sv_store s)"
  obtain r st where st: "chat_remove c (sv_store s) = (r, st)" by fastforce
  note law = chat_remove [OF _ st]
  have r: "r = (if c \<in> tk_chats ?t then Inr () else Inl RepoErrChatNotFound)" "inv st" "calm st"
    using law assms by blast+
  show ?thesis
  proof (cases "c \<in> tk_chats ?t")
    case True
    have abs: "abs st = tk_unregister c ?t" using law assms r(1) [unfolded if_P [OF True]] by blast
    obtain s' where s': "invalidate_list_cache svc c (s\<lparr>sv_store := st, sv_gauge := sv_gauge s\<rparr>) = (Inr (), s')" "good s'"
      "abs (sv_store s') = tk_unregister c ?t"
      using write_step [where f = "tk_unregister c" and k = c and g = "sv_gauge s", OF assms r(2,3) abs]
      by (auto simp: lists_urls_other)
    have "svc_delete_chat svc c s = invalidate_list_cache svc c (s\<lparr>sv_store := st, sv_gauge := sv_gauge s\<rparr>)"
      using st r(1) True enabled assms
      by (simp add: svc_delete_chat_def invalidate_list_cache_def new_link_service_with_cache_def on_store_def bindE_apply)
    with True s' show ?thesis by auto
  next
    case False
    have abs: "abs st = ?t" "tk_unregister c ?t = ?t"
      using unregister_none [of "sv_store s" c] law assms False by simp_all
    have "svc_delete_chat svc c s = (Inl RepoErrChatNotFound, s\<lparr>sv_store := st\<rparr>)"
      using st r(1) False by (simp add: svc_delete_chat_def new_link_service_with_cache_def on_store_def bindE_apply)
    with False assms r(2,3) abs show ?thesis by (simp add: cache_coherent_def)
  qed
qed

lemma serve_good:
  assumes "good s" "serve svc req s = (a, s')"
  shows "good s' \<and> abs (sv_store s') = tk_effect req (abs (sv_store s)) \<and> tk_answer req (abs (sv_store s)) a"
proof (cases req)
  case (RegisterChat c)
  then show ?thesis using register_good [OF assms(1), of c] assms(2) by (auto simp: answered_def)
next
  case (DeleteChat c)
  then show ?thesis using delete_chat_good [OF assms(1), of c] assms(2) by (auto simp: answered_def)
next
  case (AddLink c l)
  then show ?thesis using add_link_good [OF assms(1), of c l] assms(2) by (auto simp: answered_def)
next
  case (RemoveLink c u)
  then show ?thesis using remove_link_good [OF assms(1), of c u] assms(2) by (auto simp: answered_def)
next
  case (ListLinks c)
  obtain r s1 where "svc_list_links svc c s = (r, s1)" "good s1" "abs (sv_store s1) = abs (sv_store s)"
    "reads_links c r (abs (sv_store s))" using list_links_good [OF assms(1), of c] by blast
  then show ?thesis using ListLinks assms(2)
    by (cases r) (auto simp: answered_def reads_links_def)
next
  case (RemoveLinksByTag c n)
  then show ?thesis using remove_by_tag_good [OF assms(1), of c n] assms(2) by (auto simp: answered_def)
qed

lemma tick_good: "good s \<Longrightarrow> good (s\<lparr>sv_cache := tick n (sv_cache s)\<rparr>)"
  using tick [of "sv_cache s" n] cache_coherent_sub [of json content abs s "tick n (sv_cache s)" "sv_store s"] by simp

lemma serve_all_good:
  assumes "good s"
  shows "good (snd (serve_all tick svc reqs s)) \<and>
    abs (sv_store (snd (serve_all tick svc reqs s))) = fold tk_effect (map fst reqs) (abs (sv_store s)) \<and>
    tk_answers (map fst reqs) (abs (sv_store s)) (fst (serve_all tick svc reqs s))"
  using assms
proof (induction reqs arbitrary: s)
  case (Cons p reqs)
  obtain req n where p: "p = (req, n)" by fastforce
  obtain a s1 where s1: "serve svc req s = (a, s1)" by fastforce
  note step = serve_good [OF Cons.prems s1]
  let ?s = "s1\<lparr>sv_cache := tick n (sv_cache s1)\<rparr>"
  have "good ?s" using step tick_good by blast
  from Cons.IH [OF this] step show ?case
    by (cases "serve_all tick svc reqs ?s") (simp add: p s1)
qed simp

end

end
