(* ===== verification/Services_Properties.thy ===== *)
theory Services_Properties
  imports Scrapper_Services Agent_Text
begin

text \<open>
  The services on both persistence packages with the Valkey cache: every sequence of requests is
  answered as the tracker says, and what the cache hides when a tag changes or a command to the
  cache fails.
\<close>

section \<open>The services of the program\<close>

definition sql_store :: "db store_ops" where
  "sql_store = \<lparr>so_chat_add = sql_chat_add, so_chat_remove = sql_chat_remove, so_chat_exists = sql_chat_exists,
     so_link_add = sql_link_add, so_link_remove = sql_link_remove,
     so_link_remove_by_tag = sql_link_remove_by_tag, so_link_list = sql_link_list\<rparr>"

definition orm_store :: "db store_ops" where
  "orm_store = \<lparr>so_chat_add = orm_chat_add, so_chat_remove = orm_chat_remove, so_chat_exists = orm_chat_exists,
     so_link_add = orm_link_add, so_link_remove = orm_link_remove,
     so_link_remove_by_tag = orm_link_remove_by_tag, so_link_list = orm_link_list\<rparr>"

definition valkey_cache :: "valkey_list_cache \<Rightarrow> valkey cache_ops" where
  "valkey_cache v = \<lparr>co_get = valkey_get v, co_set = valkey_set, co_delete = valkey_delete\<rparr>"

interpretation sql_services: cached_services db_ok "\<lambda>d. d_faults d = []" tracker_of sql_chat_add sql_chat_remove
  sql_chat_exists sql_link_add sql_link_remove sql_link_remove_by_tag sql_link_list
  "valkey_get v" valkey_set valkey_delete valkey_content valkey_sound "\<lambda>c. vk_faults c = []" json ttl uc valkey_tick
  for v json ttl uc
  by unfold_locales (simp add: valkey_tick_law)

interpretation orm_services: cached_services db_ok "\<lambda>d. d_faults d = []" tracker_of orm_chat_add orm_chat_remove
  orm_chat_exists orm_link_add orm_link_remove orm_link_remove_by_tag orm_link_list
  "valkey_get v" valkey_set valkey_delete valkey_content valkey_sound "\<lambda>c. vk_faults c = []" json ttl uc valkey_tick
  for v json ttl uc
  by unfold_locales (simp add: valkey_tick_law)

definition empty_valkey :: "instant \<Rightarrow> valkey" where
  "empty_valkey now = \<lparr>vk_entries = Map.empty, vk_local = Map.empty, vk_now = now, vk_faults = []\<rparr>"

lemma empty_valkey_good:
  "valkey_sound (empty_valkey now)" "valkey_content (empty_valkey now) = Map.empty" "vk_faults (empty_valkey now) = []"
  by (simp_all add: empty_valkey_def valkey_sound_def valkey_content_def live_def fun_eq_iff)


text \<open>A codec that knows one list, enough for examples.\<close>

definition codec_of :: "link list \<Rightarrow> json_links" where
  "codec_of known =
     \<lparr>marshal_links = (\<lambda>ls. if ls = known then Inr ''known'' else Inl (LibError ''json'' '''')),
      unmarshal_links = (\<lambda>b. if b = ''known'' then Inr known else Inl (LibError ''json'' b))\<rparr>"

lemma codec_of_round_trip: "json_round_trip (codec_of known)"
  by (simp add: json_round_trip_def codec_of_def)

lemma tk_answers_length: "tk_answers rs t as \<Longrightarrow> length as = length rs"
  by (induction rs t as rule: tk_answers.induct) simp_all


section \<open>What the cache hides\<close>

text \<open>A live entry of a reachable Valkey answers every listing, whatever the database holds.\<close>

lemma live_entry_answers:
  assumes "valkey_sound (sv_cache s)" "vk_faults (sv_cache s) = []" "0 < ttl"
    and "valkey_content (sv_cache s) c = Some body" "unmarshal_links json body = Inr ls"
  shows "fst (svc_list_links (new_link_service_with_cache store (valkey_cache v) ttl json uc) c (s\<lparr>sv_store := st\<rparr>)) = Inr ls"
proof -
  obtain x where x: "vk_entries (sv_cache s) (cache_key c) = Some (body, x)" "vk_now (sv_cache s) < x"
    using assms(4) by (auto simp: valkey_content_def live_def split: option.splits if_splits)
  then have "live (vk_now (sv_cache s)) (vk_entries (sv_cache s) (cache_key c)) = Some body" by (simp add: live_def)
  moreover have "b = body" if "live (vk_now (sv_cache s)) (vk_local (sv_cache s) (cache_key c)) = Some b" for b
    using that assms(1) x by (fastforce simp: valkey_sound_def live_def split: option.splits if_splits)
  ultimately have "fst (valkey_get v c (sv_cache s)) = Inr (Some body)"
    using assms(2) by (auto simp: valkey_get_def get_with_client_side_cache_def get_from_valkey_def vk_command_def
        Let_def split: option.split)
  then obtain c' where "valkey_get v c (sv_cache s) = (Inr (Some body), c')" by (metis prod.collapse)
  then show ?thesis
    using assms(3,5) by (simp add: svc_list_links_def new_link_service_with_cache_def cache_enabled_def valkey_cache_def
        on_cache_def)
qed

text \<open>
  (C31) Renaming or deleting a tag does not invalidate the list of the chat: while the cached list
  lives, listing the links still gives the tags of before, whatever the tag service did to the
  database.
\<close>

theorem tag_changes_hidden_by_cache:
  assumes "valkey_sound (sv_cache s)" "vk_faults (sv_cache s) = []" "0 < ttl"
    and "valkey_content (sv_cache s) c = Some body" "unmarshal_links json body = Inr ls"
    and "change = svc_rename_tag tags k old new \<or> change = svc_delete_tag tags k old"
  shows "fst (svc_list_links (new_link_service_with_cache store (valkey_cache v) ttl json uc) c (snd (on_store change s))) = Inr ls"
  using live_entry_answers [OF assms(1-5)] by (simp add: on_store_def case_prod_beta)

definition sql_tag_ops :: "db tag_ops" where
  "sql_tag_ops = \<lparr>to_chat_exists = sql_chat_exists, to_create = sql_tag_create, to_list = sql_tag_list (\<lambda>_. 0),
     to_rename = sql_tag_rename, to_delete = sql_tag_delete\<rparr>"

definition tagged_db :: db where
  "tagged_db = (empty_db 100)\<lparr>d_chats := [7], d_links := [\<lparr>lr_id = 1, lr_url = ''u'', lr_last_updated = 5\<rparr>], d_link_seq := 1,
     d_subs := [(7, 1)], d_tags := [\<lparr>tagID = 1, tagChatID = 7, tagName = ''go''\<rparr>], d_tag_seq := 1, d_sub_tags := [(7, 1, 1)]\<rparr>"

definition tagged_link :: "string \<Rightarrow> link" where
  "tagged_link name = \<lparr>linkID = 0, linkURL = ''u'', linkTags = [name], linkLastUpdatedAt = 5\<rparr>"

definition tagged_services :: "(db, valkey) services" where
  "tagged_services =
     \<lparr>sv_store = tagged_db,
      sv_cache = (empty_valkey 0)\<lparr>vk_entries := [cache_key 7 \<mapsto> (''known'', 60)]\<rparr>, sv_gauge = \<lambda>_. 0\<rparr>"

theorem tag_changes_hidden_by_cache_witness:
  "fst (sql_link_list 7 (snd (svc_rename_tag sql_tag_ops 7 ''go'' ''golang'' tagged_db))) = Inr [tagged_link ''golang''] \<and>
   fst (svc_list_links (new_link_service_with_cache sql_store
       (valkey_cache \<lparr>client_side_cache_enabled = False, client_side_cache_ttl = 0\<rparr>) 60000
       (codec_of [tagged_link ''go'']) latin1_tables) 7
       (snd (on_store (svc_rename_tag sql_tag_ops 7 ''go'' ''golang'') tagged_services))) = Inr [tagged_link ''go'']"
proof
  show "fst (sql_link_list 7 (snd (svc_rename_tag sql_tag_ops 7 ''go'' ''golang'' tagged_db))) = Inr [tagged_link ''golang'']"
    by code_simp
next
  show "fst (svc_list_links (new_link_service_with_cache sql_store
       (valkey_cache \<lparr>client_side_cache_enabled = False, client_side_cache_ttl = 0\<rparr>) 60000
       (codec_of [tagged_link ''go'']) latin1_tables) 7
       (snd (on_store (svc_rename_tag sql_tag_ops 7 ''go'' ''golang'') tagged_services))) = Inr [tagged_link ''go'']"
    by (rule tag_changes_hidden_by_cache [where body = "''known''" and tags = sql_tag_ops and k = 7 and old = "''go''" and new = "''golang''"])
      (simp_all add: tagged_services_def empty_valkey_def valkey_sound_def valkey_content_def live_def codec_of_def)
qed

end
