(* ===== verification/Go_Float.thy ===== *)
theory Go_Float
  imports Go_Strings Complex_Main
begin

text \<open>
  Go's \<open>float64\<close> as the configuration and the circuit breaker use it: the IEEE values but for
  the sign of zero, rounding of a rational to the nearest one (ties to even), the operations,
  \<open>strconv.ParseFloat\<close>, \<open>strconv.ParseBool\<close>, \<open>strconv.ParseUint\<close>, \<open>strconv.Atoi\<close> and \<open>time.ParseDuration\<close>.
\<close>

section \<open>Values and rounding\<close>

datatype float64 = NaN | PosInf | NegInf | Fin rat

definition pow2 :: "int \<Rightarrow> rat" where
  "pow2 e = (if 0 \<le> e then 2 ^ nat e else 1 / 2 ^ nat (- e))"

function bit_length :: "int \<Rightarrow> int" where
  "bit_length n = (if n \<le> 0 then 0 else 1 + bit_length (n div 2))"
  by pat_completeness auto
termination
  by (relation "measure nat") auto

declare bit_length.simps [simp del]

text \<open>The exponent \<open>e\<close> with \<open>2 ^ e \<le> a < 2 ^ (e + 1)\<close>, for a positive \<open>a\<close>.\<close>

definition exponent :: "rat \<Rightarrow> int" where
  "exponent a =
     (case quotient_of a of (p, q) \<Rightarrow>
        let e = bit_length p - bit_length q
        in if pow2 e \<le> a then e else e - 1)"

definition round_even :: "rat \<Rightarrow> int" where
  "round_even x =
     (let f = \<lfloor>x\<rfloor>; d = x - of_int f
      in if d < 1 / 2 \<or> (d = 1 / 2 \<and> even f) then f else f + 1)"

definition round64 :: "rat \<Rightarrow> float64" where
  "round64 x =
     (if x = 0 then Fin 0
      else
        (let a = \<bar>x\<bar>; unit = pow2 (max (- 1022) (exponent a) - 52);
             v = of_int (round_even (a / unit)) * unit
         in if 2 ^ 1024 \<le> v then (if 0 < x then PosInf else NegInf)
            else Fin (if 0 < x then v else - v)))"

fun le64 :: "float64 \<Rightarrow> float64 \<Rightarrow> bool" where
  "le64 (Fin x) (Fin y) = (x \<le> y)"
| "le64 NaN y = False"
| "le64 x NaN = False"
| "le64 NegInf y = True"
| "le64 x PosInf = True"
| "le64 x y = (x = y)"

text \<open>Products and quotients of finite values, all the program computes.\<close>

fun mult64 :: "float64 \<Rightarrow> float64 \<Rightarrow> float64" where
  "mult64 (Fin x) (Fin y) = round64 (x * y)"
| "mult64 x y = NaN"

fun div64 :: "float64 \<Rightarrow> float64 \<Rightarrow> float64" where
  "div64 (Fin x) (Fin y) = (if y = 0 then NaN else round64 (x / y))"
| "div64 x y = NaN"

definition float_of_int :: "int \<Rightarrow> float64" where
  "float_of_int n = round64 (of_int n)"

text \<open>\<open>uint64(f)\<close> for a value in range.\<close>

fun trunc64 :: "float64 \<Rightarrow> int" where
  "trunc64 (Fin x) = \<lfloor>x\<rfloor>"
| "trunc64 x = 0"

section \<open>Reading numbers\<close>

fun hex_digit :: "char \<Rightarrow> nat option" where
  "hex_digit c =
     (case digit_val c of
        Some n \<Rightarrow> Some n
      | None \<Rightarrow>
          (let n = (of_char (ascii_lower c) :: nat)
           in if 0x61 \<le> n \<and> n \<le> 0x66 then Some (n - 0x61 + 10) else None))"

text \<open>
  The mantissa: digits, underscores and at most one dot; the value without the dot, the number of
  digits after it (if there was one), whether a digit came, and the rest.
\<close>

fun scan_mantissa :: "int \<Rightarrow> int \<Rightarrow> nat option \<Rightarrow> bool \<Rightarrow> string \<Rightarrow> int \<times> nat option \<times> bool \<times> string" where
  "scan_mantissa base v dp seen [] = (v, dp, seen, [])"
| "scan_mantissa base v dp seen (c # s) =
     (if c = CHR ''_'' then scan_mantissa base v dp seen s
      else if c = CHR ''.'' then
        (if dp \<noteq> None then (v, dp, seen, c # s) else scan_mantissa base v (Some 0) seen s)
      else
        (case (if base = 16 then hex_digit c else digit_val c) of
           None \<Rightarrow> (v, dp, seen, c # s)
         | Some d \<Rightarrow> scan_mantissa base (v * base + int d) (map_option Suc dp) True s))"

text \<open>The digits of the exponent; beyond 10000 it stays, far outside the range.\<close>

fun scan_exponent :: "int \<Rightarrow> string \<Rightarrow> int \<times> string" where
  "scan_exponent e [] = (e, [])"
| "scan_exponent e (c # s) =
     (if c = CHR ''_'' then scan_exponent e s
      else case digit_val c of
             None \<Rightarrow> (e, c # s)
           | Some d \<Rightarrow> scan_exponent (if e < 10000 then e * 10 + int d else e) s)"

text \<open>Underscores only between digits (or after a base prefix).\<close>

fun underscore_scan :: "bool \<Rightarrow> char \<Rightarrow> string \<Rightarrow> bool" where
  "underscore_scan hex saw [] = (saw \<noteq> CHR ''_'')"
| "underscore_scan hex saw (c # s) =
     (if digit_val c \<noteq> None \<or> (hex \<and> hex_digit c \<noteq> None) then underscore_scan hex (CHR ''0'') s
      else if c = CHR ''_'' then saw = CHR ''0'' \<and> underscore_scan hex (CHR ''_'') s
      else saw \<noteq> CHR ''_'' \<and> underscore_scan hex (CHR ''!'') s)"

definition drop_sign :: "string \<Rightarrow> string" where
  "drop_sign s = (if s \<noteq> [] \<and> (hd s = CHR ''-'' \<or> hd s = CHR ''+'') then tl s else s)"

definition underscore_ok :: "string \<Rightarrow> bool" where
  "underscore_ok s =
     (let s = drop_sign s
      in if 2 \<le> length s \<and> s ! 0 = CHR ''0'' \<and> ascii_lower (s ! 1) \<in> {CHR ''b'', CHR ''o'', CHR ''x''}
         then underscore_scan (ascii_lower (s ! 1) = CHR ''x'') (CHR ''0'') (drop 2 s)
         else underscore_scan False (CHR ''^'') s)"

text \<open>The exponent part after the mantissa: its value and what is left; a hexadecimal mantissa needs one.\<close>

definition exponent_part :: "bool \<Rightarrow> string \<Rightarrow> (int \<times> string) option" where
  "exponent_part hex s =
     (if s \<noteq> [] \<and> ascii_lower (hd s) = (if hex then CHR ''p'' else CHR ''e'') then
        (let t = drop_sign (tl s); neg = (tl s \<noteq> [] \<and> hd (tl s) = CHR ''-'')
         in if t = [] \<or> digit_val (hd t) = None then None
            else (case scan_exponent 0 t of (e, rest) \<Rightarrow> Some (if neg then - e else e, rest)))
      else if hex then None
      else Some (0, s))"

definition parse_float :: "string \<Rightarrow> float64 result" where
  "parse_float s =
     (let fail = Inl (LibError ''strconv.ParseFloat'' s);
          body = drop_sign s; neg = (s \<noteq> [] \<and> hd s = CHR ''-'');
          low = map ascii_lower body
      in if map ascii_lower s = ''nan'' then Inr NaN
         else if low = ''inf'' \<or> low = ''infinity'' then Inr (if neg then NegInf else PosInf)
         else
           (let hex = (2 < length body \<and> take 2 low = ''0x'');
                base = (if hex then 16 else 10)
            in case scan_mantissa base 0 None False (if hex then drop 2 body else body) of
                 (v, dp, seen, rest) \<Rightarrow>
                   if \<not> seen then fail
                   else
                     (case exponent_part hex rest of
                        None \<Rightarrow> fail
                      | Some (e, rest2) \<Rightarrow>
                          if rest2 \<noteq> [] \<or> (CHR ''_'' \<in> set s \<and> \<not> underscore_ok s) then fail
                          else
                            (let point = (case dp of None \<Rightarrow> 0 | Some k \<Rightarrow> k);
                                 x = of_int v / of_int (base ^ point) *
                                   (if hex then pow2 e else if 0 \<le> e then 10 ^ nat e else 1 / 10 ^ nat (- e));
                                 r = round64 (if neg then - x else x)
                             in if r = PosInf \<or> r = NegInf then fail else Inr r))))"

definition parse_bool :: "string \<Rightarrow> bool result" where
  "parse_bool s =
     (if s \<in> {''1'', ''t'', ''T'', ''TRUE'', ''true'', ''True''} then Inr True
      else if s \<in> {''0'', ''f'', ''F'', ''FALSE'', ''false'', ''False''} then Inr False
      else Inl (LibError ''strconv.ParseBool'' s))"

text \<open>\<open>strconv.ParseUint(s, 10, 0)\<close> on a 64-bit platform; no sign.\<close>

definition parse_uint64 :: "string \<Rightarrow> int result" where
  "parse_uint64 s =
     (case parse_uint s of
        None \<Rightarrow> Inl (LibError ''strconv.ParseUint'' s)
      | Some n \<Rightarrow> if int n < 2 ^ 64 then Inr (int n) else Inl (LibError ''strconv.ParseUint'' s))"

section \<open>Durations\<close>

definition int63 :: int where "int63 = 2 ^ 63"

text \<open>\<open>leadingInt\<close>: \<open>None\<close> when it overflows.\<close>

fun leading_int :: "int \<Rightarrow> string \<Rightarrow> (int \<times> string) option" where
  "leading_int x [] = Some (x, [])"
| "leading_int x (c # s) =
     (case digit_val c of
        None \<Rightarrow> Some (x, c # s)
      | Some d \<Rightarrow>
          if int63 div 10 < x then None
          else if int63 < x * 10 + int d then None
          else leading_int (x * 10 + int d) s)"

text \<open>\<open>leadingFraction\<close>: digits beyond the range are dropped; the number of the ones kept is the scale.\<close>

fun leading_fraction :: "int \<Rightarrow> nat \<Rightarrow> bool \<Rightarrow> string \<Rightarrow> int \<times> nat \<times> string" where
  "leading_fraction x k over [] = (x, k, [])"
| "leading_fraction x k over (c # s) =
     (case digit_val c of
        None \<Rightarrow> (x, k, c # s)
      | Some d \<Rightarrow>
          if over \<or> (int63 - 1) div 10 < x \<or> int63 < x * 10 + int d then leading_fraction x k True s
          else leading_fraction (x * 10 + int d) (Suc k) False s)"

definition duration_units :: "string \<Rightarrow> int option" where
  "duration_units = [''ns'' \<mapsto> 1, ''us'' \<mapsto> 10 ^ 3, encode_runes [0xB5, 0x73] \<mapsto> 10 ^ 3,
     encode_runes [0x3BC, 0x73] \<mapsto> 10 ^ 3, ''ms'' \<mapsto> 10 ^ 6, ''s'' \<mapsto> 10 ^ 9, ''m'' \<mapsto> 60 * 10 ^ 9, ''h'' \<mapsto> 3600 * 10 ^ 9]"

definition is_unit_char :: "char \<Rightarrow> bool" where
  "is_unit_char c \<longleftrightarrow> c \<noteq> CHR ''.'' \<and> digit_val c = None"

text \<open>\<open>uint64(float64(f) * (float64(unit) / scale))\<close>\<close>

definition fraction_of_unit :: "int \<Rightarrow> int \<Rightarrow> nat \<Rightarrow> int" where
  "fraction_of_unit f unit k =
     trunc64 (mult64 (float_of_int f) (div64 (float_of_int unit) (round64 (10 ^ k))))"

text \<open>One number with its unit.\<close>

definition duration_part :: "string \<Rightarrow> (int \<times> string) option" where
  "duration_part s =
     (case leading_int 0 s of
        None \<Rightarrow> None
      | Some (v, s1) \<Rightarrow>
          (let pre = (length s1 \<noteq> length s);
               (f, k, s2) = (if s1 \<noteq> [] \<and> hd s1 = CHR ''.'' then leading_fraction 0 0 False (tl s1) else (0, 0, s1));
               post = (s1 \<noteq> [] \<and> hd s1 = CHR ''.'' \<and> length s2 \<noteq> length (tl s1));
               u = takeWhile is_unit_char s2; s3 = dropWhile is_unit_char s2
           in if \<not> pre \<and> \<not> post then None
              else
                (case duration_units u of
                   None \<Rightarrow> None
                 | Some unit \<Rightarrow>
                     if int63 div unit < v then None
                     else
                       (let w = v * unit + (if 0 < f then fraction_of_unit f unit k else 0)
                        in if int63 < w then None else Some (w, s3)))))"

lemma leading_int_length: "leading_int x s = Some (v, t) \<Longrightarrow> length t \<le> length s"
  by (induction x s rule: leading_int.induct) (auto split: option.splits if_splits)

lemma leading_fraction_length: "leading_fraction x k over s = (f, k', t) \<Longrightarrow> length t \<le> length s"
  by (induction x k over s rule: leading_fraction.induct) (auto split: option.splits if_splits)

lemma no_unit: "duration_units [] = None"
  by (simp add: duration_units_def encode_runes_def)

lemma duration_part_length:
  assumes "duration_part s = Some (w, t)"
  shows "length t < length s"
proof -
  obtain v s1 where 1: "leading_int 0 s = Some (v, s1)"
    using assms by (auto simp: duration_part_def split: option.splits)
  obtain f k s2 where 2: "(if s1 \<noteq> [] \<and> hd s1 = CHR ''.'' then leading_fraction 0 0 False (tl s1) else (0, 0, s1)) = (f, k, s2)"
    by (metis prod_cases3)
  have "length s1 \<le> length s" using leading_int_length [OF 1] .
  moreover have "length s2 \<le> length s1"
    using 2 leading_fraction_length [of 0 0 False "tl s1" f k s2] by (auto split: if_splits)
  moreover have "duration_units (takeWhile is_unit_char s2) \<noteq> None" "t = dropWhile is_unit_char s2"
    using assms unfolding duration_part_def 1 option.case prod.case Let_def 2
    by (simp_all split: if_splits option.splits del: not_None_eq add: Let_def)
  moreover have "length (dropWhile is_unit_char s2) + length (takeWhile is_unit_char s2) = length s2"
    by (metis add.commute length_append takeWhile_dropWhile_id)
  ultimately show ?thesis using no_unit by (cases "takeWhile is_unit_char s2") auto
qed

function duration_parts :: "int \<Rightarrow> string \<Rightarrow> int option" where
  "duration_parts d s =
     (if s = [] then Some d
      else
        (case duration_part s of
           None \<Rightarrow> None
         | Some (w, t) \<Rightarrow> if int63 < d + w then None else duration_parts (d + w) t))"
  by pat_completeness auto
termination
  by (relation "measure (length \<circ> snd)") (auto dest: duration_part_length)

declare duration_parts.simps [simp del]

definition parse_duration :: "string \<Rightarrow> duration result" where
  "parse_duration s =
     (let fail = Inl (LibError ''time.ParseDuration'' s);
          neg = (s \<noteq> [] \<and> hd s = CHR ''-''); body = drop_sign s
      in if body = ''0'' then Inr 0
         else if body = [] then fail
         else
           (case duration_parts 0 body of
              None \<Rightarrow> fail
            | Some d \<Rightarrow>
                if neg then Inr (- d)
                else if int63 \<le> d then fail
                else Inr d))"

end
