(* ===== verification/Http_Helpers.thy ===== *)
theory Http_Helpers
  imports Go_Float "HOL-Library.Word"
begin

text \<open>
  \<open>pkg/helpers\<close>: the retry policy of HTTP calls (\<open>retry.go\<close>) and timeouts (\<open>timeout.go\<close>).  The library
  retry-go is an argument; what is relied on is \<open>documented_retry\<close>.
\<close>

section \<open>Messages\<close>

record http_request =
  rqMethod :: string
  rqURL :: string
  rqHeaders :: "(string \<times> string) list"
  rqBody :: string

record http_response =
  rsStatus :: int
  rsBody :: string

section \<open>Retries\<close>

record http_retry_config =
  rcMaxAttempts :: int
  rcDelay :: duration
  rcRetryableHTTPStatuses :: "int list"

definition normalize_retry_config :: "http_retry_config \<Rightarrow> http_retry_config" where
  "normalize_retry_config cfg =
     (let cfg = (if rcMaxAttempts cfg = 0 then cfg\<lparr>rcMaxAttempts := 1\<rparr> else cfg)
      in if rcDelay cfg \<le> 0 then cfg\<lparr>rcDelay := 500 * 1000000\<rparr> else cfg)"

definition is_retryable_status :: "int \<Rightarrow> int list \<Rightarrow> bool" where
  "is_retryable_status code statuses = list_ex (\<lambda>status. status = code) statuses"

definition new_http_status_error :: "string \<Rightarrow> int \<Rightarrow> http_retry_config \<Rightarrow> go_error" where
  "new_http_status_error service code cfg =
     (if is_retryable_status code (rcRetryableHTTPStatuses cfg)
      then RetryableStatusError service code (format_int code)
      else ErrText (service @ '' returned status '' @ format_int code))"

text \<open>\<open>errors.As(err, &statusErr)\<close>\<close>

fun is_retryable_error :: "go_error \<Rightarrow> bool" where
  "is_retryable_error (RetryableStatusError s c d) = True"
| "is_retryable_error (WrapErr p e) = is_retryable_error e"
| "is_retryable_error (JoinErr e f) = (is_retryable_error e \<or> is_retryable_error f)"
| "is_retryable_error e = False"

text \<open>\<open>Retrier.Do\<close> with a number of attempts, a condition and an operation.\<close>

type_synonym 's retrier = "int \<Rightarrow> (go_error \<Rightarrow> bool) \<Rightarrow> ('s, unit) eff \<Rightarrow> ('s, unit) eff"

definition do_with_http_retry :: "'s retrier \<Rightarrow> http_retry_config \<Rightarrow> ('s, unit) eff \<Rightarrow> ('s, unit) eff" where
  "do_with_http_retry retrier cfg operation =
     (let cfg = normalize_retry_config cfg in retrier (rcMaxAttempts cfg) is_retryable_error operation)"

text \<open>What retry-go documents: the operation again while attempts are left and the error asks for it, the last error.\<close>

definition documented_retry :: "'s retrier \<Rightarrow> bool" where
  "documented_retry retrier \<longleftrightarrow>
     (\<forall>n retry_if op s. 0 < n \<longrightarrow> retrier n retry_if op s =
        (case op s of
           (Inr _, s') \<Rightarrow> (Inr (), s')
         | (Inl e, s') \<Rightarrow> if 1 < n \<and> retry_if e then retrier (n - 1) retry_if op s' else (Inl e, s')))"

text \<open>A retrier that does it.\<close>

fun retry_times :: "nat \<Rightarrow> (go_error \<Rightarrow> bool) \<Rightarrow> ('s, unit) eff \<Rightarrow> ('s, unit) eff" where
  "retry_times 0 retry_if op s = op s"
| "retry_times (Suc n) retry_if op s =
     (case op s of
        (Inr _, s') \<Rightarrow> (Inr (), s')
      | (Inl e, s') \<Rightarrow> if retry_if e then retry_times n retry_if op s' else (Inl e, s'))"

definition plain_retrier :: "'s retrier" where
  "plain_retrier n = retry_times (nat (n - 1))"

lemma documented_retry_plain: "documented_retry plain_retrier"
proof -
  have "retry_times (nat (n - 1)) c op s =
      (case op s of
         (Inr _, s') \<Rightarrow> (Inr (), s')
       | (Inl e, s') \<Rightarrow> if 1 < n \<and> c e then retry_times (nat (n - 1 - 1)) c op s' else (Inl e, s'))"
    if "0 < n" for n c and op :: "('s, unit) eff" and s
  proof (cases "n = 1")
    case True
    then show ?thesis by (auto split: prod.split sum.split)
  next
    case False
    with that obtain k where k: "nat (n - 1) = Suc k" "nat (n - 1 - 1) = k" "1 < n"
      by (cases "nat (n - 1)") auto
    show ?thesis unfolding k by (simp add: k split: prod.split sum.split)
  qed
  then show ?thesis unfolding documented_retry_def plain_retrier_def by blast
qed

text \<open>The state after \<open>k\<close> runs that all failed with a retryable status.\<close>

inductive failed_runs :: "('s, unit) eff \<Rightarrow> 's \<Rightarrow> nat \<Rightarrow> 's \<Rightarrow> bool" for op where
  none: "failed_runs op s 0 s"
| again: "op s = (Inl e, s1) \<Longrightarrow> is_retryable_error e \<Longrightarrow> failed_runs op s1 k s2 \<Longrightarrow> failed_runs op s (Suc k) s2"

lemma retrier_runs:
  assumes "documented_retry retrier" "retrier (int (Suc n)) is_retryable_error op s = (r, s')"
  shows "\<exists>k s1. k \<le> n \<and> failed_runs op s k s1 \<and> op s1 = (r, s') \<and>
    (case r of Inr _ \<Rightarrow> True | Inl e \<Rightarrow> is_retryable_error e \<longrightarrow> k = n)"
  using assms(2)
proof (induction n arbitrary: s)
  case 0
  then show ?case using assms(1)
    by (intro exI [of _ 0] exI [of _ s])
      (auto simp: documented_retry_def intro: failed_runs.none split: prod.splits sum.splits)
next
  case (Suc n)
  have unfold: "retrier (int (Suc (Suc n))) is_retryable_error op s =
      (case op s of
         (Inr _, s') \<Rightarrow> (Inr (), s')
       | (Inl e, s') \<Rightarrow> if is_retryable_error e then retrier (int (Suc n)) is_retryable_error op s' else (Inl e, s'))"
    using assms(1) [unfolded documented_retry_def, rule_format, of "int (Suc (Suc n))" is_retryable_error op s]
    by (simp add: algebra_simps split: prod.split sum.split)
  obtain r0 s0 where op: "op s = (r0, s0)" by fastforce
  show ?case
  proof (cases "\<exists>e. r0 = Inl e \<and> is_retryable_error e")
    case True
    then obtain e where e: "r0 = Inl e" "is_retryable_error e" by blast
    then have "retrier (int (Suc n)) is_retryable_error op s0 = (r, s')" using Suc.prems unfold op by simp
    from Suc.IH [OF this] obtain k s1 where "k \<le> n" "failed_runs op s0 k s1" "op s1 = (r, s')"
      "case r of Inr _ \<Rightarrow> True | Inl e \<Rightarrow> is_retryable_error e \<longrightarrow> k = n" by blast
    then show ?thesis using failed_runs.again [of op s e s0 k s1] op e
      by (intro exI [of _ "Suc k"] exI [of _ s1]) (auto split: sum.splits)
  next
    case False
    then have "(r, s') = (r0, s0)" using Suc.prems unfold op by (auto split: sum.splits)
    then show ?thesis using op False
      by (intro exI [of _ 0] exI [of _ s]) (auto intro: failed_runs.none split: sum.splits)
  qed
qed

section \<open>Timeouts\<close>

definition normalize_timeout :: "duration \<Rightarrow> duration" where
  "normalize_timeout timeout = (if timeout \<le> 0 then 5 * 1000000000 else timeout)"

end
