(* ===== verification/Go_Time.thy ===== *)
theory Go_Time
  imports Go_Strings
begin

text \<open>
  The calendar of Go's \<open>time\<close> package: an instant, counted in microseconds from the zero \<open>Time\<close>
  (1 January of the year 1, 00:00 UTC), as a date and a time of day in a zone given by its offset in
  seconds; \<open>time.Unix\<close>, and the two layouts the program formats with.
\<close>

definition microseconds :: int where
  "microseconds = 1000000"

definition unix_epoch :: instant where
  "unix_epoch = 62135596800 * microseconds"

text \<open>\<open>time.Unix(sec, 0)\<close>\<close>

definition unix_time :: "int \<Rightarrow> instant" where
  "unix_time sec = unix_epoch + sec * microseconds"

text \<open>Year, month and day of a number of days since the zero day, by eras of 400 years from March.\<close>

definition civil :: "int \<Rightarrow> int \<times> int \<times> int" where
  "civil days =
     (let z = days + 306; era = z div 146097; doe = z mod 146097;
          yoe = (doe - doe div 1460 + doe div 36524 - doe div 146096) div 365;
          doy = doe - (365 * yoe + yoe div 4 - yoe div 100);
          mp = (5 * doy + 2) div 153;
          d = doy - (153 * mp + 2) div 5 + 1;
          m = (if mp < 10 then mp + 3 else mp - 9)
      in (yoe + era * 400 + (if m \<le> 2 then 1 else 0), m, d))"

definition pad :: "nat \<Rightarrow> int \<Rightarrow> string" where
  "pad n i = (let s = format_int i in replicate (n - length s) (CHR ''0'') @ s)"

definition date_text :: "int \<times> int \<times> int \<Rightarrow> string" where
  "date_text ymd = (case ymd of (y, m, d) \<Rightarrow> pad 4 y @ ''-'' @ pad 2 m @ ''-'' @ pad 2 d)"

definition clock_text :: "int \<Rightarrow> string" where
  "clock_text seconds_of_day =
     pad 2 (seconds_of_day div 3600) @ '':'' @ pad 2 (seconds_of_day div 60 mod 60) @ '':'' @ pad 2 (seconds_of_day mod 60)"

text \<open>\<open>UTC().Format(time.RFC3339)\<close>, to the second\<close>

definition format_rfc3339_utc :: "instant \<Rightarrow> string" where
  "format_rfc3339_utc t =
     (let secs = t div microseconds
      in date_text (civil (secs div 86400)) @ ''T'' @ clock_text (secs mod 86400) @ ''Z'')"

text \<open>\<open>Format("2006-01-02 15:04:05")\<close> in the zone of the value\<close>

definition format_date_time :: "int \<Rightarrow> instant \<Rightarrow> string" where
  "format_date_time zone t =
     (let secs = t div microseconds + zone
      in date_text (civil (secs div 86400)) @ '' '' @ clock_text (secs mod 86400))"

lemma format_rfc3339_utc_example: "format_rfc3339_utc (unix_time 1709210096) = ''2024-02-29T12:34:56Z''"
  by code_simp

end
