(* ===== verification/Traffic_Limits.thy ===== *)
theory Traffic_Limits
  imports Http_Helpers
begin

text \<open>
  \<open>pkg/helpers/circuit_breaker.go\<close>, the policy given to gobreaker with the counters it keeps, and
  \<open>pkg/helpers/rate_limiter.go\<close>, the limiter per client address and its middleware.  The breaker and
  the token bucket themselves are libraries.
\<close>

section \<open>Circuit breaker\<close>

record circuit_breaker_config =
  cbEnabled :: bool
  cbFailureRateThreshold :: float64
  cbMinimumRequests :: "32 word"
  cbSlidingWindowInterval :: duration
  cbSlidingWindowBucketPeriod :: duration
  cbWaitDurationInOpenState :: duration
  cbPermittedCallsInHalfOpenState :: "32 word"

definition normalize_circuit_breaker_config :: "circuit_breaker_config \<Rightarrow> circuit_breaker_config" where
  "normalize_circuit_breaker_config cfg =
     (let cfg = (if le64 (cbFailureRateThreshold cfg) (Fin 0) then cfg\<lparr>cbFailureRateThreshold := Fin 50\<rparr> else cfg);
          cfg = (if cbMinimumRequests cfg = 0 then cfg\<lparr>cbMinimumRequests := 2\<rparr> else cfg);
          cfg = (if cbSlidingWindowInterval cfg \<le> 0 then cfg\<lparr>cbSlidingWindowInterval := 10 * 1000000000\<rparr> else cfg);
          cfg = (if cbSlidingWindowBucketPeriod cfg \<le> 0 then cfg\<lparr>cbSlidingWindowBucketPeriod := 1000000000\<rparr> else cfg);
          cfg = (if cbWaitDurationInOpenState cfg \<le> 0 then cfg\<lparr>cbWaitDurationInOpenState := 1000000000\<rparr> else cfg)
      in if cbPermittedCallsInHalfOpenState cfg = 0 then cfg\<lparr>cbPermittedCallsInHalfOpenState := 1\<rparr> else cfg)"

datatype breaker_state = StateClosed | StateHalfOpen | StateOpen

record breaker_memory =
  bmState :: breaker_state
  bmHalfOpenRequests :: "32 word"
  bmHalfOpenFailures :: "32 word"

definition failure_rate :: "32 word \<Rightarrow> 32 word \<Rightarrow> float64" where
  "failure_rate failures requests =
     mult64 (div64 (float_of_int (uint failures)) (float_of_int (uint requests))) (Fin 100)"

definition ready_to_trip :: "circuit_breaker_config \<Rightarrow> 32 word \<Rightarrow> 32 word \<Rightarrow> bool" where
  "ready_to_trip cfg requests total_failures =
     (if requests < cbMinimumRequests cfg then False
      else le64 (cbFailureRateThreshold cfg) (failure_rate total_failures requests))"

definition on_state_change :: "breaker_state \<Rightarrow> breaker_state \<Rightarrow> breaker_memory \<Rightarrow> breaker_memory" where
  "on_state_change from to m =
     (let m = m\<lparr>bmState := to\<rparr>
      in if to = StateHalfOpen \<or> from = StateHalfOpen then m\<lparr>bmHalfOpenRequests := 0, bmHalfOpenFailures := 0\<rparr> else m)"

definition is_successful :: "circuit_breaker_config \<Rightarrow> go_error option \<Rightarrow> breaker_memory \<Rightarrow> bool \<times> breaker_memory" where
  "is_successful cfg err m =
     (if bmState m \<noteq> StateHalfOpen then (err = None, m)
      else
        (let m = m\<lparr>bmHalfOpenRequests := bmHalfOpenRequests m + 1\<rparr>;
             m = (if err \<noteq> None then m\<lparr>bmHalfOpenFailures := bmHalfOpenFailures m + 1\<rparr> else m)
         in if bmHalfOpenRequests m < cbPermittedCallsInHalfOpenState cfg then (True, m)
            else (le64 (failure_rate (bmHalfOpenFailures m) (bmHalfOpenRequests m)) (cbFailureRateThreshold cfg), m)))"

record breaker_settings =
  bsName :: string
  bsMaxRequests :: "32 word"
  bsInterval :: duration
  bsBucketPeriod :: duration
  bsTimeout :: duration
  bsReadyToTrip :: "32 word \<Rightarrow> 32 word \<Rightarrow> bool"
  bsOnStateChange :: "breaker_state \<Rightarrow> breaker_state \<Rightarrow> breaker_memory \<Rightarrow> breaker_memory"
  bsIsSuccessful :: "go_error option \<Rightarrow> breaker_memory \<Rightarrow> bool \<times> breaker_memory"

definition new_circuit_breaker :: "string \<Rightarrow> circuit_breaker_config \<Rightarrow> (breaker_settings \<times> breaker_memory) option" where
  "new_circuit_breaker name cfg =
     (if \<not> cbEnabled cfg then None
      else
        (let cfg = normalize_circuit_breaker_config cfg
         in Some (\<lparr>bsName = name, bsMaxRequests = cbPermittedCallsInHalfOpenState cfg,
                   bsInterval = cbSlidingWindowInterval cfg, bsBucketPeriod = cbSlidingWindowBucketPeriod cfg,
                   bsTimeout = cbWaitDurationInOpenState cfg, bsReadyToTrip = ready_to_trip cfg,
                   bsOnStateChange = on_state_change, bsIsSuccessful = is_successful cfg\<rparr>,
                  \<lparr>bmState = StateClosed, bmHalfOpenRequests = 0, bmHalfOpenFailures = 0\<rparr>)))"

text \<open>\<open>Execute\<close> of the breaker is an argument.\<close>

definition do_with_circuit_breaker ::
    "(('s, unit) eff \<Rightarrow> ('s, unit) eff) option \<Rightarrow> ('s, unit) eff \<Rightarrow> ('s, unit) eff" where
  "do_with_circuit_breaker cb operation = (case cb of None \<Rightarrow> operation | Some execute \<Rightarrow> execute operation)"

text \<open>The verdicts on a series of calls.\<close>

fun judge :: "circuit_breaker_config \<Rightarrow> go_error option list \<Rightarrow> breaker_memory \<Rightarrow> bool list" where
  "judge cfg [] m = []"
| "judge cfg (err # errs) m = (case is_successful cfg err m of (ok, m1) \<Rightarrow> ok # judge cfg errs m1)"

definition failures :: "go_error option list \<Rightarrow> nat" where
  "failures errs = length (filter (\<lambda>e. e \<noteq> None) errs)"

lemma judge_half_open:
  assumes "bmState m = StateHalfOpen" "errs \<noteq> []"
    and "bmHalfOpenRequests m = of_nat k" "bmHalfOpenFailures m = of_nat f"
    and "k + length errs = unat (cbPermittedCallsInHalfOpenState cfg)"
  shows "judge cfg errs m = replicate (length errs - 1) True @
    [le64 (failure_rate (of_nat (f + failures errs)) (cbPermittedCallsInHalfOpenState cfg)) (cbFailureRateThreshold cfg)]"
  using assms
proof (induction errs arbitrary: m k f)
  case (Cons e errs)
  let ?p = "cbPermittedCallsInHalfOpenState cfg"
  let ?f = "f + (if e \<noteq> None then 1 else 0)"
  let ?m = "\<lparr>bmState = StateHalfOpen, bmHalfOpenRequests = of_nat (Suc k), bmHalfOpenFailures = of_nat ?f\<rparr> :: breaker_memory"
  have m: "is_successful cfg e m =
      (if of_nat (Suc k) < ?p then True else le64 (failure_rate (of_nat ?f) (of_nat (Suc k))) (cbFailureRateThreshold cfg), ?m)"
    using Cons.prems(1,3,4) by (cases m) (auto simp: is_successful_def Let_def add.commute)
  have small: "Suc k \<le> unat ?p" using Cons.prems(5) by simp
  moreover have "unat ?p < 2 ^ 32" using unsigned_less [of ?p] by simp
  ultimately have unat: "unat (of_nat (Suc k) :: 32 word) = Suc k"
    by (simp only: unsigned_of_nat) (simp add: take_bit_nat_eq_self)
  show ?case
  proof (cases "errs = []")
    case True
    then have "unat (of_nat (Suc k) :: 32 word) = unat ?p" using Cons.prems(5) unat by simp
    then have "of_nat (Suc k) = ?p" by (rule unsigned_word_eqI)
    then show ?thesis using True m by (simp add: failures_def)
  next
    case False
    then have "(of_nat (Suc k) :: 32 word) < ?p" using Cons.prems(5) unat by (cases errs) (simp_all add: word_less_nat_alt)
    then have "is_successful cfg e m = (True, ?m)" using m by simp
    moreover have "judge cfg errs ?m = replicate (length errs - 1) True @
        [le64 (failure_rate (of_nat (?f + failures errs)) ?p) (cbFailureRateThreshold cfg)]"
      using False Cons.prems(5) by (intro Cons.IH [of ?m "Suc k" ?f]) simp_all
    ultimately show ?thesis using False by (cases errs) (auto simp: failures_def add_ac)
  qed
qed simp

text \<open>
  (C35) A trial in the half-open state, for a breaker made from any enabled configuration: of as many calls
  as are permitted all but the last count as successes whatever they returned, and the last counts
  as one exactly if the rate of failures among all of them does not exceed the threshold.
\<close>

theorem half_open_trial:
  assumes "new_circuit_breaker name cfg = Some (settings, m)" and "errs \<noteq> []"
    and "length errs = unat (bsMaxRequests settings)"
  shows "judge (normalize_circuit_breaker_config cfg) errs (bsOnStateChange settings StateOpen StateHalfOpen m)
    = replicate (length errs - 1) True @
      [le64 (failure_rate (of_nat (failures errs)) (bsMaxRequests settings))
         (cbFailureRateThreshold (normalize_circuit_breaker_config cfg))]"
proof -
  have s: "bsMaxRequests settings = cbPermittedCallsInHalfOpenState (normalize_circuit_breaker_config cfg)"
    "bsOnStateChange settings = on_state_change"
    using assms(1) by (auto simp: new_circuit_breaker_def Let_def split: if_splits)
  have "judge (normalize_circuit_breaker_config cfg) errs (on_state_change StateOpen StateHalfOpen m)
    = replicate (length errs - 1) True @
      [le64 (failure_rate (of_nat (0 + failures errs)) (cbPermittedCallsInHalfOpenState (normalize_circuit_breaker_config cfg)))
         (cbFailureRateThreshold (normalize_circuit_breaker_config cfg))]"
    using assms(2,3) s by (intro judge_half_open [where k = 0]) (simp_all add: on_state_change_def Let_def)
  then show ?thesis using s by simp
qed

definition example_breaker :: circuit_breaker_config where
  "example_breaker = \<lparr>cbEnabled = True, cbFailureRateThreshold = Fin 50, cbMinimumRequests = 2,
     cbSlidingWindowInterval = 10000000000, cbSlidingWindowBucketPeriod = 1000000000,
     cbWaitDurationInOpenState = 1000000000, cbPermittedCallsInHalfOpenState = 2\<rparr>"

theorem half_open_trial_witness:
  "\<exists>settings m. new_circuit_breaker ''github-client'' example_breaker = Some (settings, m) \<and>
     judge (normalize_circuit_breaker_config example_breaker) [Some ErrContextDone, None]
       (bsOnStateChange settings StateOpen StateHalfOpen m) = [True, le64 (failure_rate 1 2) (Fin 50)]"
proof -
  obtain settings m where new: "new_circuit_breaker ''github-client'' example_breaker = Some (settings, m)"
    "bsMaxRequests settings = 2"
    by (simp add: new_circuit_breaker_def example_breaker_def normalize_circuit_breaker_config_def Let_def)
  have "cbFailureRateThreshold (normalize_circuit_breaker_config example_breaker) = Fin 50"
    by (simp add: example_breaker_def normalize_circuit_breaker_config_def Let_def)
  with half_open_trial [OF new(1), of "[Some ErrContextDone, None]"] new show ?thesis
    by (simp add: failures_def)
qed

section \<open>Rate limiter\<close>

text \<open>A request as the server's handlers see it, and the reply.\<close>

record server_request =
  srMethod :: string
  srPath :: string
  srQuery :: "string \<Rightarrow> string"
  srHeader :: "string \<Rightarrow> string"
  srRemoteAddr :: string
  srBody :: string

record server_reply =
  spStatus :: int
  spContentType :: string
  spBody :: string

text \<open>\<open>http.Error\<close> and \<open>WriteHeader\<close>\<close>

definition reply_error :: "string \<Rightarrow> int \<Rightarrow> server_reply" where
  "reply_error msg code =
     \<lparr>spStatus = code, spContentType = ''text/plain; charset=utf-8'', spBody = msg @ [CHR 0x0A]\<rparr>"

definition reply_status :: "int \<Rightarrow> server_reply" where
  "reply_status code = \<lparr>spStatus = code, spContentType = [], spBody = []\<rparr>"

type_synonym 's handler = "server_request \<Rightarrow> 's \<Rightarrow> server_reply \<times> 's"

record rate_limiter_config =
  rlEnabled :: bool
  rlRequestsPerSecond :: float64
  rlBurst :: int
  rlCleanupInterval :: duration
  rlTTL :: duration

text \<open>\<open>rate.NewLimiter\<close> and \<open>Limiter.Allow\<close> at an instant.\<close>

record 'l bucket_ops =
  bo_new :: "float64 \<Rightarrow> int \<Rightarrow> 'l"
  bo_allow :: "instant \<Rightarrow> 'l \<Rightarrow> bool \<times> 'l"

record 'l ip_limiter =
  ipLimiter :: 'l
  ipLastSeen :: instant

record 'l ip_rate_limiter =
  irLimit :: float64
  irBurst :: int
  irTTL :: duration
  irCleanupInterval :: duration
  irLastCleanup :: instant
  irLimiters :: "string \<Rightarrow> 'l ip_limiter option"

definition normalize_rate_limiter_config :: "rate_limiter_config \<Rightarrow> rate_limiter_config" where
  "normalize_rate_limiter_config cfg =
     (let cfg = (if le64 (rlRequestsPerSecond cfg) (Fin 0) then cfg\<lparr>rlRequestsPerSecond := Fin 10\<rparr> else cfg);
          cfg = (if rlBurst cfg \<le> 0 then cfg\<lparr>rlBurst := 20\<rparr> else cfg);
          cfg = (if rlCleanupInterval cfg \<le> 0 then cfg\<lparr>rlCleanupInterval := 60 * 1000000000\<rparr> else cfg)
      in if rlTTL cfg \<le> 0 then cfg\<lparr>rlTTL := 5 * 60 * 1000000000\<rparr> else cfg)"

definition new_ip_rate_limiter :: "rate_limiter_config \<Rightarrow> instant \<Rightarrow> 'l ip_rate_limiter" where
  "new_ip_rate_limiter cfg now =
     (let cfg = normalize_rate_limiter_config cfg
      in \<lparr>irLimit = rlRequestsPerSecond cfg, irBurst = rlBurst cfg, irTTL = rlTTL cfg,
          irCleanupInterval = rlCleanupInterval cfg, irLastCleanup = now, irLimiters = Map.empty\<rparr>)"

text \<open>\<open>Sub\<close> of two instants, in nanoseconds.\<close>

definition elapsed :: "instant \<Rightarrow> instant \<Rightarrow> duration" where
  "elapsed now earlier = (now - earlier) * 1000"

definition cleanup_expired :: "instant \<Rightarrow> 'l ip_rate_limiter \<Rightarrow> 'l ip_rate_limiter" where
  "cleanup_expired now l =
     (if elapsed now (irLastCleanup l) < irCleanupInterval l then l
      else l\<lparr>irLimiters := (\<lambda>ip. case irLimiters l ip of
               None \<Rightarrow> None
             | Some v \<Rightarrow> if irTTL l < elapsed now (ipLastSeen v) then None else Some v),
             irLastCleanup := now\<rparr>)"

text \<open>The clock is read once for the map and again by the bucket.\<close>

definition allow :: "'l bucket_ops \<Rightarrow> string \<Rightarrow> instant \<Rightarrow> instant \<Rightarrow> 'l ip_rate_limiter \<Rightarrow> bool \<times> 'l ip_rate_limiter" where
  "allow ops ip now later l =
     (let l1 = cleanup_expired now l;
          bucket = (case irLimiters l1 ip of None \<Rightarrow> bo_new ops (irLimit l1) (irBurst l1) | Some v \<Rightarrow> ipLimiter v)
      in case bo_allow ops later bucket of
           (ok, bucket1) \<Rightarrow>
             (ok, l1\<lparr>irLimiters := (irLimiters l1)(ip \<mapsto> \<lparr>ipLimiter = bucket1, ipLastSeen = now\<rparr>)\<rparr>))"

text \<open>\<open>net.SplitHostPort\<close>, the host only.\<close>

fun find_last :: "char \<Rightarrow> string \<Rightarrow> nat option" where
  "find_last c [] = None"
| "find_last c (x # s) =
     (case find_last c s of Some i \<Rightarrow> Some (Suc i) | None \<Rightarrow> if x = c then Some 0 else None)"

definition split_host :: "string \<Rightarrow> string option" where
  "split_host hostport =
     (case find_last (CHR '':'') hostport of
        None \<Rightarrow> None
      | Some i \<Rightarrow>
          if hd hostport = CHR ''['' then
            (let after = dropWhile (\<lambda>c. c \<noteq> CHR '']'') hostport; e = length hostport - length after
             in if after = [] \<or> e + 1 \<noteq> i then None
                else if CHR ''['' \<in> set (tl hostport) \<or> CHR '']'' \<in> set (drop (e + 1) hostport) then None
                else Some (take (e - 1) (tl hostport)))
          else
            (let host = take i hostport
             in if CHR '':'' \<in> set host \<or> CHR ''['' \<in> set hostport \<or> CHR '']'' \<in> set hostport then None
                else Some host))"

definition client_ip :: "server_request \<Rightarrow> string" where
  "client_ip r =
     (if srHeader r ''X-Forwarded-For'' \<noteq> [] then
        trim_space (hd (split_on (CHR '','') (srHeader r ''X-Forwarded-For'')))
      else if srHeader r ''X-Real-IP'' \<noteq> [] then trim_space (srHeader r ''X-Real-IP'')
      else (case split_host (srRemoteAddr r) of Some host \<Rightarrow> host | None \<Rightarrow> srRemoteAddr r))"

text \<open>The middleware: the limiter beside the handler's state; the clock is given.\<close>

definition rate_limit_middleware ::
    "'l bucket_ops \<Rightarrow> rate_limiter_config \<Rightarrow> (server_request \<Rightarrow> instant \<times> instant) \<Rightarrow> 's handler \<Rightarrow>
     ('l ip_rate_limiter \<times> 's) handler" where
  "rate_limit_middleware ops cfg clock next r ls =
     (case ls of (l, s) \<Rightarrow>
        if \<not> rlEnabled cfg then (case next r s of (w, s1) \<Rightarrow> (w, l, s1))
        else
          (case clock r of (now, later) \<Rightarrow>
             case allow ops (client_ip r) now later l of
               (False, l1) \<Rightarrow> (reply_error ''Too Many Requests'' 429, l1, s)
             | (True, l1) \<Rightarrow> (case next r s of (w, s1) \<Rightarrow> (w, l1, s1))))"


definition one_shot_bucket :: "bool bucket_ops" where
  "one_shot_bucket = \<lparr>bo_new = \<lambda>_ _. True, bo_allow = \<lambda>_ full. (full, False)\<rparr>"

definition example_limits :: rate_limiter_config where
  "example_limits = \<lparr>rlEnabled = True, rlRequestsPerSecond = Fin 10, rlBurst = 1, rlCleanupInterval = 60000000000,
     rlTTL = 300000000000\<rparr>"

definition example_request :: "string \<Rightarrow> server_request" where
  "example_request addr = \<lparr>srMethod = ''GET'', srPath = ''/list'', srQuery = \<lambda>_. [], srHeader = \<lambda>_. [],
     srRemoteAddr = addr, srBody = []\<rparr>"


end
