(* ===== verification/External_Clients.thy ===== *)
theory External_Clients
  imports Http_Helpers Go_Time Net_Url Traffic_Limits "HOL-Library.List_Lexorder" "HOL-Library.Char_ord"
begin

text \<open>
  The scrapper's clients of the external APIs: \<open>preview.go\<close>, \<open>github_client.go\<close> and
  \<open>stackoverflow_client.go\<close> of \<open>scrapper/internal/infrastructure/clients\<close>.  The HTTP exchange (with its
  deadline), the JSON decoders, the table of HTML entities, the retrier and the breaker are
  arguments; the base URLs are taken to have no query of their own.
\<close>

section \<open>Updates\<close>

text \<open>\<open>domain.LinkUpdate\<close>; the zone is that of \<open>CreatedAt\<close>.\<close>

record domain_update =
  duLinkID :: int
  duURL :: string
  duType :: string
  duTitle :: string
  duUsername :: string
  duCreatedAt :: instant
  duZone :: int
  duPreview :: string

definition update_type_github_issue :: string where
  "update_type_github_issue = ''github_issue''"
definition update_type_github_pull_request :: string where
  "update_type_github_pull_request = ''github_pull_request''"
definition update_type_stackoverflow_answer :: string where
  "update_type_stackoverflow_answer = ''stackoverflow_answer''"
definition update_type_stackoverflow_comment :: string where
  "update_type_stackoverflow_comment = ''stackoverflow_comment''"

section \<open>Previews\<close>

text \<open>\<open>regexp.MustCompile("<[^>]*>").ReplaceAllString(text, " ")\<close>\<close>

function strip_tags :: "string \<Rightarrow> string" where
  "strip_tags [] = []"
| "strip_tags (c # s) =
     (if c = CHR ''<'' \<and> CHR ''>'' \<in> set s then CHR '' '' # strip_tags (tl (dropWhile (\<lambda>x. x \<noteq> CHR ''>'') s))
      else c # strip_tags s)"
  by pat_completeness auto
termination
  by (relation "measure length")
    (auto simp: less_Suc_eq_le intro: order_trans [OF diff_le_self length_dropWhile_le])

definition cleanup_text :: "(string \<Rightarrow> string) \<Rightarrow> string \<Rightarrow> string" where
  "cleanup_text unescape_html s = trim_space (join '' '' (Go_Strings.fields (strip_tags (unescape_html s))))"

definition preview_limit :: nat where
  "preview_limit = 200"

definition make_preview :: "(string \<Rightarrow> string) \<Rightarrow> string \<Rightarrow> string" where
  "make_preview unescape_html s =
     (let s = cleanup_text unescape_html s; runes = runes_of s
      in if length runes \<le> preview_limit then s else encode_runes (take preview_limit runes))"

section \<open>Requests\<close>

definition unreserved :: "char \<Rightarrow> bool" where
  "unreserved c \<longleftrightarrow> ascii_letter c \<or> ascii_digit c \<or> c \<in> set ''-_.~''"

definition hex_upper :: "nat \<Rightarrow> char" where
  "hex_upper n = ''0123456789ABCDEF'' ! n"

definition percent :: "char \<Rightarrow> string" where
  "percent c = (let n = (of_char c :: nat) in [CHR ''%'', hex_upper (n div 16), hex_upper (n mod 16)])"

text \<open>\<open>url.PathEscape\<close>, \<open>url.QueryEscape\<close> and \<open>Values.Encode\<close>\<close>

definition path_escape :: "string \<Rightarrow> string" where
  "path_escape s = concat (map (\<lambda>c. if unreserved c \<or> c \<in> set ''$&+=:@'' then [c] else percent c) s)"

definition query_escape :: "string \<Rightarrow> string" where
  "query_escape s = concat (map (\<lambda>c. if c = CHR '' '' then ''+'' else if unreserved c then [c] else percent c) s)"

definition encode_query :: "(string \<times> string) list \<Rightarrow> string" where
  "encode_query params = join ''&'' (map (\<lambda>(k, v). query_escape k @ ''='' @ query_escape v) (sort_key fst params))"

definition with_query :: "string \<Rightarrow> (string \<times> string) list \<Rightarrow> string result" where
  "with_query target params =
     (case url_parse target of Inl e \<Rightarrow> Inl e | Inr _ \<Rightarrow> Inr (target @ ''?'' @ encode_query params))"

section \<open>The exchange\<close>

record github_issue =
  giTitle :: string
  giBody :: string
  giCreatedAt :: instant
  giZone :: int
  giLogin :: string
  giPullRequest :: bool

record so_post =
  spCreationDate :: int
  spBodyText :: string
  spDisplayName :: string

text \<open>What a request decodes its answer into.\<close>

datatype payload = Issues "github_issue list" | Questions "string list" | Posts "so_post list"

record 'w net =
  nt_do :: "duration \<Rightarrow> http_request \<Rightarrow> ('w, http_response) eff"
  nt_retrier :: "('w \<times> payload) retrier"
  nt_issues :: "string \<Rightarrow> github_issue list result"
  nt_questions :: "string \<Rightarrow> string list result"
  nt_posts :: "string \<Rightarrow> so_post list result"
  nt_unescape_html :: "string \<Rightarrow> string"
  nt_local_zone :: "instant \<Rightarrow> int"

type_synonym 'w breaker = "(('w \<times> payload, unit) eff \<Rightarrow> ('w \<times> payload, unit) eff) option"

definition on_world :: "('w, 'a) eff \<Rightarrow> ('w \<times> 'p, 'a) eff" where
  "on_world m s = (case m (fst s) of (r, w) \<Rightarrow> (r, w, snd s))"

definition set_payload :: "'p \<Rightarrow> ('w \<times> 'p, unit) eff" where
  "set_payload x s = (Inr (), fst s, x)"

text \<open>One attempt: the answer with status 200 is decoded into the target, which GitHub's client resets first.\<close>

definition request_once ::
    "'w net \<Rightarrow> string \<Rightarrow> duration \<Rightarrow> http_retry_config \<Rightarrow> payload option \<Rightarrow> (string \<Rightarrow> payload result) \<Rightarrow> http_request \<Rightarrow>
     ('w \<times> payload, unit) eff" where
  "request_once net service timeout cfg reset decode req =
     bindE (on_world (nt_do net (normalize_timeout timeout) req)) (\<lambda>resp.
       if rsStatus resp \<noteq> 200 then throw (new_http_status_error service (rsStatus resp) cfg)
       else
         bindE (case reset of None \<Rightarrow> ret () | Some x \<Rightarrow> set_payload x) (\<lambda>_.
           case decode (rsBody resp) of
             Inl e \<Rightarrow> throw e
           | Inr x \<Rightarrow> set_payload x))"

definition fetch ::
    "'w net \<Rightarrow> 'w breaker \<Rightarrow> string \<Rightarrow> duration \<Rightarrow> http_retry_config \<Rightarrow> payload option \<Rightarrow> payload \<Rightarrow>
     (string \<Rightarrow> payload result) \<Rightarrow> http_request \<Rightarrow> ('w, payload) eff" where
  "fetch net breaker service timeout cfg reset target decode req w =
     (case do_with_circuit_breaker breaker
             (do_with_http_retry (nt_retrier net) cfg (request_once net service timeout cfg reset decode req)) (w, target) of
        (Inl e, w1, x) \<Rightarrow> (Inl e, w1)
      | (Inr _, w1, x) \<Rightarrow> (Inr x, w1))"

section \<open>GitHub\<close>

record 'w github_client =
  gcBaseURL :: string
  gcToken :: string
  gcTimeout :: duration
  gcPerPage :: int
  gcRetry :: http_retry_config
  gcBreaker :: "'w breaker"

record github_client_config =
  ghBaseURL :: string
  ghToken :: string
  ghTimeout :: duration
  ghPerPage :: int
  ghRetry :: http_retry_config
  ghCircuitBreaker :: circuit_breaker_config

text \<open>The breaker made from the configuration by \<open>gobreaker\<close> is the first argument.\<close>

definition new_github_client ::
    "((breaker_settings \<times> breaker_memory) option \<Rightarrow> 'w breaker) \<Rightarrow> github_client_config \<Rightarrow> 'w github_client" where
  "new_github_client gobreaker cfg =
     (let base_url = trim_right_char (CHR ''/'') (ghBaseURL cfg)
      in \<lparr>gcBaseURL = (if base_url = [] then ''https://api.github.com'' else base_url),
          gcToken = ghToken cfg,
          gcTimeout = (if ghTimeout cfg = 0 then 10 * 1000000000 else ghTimeout cfg),
          gcPerPage = (if ghPerPage cfg \<le> 0 then 100 else ghPerPage cfg),
          gcRetry = normalize_retry_config (ghRetry cfg),
          gcBreaker = gobreaker (new_circuit_breaker ''github-client'' (ghCircuitBreaker cfg))\<rparr>)"

definition github_headers :: "'w github_client \<Rightarrow> (string \<times> string) list" where
  "github_headers c =
     [(''Accept'', ''application/vnd.github+json''), (''User-Agent'', ''link-tracker'')] @
     (if gcToken c \<noteq> [] then [(''Authorization'', ''Bearer '' @ gcToken c)] else [])"

definition github_request :: "'w github_client \<Rightarrow> string \<Rightarrow> string \<Rightarrow> instant \<Rightarrow> http_request result" where
  "github_request c owner repo since =
     (case with_query (gcBaseURL c @ ''/repos/'' @ path_escape owner @ ''/'' @ path_escape repo @ ''/issues'')
             ([(''state'', ''all''), (''sort'', ''created''), (''direction'', ''desc''), (''per_page'', format_int (gcPerPage c))] @
              (if \<not> is_zero since then [(''since'', format_rfc3339_utc since)] else [])) of
        Inl e \<Rightarrow> Inl e
      | Inr target \<Rightarrow> Inr \<lparr>rqMethod = ''GET'', rqURL = target, rqHeaders = github_headers c, rqBody = []\<rparr>)"

text \<open>The loop over what came: everything newer than \<open>since\<close> (everything, if that is zero) and the newest instant.\<close>

fun collect_updates ::
    "instant \<Rightarrow> ('i \<Rightarrow> instant) \<Rightarrow> ('i \<Rightarrow> domain_update) \<Rightarrow> 'i list \<Rightarrow> domain_update list \<Rightarrow> instant \<Rightarrow>
     domain_update list \<times> instant" where
  "collect_updates since created_at mk [] updates newest = (updates, newest)"
| "collect_updates since created_at mk (item # items) updates newest =
     (if \<not> is_zero since \<and> \<not> after (created_at item) since then collect_updates since created_at mk items updates newest
      else collect_updates since created_at mk items (updates @ [mk item])
             (if after (created_at item) newest then created_at item else newest))"

definition github_update :: "(string \<Rightarrow> string) \<Rightarrow> string \<Rightarrow> int \<Rightarrow> github_issue \<Rightarrow> domain_update" where
  "github_update unescape_html link_url link_id item =
     \<lparr>duLinkID = link_id, duURL = link_url,
      duType = (if giPullRequest item then update_type_github_pull_request else update_type_github_issue),
      duTitle = giTitle item, duUsername = giLogin item, duCreatedAt = giCreatedAt item, duZone = giZone item,
      duPreview = make_preview unescape_html (giBody item)\<rparr>"

definition get_new_issues_and_pull_requests ::
    "'w net \<Rightarrow> 'w github_client \<Rightarrow> string \<Rightarrow> string \<Rightarrow> string \<Rightarrow> int \<Rightarrow> instant \<Rightarrow> ('w, domain_update list \<times> instant) eff" where
  "get_new_issues_and_pull_requests net c owner repo link_url link_id since =
     (case github_request c owner repo since of
        Inl e \<Rightarrow> throw e
      | Inr req \<Rightarrow>
          bindE (fetch net (gcBreaker c) ''github'' (gcTimeout c) (gcRetry c) (Some (Issues [])) (Issues [])
                   (\<lambda>b. map_sum id Issues (nt_issues net b)) req) (\<lambda>answer.
            ret (collect_updates since giCreatedAt (github_update (nt_unescape_html net) link_url link_id)
                   (case answer of Issues items \<Rightarrow> items | _ \<Rightarrow> []) [] since)))"

section \<open>Stack Overflow\<close>

record 'w stackoverflow_client =
  scBaseURL :: string
  scSite :: string
  scTimeout :: duration
  scPerPage :: int
  scRetry :: http_retry_config
  scBreaker :: "'w breaker"

record stackoverflow_client_config =
  soBaseURL :: string
  soSite :: string
  soTimeout :: duration
  soPerPage :: int
  soRetry :: http_retry_config
  soCircuitBreaker :: circuit_breaker_config

definition new_stackoverflow_client ::
    "((breaker_settings \<times> breaker_memory) option \<Rightarrow> 'w breaker) \<Rightarrow> stackoverflow_client_config \<Rightarrow> 'w stackoverflow_client" where
  "new_stackoverflow_client gobreaker cfg =
     (let base_url = trim_right_char (CHR ''/'') (soBaseURL cfg)
      in \<lparr>scBaseURL = (if base_url = [] then ''https://api.stackexchange.com/2.3'' else base_url),
          scSite = (if soSite cfg = [] then ''stackoverflow'' else soSite cfg),
          scTimeout = (if soTimeout cfg = 0 then 10 * 1000000000 else soTimeout cfg),
          scPerPage = (if soPerPage cfg \<le> 0 then 100 else soPerPage cfg),
          scRetry = normalize_retry_config (soRetry cfg),
          scBreaker = gobreaker (new_circuit_breaker ''stackoverflow-client'' (soCircuitBreaker cfg))\<rparr>)"

definition so_build_url :: "'w stackoverflow_client \<Rightarrow> string \<Rightarrow> (string \<times> string) list \<Rightarrow> string result" where
  "so_build_url c path params = with_query (scBaseURL c @ path) params"

definition so_get_json ::
    "'w net \<Rightarrow> 'w stackoverflow_client \<Rightarrow> payload \<Rightarrow> (string \<Rightarrow> payload result) \<Rightarrow> string \<Rightarrow> ('w, payload) eff" where
  "so_get_json net c target decode endpoint =
     fetch net (scBreaker c) ''stackoverflow'' (scTimeout c) (scRetry c) None target decode
       \<lparr>rqMethod = ''GET'', rqURL = endpoint, rqHeaders = [(''User-Agent'', ''link-tracker'')], rqBody = []\<rparr>"

definition get_question_title :: "'w net \<Rightarrow> 'w stackoverflow_client \<Rightarrow> int \<Rightarrow> ('w, string) eff" where
  "get_question_title net c question_id =
     (case so_build_url c (''/questions/'' @ format_int question_id) [(''site'', scSite c), (''filter'', ''default'')] of
        Inl e \<Rightarrow> throw e
      | Inr endpoint \<Rightarrow>
          bindE (so_get_json net c (Questions []) (\<lambda>b. map_sum id Questions (nt_questions net b)) endpoint) (\<lambda>answer.
            case answer of
              Questions (title # _) \<Rightarrow> ret (cleanup_text (nt_unescape_html net) title)
            | _ \<Rightarrow> throw (ErrText ''stackoverflow question not found'')))"

definition so_update :: "'w net \<Rightarrow> string \<Rightarrow> string \<Rightarrow> string \<Rightarrow> int \<Rightarrow> so_post \<Rightarrow> domain_update" where
  "so_update net kind title link_url link_id item =
     (let created_at = unix_time (spCreationDate item)
      in \<lparr>duLinkID = link_id, duURL = link_url, duType = kind, duTitle = title, duUsername = spDisplayName item,
          duCreatedAt = created_at, duZone = nt_local_zone net created_at,
          duPreview = make_preview (nt_unescape_html net) (spBodyText item)\<rparr>)"

definition so_post_params :: "'w stackoverflow_client \<Rightarrow> (string \<times> string) list" where
  "so_post_params c =
     [(''site'', scSite c), (''sort'', ''creation''), (''order'', ''desc''), (''pagesize'', format_int (scPerPage c)),
      (''filter'', ''withbody'')]"

definition get_new_answers ::
    "'w net \<Rightarrow> 'w stackoverflow_client \<Rightarrow> int \<Rightarrow> string \<Rightarrow> int \<Rightarrow> string \<Rightarrow> instant \<Rightarrow> ('w, domain_update list \<times> instant) eff" where
  "get_new_answers net c question_id link_url link_id title since =
     (case so_build_url c (''/questions/'' @ format_int question_id @ ''/answers'') (so_post_params c) of
        Inl e \<Rightarrow> throw e
      | Inr endpoint \<Rightarrow>
          bindE (so_get_json net c (Posts []) (\<lambda>b. map_sum id Posts (nt_posts net b)) endpoint) (\<lambda>answer.
            ret (collect_updates since (unix_time \<circ> spCreationDate)
                   (so_update net update_type_stackoverflow_answer title link_url link_id)
                   (case answer of Posts items \<Rightarrow> items | _ \<Rightarrow> []) [] since)))"

definition get_new_comments ::
    "'w net \<Rightarrow> 'w stackoverflow_client \<Rightarrow> int \<Rightarrow> string \<Rightarrow> int \<Rightarrow> string \<Rightarrow> instant \<Rightarrow> ('w, domain_update list \<times> instant) eff" where
  "get_new_comments net c question_id link_url link_id title since =
     (case so_build_url c (''/questions/'' @ format_int question_id @ ''/comments'') (so_post_params c) of
        Inl e \<Rightarrow> throw e
      | Inr endpoint \<Rightarrow>
          bindE (so_get_json net c (Posts []) (\<lambda>b. map_sum id Posts (nt_posts net b)) endpoint) (\<lambda>answer.
            ret (collect_updates since (unix_time \<circ> spCreationDate)
                   (so_update net update_type_stackoverflow_comment title link_url link_id)
                   (case answer of Posts items \<Rightarrow> items | _ \<Rightarrow> []) [] since)))"

definition get_new_answers_and_comments ::
    "'w net \<Rightarrow> 'w stackoverflow_client \<Rightarrow> int \<Rightarrow> string \<Rightarrow> int \<Rightarrow> instant \<Rightarrow> ('w, domain_update list \<times> instant) eff" where
  "get_new_answers_and_comments net c question_id link_url link_id since =
     bindE (get_question_title net c question_id) (\<lambda>title.
     bindE (get_new_answers net c question_id link_url link_id title since) (\<lambda>(answers, newest_answer).
     bindE (get_new_comments net c question_id link_url link_id title since) (\<lambda>(comments, newest_comment).
       (let newest = since;
            newest = (if after newest_answer newest then newest_answer else newest);
            newest = (if after newest_comment newest then newest_comment else newest)
        in ret (answers @ comments, newest)))))"

section \<open>What is collected\<close>

definition is_new :: "instant \<Rightarrow> instant \<Rightarrow> bool" where
  "is_new since t \<longleftrightarrow> is_zero since \<or> after t since"

lemma collect_updates_eq:
  "collect_updates since created_at mk items updates newest =
     (updates @ map mk (filter (\<lambda>i. is_new since (created_at i)) items),
      foldl max newest (map created_at (filter (\<lambda>i. is_new since (created_at i)) items)))"
  by (induction items arbitrary: updates newest) (auto simp: is_new_def max_def)

lemma foldl_max: "foldl max (a :: instant) xs = Max (insert a (set xs))"
proof -
  have "(\<lambda>x s. max s x) = (max :: instant \<Rightarrow> instant \<Rightarrow> instant)" by (simp add: fun_eq_iff max.commute)
  then show ?thesis using Max.set_eq_fold [of a xs] by (simp add: foldl_conv_fold)
qed

lemma newest_of_both:
  assumes "finite X" "finite Y"
  shows "max (max (a :: instant) (Max (insert a X))) (Max (insert a Y)) = Max (insert a (X \<union> Y))"
proof -
  have "insert a (X \<union> Y) = insert a X \<union> insert a Y" by blast
  then have "Max (insert a (X \<union> Y)) = max (Max (insert a X)) (Max (insert a Y))"
    using assms by (simp only: Max_Un finite_insert insert_not_empty not_False_eq_True)
  moreover have "a \<le> Max (insert a X)" using assms by simp
  ultimately show ?thesis by simp
qed

text \<open>What is relied on of the breaker: a call that returns nil is a call of the operation that did.\<close>

definition honest_breaker :: "'w breaker \<Rightarrow> bool" where
  "honest_breaker b \<longleftrightarrow>
     (\<forall>execute op s s'. b = Some execute \<longrightarrow> execute op s = (Inr (), s') \<longrightarrow> (\<exists>s0. op s0 = (Inr (), s')))"

lemma fetch_Inr:
  assumes "fetch net b service timeout cfg reset target decode req w = (Inr x, w')"
    and "documented_retry (nt_retrier net)" "honest_breaker b" "0 \<le> rcMaxAttempts cfg"
  shows "\<exists>w0 resp. nt_do net (normalize_timeout timeout) req w0 = (Inr resp, w') \<and> rsStatus resp = 200 \<and>
    decode (rsBody resp) = Inr x"
proof -
  let ?op = "request_once net service timeout cfg reset decode req"
  let ?n = "nat (rcMaxAttempts (normalize_retry_config cfg) - 1)"
  have n: "rcMaxAttempts (normalize_retry_config cfg) = int (Suc ?n)"
    using assms(4) by (auto simp: normalize_retry_config_def Let_def)
  have "\<exists>s0. nt_retrier net (int (Suc ?n)) is_retryable_error ?op s0 = (Inr (), w', x)"
    using assms(1,3) n
    by (auto simp: fetch_def do_with_circuit_breaker_def do_with_http_retry_def honest_breaker_def Let_def
        split: prod.splits sum.splits option.splits)
  then obtain s0 where "nt_retrier net (int (Suc ?n)) is_retryable_error ?op s0 = (Inr (), w', x)" ..
  from retrier_runs [OF assms(2) this] obtain s1 where "?op s1 = (Inr (), w', x)" by blast
  then obtain resp where "nt_do net (normalize_timeout timeout) req (fst s1) = (Inr resp, w')" "rsStatus resp = 200"
    "decode (rsBody resp) = Inr x"
    by (auto simp: request_once_def bindE_apply on_world_def set_payload_def split: prod.splits sum.splits if_splits option.splits)
  then show ?thesis by blast
qed

lemma bindE_ret_Inr: "bindE m (\<lambda>x. ret (f x)) s = (Inr y, s') \<Longrightarrow> \<exists>x. m s = (Inr x, s') \<and> y = f x"
  by (auto simp: bindE_def split: prod.splits sum.splits)

text \<open>
  (C19) When the GitHub client returns, it returns exactly the issues and pull requests of one answer with
  status 200 that were created after the given instant (all of them, on a first look), in their order, each
  with the link's identity and its kind, and the newest of their instants (or the given one).
\<close>

theorem github_updates_exact:
  assumes "get_new_issues_and_pull_requests net c owner repo link_url link_id since w = (Inr (updates, newest), w')"
    and "documented_retry (nt_retrier net)" and "honest_breaker (gcBreaker c)" and "0 \<le> rcMaxAttempts (gcRetry c)"
  shows "\<exists>req w0 resp items new.
     github_request c owner repo since = Inr req \<and>
     nt_do net (normalize_timeout (gcTimeout c)) req w0 = (Inr resp, w') \<and> rsStatus resp = 200 \<and>
     nt_issues net (rsBody resp) = Inr items \<and>
     new = filter (\<lambda>i. since = time_zero \<or> since < giCreatedAt i) items \<and>
     updates = map (github_update (nt_unescape_html net) link_url link_id) new \<and>
     newest = Max (insert since (giCreatedAt ` set new))"
proof -
  obtain req where req: "github_request c owner repo since = Inr req"
    using assms(1) by (cases "github_request c owner repo since") (auto simp: get_new_issues_and_pull_requests_def)
  obtain answer where f: "fetch net (gcBreaker c) ''github'' (gcTimeout c) (gcRetry c) (Some (Issues [])) (Issues [])
      (\<lambda>b. map_sum id Issues (nt_issues net b)) req w = (Inr answer, w')"
    and u: "(updates, newest) = collect_updates since giCreatedAt (github_update (nt_unescape_html net) link_url link_id)
       (case answer of Issues items \<Rightarrow> items | _ \<Rightarrow> []) [] since"
    using assms(1) req by (auto simp: get_new_issues_and_pull_requests_def dest!: bindE_ret_Inr)
  from fetch_Inr [OF f assms(2-4)] obtain w0 resp where r: "nt_do net (normalize_timeout (gcTimeout c)) req w0 = (Inr resp, w')"
    "rsStatus resp = 200" "map_sum id Issues (nt_issues net (rsBody resp)) = Inr answer" by blast
  then obtain items where i: "nt_issues net (rsBody resp) = Inr items" "answer = Issues items"
    by (cases "nt_issues net (rsBody resp)") auto
  show ?thesis using req r i u unfolding collect_updates_eq foldl_max is_new_def
    by (intro exI [of _ req] exI [of _ w0] exI [of _ resp] exI [of _ items]
        exI [of _ "filter (\<lambda>i. since = time_zero \<or> since < giCreatedAt i) items"]) simp
qed

section \<open>An example\<close>

definition example_net :: "github_issue list \<Rightarrow> so_post list \<Rightarrow> nat net" where
  "example_net issues posts =
     \<lparr>nt_do = \<lambda>_ _ n. (Inr \<lparr>rsStatus = 200, rsBody = []\<rparr>, Suc n), nt_retrier = plain_retrier,
      nt_issues = \<lambda>_. Inr issues, nt_questions = \<lambda>_. Inr [''Q''], nt_posts = \<lambda>_. Inr posts,
      nt_unescape_html = id, nt_local_zone = \<lambda>_. 0\<rparr>"

definition example_issue :: "string \<Rightarrow> instant \<Rightarrow> github_issue" where
  "example_issue title t =
     \<lparr>giTitle = title, giBody = [], giCreatedAt = t, giZone = 0, giLogin = ''me'', giPullRequest = False\<rparr>"

definition no_breaker :: "(breaker_settings \<times> breaker_memory) option \<Rightarrow> 'w breaker" where
  "no_breaker _ = None"

definition example_github :: "nat github_client" where
  "example_github =
     \<lparr>gcBaseURL = ''https://api.github.com'', gcToken = [], gcTimeout = 10000000000, gcPerPage = 100,
      gcRetry = \<lparr>rcMaxAttempts = 1, rcDelay = 1, rcRetryableHTTPStatuses = [429]\<rparr>, gcBreaker = None\<rparr>"

lemma example_github_request:
  assumes "since = 5000000 \<or> since = 0"
  shows "\<exists>req. github_request example_github ''o'' ''r'' since = Inr req"
proof -
  have "\<not> isl (github_request example_github ''o'' ''r'' 5000000)" "\<not> isl (github_request example_github ''o'' ''r'' 0)"
    by code_simp+
  with assms show ?thesis by (metis sum.collapse(2))
qed

lemma example_fetch:
  assumes "rcMaxAttempts cfg = 1" "decode [] = Inr x"
  shows "fetch (example_net issues posts) None service timeout cfg reset target decode req w = (Inr x, Suc w)"
  using assms
  by (auto simp: fetch_def do_with_circuit_breaker_def do_with_http_retry_def normalize_retry_config_def
      example_net_def plain_retrier_def request_once_def on_world_def set_payload_def bindE_apply Let_def
      split: option.split)

theorem github_updates_exact_witness:
  "\<exists>updates newest w'. get_new_issues_and_pull_requests
       (example_net [example_issue ''new'' 7000000, example_issue ''old'' 5000000] []) example_github
       ''o'' ''r'' ''u'' 1 5000000 0 = (Inr (updates, newest), w') \<and>
     map duTitle updates = [''new''] \<and> newest = 7000000"
proof -
  let ?net = "example_net [example_issue ''new'' 7000000, example_issue ''old'' 5000000] []"
  let ?issues = "[example_issue ''new'' 7000000, example_issue ''old'' 5000000]"
  obtain req where "github_request example_github ''o'' ''r'' 5000000 = Inr req" using example_github_request by blast
  moreover have "fetch ?net (gcBreaker example_github) ''github'' (gcTimeout example_github) (gcRetry example_github)
      (Some (Issues [])) (Issues []) (\<lambda>b. map_sum id Issues (nt_issues ?net b)) req 0 = (Inr (Issues ?issues), Suc 0)" for req
    by (simp add: example_github_def) (rule example_fetch; simp add: example_net_def)
  ultimately have "get_new_issues_and_pull_requests ?net example_github ''o'' ''r'' ''u'' 1 5000000 0
      = (Inr (collect_updates 5000000 giCreatedAt (github_update (nt_unescape_html ?net) ''u'' 1) ?issues [] 5000000), Suc 0)"
    by (simp add: get_new_issues_and_pull_requests_def del: collect_updates.simps)
  then obtain updates newest where run: "get_new_issues_and_pull_requests ?net example_github ''o'' ''r'' ''u'' 1 5000000 0
      = (Inr (updates, newest), Suc 0)" by (metis prod.collapse)
  have "documented_retry (nt_retrier ?net)" "honest_breaker (gcBreaker example_github)" "0 \<le> rcMaxAttempts (gcRetry example_github)"
    by (simp_all add: example_net_def documented_retry_plain honest_breaker_def example_github_def)
  from github_updates_exact [OF run this] obtain resp :: http_response and items new where
    i: "nt_issues ?net (rsBody resp) = Inr items"
    and new: "new = filter (\<lambda>i. (5000000 :: instant) = time_zero \<or> 5000000 < giCreatedAt i) items"
    and u: "updates = map (github_update (nt_unescape_html ?net) ''u'' 1) new" "newest = Max (insert 5000000 (giCreatedAt ` set new))"
    by blast
  have "new = [example_issue ''new'' 7000000]" using i new by (auto simp: example_net_def example_issue_def)
  with u run show ?thesis by (simp add: example_issue_def github_update_def)
qed


definition example_stackoverflow :: "nat stackoverflow_client" where
  "example_stackoverflow =
     \<lparr>scBaseURL = ''https://api.stackexchange.com/2.3'', scSite = ''stackoverflow'', scTimeout = 10000000000, scPerPage = 100,
      scRetry = \<lparr>rcMaxAttempts = 1, rcDelay = 1, rcRetryableHTTPStatuses = [429]\<rparr>, scBreaker = None\<rparr>"

lemma example_so_url:
  "\<exists>t. so_build_url example_stackoverflow ''/questions/5'' [(''site'', ''stackoverflow''), (''filter'', ''default'')] = Inr t"
  "\<exists>t. so_build_url example_stackoverflow ''/questions/5/answers'' (so_post_params example_stackoverflow) = Inr t"
  "\<exists>t. so_build_url example_stackoverflow ''/questions/5/comments'' (so_post_params example_stackoverflow) = Inr t"
proof -
  have "list_all (\<lambda>p. \<not> isl (url_parse (''https://api.stackexchange.com/2.3'' @ p)))
      [''/questions/5'', ''/questions/5/answers'', ''/questions/5/comments'']" by code_simp
  then show "\<exists>t. so_build_url example_stackoverflow ''/questions/5'' [(''site'', ''stackoverflow''), (''filter'', ''default'')] = Inr t"
    "\<exists>t. so_build_url example_stackoverflow ''/questions/5/answers'' (so_post_params example_stackoverflow) = Inr t"
    "\<exists>t. so_build_url example_stackoverflow ''/questions/5/comments'' (so_post_params example_stackoverflow) = Inr t"
    by (auto simp: so_build_url_def with_query_def example_stackoverflow_def split: sum.splits)
qed

lemma example_so_run:
  "\<exists>updates newest w'. get_new_answers_and_comments (example_net [] posts) example_stackoverflow 5 ''u'' 1 since 0
     = (Inr (updates, newest), w')"
proof -
  have id: "format_int 5 = ''5''" by code_simp
  have f: "so_get_json (example_net [] posts) example_stackoverflow target decode endpoint w = (Inr x, Suc w)"
    if "decode [] = Inr x" for target decode endpoint x w
    using that by (simp add: so_get_json_def example_stackoverflow_def) (rule example_fetch; simp)
  have "get_question_title (example_net [] posts) example_stackoverflow 5 0 = (Inr (cleanup_text id ''Q''), Suc 0)"
    using example_so_url(1) f [of _ "Questions [''Q'']"]
    by (auto simp: get_question_title_def id example_net_def example_stackoverflow_def)
  moreover have answers: "\<exists>a n. get_new_answers (example_net [] posts) example_stackoverflow 5 ''u'' 1 title since w = (Inr (a, n), Suc w)"
    and comments: "\<exists>a n. get_new_comments (example_net [] posts) example_stackoverflow 5 ''u'' 1 title since w = (Inr (a, n), Suc w)" for title w
    using example_so_url(2,3) f [of _ "Posts posts"]
    by (auto simp: get_new_answers_def get_new_comments_def id example_net_def collect_updates_eq)
  moreover obtain a n where "get_new_answers (example_net [] posts) example_stackoverflow 5 ''u'' 1 (cleanup_text id ''Q'') since (Suc 0)
      = (Inr (a, n), Suc (Suc 0))" using answers by blast
  moreover obtain b m where "get_new_comments (example_net [] posts) example_stackoverflow 5 ''u'' 1 (cleanup_text id ''Q'') since (Suc (Suc 0))
      = (Inr (b, m), Suc (Suc (Suc 0)))" using comments by blast
  ultimately show ?thesis by (simp add: get_new_answers_and_comments_def Let_def)
qed


text \<open>
  A preview has at most 200 characters: those of the text with entities decoded, tags replaced and
  white space collapsed, or its first 200, whole.
\<close>

theorem make_preview_bound:
  "rune_count (make_preview f s) \<le> 200 \<and>
   runes_of (make_preview f s) = take 200 (runes_of (cleanup_text f s))"
proof -
  let ?t = "cleanup_text f s"
  have "map norm_rune (take 200 (runes_of ?t)) = take 200 (runes_of ?t)"
    by (rule map_idI) (meson in_set_takeD norm_rune_valid runes_of_valid)
  then have "runes_of (make_preview f s) = take 200 (runes_of ?t)"
    by (simp add: make_preview_def preview_limit_def runes_of_encode_runes Let_def)
  then show ?thesis by (simp add: rune_count_def)
qed

end
