(* ===== verification/Scheduler.thy ===== *)
theory Scheduler
  imports Sql_Repositories Orm_Repositories Link_Parsers External_Clients Link_Update
begin

text \<open>
  The scheduler of the scrapper (\<open>application/services/scheduler.go\<close>): one pass over the tracked
  links in batches, each batch split among workers, the updates of a link stored in the outbox or
  sent to the bot, and failures reported once.  The state is the database, the world outside
  (external APIs and the bot), the map of reported failures and the clock.  The transport to the bot
  and the JSON encoding of a notification are arguments.  One link is handled in one step: the
  workers' steps on different links, which touch different rows, are interleaved link by link in
  any order the chunks allow; gocron, which calls \<open>CheckLinks\<close>, is a library.
\<close>

section \<open>State\<close>

record ('d, 'w) sched =
  sd_db :: 'd
  sd_world :: 'w
  sd_failures :: "int \<Rightarrow> string option"
  sd_now :: instant
  sd_clock :: "instant list"

definition on_db :: "('d, 'a) eff \<Rightarrow> (('d, 'w) sched, 'a) eff" where
  "on_db m s = (case m (sd_db s) of (r, d) \<Rightarrow> (r, s\<lparr>sd_db := d\<rparr>))"

definition outside :: "('w, 'a) eff \<Rightarrow> (('d, 'w) sched, 'a) eff" where
  "outside m s = (case m (sd_world s) of (r, w) \<Rightarrow> (r, s\<lparr>sd_world := w\<rparr>))"

text \<open>\<open>time.Now()\<close>\<close>

definition now_utc :: "(('d, 'w) sched, instant) eff" where
  "now_utc s =
     (case sd_clock s of [] \<Rightarrow> (Inr (sd_now s), s) | t # ts \<Rightarrow> (Inr t, s\<lparr>sd_now := t, sd_clock := ts\<rparr>))"

record 'd tracking_ops =
  tr_batch :: "int \<Rightarrow> int \<Rightarrow> ('d, link list) eff"
  tr_subscribers :: "int \<Rightarrow> ('d, int list) eff"
  tr_update :: "int \<Rightarrow> instant \<Rightarrow> ('d, unit) eff"

record 'd outbox_ops =
  ob_save_update :: "int \<Rightarrow> instant \<Rightarrow> outbox_message list \<Rightarrow> ('d, unit) eff"
  ob_save_all :: "outbox_message list \<Rightarrow> ('d, unit) eff"

record ('d, 'w) scheduler =
  sc_repo :: "'d tracking_ops"
  sc_net :: "'w net"
  sc_github :: "'w github_client"
  sc_stackoverflow :: "'w stackoverflow_client"
  sc_send :: "link_update \<Rightarrow> ('w, unit) eff"
  sc_marshal :: "link_update \<Rightarrow> string result"
  sc_unicode :: unicode
  sc_interval :: duration
  sc_batch_size :: int
  sc_worker_count :: int
  sc_outbox :: "'d outbox_ops option"
  sc_outbox_topic :: string
  sc_outbox_enabled :: bool

definition new_scheduler ::
    "'d tracking_ops \<Rightarrow> 'w net \<Rightarrow> 'w github_client \<Rightarrow> 'w stackoverflow_client \<Rightarrow> (link_update \<Rightarrow> ('w, unit) eff) \<Rightarrow>
     (link_update \<Rightarrow> string result) \<Rightarrow> unicode \<Rightarrow> duration \<Rightarrow> int \<Rightarrow> int \<Rightarrow> ('d, 'w) scheduler" where
  "new_scheduler repo net github so send marshal uc interval batch_size worker_count =
     \<lparr>sc_repo = repo, sc_net = net, sc_github = github, sc_stackoverflow = so, sc_send = send, sc_marshal = marshal,
      sc_unicode = uc,
      sc_interval = (if interval \<le> 0 then 30 * 1000000000 else interval),
      sc_batch_size = (if batch_size \<le> 0 then 100 else batch_size),
      sc_worker_count = (if worker_count \<le> 0 then 1 else worker_count),
      sc_outbox = None, sc_outbox_topic = [], sc_outbox_enabled = False\<rparr>"

definition enable_outbox :: "'d outbox_ops option \<Rightarrow> string \<Rightarrow> ('d, 'w) scheduler \<Rightarrow> ('d, 'w) scheduler" where
  "enable_outbox outbox topic svc =
     svc\<lparr>sc_outbox := outbox, sc_outbox_topic := topic, sc_outbox_enabled := (outbox \<noteq> None \<and> topic \<noteq> [])\<rparr>"

section \<open>Texts\<close>

definition processing_error_type :: string where
  "processing_error_type = ''processing_error''"

definition processing_error_title :: string where
  "processing_error_title =
     encode_runes
     [0x41E, 0x448, 0x438, 0x431, 0x43A, 0x430, 0x20, 0x43E, 0x431, 0x440, 0x430, 0x431,
      0x43E, 0x442, 0x43A, 0x438, 0x20, 0x441, 0x441, 0x44B, 0x43B, 0x43A, 0x438]"

definition processing_error_username :: string where
  "processing_error_username = ''scrapper''"

definition make_error_preview :: "(string \<Rightarrow> string) \<Rightarrow> go_error \<Rightarrow> string" where
  "make_error_preview unescape_html e = make_preview unescape_html (err_text e)"

definition failure_description :: "string \<Rightarrow> string \<Rightarrow> string" where
  "failure_description url preview =
     encode_runes
     [0x41D, 0x435, 0x20, 0x443, 0x434, 0x430, 0x43B, 0x43E, 0x441, 0x44C, 0x20, 0x43E,
      0x431, 0x440, 0x430, 0x431, 0x43E, 0x442, 0x430, 0x442, 0x44C, 0x20, 0x441, 0x441,
      0x44B, 0x43B, 0x43A, 0x443, 0x3A, 0x20] @ url @
     encode_runes
     [0xA, 0x41F, 0x440, 0x438, 0x447, 0x438, 0x43D, 0x430, 0x3A, 0x20] @ preview"

definition format_update_description :: "domain_update \<Rightarrow> string" where
  "format_update_description u =
     encode_runes
     [0x41E, 0x431, 0x43D, 0x430, 0x440, 0x443, 0x436, 0x435, 0x43D, 0x43E, 0x20, 0x43E,
      0x431, 0x43D, 0x43E, 0x432, 0x43B, 0x435, 0x43D, 0x438, 0x435, 0x20, 0x43F, 0x43E,
      0x20, 0x441, 0x441, 0x44B, 0x43B, 0x43A, 0x435, 0x3A, 0x20] @ duURL u @
     encode_runes
     [0xA, 0xA, 0x422, 0x438, 0x43F, 0x3A, 0x20] @ duType u @
     encode_runes
     [0xA, 0x422, 0x435, 0x43C, 0x430, 0x3A, 0x20] @ duTitle u @
     encode_runes
     [0xA, 0x410, 0x432, 0x442, 0x43E, 0x440, 0x3A, 0x20] @ duUsername u @
     encode_runes
     [0xA, 0x421, 0x43E, 0x437, 0x434, 0x430, 0x43D, 0x43E, 0x3A, 0x20] @ format_date_time (duZone u) (duCreatedAt u) @
     [CHR 0x0A, CHR 0x0A] @ duPreview u"

section \<open>Failures\<close>

definition should_report_failure :: "int \<Rightarrow> string \<Rightarrow> (('d, 'w) sched, bool) eff" where
  "should_report_failure link_id preview s =
     (if sd_failures s link_id = Some preview then (Inr False, s)
      else (Inr True, s\<lparr>sd_failures := (sd_failures s)(link_id \<mapsto> preview)\<rparr>))"

definition clear_reported_failure :: "int \<Rightarrow> (('d, 'w) sched, unit) eff" where
  "clear_reported_failure link_id s = (Inr (), s\<lparr>sd_failures := (sd_failures s)(link_id := None)\<rparr>)"

definition report_link_failure :: "('d, 'w) scheduler \<Rightarrow> link \<times> go_error \<Rightarrow> (('d, 'w) sched, unit) eff" where
  "report_link_failure svc failed =
     (case failed of (link, err) \<Rightarrow>
        let preview = make_error_preview (nt_unescape_html (sc_net svc)) err in
        bindE (should_report_failure (linkID link) preview) (\<lambda>report.
          if \<not> report then ret ()
          else
            bindE (attempt (on_db (tr_subscribers (sc_repo svc) (linkID link)))) (\<lambda>found.
              case found of
                Inl _ \<Rightarrow> clear_reported_failure (linkID link)
              | Inr subscribers \<Rightarrow>
                  if length subscribers = 0 then ret ()
                  else
                    bindE now_utc (\<lambda>now.
                    bindE (attempt (outside (sc_send svc
                      \<lparr>uID = linkID link, uURL = linkURL link, uTgChatIDs = subscribers, uType = processing_error_type,
                       uTitle = processing_error_title, uUsername = processing_error_username, uCreatedAt = now,
                       uPreview = preview, uDescription = failure_description (linkURL link) preview, uPriority = []\<rparr>)))
                      (\<lambda>sent. case sent of Inl _ \<Rightarrow> clear_reported_failure (linkID link) | Inr _ \<Rightarrow> ret ())))))"

section \<open>One link\<close>

definition fetch_updates :: "('d, 'w) scheduler \<Rightarrow> link \<Rightarrow> parsed_link \<Rightarrow> ('w, domain_update list \<times> instant) eff" where
  "fetch_updates svc link parsed =
     (if plSource parsed = source_github then
        get_new_issues_and_pull_requests (sc_net svc) (sc_github svc) (plGithubOwner parsed) (plGithubRepo parsed)
          (linkURL link) (linkID link) (linkLastUpdatedAt link)
      else if plSource parsed = source_stackoverflow then
        get_new_answers_and_comments (sc_net svc) (sc_stackoverflow svc) (plStackOverflowQuestionID parsed)
          (linkURL link) (linkID link) (linkLastUpdatedAt link)
      else ret ([], time_zero))"

definition make_outbox_message :: "('d, 'w) scheduler \<Rightarrow> link_update \<Rightarrow> (('d, 'w) sched, outbox_message) eff" where
  "make_outbox_message svc update =
     (case sc_marshal svc update of
        Inl e \<Rightarrow> throw e
      | Inr payload \<Rightarrow>
          bindE now_utc (\<lambda>now.
            ret \<lparr>omID = 0, omTopic = sc_outbox_topic svc, omMessageKey = format_int (uID update), omPayload = payload,
                 omStatus = OutboxPending, omAttempts = 0, omLastError = None, omCreatedAt = now, omUpdatedAt = now,
                 omSentAt = None\<rparr>))"

definition notification :: "int list \<Rightarrow> domain_update \<Rightarrow> link_update" where
  "notification subscribers u =
     \<lparr>uID = duLinkID u, uURL = duURL u, uTgChatIDs = subscribers, uType = duType u, uTitle = duTitle u,
      uUsername = duUsername u, uCreatedAt = duCreatedAt u, uPreview = duPreview u,
      uDescription = format_update_description u, uPriority = []\<rparr>"

text \<open>The loop over the updates: messages for the outbox, or notifications sent at once.\<close>

fun deliver :: "('d, 'w) scheduler \<Rightarrow> int list \<Rightarrow> domain_update list \<Rightarrow> outbox_message list \<Rightarrow>
    (('d, 'w) sched, outbox_message list) eff" where
  "deliver svc subscribers [] messages = ret messages"
| "deliver svc subscribers (u # us) messages =
     (if sc_outbox_enabled svc then
        bindE (make_outbox_message svc (notification subscribers u)) (\<lambda>m. deliver svc subscribers us (messages @ [m]))
      else
        bindE (outside (sc_send svc (notification subscribers u))) (\<lambda>_. deliver svc subscribers us messages))"

definition store_messages :: "('d, 'w) scheduler \<Rightarrow> link \<Rightarrow> instant \<Rightarrow> outbox_message list \<Rightarrow> (('d, 'w) sched, unit) eff" where
  "store_messages svc link newest messages =
     (case sc_outbox svc of
        None \<Rightarrow> ret ()
      | Some outbox \<Rightarrow>
          if \<not> sc_outbox_enabled svc then ret ()
          else if after newest (linkLastUpdatedAt link) then on_db (ob_save_update outbox (linkID link) newest messages)
          else on_db (ob_save_all outbox messages))"

definition process_link :: "('d, 'w) scheduler \<Rightarrow> link \<Rightarrow> (('d, 'w) sched, unit) eff" where
  "process_link svc link =
     (case scrapper_parse_link (sc_unicode svc) (linkURL link) of
        Inl e \<Rightarrow> throw e
      | Inr parsed \<Rightarrow>
          bindE (outside (fetch_updates svc link parsed)) (\<lambda>(updates, newest).
            if is_zero (linkLastUpdatedAt link) then
              bindE (if is_zero newest then now_utc else ret newest) (\<lambda>newest.
                on_db (tr_update (sc_repo svc) (linkID link) newest))
            else if length updates = 0 then ret ()
            else
              bindE (if \<not> sc_outbox_enabled svc \<and> after newest (linkLastUpdatedAt link)
                     then on_db (tr_update (sc_repo svc) (linkID link) newest) else ret ()) (\<lambda>_.
              bindE (on_db (tr_subscribers (sc_repo svc) (linkID link))) (\<lambda>subscribers.
                if length subscribers = 0 then
                  (if sc_outbox_enabled svc \<and> after newest (linkLastUpdatedAt link)
                   then on_db (tr_update (sc_repo svc) (linkID link) newest) else ret ())
                else
                  bindE (deliver svc subscribers updates []) (\<lambda>messages.
                    store_messages svc link newest messages)))))"

section \<open>A batch\<close>

definition effective_workers :: "('d, 'w) scheduler \<Rightarrow> link list \<Rightarrow> nat" where
  "effective_workers svc links =
     (let workers = (if sc_worker_count svc > int (length links) then int (length links) else sc_worker_count svc)
      in nat (if workers \<le> 0 then 1 else workers))"

text \<open>The parts the workers get; the loop stops at the first that would be empty.\<close>

definition link_chunks :: "nat \<Rightarrow> 'a list \<Rightarrow> 'a list list" where
  "link_chunks workers links =
     (let size = (length links + workers - 1) div workers
      in map (\<lambda>i. take size (drop (i * size) links)) (takeWhile (\<lambda>i. i * size < length links) [0..<workers]))"

text \<open>The orders in which the workers may get through their parts.\<close>

inductive interleaves :: "'a list list \<Rightarrow> 'a list \<Rightarrow> bool" where
  finished: "\<forall>part \<in> set parts. part = [] \<Longrightarrow> interleaves parts []"
| step: "i < length parts \<Longrightarrow> parts ! i = x # xs \<Longrightarrow> interleaves (parts[i := xs]) order \<Longrightarrow> interleaves parts (x # order)"

fun handle_links :: "('d, 'w) scheduler \<Rightarrow> link list \<Rightarrow> (link \<times> go_error) list \<Rightarrow>
    (('d, 'w) sched, (link \<times> go_error) list) eff" where
  "handle_links svc [] failed = ret failed"
| "handle_links svc (link # links) failed =
     bindE (attempt (process_link svc link)) (\<lambda>r.
       case r of
         Inl e \<Rightarrow> handle_links svc links (failed @ [(link, e)])
       | Inr _ \<Rightarrow> bindE (clear_reported_failure (linkID link)) (\<lambda>_. handle_links svc links failed))"

text \<open>\<open>schedule\<close> gives the order of the steps of one batch.\<close>

definition process_batch ::
    "(link list list \<Rightarrow> link list) \<Rightarrow> ('d, 'w) scheduler \<Rightarrow> link list \<Rightarrow> (('d, 'w) sched, unit) eff" where
  "process_batch schedule svc links =
     (if length links = 0 then ret ()
      else
        bindE (handle_links svc (schedule (link_chunks (effective_workers svc links) links)) []) (\<lambda>failed.
          foreachE (report_link_failure svc) failed))"

section \<open>A pass\<close>

text \<open>
  With fuel for the loop; the links gone through, whose number the code logs, and whether the fuel
  was enough.
\<close>

fun check_links :: "nat \<Rightarrow> (link list list \<Rightarrow> link list) \<Rightarrow> ('d, 'w) scheduler \<Rightarrow> int \<Rightarrow> link list \<Rightarrow> ('d, 'w) sched \<Rightarrow>
    (link list \<times> bool) \<times> ('d, 'w) sched" where
  "check_links 0 schedule svc offset seen s = ((seen, False), s)"
| "check_links (Suc fuel) schedule svc offset seen s =
     (case on_db (tr_batch (sc_repo svc) (sc_batch_size svc) offset) s of
        (Inl e, s1) \<Rightarrow> ((seen, True), s1)
      | (Inr links, s1) \<Rightarrow>
          if length links = 0 then ((seen, True), s1)
          else check_links fuel schedule svc (offset + int (length links)) (seen @ links) (snd (process_batch schedule svc links s1)))"

end
