(* ===== verification/Scheduler_Facts.thy ===== *)
theory Scheduler_Facts
  imports Scheduler "HOL-Library.Multiset"
begin

text \<open>
  Facts about the scheduler: the parts of a batch, the interface of the tracking and outbox
  repositories as the locale \<open>tracking_store\<close> with its interpretations on both packages, and what
  one link and one pass do, proved inside it.
\<close>

section \<open>Parts of a batch\<close>

lemma takeWhile_upt:
  "\<exists>m \<le> n. takeWhile P [0..<n] = [0..<m] \<and> (\<forall>i<m. P i) \<and> (m = n \<or> \<not> P m)"
proof (induction n)
  case (Suc n)
  then obtain m where m: "m \<le> n" "takeWhile P [0..<n] = [0..<m]" "\<forall>i<m. P i" "m = n \<or> \<not> P m" by blast
  show ?case
  proof (cases "m = n")
    case True
    then have "takeWhile P [0..<Suc n] = (if P n then [0..<Suc n] else [0..<n])"
      using m takeWhile_append2 [of "[0..<n]" P "[n]"] by simp
    then show ?thesis using m True
      by (intro exI [of _ "if P n then Suc n else n"]) (auto simp: less_Suc_eq simp del: upt_Suc)
  next
    case False
    then have "\<not> P m" "m < n" using m by auto
    then have "takeWhile P [0..<Suc n] = takeWhile P [0..<n]"
      by (simp add: takeWhile_append1 [of m])
    then show ?thesis using m \<open>\<not> P m\<close> by (intro exI [of _ m]) auto
  qed
qed simp

lemma concat_parts: "concat (map (\<lambda>i. take k (drop (i * k) xs)) [0..<n]) = take (n * k) xs"
proof (induction n)
  case (Suc n)
  have "take (n * k) xs @ take k (drop (n * k) xs) = take (n * k + k) xs" by (simp add: take_add)
  with Suc show ?case by (simp add: add.commute)
qed simp

lemma link_chunks_concat: "0 < workers \<Longrightarrow> concat (link_chunks workers links) = links"
proof -
  assume w: "0 < workers"
  let ?size = "(length links + workers - 1) div workers"
  obtain m where m: "m \<le> workers" "takeWhile (\<lambda>i. i * ?size < length links) [0..<workers] = [0..<m]"
    "m = workers \<or> \<not> m * ?size < length links" using takeWhile_upt by blast
  have "length links \<le> workers * ?size"
  proof -
    have "length links + workers - 1 < workers * Suc ?size"
      using w by (metis dividend_less_times_div mult_Suc_right)
    then show ?thesis using w by simp
  qed
  then have "length links \<le> m * ?size" using m(3) by auto
  then show ?thesis unfolding link_chunks_def Let_def m(2) concat_parts by simp
qed

lemma link_chunks_bounds:
  "0 < workers \<Longrightarrow> length (link_chunks workers links) \<le> workers \<and>
     (\<forall>part \<in> set (link_chunks workers links). part \<noteq> [] \<and> length part \<le> (length links + workers - 1) div workers)"
proof -
  assume w: "0 < workers"
  let ?size = "(length links + workers - 1) div workers"
  obtain m where m: "m \<le> workers" "takeWhile (\<lambda>i. i * ?size < length links) [0..<workers] = [0..<m]"
    "\<forall>i<m. i * ?size < length links" using takeWhile_upt by blast
  have "workers \<le> length links + workers - 1" if "0 < m"
  proof -
    have "0 < length links" using m(3) [rule_format, OF that] by simp
    then show ?thesis by (cases links) simp_all
  qed
  then have "0 < ?size" if "0 < m" using that w by (simp add: div_greater_zero_iff)
  then show ?thesis using m by (auto simp: link_chunks_def Let_def)
qed

lemma interleaves_mset: "interleaves parts order \<Longrightarrow> mset order = mset (concat parts)"
proof (induction rule: interleaves.induct)
  case (finished parts)
  then have "concat parts = []" by (induction parts) auto
  then show ?case by simp
next
  case (step i parts x xs order)
  have "parts = take i parts @ (x # xs) # drop (Suc i) parts" using step.hyps id_take_nth_drop [of i parts] by simp
  then have "mset (concat parts) = mset (concat (take i parts)) + mset (x # xs) + mset (concat (drop (Suc i) parts))"
    by (metis concat.simps(2) concat_append mset_append add.assoc)
  moreover have "mset (concat (parts[i := xs])) = mset (concat (take i parts)) + mset xs + mset (concat (drop (Suc i) parts))"
    using step.hyps(1) by (simp add: upd_conv_take_nth_drop)
  ultimately show ?case using step.IH by simp
qed

text \<open>What one worker has to do it does in its order.\<close>

lemma interleaves_one: "interleaves [xs] xs"
proof (induction xs)
  case (Cons x xs)
  then show ?case by (intro interleaves.step [of 0 "[x # xs]" x xs]) simp_all
qed (simp add: interleaves.finished)

lemma interleaves_sequential: "interleaves parts (concat parts)"
proof -
  have "interleaves (replicate n [] @ parts) (concat parts)" for n
  proof (induction parts arbitrary: n)
    case Nil
    then show ?case by (auto intro: interleaves.finished)
  next
    case (Cons p parts)
    show ?case
    proof (induction p)
      case Nil
      have "replicate n [] @ [] # parts = replicate (Suc n) [] @ parts"
        by (simp add: replicate_app_Cons_same)
      then show ?case using Cons.IH [of "Suc n"] by (simp only: concat.simps append_Nil)
    next
      case (Cons x p)
      have "(replicate n [] @ (x # p) # parts)[n := p] = replicate n [] @ p # parts" by (simp add: list_update_append)
      then show ?case using Cons interleaves.step [of n "replicate n [] @ (x # p) # parts" x p "p @ concat parts"]
        by (simp add: nth_append)
    qed
  qed
  from this [of 0] show ?thesis by simp
qed

section \<open>The interface of the tracking and outbox repositories\<close>

text \<open>What the scheduler sees: the tracked links in the order they are listed, their subscribers, the queued messages.\<close>

record tracking_view =
  tv_tracked :: "link list"
  tv_subscribers :: "int \<Rightarrow> int list"
  tv_queued :: "(string \<times> string \<times> string) list"

definition tv_advance :: "int \<Rightarrow> instant \<Rightarrow> tracking_view \<Rightarrow> tracking_view" where
  "tv_advance i t v =
     v\<lparr>tv_tracked := map (\<lambda>l. if linkID l = i then l\<lparr>linkLastUpdatedAt := t\<rparr> else l) (tv_tracked v)\<rparr>"

text \<open>The outbox does not store the zero instant.\<close>

definition tv_stamp :: "int \<Rightarrow> instant \<Rightarrow> tracking_view \<Rightarrow> tracking_view" where
  "tv_stamp i t v = (if t = time_zero then v else tv_advance i t v)"

definition message_content :: "outbox_message \<Rightarrow> string \<times> string \<times> string" where
  "message_content m = (omTopic m, omMessageKey m, omPayload m)"

definition tv_enqueue :: "outbox_message list \<Rightarrow> tracking_view \<Rightarrow> tracking_view" where
  "tv_enqueue ms v = v\<lparr>tv_queued := tv_queued v @ map message_content ms\<rparr>"

locale tracking_store =
  fixes inv calm :: "'d \<Rightarrow> bool" and view :: "'d \<Rightarrow> tracking_view" and repo :: "'d tracking_ops" and outbox :: "'d outbox_ops"
  assumes batch: "inv d \<Longrightarrow> tr_batch repo n k d = (rl, d') \<Longrightarrow> inv d' \<and> view d' = view d \<and> (calm d \<longrightarrow> calm d') \<and>
      (0 \<le> n \<and> 0 \<le> k \<longrightarrow> (\<forall>ls. rl = Inr ls \<longrightarrow> ls = take (nat n) (drop (nat k) (tv_tracked (view d)))) \<and>
        (calm d \<longrightarrow> (\<exists>ls. rl = Inr ls)))"
    and subscribers: "inv d \<Longrightarrow> tr_subscribers repo i d = (rc, d') \<Longrightarrow> inv d' \<and> view d' = view d \<and> (calm d \<longrightarrow> calm d') \<and>
      (\<forall>cs. rc = Inr cs \<longrightarrow> cs = tv_subscribers (view d) i) \<and> (calm d \<longrightarrow> (\<exists>cs. rc = Inr cs))"
    and update: "inv d \<Longrightarrow> tr_update repo i t d = (r, d') \<Longrightarrow> inv d' \<and> (calm d \<longrightarrow> calm d' \<and> r = Inr ()) \<and>
      (r = Inr () \<longrightarrow> view d' = tv_advance i t (view d)) \<and> (view d' = view d \<or> view d' = tv_advance i t (view d))"
    and save_update: "inv d \<Longrightarrow> ob_save_update outbox i t ms d = (r, d') \<Longrightarrow> inv d' \<and> (calm d \<longrightarrow> calm d' \<and> r = Inr ()) \<and>
      (r = Inr () \<longrightarrow> view d' = tv_enqueue ms (tv_stamp i t (view d))) \<and>
      (view d' = view d \<or> view d' = tv_enqueue ms (tv_stamp i t (view d)))"
    and save_all: "inv d \<Longrightarrow> ob_save_all outbox ms d = (r, d') \<Longrightarrow> inv d' \<and> (calm d \<longrightarrow> calm d' \<and> r = Inr ()) \<and>
      (r = Inr () \<longrightarrow> view d' = tv_enqueue ms (view d)) \<and> (view d' = view d \<or> view d' = tv_enqueue ms (view d))"

section \<open>Both packages provide it\<close>

definition db_tracking :: "db \<Rightarrow> tracking_view" where
  "db_tracking d =
     \<lparr>tv_tracked = map tracked_link_of_row (tracked_rows d),
      tv_subscribers = (\<lambda>i. map fst (filter (\<lambda>(c, l). l = i) (d_subs d))),
      tv_queued = map message_content (d_outbox d)\<rparr>"

lemma same_tables_tracking: "same_tables d e \<Longrightarrow> db_tracking d = db_tracking e"
  by (simp add: same_tables_def db_tracking_def tracked_rows_def)

lemma db_tracking_faults [simp]: "db_tracking (d\<lparr>d_faults := fs\<rparr>) = db_tracking d"
  by (rule same_tables_tracking) simp

lemma filter_map_update: "filter P (map (\<lambda>r. if Q r then f r else r) xs) = map (\<lambda>r. if Q r then f r else r) (filter P xs)"
  if "\<And>r. P (f r) = P r" for P
  using that by (induction xs) auto

lemma sort_key_map_update: "sort_key k (map f xs) = map f (sort_key k xs)" if "\<And>x. k (f x) = k x" for k :: "'a \<Rightarrow> int"
proof (rule properties_for_sort_key)
  show "mset (map f (sort_key k xs)) = mset (map f xs)" by simp
  have eq: "map k (map f (sort_key k xs)) = map k (sort_key k xs)" by (simp add: that)
  show "sorted (map k (map f (sort_key k xs)))" unfolding eq by (rule sorted_sort_key)
  fix v
  have "filter (\<lambda>x. k x = k (f v)) (map f (sort_key k xs)) = map f (filter (\<lambda>x. k x = k (f v)) (sort_key k xs))"
    by (simp add: filter_map o_def that)
  then show "filter (\<lambda>y. k v = k y) (map f (sort_key k xs)) = filter (\<lambda>y. k v = k y) (map f xs)"
    using sort_key_stable [of k "k v" xs] by (simp add: filter_map o_def that eq_commute [of "k v"])
qed

lemma tracked_rows_set_last_updated:
  "tracked_rows (set_last_updated (\<lambda>r. lr_id r = i) t d) =
     map (\<lambda>r. if lr_id r = i then r\<lparr>lr_last_updated := t\<rparr> else r) (tracked_rows d)"
proof -
  have "filter (\<lambda>r. list_ex (\<lambda>(c, l). l = lr_id r) (d_subs d))
      (map (\<lambda>r. if lr_id r = i then r\<lparr>lr_last_updated := t\<rparr> else r) (d_links d)) =
    map (\<lambda>r. if lr_id r = i then r\<lparr>lr_last_updated := t\<rparr> else r)
      (filter (\<lambda>r. list_ex (\<lambda>(c, l). l = lr_id r) (d_subs d)) (d_links d))"
    by (rule filter_map_update) simp
  then show ?thesis unfolding tracked_rows_def set_last_updated_other
    by (simp add: set_last_updated_def sort_key_map_update)
qed

lemma db_tracking_set_last_updated:
  "db_tracking (set_last_updated (\<lambda>r. lr_id r = i) t d) = tv_advance i t (db_tracking d)"
proof -
  have "map tracked_link_of_row (map (\<lambda>r. if lr_id r = i then r\<lparr>lr_last_updated := t\<rparr> else r) rs) =
      map (\<lambda>l. if linkID l = i then l\<lparr>linkLastUpdatedAt := t\<rparr> else l) (map tracked_link_of_row rs)" for rs
    by (induction rs) (auto simp: tracked_link_of_row_def)
  then show ?thesis
    by (simp add: db_tracking_def tv_advance_def tracked_rows_set_last_updated del: map_map)
qed

lemma update_last_updated_view:
  "update_last_updated i t d = (r, d') \<Longrightarrow> r = Inr () \<and> db_tracking d' = tv_advance i t (db_tracking d) \<and> d_faults d' = d_faults d"
  by (auto simp: update_last_updated_def db_tracking_set_last_updated)

lemma foreach_insert_view:
  assumes "foreachE (\<lambda>m. stmt (insert_outbox (g m))) ms d = (Inr (), d')"
    and "\<And>m. message_content (g m) = message_content m"
  shows "db_tracking d' = tv_enqueue ms (db_tracking d)"
  using assms(1)
proof (induction ms arbitrary: d)
  case (Cons m ms)
  then obtain d1 where 1: "stmt (insert_outbox (g m)) d = (Inr (), d1)" "foreachE (\<lambda>m. stmt (insert_outbox (g m))) ms d1 = (Inr (), d')"
    by (auto elim!: bindE_Inr_E)
  from 1(1) have "db_tracking d1 = tv_enqueue [m] (db_tracking d)"
    using assms(2) [of m]
    by (auto elim!: stmt_Inr simp: insert_outbox_def Let_def db_tracking_def tv_enqueue_def message_content_def tracked_rows_def)
  with Cons.IH [OF 1(2)] show ?case by (simp add: tv_enqueue_def)
qed (auto simp: tv_enqueue_def)

lemma foreach_insert_calm:
  assumes "d_faults d = []"
  shows "\<exists>d'. foreachE (\<lambda>m. stmt (insert_outbox (g m))) ms d = (Inr (), d') \<and> d_faults d' = []"
  using assms
proof (induction ms arbitrary: d)
  case (Cons m ms)
  obtain d1 where "stmt (insert_outbox (g m)) d = (Inr (), d1)" "d_faults d1 = []"
    using Cons.prems by (simp add: stmt_calm insert_outbox_def Let_def)
  with Cons.IH [of d1] show ?case by simp
qed simp

lemma save_body_view:
  assumes "bindE (if t \<noteq> time_zero then stmt (update_last_updated i t) else ret ())
      (\<lambda>_. foreachE (\<lambda>m. stmt (insert_outbox (g m))) ms) d = (Inr (), d')"
    and "\<And>m. message_content (g m) = message_content m"
  shows "db_tracking d' = tv_enqueue ms (tv_stamp i t (db_tracking d))"
proof (cases "t = time_zero")
  case True
  then show ?thesis using assms(1) foreach_insert_view [OF _ assms(2)] by (simp add: tv_stamp_def)
next
  case False
  obtain d1 where 1: "stmt (update_last_updated i t) d = (Inr (), d1)" "foreachE (\<lambda>m. stmt (insert_outbox (g m))) ms d1 = (Inr (), d')"
    using assms(1) False by (auto elim!: bindE_Inr_E)
  from 1(1) obtain fs where "update_last_updated i t (d\<lparr>d_faults := fs\<rparr>) = (Inr (), d1)" by (rule stmt_Inr)
  then have "db_tracking d1 = tv_advance i t (db_tracking d)" using update_last_updated_view by fastforce
  with foreach_insert_view [OF 1(2) assms(2)] False show ?thesis by (simp add: tv_stamp_def)
qed

lemma sql_update_view:
  assumes "stmt (update_last_updated i t) d = (r, d')"
  shows "(r = Inr () \<longrightarrow> db_tracking d' = tv_advance i t (db_tracking d)) \<and>
    (db_tracking d' = db_tracking d \<or> db_tracking d' = tv_advance i t (db_tracking d)) \<and>
    (d_faults d = [] \<longrightarrow> d_faults d' = [] \<and> r = Inr ())"
proof -
  have "d_faults d = [] \<longrightarrow> d_faults d' = [] \<and> r = Inr ()"
    using assms update_last_updated_view by (auto simp: stmt_calm)
  moreover from assms have "(r = Inr () \<longrightarrow> db_tracking d' = tv_advance i t (db_tracking d)) \<and>
    (db_tracking d' = db_tracking d \<or> db_tracking d' = tv_advance i t (db_tracking d))"
  proof (cases rule: stmt_cases)
    case (not_run e)
    then show ?thesis using same_tables_tracking by auto
  next
    case (ran fs r1)
    then show ?thesis using update_last_updated_view [OF ran(1)] by auto
  qed
  ultimately show ?thesis by blast
qed

lemma transaction_view:
  assumes "transaction body d = (r, d')" "\<And>d1 d2. body d1 = (Inr (), d2) \<Longrightarrow> db_tracking d2 = f (db_tracking d1)"
  shows "(r = Inr () \<longrightarrow> db_tracking d' = f (db_tracking d)) \<and> (db_tracking d' = db_tracking d \<or> db_tracking d' = f (db_tracking d))"
  using assms(1)
proof (cases rule: transaction_cases)
  case (rolled_back e)
  then show ?thesis using same_tables_tracking by auto
next
  case (committed x d1 d2)
  then have "db_tracking d' = f (db_tracking d)" using assms(2) same_tables_tracking by (metis (full_types) old.unit.exhaust)
  then show ?thesis by blast
qed

lemma transaction_Inr_calm:
  "d_faults d = [] \<Longrightarrow> transaction body d = (r, d') \<Longrightarrow> \<exists>d2. body d = (Inr (), d2) \<and> d_faults d2 = [] \<Longrightarrow>
   d_faults d' = [] \<and> r = Inr ()"
  using transaction_calm [of d body "()"] by auto

lemma save_body_calm:
  assumes "d_faults d = []"
  shows "\<exists>d'. bindE (if t \<noteq> time_zero then stmt (update_last_updated i t) else ret ())
      (\<lambda>_. foreachE (\<lambda>m. stmt (insert_outbox (g m))) ms) d = (Inr (), d') \<and> d_faults d' = []"
proof -
  obtain d1 where "(if t \<noteq> time_zero then stmt (update_last_updated i t) else ret ()) d = (Inr (), d1)" "d_faults d1 = []"
    using assms by (cases "t = time_zero") (auto simp: stmt_calm update_last_updated_def)
  then show ?thesis using foreach_insert_calm [of d1 g ms] by simp
qed

lemma query_view:
  assumes "query q d = (r, d')"
  shows "db_tracking d' = db_tracking d" "\<And>x. r = Inr x \<Longrightarrow> x = q d'" "d_faults d = [] \<Longrightarrow> d_faults d' = [] \<and> r = Inr (q d)"
  using query_Inr [OF assms] same_tables_tracking assms query_calm [of d q] by auto

definition sql_tracking_ops :: "db tracking_ops" where
  "sql_tracking_ops = \<lparr>tr_batch = sql_get_tracked_links_batch, tr_subscribers = sql_find_subscribers, tr_update = sql_update_last_updated\<rparr>"

definition sql_outbox_ops :: "db outbox_ops" where
  "sql_outbox_ops = \<lparr>ob_save_update = sql_save_link_update_outbox, ob_save_all = sql_save_outbox_messages\<rparr>"

definition orm_tracking_ops :: "db tracking_ops" where
  "orm_tracking_ops = \<lparr>tr_batch = orm_get_tracked_links_batch, tr_subscribers = orm_find_subscribers, tr_update = orm_update_last_updated\<rparr>"

definition orm_outbox_ops :: "db outbox_ops" where
  "orm_outbox_ops = \<lparr>ob_save_update = orm_save_link_update_outbox, ob_save_all = orm_save_outbox_messages\<rparr>"

lemma tracked_take: "map tracked_link_of_row (take n (drop k (tracked_rows d))) = take n (drop k (tv_tracked (db_tracking d)))"
  by (simp add: db_tracking_def take_map drop_map)

interpretation sql_tracking: tracking_store db_ok "\<lambda>d. d_faults d = []" db_tracking sql_tracking_ops sql_outbox_ops
proof (unfold_locales, goal_cases)
  case (1 d n k rl d')
  then have run: "sql_get_tracked_links_batch n k d = (rl, d')" by (simp add: sql_tracking_ops_def)
  have "db_ok d'" using keeps_db_ok [where f = "sql_get_tracked_links_batch n k", OF _ 1(1) run] by (simp add: sql_repositories_inv)
  moreover have "db_tracking d' = db_tracking d \<and> (0 \<le> n \<and> 0 \<le> k \<longrightarrow> (\<forall>ls. rl = Inr ls \<longrightarrow>
      ls = take (nat n) (drop (nat k) (tv_tracked (db_tracking d)))))"
    using run unfolding sql_get_tracked_links_batch_def
    by (cases rule: stmt_cases) (auto simp: tracked_take dest: same_tables_tracking split: if_splits)
  moreover have "d_faults d = [] \<Longrightarrow> d_faults d' = [] \<and> (0 \<le> n \<and> 0 \<le> k \<longrightarrow> (\<exists>ls. rl = Inr ls))"
    using run by (auto simp: sql_get_tracked_links_batch_def stmt_calm)
  ultimately show ?case by blast
next
  case (2 d i rc d')
  then have run: "sql_find_subscribers i d = (rc, d')" by (simp add: sql_tracking_ops_def)
  have "db_ok d'" using keeps_db_ok [where f = "sql_find_subscribers i", OF _ 2(1) run] by (simp add: sql_repositories_inv)
  moreover have "tv_subscribers (db_tracking d') i = map fst (filter (\<lambda>(c, l). l = i) (d_subs d'))"
    by (simp add: db_tracking_def)
  ultimately show ?case using query_view [OF run [unfolded sql_find_subscribers_def]] by auto
next
  case (3 d i t r d')
  then have run: "sql_update_last_updated i t d = (r, d')" by (simp add: sql_tracking_ops_def)
  have "db_ok d'" using keeps_db_ok [where f = "sql_update_last_updated i t", OF _ 3(1) run] by (simp add: sql_repositories_inv)
  then show ?case using sql_update_view [OF run [unfolded sql_update_last_updated_def]] by blast
next
  case (4 d i t ms r d')
  then have run: "sql_save_link_update_outbox i t ms d = (r, d')" by (simp add: sql_outbox_ops_def)
  have "db_ok d'" using keeps_db_ok [where f = "sql_save_link_update_outbox i t ms", OF _ 4(1) run] by (simp add: sql_repositories_inv)
  moreover note run' = run [unfolded sql_save_link_update_outbox_def sql_insert_outbox_message_def]
  have "(r = Inr () \<longrightarrow> db_tracking d' = tv_enqueue ms (tv_stamp i t (db_tracking d))) \<and>
      (db_tracking d' = db_tracking d \<or> db_tracking d' = tv_enqueue ms (tv_stamp i t (db_tracking d)))"
    by (rule transaction_view [OF run']) (erule save_body_view, simp)
  moreover have "d_faults d = [] \<longrightarrow> d_faults d' = [] \<and> r = Inr ()"
    using transaction_Inr_calm [OF _ run' save_body_calm] by blast
  ultimately show ?case by blast
next
  case (5 d ms r d')
  then have run: "sql_save_outbox_messages ms d = (r, d')" by (simp add: sql_outbox_ops_def)
  have "db_ok d'" using keeps_db_ok [where f = "sql_save_outbox_messages ms", OF _ 5(1) run] by (simp add: sql_repositories_inv)
  moreover note run' = run [unfolded sql_save_outbox_messages_def sql_insert_outbox_message_def]
  have "(r = Inr () \<longrightarrow> db_tracking d' = tv_enqueue ms (db_tracking d)) \<and>
      (db_tracking d' = db_tracking d \<or> db_tracking d' = tv_enqueue ms (db_tracking d))"
    by (rule transaction_view [OF run']) (rule foreach_insert_view; simp)
  moreover have "d_faults d = [] \<longrightarrow> d_faults d' = [] \<and> r = Inr ()"
    using transaction_Inr_calm [OF _ run' foreach_insert_calm] by blast
  ultimately show ?case by blast
qed

interpretation orm_tracking: tracking_store db_ok "\<lambda>d. d_faults d = []" db_tracking orm_tracking_ops orm_outbox_ops
proof (unfold_locales, goal_cases)
  case (1 d n k rl d')
  then have run: "orm_get_tracked_links_batch n k d = (rl, d')" by (simp add: orm_tracking_ops_def)
  have "db_ok d'" using keeps_db_ok [where f = "orm_get_tracked_links_batch n k", OF _ 1(1) run] by (simp add: orm_repositories_inv)
  moreover note q = query_view [OF run [unfolded orm_get_tracked_links_batch_def]]
  ultimately show ?case by (auto simp: tracked_take Let_def)
next
  case (2 d i rc d')
  then have run: "orm_find_subscribers i d = (rc, d')" by (simp add: orm_tracking_ops_def)
  have "db_ok d'" using keeps_db_ok [where f = "orm_find_subscribers i", OF _ 2(1) run] by (simp add: orm_repositories_inv)
  moreover have "tv_subscribers (db_tracking d') i = map fst (filter (\<lambda>(c, l). l = i) (d_subs d'))"
    by (simp add: db_tracking_def)
  ultimately show ?case using query_view [OF run [unfolded orm_find_subscribers_def]] by auto
next
  case (3 d i t r d')
  then have run: "orm_update_last_updated i t d = (r, d')" by (simp add: orm_tracking_ops_def)
  have "db_ok d'" using keeps_db_ok [where f = "orm_update_last_updated i t", OF _ 3(1) run] by (simp add: orm_repositories_inv)
  moreover note run' = run [unfolded orm_update_last_updated_def gorm_write_def]
  have "(r = Inr () \<longrightarrow> db_tracking d' = tv_advance i t (db_tracking d)) \<and>
      (db_tracking d' = db_tracking d \<or> db_tracking d' = tv_advance i t (db_tracking d))"
    by (rule transaction_view [OF run']) (simp add: sql_update_view)
  moreover have "\<exists>d2. stmt (update_last_updated i t) d = (Inr (), d2) \<and> d_faults d2 = []" if "d_faults d = []"
    using that by (simp add: stmt_calm update_last_updated_def)
  then have "d_faults d = [] \<longrightarrow> d_faults d' = [] \<and> r = Inr ()"
    using transaction_Inr_calm [OF _ run'] by blast
  ultimately show ?case by blast
next
  case (4 d i t ms r d')
  then have run: "orm_save_link_update_outbox i t ms d = (r, d')" by (simp add: orm_outbox_ops_def)
  have "db_ok d'" using keeps_db_ok [where f = "orm_save_link_update_outbox i t ms", OF _ 4(1) run] by (simp add: orm_repositories_inv)
  moreover note run' = run [unfolded orm_save_link_update_outbox_def]
  have "(r = Inr () \<longrightarrow> db_tracking d' = tv_enqueue ms (tv_stamp i t (db_tracking d))) \<and>
      (db_tracking d' = db_tracking d \<or> db_tracking d' = tv_enqueue ms (tv_stamp i t (db_tracking d)))"
    by (rule transaction_view [OF run']) (erule save_body_view, simp add: message_content_def orm_to_outbox_model_def)
  moreover have "d_faults d = [] \<longrightarrow> d_faults d' = [] \<and> r = Inr ()"
    using transaction_Inr_calm [OF _ run' save_body_calm] by blast
  ultimately show ?case by blast
next
  case (5 d ms r d')
  then have run: "orm_save_outbox_messages ms d = (r, d')" by (simp add: orm_outbox_ops_def)
  have "db_ok d'" using keeps_db_ok [where f = "orm_save_outbox_messages ms", OF _ 5(1) run] by (simp add: orm_repositories_inv)
  moreover note run' = run [unfolded orm_save_outbox_messages_def]
  have "(r = Inr () \<longrightarrow> db_tracking d' = tv_enqueue ms (db_tracking d)) \<and>
      (db_tracking d' = db_tracking d \<or> db_tracking d' = tv_enqueue ms (db_tracking d))"
    by (rule transaction_view [OF run']) (erule foreach_insert_view, simp add: message_content_def orm_to_outbox_model_def)
  moreover have "d_faults d = [] \<longrightarrow> d_faults d' = [] \<and> r = Inr ()"
    using transaction_Inr_calm [OF _ run' foreach_insert_calm] by blast
  ultimately show ?case by blast
qed

section \<open>One link and one pass\<close>

definition outbox_message_for :: "('d, 'w) scheduler \<Rightarrow> int list \<Rightarrow> outbox_message \<Rightarrow> domain_update \<Rightarrow> bool" where
  "outbox_message_for svc subscribers m u \<longleftrightarrow>
     omTopic m = sc_outbox_topic svc \<and> omMessageKey m = format_int (duLinkID u) \<and> omStatus m = OutboxPending \<and>
     sc_marshal svc (notification subscribers u) = Inr (omPayload m)"

lemma now_utc_same: "now_utc s = (r, s') \<Longrightarrow> sd_db s' = sd_db s \<and> sd_world s' = sd_world s \<and> (\<exists>t. r = Inr t)"
  by (auto simp: now_utc_def split: list.splits)

lemma make_outbox_message_same:
  assumes "make_outbox_message svc u s = (r, s')"
  shows "sd_db s' = sd_db s \<and> sd_world s' = sd_world s \<and>
    (\<forall>m. r = Inr m \<longrightarrow> omTopic m = sc_outbox_topic svc \<and> omMessageKey m = format_int (uID u) \<and>
       omStatus m = OutboxPending \<and> sc_marshal svc u = Inr (omPayload m))"
  using assms now_utc_same [of s]
  by (auto simp: make_outbox_message_def bindE_apply split: sum.splits prod.splits)

lemma deliver_outbox:
  assumes "sc_outbox_enabled svc" "deliver svc subs us acc s = (r, s')"
  shows "sd_db s' = sd_db s \<and> sd_world s' = sd_world s \<and>
    (\<forall>ms. r = Inr ms \<longrightarrow> (\<exists>new. ms = acc @ new \<and> list_all2 (outbox_message_for svc subs) new us))"
  using assms(2)
proof (induction us arbitrary: acc s)
  case (Cons u us)
  obtain r1 s1 where m: "make_outbox_message svc (notification subs u) s = (r1, s1)" by fastforce
  note same = make_outbox_message_same [OF m]
  show ?case
  proof (cases r1)
    case (Inl e)
    then show ?thesis using Cons.prems assms(1) m same by auto
  next
    case (Inr x)
    then have "deliver svc subs us (acc @ [x]) s1 = (r, s')" using Cons.prems assms(1) m by simp
    from Cons.IH [OF this] same Inr show ?thesis
      by (fastforce simp: outbox_message_for_def notification_def)
  qed
qed auto

context tracking_store
begin

text \<open>The outcomes of one link with the outbox on: the database's view afterwards.\<close>

lemma process_link_outbox:
  assumes "sc_repo svc = repo" "sc_outbox svc = Some outbox" "sc_outbox_enabled svc"
    and "inv (sd_db s)" "process_link svc link s = (r, s')"
    and "scrapper_parse_link (sc_unicode svc) (linkURL link) = Inr parsed"
    and "fetch_updates svc link parsed (sd_world s) = (fetched, w)"
  shows "inv (sd_db s') \<and> sd_world s' = w \<and>
    (view (sd_db s') = view (sd_db s) \<or>
     (\<exists>t. (linkLastUpdatedAt link = time_zero \<or> tv_subscribers (view (sd_db s)) (linkID link) = []) \<and>
        view (sd_db s') = tv_advance (linkID link) t (view (sd_db s))) \<or>
     (\<exists>updates newest messages. fetched = Inr (updates, newest) \<and>
        list_all2 (outbox_message_for svc (tv_subscribers (view (sd_db s)) (linkID link))) messages updates \<and>
        view (sd_db s') = tv_enqueue messages
          (if linkLastUpdatedAt link < newest then tv_stamp (linkID link) newest (view (sd_db s)) else view (sd_db s))))"
proof (cases fetched)
  case (Inl e)
  then show ?thesis using assms(4-7) by (auto simp: process_link_def outside_def bindE_apply)
next
  case (Inr un)
  obtain updates newest where un: "un = (updates, newest)" by fastforce
  let ?s = "s\<lparr>sd_world := w\<rparr>"
  have out: "outside (fetch_updates svc link parsed) s = (Inr (updates, newest), ?s)"
    using assms(7) Inr un by (simp add: outside_def)
  show ?thesis
  proof (cases "linkLastUpdatedAt link = time_zero")
    case first: True
    obtain t s1 where t: "(if newest = time_zero then now_utc else ret newest) ?s = (Inr t, s1)" "sd_db s1 = sd_db s" "sd_world s1 = w"
    proof (cases "newest = time_zero")
      case True
      obtain rt s1 where "now_utc ?s = (rt, s1)" by fastforce
      with now_utc_same [OF this] True that show thesis by auto
    next
      case False
      with that [of newest ?s] show thesis by simp
    qed
    obtain d where d: "tr_update repo (linkID link) t (sd_db s) = (r, d)" "s' = s1\<lparr>sd_db := d\<rparr>"
      using assms(1,5,6) out first t by (auto simp: process_link_def on_db_def split: prod.splits)
    show ?thesis using update [OF assms(4) d(1)] d(2) t first by auto
  next
    case later: False
    show ?thesis
    proof (cases "updates = []")
      case True
      then have "s' = ?s" using assms(5,6) out later by (simp add: process_link_def)
      then show ?thesis using assms(4) by simp
    next
      case some: False
      obtain rc d where subs: "tr_subscribers repo (linkID link) (sd_db s) = (rc, d)" by fastforce
      note law = subscribers [OF assms(4) subs]
      let ?d = "?s\<lparr>sd_db := d\<rparr>"
      have on: "on_db (tr_subscribers repo (linkID link)) ?s = (rc, ?d)" using subs by (simp add: on_db_def)
      show ?thesis
      proof (cases rc)
        case (Inl e)
        then have "s' = ?d" using assms(1,3,5,6) out later some on by (simp add: process_link_def)
        then show ?thesis using law by simp
      next
        case (Inr cs)
        then have cs: "cs = tv_subscribers (view (sd_db s)) (linkID link)" using law by blast
        show ?thesis
        proof (cases "cs = []")
          case none: True
          then have "(r, s') = (if newest > linkLastUpdatedAt link then on_db (tr_update repo (linkID link) newest) ?d else (Inr (), ?d))"
            using assms(1,3,5,6) out later some on Inr by (simp add: process_link_def split: if_splits)
          moreover obtain r2 d2 where u: "tr_update repo (linkID link) newest d = (r2, d2)" by fastforce
          ultimately show ?thesis using update [OF _ u] law none cs
            by (auto simp: on_db_def split: if_splits)
        next
          case nonempty: False
          obtain rm sm where del: "deliver svc cs updates [] ?d = (rm, sm)" by fastforce
          note same = deliver_outbox [OF assms(3) del]
          show ?thesis
          proof (cases rm)
            case (Inl e)
            then have "s' = sm" using assms(1,3,5,6) out later some on \<open>rc = Inr cs\<close> nonempty del by (simp add: process_link_def)
            then show ?thesis using same law by simp
          next
            case (Inr ms)
            then have store: "store_messages svc link newest ms sm = (r, s')"
              using assms(1,3,5,6) out later some on \<open>rc = Inr cs\<close> nonempty del by (simp add: process_link_def)
            have ms: "list_all2 (outbox_message_for svc cs) ms updates" using same Inr by auto
            have d: "inv (sd_db sm)" "view (sd_db sm) = view (sd_db s)" "sd_world sm = w" using same law by auto
            show ?thesis
            proof (cases "linkLastUpdatedAt link < newest")
              case True
              then obtain d3 where "ob_save_update outbox (linkID link) newest ms (sd_db sm) = (r, d3)" "s' = sm\<lparr>sd_db := d3\<rparr>"
                using store assms(2,3) by (auto simp: store_messages_def on_db_def split: prod.splits)
              then show ?thesis using save_update [OF d(1)] d ms cs True un \<open>fetched = Inr un\<close> by fastforce
            next
              case False
              then obtain d3 where "ob_save_all outbox ms (sd_db sm) = (r, d3)" "s' = sm\<lparr>sd_db := d3\<rparr>"
                using store assms(2,3) by (auto simp: store_messages_def on_db_def split: prod.splits)
              then show ?thesis using save_all [OF d(1)] d ms cs False un \<open>fetched = Inr un\<close> by fastforce
            qed
          qed
        qed
      qed
    qed
  qed
qed

text \<open>Without faults, what the scheduler does keeps the identities and the order of the tracked links.\<close>

abbreviation kept :: "int list \<Rightarrow> ('d, 'w) sched \<Rightarrow> bool" where
  "kept ids s \<equiv> inv (sd_db s) \<and> calm (sd_db s) \<and> map linkID (tv_tracked (view (sd_db s))) = ids"

lemma kept_on_db:
  assumes "\<And>d r d'. inv d \<Longrightarrow> calm d \<Longrightarrow> op d = (r, d') \<Longrightarrow>
     inv d' \<and> calm d' \<and> map linkID (tv_tracked (view d')) = map linkID (tv_tracked (view d))"
  shows "preserves (kept ids) (on_db op)"
proof (rule preservesI)
  fix s :: "('d, 'w) sched" assume "kept ids s"
  then show "kept ids (snd (on_db op s))"
    using assms [of "sd_db s"] by (cases "op (sd_db s)") (simp add: on_db_def)
qed

lemma kept_repo [preserves_intros]:
  "preserves (kept ids) (on_db (tr_subscribers repo i))"
  "preserves (kept ids) (on_db (tr_update repo i t))"
  "preserves (kept ids) (on_db (ob_save_update outbox i t ms))"
  "preserves (kept ids) (on_db (ob_save_all outbox ms))"
proof -
  have ids: "map linkID (tv_tracked (tv_advance i t v)) = map linkID (tv_tracked v)"
    "map linkID (tv_tracked (tv_stamp i t v)) = map linkID (tv_tracked v)"
    "map linkID (tv_tracked (tv_enqueue ms v)) = map linkID (tv_tracked v)" for v
    by (auto simp: tv_advance_def tv_stamp_def tv_enqueue_def)
  show "preserves (kept ids) (on_db (tr_subscribers repo i))"
    by (rule kept_on_db) (metis subscribers)
  show "preserves (kept ids) (on_db (tr_update repo i t))"
    by (rule kept_on_db) (metis update ids(1))
  show "preserves (kept ids) (on_db (ob_save_update outbox i t ms))"
    by (rule kept_on_db) (metis save_update ids(2,3))
  show "preserves (kept ids) (on_db (ob_save_all outbox ms))"
    by (rule kept_on_db) (metis save_all ids(3))
qed

lemma kept_other [preserves_intros]:
  "preserves (kept ids) (outside m)" "preserves (kept ids) now_utc"
  "preserves (kept ids) (should_report_failure i p)" "preserves (kept ids) (clear_reported_failure i)"
  by (auto simp: preserves_def outside_def now_utc_def should_report_failure_def clear_reported_failure_def
      split: prod.split list.split)

lemma kept_case_prod [preserves_intros]:
  "(\<And>x y. preserves (kept ids) (f x y)) \<Longrightarrow> preserves (kept ids) (case p of (x, y) \<Rightarrow> f x y)"
  by (cases p) simp

lemma kept_make_outbox_message [preserves_intros]: "preserves (kept ids) (make_outbox_message svc u)"
  unfolding make_outbox_message_def by (intro preserves_intros)

lemma kept_deliver [preserves_intros]: "preserves (kept ids) (deliver svc subs us ms)"
proof (induction us arbitrary: ms)
  case Nil
  show ?case unfolding deliver.simps by (rule preserves_ret)
next
  case (Cons u us)
  then show ?case unfolding deliver.simps by (intro preserves_intros)
qed

lemma kept_store_messages [preserves_intros]:
  assumes "sc_outbox svc \<in> {None, Some outbox}"
  shows "preserves (kept ids) (store_messages svc link t ms)"
proof (cases "sc_outbox svc")
  case None
  then show ?thesis unfolding store_messages_def by (simp add: preserves_ret)
next
  case (Some ob)
  with assms have "ob = outbox" by simp
  with Some show ?thesis unfolding store_messages_def by (simp add: preserves_intros)
qed

lemma kept_process_link [preserves_intros]:
  assumes "sc_repo svc = repo" "sc_outbox svc \<in> {None, Some outbox}"
  shows "preserves (kept ids) (process_link svc link)"
  unfolding process_link_def assms(1) by (intro preserves_intros assms(2))

lemma kept_report [preserves_intros]:
  assumes "sc_repo svc = repo"
  shows "preserves (kept ids) (report_link_failure svc f)"
  unfolding report_link_failure_def assms(1) Let_def by (intro preserves_intros)

lemma kept_handle_links [preserves_intros]:
  assumes "sc_repo svc = repo" "sc_outbox svc \<in> {None, Some outbox}"
  shows "preserves (kept ids) (handle_links svc links failed)"
  using assms
  by (induction svc links failed rule: handle_links.induct) (auto intro!: preserves_intros split: sum.split)

lemma kept_process_batch:
  assumes "sc_repo svc = repo" "sc_outbox svc \<in> {None, Some outbox}"
  shows "preserves (kept ids) (process_batch schedule svc links)"
  unfolding process_batch_def by (intro preserves_intros assms)

text \<open>A pass goes through the tracked links once, and ends.\<close>

lemma check_links_once:
  assumes svc: "sc_repo svc = repo" "sc_outbox svc \<in> {None, Some outbox}" "0 < sc_batch_size svc"
    and "kept ids s" "offset \<le> length ids" "length ids - offset < fuel" "map linkID seen = take offset ids"
  shows "\<exists>links s'. check_links fuel schedule svc (int offset) seen s = ((links, True), s') \<and>
    map linkID links = ids \<and> kept ids s'"
  using assms(4-)
proof (induction fuel arbitrary: offset seen s)
  case (Suc fuel)
  obtain rl d where b: "tr_batch repo (sc_batch_size svc) (int offset) (sd_db s) = (rl, d)" by fastforce
  have 0: "inv (sd_db s)" "calm (sd_db s)" "map linkID (tv_tracked (view (sd_db s))) = ids" using Suc.prems(1) by blast+
  note law = batch [OF 0(1) b]
  have pos: "0 \<le> sc_batch_size svc" "0 \<le> int offset" using svc(3) by simp_all
  obtain links where links: "rl = Inr links" "links = take (nat (sc_batch_size svc)) (drop offset (tv_tracked (view (sd_db s))))"
    "inv d" "view d = view (sd_db s)" "calm d"
    using law 0(2) pos by (metis nat_int)
  let ?s = "s\<lparr>sd_db := d\<rparr>"
  have on: "on_db (tr_batch repo (sc_batch_size svc) (int offset)) s = (Inr links, ?s)" using b links(1) by (simp add: on_db_def)
  have kept1: "kept ids ?s" using links(3-5) 0 by simp
  show ?case
  proof (cases "links = []")
    case True
    then have "offset = length ids"
      using links(2) svc(3) Suc.prems(2) 0(3) by (auto dest: arg_cong [of _ _ length])
    then show ?thesis using True on svc(1) kept1 Suc.prems(4) by simp
  next
    case False
    let ?s2 = "snd (process_batch schedule svc links ?s)"
    have "kept ids ?s2" using preservesD [OF kept_process_batch [OF svc(1,2)] kept1] .
    moreover have ids: "map linkID links = take (nat (sc_batch_size svc)) (drop offset ids)"
      using links(2) 0(3) by (simp add: take_map drop_map flip: 0(3))
    then have len: "length links = length (take (nat (sc_batch_size svc)) (drop offset ids))" by (metis length_map)
    then have room: "offset + length links \<le> length ids" using Suc.prems(2) by simp
    moreover have "take (length (take n xs)) xs = take n xs" for n and xs :: "int list" by (simp add: min_def)
    then have "map linkID (seen @ links) = take (offset + length links) ids"
      unfolding map_append Suc.prems(4) take_add ids len by (simp only:)
    moreover have "length ids - (offset + length links) < fuel" using False Suc.prems(3) room by (cases links) auto
    ultimately obtain l s' where "check_links fuel schedule svc (int (offset + length links)) (seen @ links) ?s2 = ((l, True), s')"
      "map linkID l = ids" "kept ids s'" using Suc.IH by blast
    then show ?thesis using on svc(1) False by simp
  qed
qed simp

end

end
