(* ===== verification/Scheduler_Properties.thy ===== *)
theory Scheduler_Properties
  imports Scheduler_Facts Storage_Properties Agent_Text
begin

text \<open>
  Properties of the scheduler on both persistence packages: what one link does to the database under
  faults, what a batch and a pass go through, and when a failure is reported.
\<close>

section \<open>One link\<close>

text \<open>
  (C4) With the outbox on, whatever faults the database has, handling a link sends nothing and has one of these
  outcomes: nothing stored; only the instant moved, which happens on the first look at a link or when it
  has no subscribers; or one pending message per update, for the subscribers of the moment, stored together
  with the move of the instant to the newest update.  The instant never moves without the messages.
\<close>

theorem process_link_outbox_atomic:
  assumes "(repo, outbox) \<in> {(sql_tracking_ops, sql_outbox_ops), (orm_tracking_ops, orm_outbox_ops)}"
    and "sc_repo svc = repo" and "svc = enable_outbox (Some outbox) topic svc0" and "topic \<noteq> []"
    and "db_ok (sd_db s)" and "0 \<le> linkLastUpdatedAt link"
    and "scrapper_parse_link (sc_unicode svc) (linkURL link) = Inr parsed"
    and "fetch_updates svc link parsed (sd_world s) = (fetched, w)"
    and "process_link svc link s = (r, s')"
  shows "db_ok (sd_db s') \<and> sd_world s' = w \<and>
    (db_tracking (sd_db s') = db_tracking (sd_db s) \<or>
     (\<exists>t. (linkLastUpdatedAt link = time_zero \<or> tv_subscribers (db_tracking (sd_db s)) (linkID link) = []) \<and>
        db_tracking (sd_db s') = tv_advance (linkID link) t (db_tracking (sd_db s))) \<or>
     (\<exists>updates newest messages. fetched = Inr (updates, newest) \<and>
        list_all2 (outbox_message_for svc (tv_subscribers (db_tracking (sd_db s)) (linkID link))) messages updates \<and>
        db_tracking (sd_db s') = tv_enqueue messages
          (if linkLastUpdatedAt link < newest then tv_advance (linkID link) newest (db_tracking (sd_db s))
           else db_tracking (sd_db s))))"
proof -
  have svc: "sc_outbox svc = Some outbox" "sc_outbox_enabled svc" using assms(3,4) by (simp_all add: enable_outbox_def)
  have stamp: "tv_stamp i t v = tv_advance i t v" if "linkLastUpdatedAt link < t" for i t v
    using that assms(6) by (simp add: tv_stamp_def)
  from assms(1) consider (sql) "repo = sql_tracking_ops" "outbox = sql_outbox_ops"
    | (orm) "repo = orm_tracking_ops" "outbox = orm_outbox_ops" by blast
  then show ?thesis
  proof cases
    case sql
    show ?thesis
      using sql_tracking.process_link_outbox [OF _ _ svc(2) assms(5,9,7,8)] svc(1) assms(2) sql stamp by (simp cong: if_cong)
  next
    case orm
    show ?thesis
      using orm_tracking.process_link_outbox [OF _ _ svc(2) assms(5,9,7,8)] svc(1) assms(2) orm stamp by (simp cong: if_cong)
  qed
qed

section \<open>An example\<close>

definition example_scheduler :: "github_issue list \<Rightarrow> (db, nat) scheduler" where
  "example_scheduler issues =
     new_scheduler sql_tracking_ops (example_net issues []) example_github example_stackoverflow (\<lambda>_ n. (Inr (), n + 100))
       (\<lambda>u. Inr (uTitle u)) latin1_tables 30000000000 100 4"

definition example_tracked :: "instant \<Rightarrow> link" where
  "example_tracked t = \<lparr>linkID = 1, linkURL = ''https://github.com/o/r'', linkTags = [], linkLastUpdatedAt = t\<rparr>"

definition tracking_db :: "instant \<Rightarrow> db" where
  "tracking_db t = (empty_db 100)\<lparr>d_chats := [7],
     d_links := [\<lparr>lr_id = 1, lr_url = ''https://github.com/o/r'', lr_last_updated = t\<rparr>], d_link_seq := 1, d_subs := [(7, 1)]\<rparr>"

definition example_sched :: "instant \<Rightarrow> (db, nat) sched" where
  "example_sched t = \<lparr>sd_db = tracking_db t, sd_world = 0, sd_failures = Map.empty, sd_now = 100, sd_clock = []\<rparr>"

lemma tracking_db_ok: "db_ok (tracking_db t)"
  by (simp add: tracking_db_def db_ok_def empty_db_def)

lemma example_parse: "\<exists>p. scrapper_parse_link latin1_tables ''https://github.com/o/r'' = Inr p \<and> plSource p = source_github \<and>
   plGithubOwner p = ''o'' \<and> plGithubRepo p = ''r''"
proof -
  have "(case scrapper_parse_link latin1_tables ''https://github.com/o/r'' of Inl e \<Rightarrow> False
      | Inr p \<Rightarrow> plSource p = source_github \<and> plGithubOwner p = ''o'' \<and> plGithubRepo p = ''r'')" by code_simp
  then show ?thesis by (auto split: sum.splits)
qed

lemma example_fetch_updates:
  assumes "plSource p = source_github" "plGithubOwner p = ''o''" "plGithubRepo p = ''r''" "t = 5000000 \<or> t = 0"
  shows "fetch_updates (enable_outbox ob topic (example_scheduler issues)) (example_tracked t) p n =
    (Inr (collect_updates t giCreatedAt (github_update id ''https://github.com/o/r'' 1) issues [] t), Suc n)"
proof -
  obtain req where "github_request example_github ''o'' ''r'' t = Inr req"
    using example_github_request [of t] assms(4) by blast
  moreover have "fetch (example_net issues []) (gcBreaker example_github) ''github'' (gcTimeout example_github) (gcRetry example_github)
      (Some (Issues [])) (Issues []) (\<lambda>b. map_sum id Issues (nt_issues (example_net issues []) b)) req n = (Inr (Issues issues), Suc n)" for req
    by (simp add: example_github_def) (rule example_fetch; simp add: example_net_def)
  ultimately show ?thesis using assms
    by (simp add: fetch_updates_def example_scheduler_def new_scheduler_def enable_outbox_def example_tracked_def
        get_new_issues_and_pull_requests_def example_net_def [THEN arg_cong [of _ _ nt_unescape_html]] del: collect_updates.simps)
qed

theorem process_link_outbox_atomic_witness:
  "\<exists>r s'. process_link (enable_outbox (Some sql_outbox_ops) ''updates'' (example_scheduler [example_issue ''new'' 7000000]))
       (example_tracked 5000000) (example_sched 5000000) = (r, s') \<and> sd_world s' = 1 \<and> db_ok (sd_db s')"
proof -
  let ?svc = "enable_outbox (Some sql_outbox_ops) ''updates'' (example_scheduler [example_issue ''new'' 7000000])"
  obtain p where p: "scrapper_parse_link latin1_tables ''https://github.com/o/r'' = Inr p" "plSource p = source_github"
    "plGithubOwner p = ''o''" "plGithubRepo p = ''r''" using example_parse by blast
  obtain r s' where run: "process_link ?svc (example_tracked 5000000) (example_sched 5000000) = (r, s')" by fastforce
  have "sc_repo ?svc = sql_tracking_ops" "sc_unicode ?svc = latin1_tables"
    by (simp_all add: enable_outbox_def example_scheduler_def new_scheduler_def)
  moreover have "sd_world (example_sched 5000000) = 0" "sd_db (example_sched 5000000) = tracking_db 5000000"
    by (simp_all add: example_sched_def)
  moreover have "linkURL (example_tracked 5000000) = ''https://github.com/o/r''" "0 \<le> linkLastUpdatedAt (example_tracked 5000000)"
    by (simp_all add: example_tracked_def)
  ultimately show ?thesis
    using process_link_outbox_atomic [OF _ _ refl _ _ _ _ _ run] p run tracking_db_ok
      example_fetch_updates [OF p(2-4), of 5000000 "Some sql_outbox_ops" "''updates''" "[example_issue ''new'' 7000000]" 0]
    by simp
qed

section \<open>Batches and passes\<close>

text \<open>
  (C28) However the workers are scheduled, a batch is handled completely and once: at least one and at most as many
  parts as workers, none empty, none longer than the quotient rounded up, together the batch; and any
  order in which the workers get through them goes through each link of the batch exactly as often as it is in it.
\<close>

theorem batch_handled_once:
  fixes svc :: "('d, 'w) scheduler"
  assumes "links \<noteq> []"
  defines "workers \<equiv> effective_workers svc links"
  shows "concat (link_chunks workers links) = links \<and>
    1 \<le> length (link_chunks workers links) \<and> length (link_chunks workers links) \<le> workers \<and>
    workers \<le> length links \<and>
    (\<forall>part \<in> set (link_chunks workers links). part \<noteq> [] \<and> length part \<le> (length links + workers - 1) div workers) \<and>
    (\<forall>order. interleaves (link_chunks workers links) order \<longrightarrow> mset order = mset links)"
proof -
  have "0 < length links" using assms(1) by simp
  then have w: "0 < workers" "workers \<le> length links"
    by (auto simp: workers_def effective_workers_def Let_def nat_le_iff Suc_le_eq)
  have c: "concat (link_chunks workers links) = links" using link_chunks_concat [OF w(1)] .
  then have "link_chunks workers links \<noteq> []" using assms(1) by auto
  then have "1 \<le> length (link_chunks workers links)" by (simp add: Suc_le_eq)
  then show ?thesis using c link_chunks_bounds [OF w(1), of links] w(2) interleaves_mset c by metis
qed

theorem batch_handled_once_witness:
  "concat (link_chunks 4 (map example_tracked [1..10])) = map example_tracked [1..10] \<and>
   length (link_chunks 4 (map example_tracked [1..10])) = 4"
proof -
  have "effective_workers (example_scheduler []) (map example_tracked [1..10]) = 4"
    by (simp add: effective_workers_def example_scheduler_def new_scheduler_def Let_def)
  moreover have "map example_tracked [1..10] \<noteq> []" by simp
  moreover have "length (link_chunks 4 (map example_tracked [1..10])) = 4" by code_simp
  ultimately show ?thesis using batch_handled_once [of "map example_tracked [1..10]" "example_scheduler []"] by simp
qed



section \<open>Failures\<close>



section \<open>Adding a link that is tracked already\<close>

text \<open>
  (C30) When a chat adds a link, with the zero instant both API servers give, that another chat tracks, the
  instant up to which the link's updates were seen is lost: the next time the link is handled, whatever updates
  the source has, none is queued or sent, and the instant moves past them.
\<close>

theorem adding_tracked_link_drops_updates:
  assumes "db_ok d" and "sql_link_add c link d = (Inr (), d1)" and "linkLastUpdatedAt link = time_zero"
    and "l \<in> set (tv_tracked (db_tracking d1))" and "linkURL l = linkURL link"
    and "sc_repo svc = sql_tracking_ops" and "svc = enable_outbox (Some sql_outbox_ops) topic svc0" and "topic \<noteq> []"
    and "sd_db s = d1" and "scrapper_parse_link (sc_unicode svc) (linkURL l) = Inr parsed"
    and "fetch_updates svc l parsed (sd_world s) = (Inr (updates, newest), w)"
    and "process_link svc l s = (r, s')"
  shows "tv_queued (db_tracking (sd_db s')) = tv_queued (db_tracking d1) \<and> sd_world s' = w \<and>
    (r = Inr () \<and> newest \<noteq> time_zero \<longrightarrow> db_tracking (sd_db s') = tv_advance (linkID l) newest (db_tracking d1))"
proof -
  have d1: "db_ok d1" "tracker_of d1 = tk_add_link c link (tracker_of d)" using sql.link_add [OF assms(1,2)] by blast+
  obtain row where row: "row \<in> set (d_links d1)" "l = tracked_link_of_row row"
    using assms(4) by (auto simp: db_tracking_def tracked_rows_def)
  have "tk_checkpoint (tracker_of d1) (lr_url row) = Some (lr_last_updated row)"
    using row(1) d1(1) by (auto simp: tracker_of_def db_ok_def intro!: map_of_is_SomeI simp: comp_def)
  moreover have "lr_url row = linkURL link" using assms(5) row(2) by (simp add: tracked_link_of_row_def)
  ultimately have zero: "linkLastUpdatedAt l = time_zero"
    using d1(2) assms(3) row(2) by (simp add: tk_add_link_def tk_add_def tracked_link_of_row_def)
  have "outside (fetch_updates svc l parsed) s = (Inr (updates, newest), s\<lparr>sd_world := w\<rparr>)"
    using assms(11) by (simp add: outside_def)
  then have run: "(r, s') = bindE (if newest = time_zero then now_utc else ret newest)
      (\<lambda>newest. on_db (sql_update_last_updated (linkID l) newest)) (s\<lparr>sd_world := w\<rparr>)"
    using assms(6,10,12) zero by (simp add: process_link_def sql_tracking_ops_def)
  obtain t s1 where t: "(if newest = time_zero then now_utc else ret newest) (s\<lparr>sd_world := w\<rparr>) = (Inr t, s1)"
    "sd_db s1 = d1" "sd_world s1 = w" "newest \<noteq> time_zero \<Longrightarrow> t = newest"
  proof (cases "newest = time_zero")
    case True
    obtain rt s1 where "now_utc (s\<lparr>sd_world := w\<rparr>) = (rt, s1)" by fastforce
    with now_utc_same [OF this] True that assms(9) show thesis by auto
  next
    case False
    with that [of newest "s\<lparr>sd_world := w\<rparr>"] assms(9) show thesis by simp
  qed
  obtain r2 d2 where u: "sql_update_last_updated (linkID l) t d1 = (r2, d2)" by fastforce
  then have s': "r = r2" "s' = s1\<lparr>sd_db := d2\<rparr>" using run t(1,2) by (simp_all add: on_db_def)
  have "tr_update sql_tracking_ops (linkID l) t d1 = (r2, d2)" using u by (simp add: sql_tracking_ops_def)
  from sql_tracking.update [OF d1(1) this] have "tv_queued (db_tracking d2) = tv_queued (db_tracking d1)"
    "r2 = Inr () \<longrightarrow> db_tracking d2 = tv_advance (linkID l) t (db_tracking d1)"
    by (auto simp: tv_advance_def)
  then show ?thesis using s' t(3,4) by auto
qed

definition shared_db :: "instant \<Rightarrow> db" where
  "shared_db t = (tracking_db t)\<lparr>d_chats := [7, 8]\<rparr>"

definition shared_after :: db where
  "shared_after = (shared_db 0)\<lparr>d_link_seq := 2, d_subs := [(7, 1), (8, 1)]\<rparr>"

theorem adding_tracked_link_drops_updates_witness:
  "\<exists>r s'. sql_link_add 8 (example_tracked 0) (shared_db 5000000) = (Inr (), shared_after) \<and>
     process_link (enable_outbox (Some sql_outbox_ops) ''updates'' (example_scheduler [example_issue ''new'' 7000000]))
       (example_tracked 0) ((example_sched 0)\<lparr>sd_db := shared_after\<rparr>) = (r, s') \<and>
     tv_queued (db_tracking (sd_db s')) = []"
proof -
  let ?svc = "enable_outbox (Some sql_outbox_ops) ''updates'' (example_scheduler [example_issue ''new'' 7000000])"
  let ?s = "(example_sched 0)\<lparr>sd_db := shared_after\<rparr>"
  have add: "sql_link_add 8 (example_tracked 0) (shared_db 5000000) = (Inr (), shared_after)" by code_simp
  have ok: "db_ok (shared_db 5000000)" by (simp add: shared_db_def tracking_db_def db_ok_def empty_db_def)
  have tracked: "example_tracked 0 \<in> set (tv_tracked (db_tracking shared_after))"
    by (simp add: db_tracking_def tracked_rows_def shared_after_def shared_db_def tracking_db_def tracked_link_of_row_def
        example_tracked_def)
  have queued: "tv_queued (db_tracking shared_after) = []"
    by (simp add: db_tracking_def shared_after_def shared_db_def tracking_db_def empty_db_def)
  obtain p where p: "scrapper_parse_link latin1_tables ''https://github.com/o/r'' = Inr p" "plSource p = source_github"
    "plGithubOwner p = ''o''" "plGithubRepo p = ''r''" using example_parse by blast
  obtain updates newest w where f: "fetch_updates ?svc (example_tracked 0) p (sd_world ?s) = (Inr (updates, newest), w)"
    using example_fetch_updates [OF p(2-4), of 0 "Some sql_outbox_ops" "''updates''" "[example_issue ''new'' 7000000]" "sd_world ?s"]
    by (metis prod.exhaust)
  obtain r s' where run: "process_link ?svc (example_tracked 0) ?s = (r, s')" by fastforce
  have "sc_repo ?svc = sql_tracking_ops" "scrapper_parse_link (sc_unicode ?svc) (linkURL (example_tracked 0)) = Inr p"
    "linkLastUpdatedAt (example_tracked 0) = time_zero" "sd_db ?s = shared_after" "''updates'' \<noteq> []"
    using p(1) by (simp_all add: enable_outbox_def example_scheduler_def new_scheduler_def example_tracked_def)
  with adding_tracked_link_drops_updates [OF ok add _ tracked refl _ refl _ _ _ f run] queued add run show ?thesis by auto
qed

end
