(* ===== verification/Outbox_Publisher.thy ===== *)
theory Outbox_Publisher
  imports Scheduler_Facts Kafka_Producer
begin

text \<open>
  The outbox publisher of the scrapper (\<open>application/services/outbox_publisher.go\<close>): a pass takes
  the oldest pending messages, produces each to Kafka and marks its row as sent, or counts a failed
  attempt.  The state is the database and the broker, each with its script of faults; gocron, which
  repeats the passes, is a library.  The outbox repository and the raw producer are the interfaces
  \<open>outbox_store\<close> and \<open>publishing\<close>, given by both repository packages and by the Kafka producer.
\<close>

section \<open>The publisher\<close>

record ('d, 'p) publishing =
  pb_db :: 'd
  pb_broker :: 'p

record ('d, 'p) outbox_publisher =
  pu_pending :: "int \<Rightarrow> ('d, outbox_message list) eff"
  pu_sent :: "int \<Rightarrow> ('d, unit) eff"
  pu_failed :: "int \<Rightarrow> go_error option \<Rightarrow> ('d, unit) eff"
  pu_produce :: "string \<Rightarrow> string \<Rightarrow> string \<Rightarrow> ('p, unit) eff"
  pu_interval :: duration
  pu_batch_size :: int

definition new_outbox_publisher ::
    "(int \<Rightarrow> ('d, outbox_message list) eff) \<Rightarrow> (int \<Rightarrow> ('d, unit) eff) \<Rightarrow> (int \<Rightarrow> go_error option \<Rightarrow> ('d, unit) eff) \<Rightarrow>
     (string \<Rightarrow> string \<Rightarrow> string \<Rightarrow> ('p, unit) eff) \<Rightarrow> duration \<Rightarrow> int \<Rightarrow> ('d, 'p) outbox_publisher" where
  "new_outbox_publisher get sent failed produce interval batch_size =
     \<lparr>pu_pending = get, pu_sent = sent, pu_failed = failed, pu_produce = produce,
      pu_interval = (if interval \<le> 0 then 5 * 1000000000 else interval),
      pu_batch_size = (if batch_size \<le> 0 then 100 else batch_size)\<rparr>"

text \<open>The body of the loop; errors of the two updates are only logged.\<close>

definition publish_message ::
    "('d, 'p) outbox_publisher \<Rightarrow> outbox_message \<Rightarrow> ('d, 'p) publishing \<Rightarrow> ('d, 'p) publishing" where
  "publish_message pu m s =
     (case pu_produce pu (omTopic m) (omMessageKey m) (omPayload m) (pb_broker s) of
        (Inl e, p) \<Rightarrow> s\<lparr>pb_broker := p, pb_db := snd (pu_failed pu (omID m) (Some e) (pb_db s))\<rparr>
      | (Inr _, p) \<Rightarrow> s\<lparr>pb_broker := p, pb_db := snd (pu_sent pu (omID m) (pb_db s))\<rparr>)"

definition publish_pending :: "('d, 'p) outbox_publisher \<Rightarrow> ('d, 'p) publishing \<Rightarrow> ('d, 'p) publishing" where
  "publish_pending pu s =
     (case pu_pending pu (pu_batch_size pu) (pb_db s) of
        (Inl e, d) \<Rightarrow> s\<lparr>pb_db := d\<rparr>
      | (Inr messages, d) \<Rightarrow> fold (publish_message pu) messages (s\<lparr>pb_db := d\<rparr>))"

section \<open>Rows of the outbox\<close>

definition pending_of :: "outbox_message list \<Rightarrow> outbox_message list" where
  "pending_of rows = sort_key omCreatedAt (filter (\<lambda>m. omStatus m = OutboxPending) rows)"

definition set_row :: "int \<Rightarrow> (outbox_message \<Rightarrow> outbox_message) \<Rightarrow> outbox_message list \<Rightarrow> outbox_message list" where
  "set_row i f rows = map (\<lambda>m. if omID m = i then f m else m) rows"

definition as_sent :: "instant \<Rightarrow> outbox_message \<Rightarrow> outbox_message" where
  "as_sent t m = m\<lparr>omStatus := OutboxSent, omSentAt := Some t, omUpdatedAt := t\<rparr>"

definition as_failed :: "instant \<Rightarrow> string \<Rightarrow> outbox_message \<Rightarrow> outbox_message" where
  "as_failed t e m = m\<lparr>omAttempts := omAttempts m + 1, omLastError := Some e, omUpdatedAt := t\<rparr>"

lemma as_sent_simps [simp]:
  "omID (as_sent t m) = omID m" "message_content (as_sent t m) = message_content m"
  "omCreatedAt (as_sent t m) = omCreatedAt m" "omStatus (as_sent t m) = OutboxSent"
  by (simp_all add: as_sent_def message_content_def)

lemma as_failed_simps [simp]:
  "omID (as_failed t e m) = omID m" "message_content (as_failed t e m) = message_content m"
  "omCreatedAt (as_failed t e m) = omCreatedAt m" "omStatus (as_failed t e m) = omStatus m"
  by (simp_all add: as_failed_def message_content_def)

lemma set_row_Nil [simp]: "set_row i f [] = []"
  by (simp add: set_row_def)

lemma set_row_Cons [simp]: "set_row i f (r # rows) = (if omID r = i then f r else r) # set_row i f rows"
  by (simp add: set_row_def)

text \<open>What may happen to a row while the messages \<open>new\<close> are stored.\<close>

definition row_step :: "(outbox_message \<Rightarrow> 'm option) \<Rightarrow> 'm list \<Rightarrow> outbox_message \<Rightarrow> outbox_message \<Rightarrow> bool" where
  "row_step encoded new m m' \<longleftrightarrow>
     omID m' = omID m \<and> message_content m' = message_content m \<and> omCreatedAt m' = omCreatedAt m \<and>
     (omStatus m' = omStatus m \<or>
      (omStatus m = OutboxPending \<and> omStatus m' = OutboxSent \<and> (\<exists>km \<in> set new. encoded m = Some km)))"

text \<open>What is produced depends on the topic, key and payload alone.\<close>

definition by_content :: "(outbox_message \<Rightarrow> 'm option) \<Rightarrow> bool" where
  "by_content encoded \<longleftrightarrow> (\<forall>m m'. message_content m' = message_content m \<longrightarrow> encoded m' = encoded m)"

lemma by_contentD: "by_content encoded \<Longrightarrow> message_content m' = message_content m \<Longrightarrow> encoded m' = encoded m"
  unfolding by_content_def by blast

lemma row_step_refl [simp]: "row_step encoded new m m"
  by (simp add: row_step_def)

lemma row_step_trans:
  assumes "by_content encoded" "row_step encoded new m1 m2" "row_step encoded new' m2 m3"
  shows "row_step encoded (new @ new') m1 m3"
  using assms(2,3) by_contentD [OF assms(1), of m2 m1] by (auto simp: row_step_def)

lemma rows_step_trans:
  assumes "by_content encoded" "list_all2 (row_step encoded new) r1 r2" "list_all2 (row_step encoded new') r2 r3"
  shows "list_all2 (row_step encoded (new @ new')) r1 r3"
  by (rule list_all2_trans [of "row_step encoded new" "row_step encoded new'" "row_step encoded (new @ new')", OF _ assms(2,3)])
    (rule row_step_trans [OF assms(1)])

lemma rows_step_refl [simp]: "list_all2 (row_step encoded new) rows rows"
  by (simp add: list_all2_refl)

lemma rows_step_ids: "list_all2 (row_step encoded new) r r' \<Longrightarrow> map omID r' = map omID r"
  by (induction rule: list_all2_induct) (auto simp: row_step_def)

lemma rows_step_pending:
  "list_all2 (row_step encoded new) r r' \<Longrightarrow> length (pending_of r') \<le> length (pending_of r)"
  unfolding pending_of_def length_sort by (induction rule: list_all2_induct) (auto simp: row_step_def)

text \<open>The row of a message is pending or already sent, with the message's content.\<close>

definition is_row_of :: "outbox_message list \<Rightarrow> outbox_message \<Rightarrow> bool" where
  "is_row_of rows m \<longleftrightarrow>
     (\<forall>r \<in> set rows. omID r = omID m \<longrightarrow> message_content r = message_content m \<and> omStatus r \<in> {OutboxPending, OutboxSent})"

lemma is_row_of_step:
  "list_all2 (row_step encoded new) r r' \<Longrightarrow> is_row_of r m \<Longrightarrow> is_row_of r' m"
proof -
  assume rows: "list_all2 (row_step encoded new) r r'" and m: "is_row_of r m"
  have "message_content x' = message_content m \<and> omStatus x' \<in> {OutboxPending, OutboxSent}"
    if x': "x' \<in> set r'" "omID x' = omID m" for x'
  proof -
    obtain x where x: "x \<in> set r" "row_step encoded new x x'"
      using rows x'(1) by (metis in_set_conv_nth list_all2_conv_all_nth)
    then have "omID x = omID m" using x'(2) by (simp add: row_step_def)
    with m x(1) have "message_content x = message_content m" "omStatus x \<in> {OutboxPending, OutboxSent}"
      by (auto simp: is_row_of_def)
    moreover have "message_content x' = message_content x" "omStatus x' = omStatus x \<or> omStatus x' = OutboxSent"
      using x(2) by (auto simp: row_step_def)
    ultimately show ?thesis by auto
  qed
  then show "is_row_of r' m" by (simp add: is_row_of_def)
qed

lemma set_row_sent_step:
  assumes "by_content encoded" "is_row_of rows m" "encoded m = Some km" "km \<in> set new"
  shows "list_all2 (row_step encoded new) rows (set_row (omID m) (as_sent t) rows)"
  using assms(2)
proof (induction rows)
  case (Cons r rows)
  then have "omID r = omID m \<Longrightarrow> encoded r = Some km"
    using assms(3) by_contentD [OF assms(1), of r m] by (auto simp: is_row_of_def)
  with Cons assms(4) show ?case by (auto simp: is_row_of_def row_step_def)
qed simp

lemma set_row_failed_step: "list_all2 (row_step encoded new) rows (set_row i (as_failed t e) rows)"
  by (induction rows) (auto simp: row_step_def)

lemma set_row_sent_filter:
  "length (filter (\<lambda>m. omStatus m = OutboxPending) (set_row i (as_sent t) rows)) \<le>
   length (filter (\<lambda>m. omStatus m = OutboxPending) rows)"
  by (induction rows) auto

lemma set_row_sent_pending:
  "m \<in> set rows \<Longrightarrow> omStatus m = OutboxPending \<Longrightarrow>
   length (pending_of (set_row (omID m) (as_sent t) rows)) < length (pending_of rows)"
  unfolding pending_of_def length_sort
proof (induction rows)
  case (Cons r rows)
  show ?case
  proof (cases "omID r = omID m \<and> omStatus r = OutboxPending")
    case True
    then show ?thesis using set_row_sent_filter [of "omID m" t rows] by simp
  next
    case False
    with Cons show ?thesis by auto
  qed
qed simp

lemma pending_of_member: "m \<in> set (pending_of rows) \<longleftrightarrow> m \<in> set rows \<and> omStatus m = OutboxPending"
  by (auto simp: pending_of_def)

lemma pending_is_row_of:
  assumes "distinct (map omID rows)" "m \<in> set (pending_of rows)"
  shows "is_row_of rows m"
proof -
  have "r = m" if "r \<in> set rows" "omID r = omID m" for r
    using assms that by (auto simp: pending_of_member distinct_map inj_on_def)
  with assms(2) show ?thesis by (auto simp: is_row_of_def pending_of_member)
qed

lemma pending_of_failed:
  "map message_content (pending_of (set_row i (as_failed t e) rows)) = map message_content (pending_of rows)"
proof -
  let ?f = "\<lambda>m. if omID m = i then as_failed t e m else m"
  have "filter (\<lambda>m. omStatus m = OutboxPending) (map ?f rows) = map ?f (filter (\<lambda>m. omStatus m = OutboxPending) rows)"
    by (rule filter_map_update) simp
  then have "pending_of (set_row i (as_failed t e) rows) = map ?f (pending_of rows)"
    by (simp add: pending_of_def set_row_def sort_key_map_update)
  then show ?thesis by (simp add: o_def cong: map_cong)
qed

section \<open>The interfaces\<close>

text \<open>
  What the publisher relies on: the store gives the oldest pending rows, its updates change the row
  of one message or nothing, and they do what they should once the faults are used up.
\<close>

locale outbox_store =
  fixes get :: "int \<Rightarrow> ('d, outbox_message list) eff"
    and sent :: "int \<Rightarrow> ('d, unit) eff"
    and failed :: "int \<Rightarrow> go_error option \<Rightarrow> ('d, unit) eff"
    and rows :: "'d \<Rightarrow> outbox_message list"
    and faults_left :: "'d \<Rightarrow> nat"
  assumes get_pending: "0 \<le> n \<Longrightarrow> get n d = (r, d') \<Longrightarrow>
      rows d' = rows d \<and> (\<forall>ms. r = Inr ms \<longrightarrow> ms = take (nat n) (pending_of (rows d))) \<and>
      (if faults_left d = 0 then (\<exists>ms. r = Inr ms) \<and> faults_left d' = 0 else faults_left d' < faults_left d)"
    and mark_sent: "sent i d = (rs, d') \<Longrightarrow> faults_left d' \<le> faults_left d \<and>
      (rows d' = rows d \<and> faults_left d \<noteq> 0 \<or> (\<exists>t. rows d' = set_row i (as_sent t) (rows d)))"
    and mark_failed: "failed i e d = (rf, d') \<Longrightarrow> faults_left d' \<le> faults_left d \<and>
      (rows d' = rows d \<or> (\<exists>t txt. rows d' = set_row i (as_failed t txt) (rows d)))"

text \<open>The producer stores what a message is encoded to, or reports an error.\<close>

locale raw_producer =
  fixes produce :: "string \<Rightarrow> string \<Rightarrow> string \<Rightarrow> ('p, unit) eff"
    and encode :: "string \<times> string \<times> string \<Rightarrow> 'm option"
    and stored :: "'p \<Rightarrow> 'm list"
    and troubles :: "'p \<Rightarrow> nat"
  assumes produce_none: "produce t k v p = (r, p') \<Longrightarrow> encode (t, k, v) = None \<Longrightarrow> (\<exists>e. r = Inl e) \<and> p' = p"
    and produce_some: "produce t k v p = (r, p') \<Longrightarrow> encode (t, k, v) = Some m \<Longrightarrow>
      (r = Inr () \<longrightarrow> stored p' = stored p @ [m]) \<and> (stored p' = stored p \<or> stored p' = stored p @ [m]) \<and>
      (if troubles p = 0 then r = Inr () \<and> troubles p' = 0 else troubles p' < troubles p)"

locale outbox_pass = outbox_store + raw_producer
begin

definition encoded :: "outbox_message \<Rightarrow> 'c option" where
  "encoded m = encode (message_content m)"

definition potential :: "('a, 'b) publishing \<Rightarrow> nat" where
  "potential s = faults_left (pb_db s) + troubles (pb_broker s) + length (pending_of (rows (pb_db s)))"

text \<open>A change of the state while \<open>new\<close> is stored.\<close>

definition moves :: "('a, 'b) publishing \<Rightarrow> 'c list \<Rightarrow> ('a, 'b) publishing \<Rightarrow> bool" where
  "moves s new s' \<longleftrightarrow>
     stored (pb_broker s') = stored (pb_broker s) @ new \<and>
     list_all2 (row_step encoded new) (rows (pb_db s)) (rows (pb_db s')) \<and>
     faults_left (pb_db s') \<le> faults_left (pb_db s) \<and> troubles (pb_broker s') \<le> troubles (pb_broker s)"

lemma by_content_encoded: "by_content encoded"
  by (simp add: by_content_def encoded_def)

lemma moves_trans: "moves s new s1 \<Longrightarrow> moves s1 new' s2 \<Longrightarrow> moves s (new @ new') s2"
  using rows_step_trans [OF by_content_encoded] by (force simp: moves_def)

lemma moves_potential: "moves s new s' \<Longrightarrow> potential s' \<le> potential s"
  using rows_step_pending by (fastforce simp: moves_def potential_def)

lemma publish_message_moves:
  assumes pu: "pu = new_outbox_publisher get sent failed produce interval n"
    and row: "is_row_of (rows (pb_db s)) m"
  obtains new where "moves s new (publish_message pu m s)" "set new \<subseteq> {km. encoded m = Some km}"
proof -
  obtain r p where produce: "produce (omTopic m) (omMessageKey m) (omPayload m) (pb_broker s) = (r, p)" by fastforce
  define fd where "fd = (\<lambda>e. snd (failed (omID m) (Some e) (pb_db s)))"
  then have failed: "snd (failed (omID m) (Some e) (pb_db s)) = fd e" for e by simp
  obtain sr sd where sent: "sent (omID m) (pb_db s) = (sr, sd)" by fastforce
  have content: "encoded m = encode (omTopic m, omMessageKey m, omPayload m)"
    by (simp add: encoded_def message_content_def)
  have failed_step: "list_all2 (row_step encoded new) (rows (pb_db s)) (rows (fd e)) \<and> faults_left (fd e) \<le> faults_left (pb_db s)"
    for new e using mark_failed [of "omID m" "Some e" "pb_db s" _ "fd e"] set_row_failed_step rows_step_refl failed
    by (metis prod.collapse)
  have moves: "\<exists>new. moves s new (publish_message pu m s) \<and> set new \<subseteq> {km. encoded m = Some km}"
  proof (cases "encoded m")
    case None
    then obtain e where "r = Inl e" "p = pb_broker s" using produce_none [OF produce] content by auto
    then have "moves s [] (publish_message pu m s)"
      using failed_step by (simp add: moves_def publish_message_def pu new_outbox_publisher_def produce failed)
    then show ?thesis by (intro exI [of _ "[]"]) simp
  next
    case (Some km)
    then have p: "r = Inr () \<Longrightarrow> stored p = stored (pb_broker s) @ [km]"
        "stored p = stored (pb_broker s) \<or> stored p = stored (pb_broker s) @ [km]" "troubles p \<le> troubles (pb_broker s)"
      using produce_some [OF produce, of km] content by (auto split: if_splits)
    show ?thesis
    proof (cases r)
      case (Inr x)
      have "list_all2 (row_step encoded [km]) (rows (pb_db s)) (rows sd)" "faults_left sd \<le> faults_left (pb_db s)"
        using mark_sent [OF sent] set_row_sent_step [OF by_content_encoded row Some, of "[km]"] by auto
      then have "moves s [km] (publish_message pu m s)"
        using Inr p by (simp add: moves_def publish_message_def pu new_outbox_publisher_def produce sent)
      then show ?thesis using Some by (intro exI [of _ "[km]"]) simp
    next
      case (Inl e)
      from p(2) obtain new where "stored p = stored (pb_broker s) @ new" "set new \<subseteq> {km}" by force
      then have "moves s new (publish_message pu m s)" "set new \<subseteq> {km. encoded m = Some km}"
        using Inl p(3) Some failed_step
        by (auto simp: moves_def publish_message_def pu new_outbox_publisher_def produce failed)
      then show ?thesis by blast
    qed
  qed
  then show thesis using that by blast
qed

lemma moves_is_row_of: "moves s new s' \<Longrightarrow> is_row_of (rows (pb_db s)) m \<Longrightarrow> is_row_of (rows (pb_db s')) m"
  using is_row_of_step by (auto simp: moves_def)

lemma fold_moves:
  assumes "pu = new_outbox_publisher get sent failed produce interval n"
    and "\<forall>m \<in> set ms. is_row_of (rows (pb_db s)) m"
  shows "\<exists>new. moves s new (fold (publish_message pu) ms s) \<and> set new \<subseteq> {km. \<exists>m \<in> set ms. encoded m = Some km}"
  using assms(2)
proof (induction ms arbitrary: s)
  case Nil
  have "moves s [] s" by (simp add: moves_def)
  then show ?case by (intro exI [of _ "[]"]) simp
next
  case (Cons m ms)
  obtain new where new: "moves s new (publish_message pu m s)" "set new \<subseteq> {km. encoded m = Some km}"
    using publish_message_moves [OF assms(1)] Cons.prems by (metis list.set_intros(1))
  obtain new' where new': "moves (publish_message pu m s) new' (fold (publish_message pu) ms (publish_message pu m s))"
      "set new' \<subseteq> {km. \<exists>m \<in> set ms. encoded m = Some km}"
    using Cons.IH [of "publish_message pu m s"] Cons.prems moves_is_row_of [OF new(1)] by auto
  from moves_trans [OF new(1) new'(1)] new(2) new'(2) show ?case
    by (intro exI [of _ "new @ new'"]) auto
qed

lemma pass_moves:
  assumes pu: "pu = new_outbox_publisher get sent failed produce interval n"
    and ids: "distinct (map omID (rows (pb_db s)))"
  obtains new where "moves s new (publish_pending pu s)"
    "set new \<subseteq> {km. \<exists>m \<in> set (pending_of (rows (pb_db s))). encoded m = Some km}"
proof -
  define b where "b = pu_batch_size pu"
  have b: "0 \<le> b" "pu_pending pu = get" by (simp_all add: b_def pu new_outbox_publisher_def)
  obtain r d where get: "get b (pb_db s) = (r, d)" by fastforce
  note law = get_pending [OF b(1) get]
  let ?s1 = "s\<lparr>pb_db := d\<rparr>"
  have first: "moves s [] ?s1" using law by (auto simp: moves_def split: if_splits)
  show thesis
  proof (cases r)
    case (Inl e)
    then show thesis using that [of "[]"] first get b by (simp add: publish_pending_def b_def)
  next
    case (Inr ms)
    then have ms: "ms = take (nat b) (pending_of (rows (pb_db s)))" "rows d = rows (pb_db s)" using law by auto
    have sub: "set ms \<subseteq> set (pending_of (rows (pb_db s)))" unfolding ms(1) by (rule set_take_subset)
    then have "\<forall>m \<in> set ms. is_row_of (rows (pb_db ?s1)) m"
      using pending_is_row_of [OF ids] ms(2) by auto
    from fold_moves [OF pu this] obtain new where
      new: "moves ?s1 new (fold (publish_message pu) ms ?s1)" "set new \<subseteq> {km. \<exists>m \<in> set ms. encoded m = Some km}" by blast
    have "publish_pending pu s = fold (publish_message pu) ms ?s1" using get b Inr by (simp add: publish_pending_def b_def)
    moreover have "set new \<subseteq> {km. \<exists>m \<in> set (pending_of (rows (pb_db s))). encoded m = Some km}" using new(2) sub by blast
    ultimately show thesis using that moves_trans [OF first new(1)] by simp
  qed
qed

lemma moves_ids: "moves s new s' \<Longrightarrow> map omID (rows (pb_db s')) = map omID (rows (pb_db s))"
  using rows_step_ids by (auto simp: moves_def)

text \<open>A row that is pending after the change was pending before, with the same content.\<close>

lemma moves_pending:
  assumes "moves s new s'" "m' \<in> set (pending_of (rows (pb_db s')))"
  obtains m where "m \<in> set (pending_of (rows (pb_db s)))" "encoded m = encoded m'"
proof -
  obtain m where m: "m \<in> set (rows (pb_db s))" "row_step encoded new m m'"
    using assms unfolding moves_def pending_of_member by (metis in_set_conv_nth list_all2_conv_all_nth)
  then have "omStatus m = OutboxPending" "encoded m = encoded m'"
    using assms(2) by (auto simp: row_step_def pending_of_member encoded_def)
  with m(1) that show thesis by (simp add: pending_of_member)
qed

text \<open>Any number of passes.\<close>

lemma passes_move:
  assumes "pu = new_outbox_publisher get sent failed produce interval n"
    and "distinct (map omID (rows (pb_db s)))"
  shows "\<exists>new. moves s new ((publish_pending pu ^^ k) s) \<and>
    set new \<subseteq> {km. \<exists>m \<in> set (pending_of (rows (pb_db s))). encoded m = Some km}"
proof (induction k)
  case 0
  have "moves s [] s" by (simp add: moves_def)
  then show ?case by (intro exI [of _ "[]"]) simp
next
  case (Suc k)
  let ?t = "(publish_pending pu ^^ k) s"
  from Suc obtain new where new: "moves s new ?t"
      "set new \<subseteq> {km. \<exists>m \<in> set (pending_of (rows (pb_db s))). encoded m = Some km}" by blast
  have "distinct (map omID (rows (pb_db ?t)))" using moves_ids [OF new(1)] assms(2) by simp
  then obtain new' where new': "moves ?t new' (publish_pending pu ?t)"
      "set new' \<subseteq> {km. \<exists>m \<in> set (pending_of (rows (pb_db ?t))). encoded m = Some km}"
    using pass_moves [OF assms(1)] by blast
  have "set new' \<subseteq> {km. \<exists>m \<in> set (pending_of (rows (pb_db s))). encoded m = Some km}"
    using new'(2) moves_pending [OF new(1)] by (smt (verit) mem_Collect_eq subset_eq)
  with moves_trans [OF new(1) new'(1)] new(2) show ?case
    by (intro exI [of _ "new @ new'"]) auto
qed

lemma fold_potential:
  assumes "pu = new_outbox_publisher get sent failed produce interval n"
    and "\<forall>m \<in> set ms. is_row_of (rows (pb_db s)) m"
  shows "potential (fold (publish_message pu) ms s) \<le> potential s"
  using fold_moves [OF assms] moves_potential by blast

text \<open>The first message of a pass over a calm store is sent, or a fault of the broker is used up.\<close>

lemma message_progress:
  assumes pu: "pu = new_outbox_publisher get sent failed produce interval n"
    and m: "m \<in> set (pending_of (rows (pb_db s)))" "is_row_of (rows (pb_db s)) m" "encoded m = Some km"
    and calm: "faults_left (pb_db s) = 0"
  shows "potential (publish_message pu m s) < potential s"
proof -
  obtain r p where produce: "produce (omTopic m) (omMessageKey m) (omPayload m) (pb_broker s) = (r, p)" by fastforce
  have law: "if troubles (pb_broker s) = 0 then r = Inr () \<and> troubles p = 0 else troubles p < troubles (pb_broker s)"
    using produce_some [OF produce, of km] m(3) by (simp add: encoded_def message_content_def)
  have broker: "pb_broker (publish_message pu m s) = p"
    by (simp add: publish_message_def pu new_outbox_publisher_def produce split: sum.split)
  obtain new where new: "moves s new (publish_message pu m s)" using publish_message_moves [OF pu m(2)] .
  show ?thesis
  proof (cases "troubles (pb_broker s) = 0")
    case False
    then show ?thesis using law new broker rows_step_pending by (fastforce simp: moves_def potential_def)
  next
    case True
    obtain sr sd where sent: "sent (omID m) (pb_db s) = (sr, sd)" by fastforce
    have "rows sd \<noteq> rows (pb_db s) \<or> (\<exists>t. rows sd = set_row (omID m) (as_sent t) (rows (pb_db s)))"
      using mark_sent [OF sent] calm by auto
    then obtain t where t: "rows sd = set_row (omID m) (as_sent t) (rows (pb_db s))"
      using mark_sent [OF sent] calm by auto
    have "pb_db (publish_message pu m s) = sd"
      using True law by (simp add: publish_message_def pu new_outbox_publisher_def produce sent)
    moreover have "length (pending_of (rows sd)) < length (pending_of (rows (pb_db s)))"
      unfolding t using m(1) by (intro set_row_sent_pending) (simp_all add: pending_of_member)
    ultimately show ?thesis using True law broker mark_sent [OF sent] calm by (simp add: potential_def)
  qed
qed

lemma pass_progress:
  assumes pu: "pu = new_outbox_publisher get sent failed produce interval n"
    and ids: "distinct (map omID (rows (pb_db s)))"
    and pending: "pending_of (rows (pb_db s)) \<noteq> []" "\<forall>m \<in> set (pending_of (rows (pb_db s))). encoded m \<noteq> None"
  shows "potential (publish_pending pu s) < potential s"
proof -
  define b where "b = pu_batch_size pu"
  have b: "0 < b" "pu_pending pu = get" by (simp_all add: b_def pu new_outbox_publisher_def)
  obtain r d where get: "get b (pb_db s) = (r, d)" by fastforce
  note law = get_pending [OF less_imp_le [OF b(1)] get]
  let ?s1 = "s\<lparr>pb_db := d\<rparr>"
  have s1: "potential ?s1 \<le> potential s" "rows d = rows (pb_db s)" using law by (auto simp: potential_def split: if_splits)
  show ?thesis
  proof (cases r)
    case (Inl e)
    then show ?thesis using law get b by (auto simp: publish_pending_def b_def potential_def split: if_splits)
  next
    case (Inr ms)
    then have ms: "ms = take (nat b) (pending_of (rows d))" using law s1(2) by auto
    have sub: "set ms \<subseteq> set (pending_of (rows d))" unfolding ms by (rule set_take_subset)
    then have all: "\<forall>m \<in> set ms. is_row_of (rows (pb_db ?s1)) m" using pending_is_row_of ids s1(2) by auto
    have pass: "publish_pending pu s = fold (publish_message pu) ms ?s1" using get b Inr by (simp add: publish_pending_def b_def)
    show ?thesis
    proof (cases "faults_left (pb_db s) = 0")
      case False
      then have "potential ?s1 < potential s" using law s1(2) by (simp add: potential_def)
      with fold_potential [OF pu all] show ?thesis unfolding pass by simp
    next
      case True
      obtain m rest where m: "ms = m # rest" using ms b(1) pending(1) s1(2)
        by (cases "pending_of (rows d)") (auto simp: take_Cons split: nat.splits)
      obtain km where km: "encoded m = Some km" using pending(2) sub s1(2) by (auto simp: m)
      have "potential (publish_message pu m ?s1) < potential ?s1"
        using sub all True law by (intro message_progress [OF pu _ _ km]) (auto simp: m)
      moreover have "potential (fold (publish_message pu) rest (publish_message pu m ?s1)) \<le> potential (publish_message pu m ?s1)"
      proof (rule fold_potential [OF pu])
        obtain new where "moves ?s1 new (publish_message pu m ?s1)"
          using publish_message_moves [OF pu, of ?s1 m] all by (metis list.set_intros(1) m)
        then show "\<forall>x \<in> set rest. is_row_of (rows (pb_db (publish_message pu m ?s1))) x"
          using moves_is_row_of all by (simp add: m)
      qed
      ultimately show ?thesis unfolding pass m using s1(1) by simp
    qed
  qed
qed

lemma passes_drain:
  assumes pu: "pu = new_outbox_publisher get sent failed produce interval n"
    and ids: "distinct (map omID (rows (pb_db s)))"
    and pending: "\<forall>m \<in> set (pending_of (rows (pb_db s))). encoded m \<noteq> None"
    and k: "potential s \<le> k"
  shows "pending_of (rows (pb_db ((publish_pending pu ^^ k) s))) = []"
proof -
  let ?t = "\<lambda>k. (publish_pending pu ^^ k) s"
  have "pending_of (rows (pb_db (?t k))) = [] \<or> potential (?t k) + k \<le> potential s" for k
  proof (induction k)
    case (Suc k)
    obtain new where new: "moves s new (?t k)" using passes_move [OF pu ids] by blast
    have ids': "distinct (map omID (rows (pb_db (?t k))))" using moves_ids [OF new] ids by simp
    obtain new' where new': "moves (?t k) new' (publish_pending pu (?t k))" using pass_moves [OF pu ids'] by blast
    show ?case
    proof (cases "pending_of (rows (pb_db (?t k))) = []")
      case True
      have "length (pending_of (rows (pb_db (publish_pending pu (?t k))))) \<le> length (pending_of (rows (pb_db (?t k))))"
        using rows_step_pending new' unfolding moves_def by blast
      then show ?thesis using True by simp
    next
      case False
      have "\<forall>m \<in> set (pending_of (rows (pb_db (?t k)))). encoded m \<noteq> None"
        using pending moves_pending [OF new] by metis
      from pass_progress [OF pu ids' False this] show ?thesis using Suc False by simp
    qed
  qed simp
  from this [of k] k show ?thesis by (auto simp: potential_def simp flip: length_0_conv)
qed

text \<open>Messages that cannot be encoded: when they fill the oldest batch, the broker gets nothing, ever.\<close>

lemma encoded_map: "map encoded ms = map encode (map message_content ms)"
  by (simp add: encoded_def)

lemma poison_message:
  assumes "pu = new_outbox_publisher get sent failed produce interval n" "encoded m = None"
  shows "pb_broker (publish_message pu m s) = pb_broker s \<and>
    map encoded (pending_of (rows (pb_db (publish_message pu m s)))) = map encoded (pending_of (rows (pb_db s)))"
proof -
  obtain r p where produce: "produce (omTopic m) (omMessageKey m) (omPayload m) (pb_broker s) = (r, p)" by fastforce
  then obtain e where e: "r = Inl e" "p = pb_broker s"
    using produce_none [OF produce] assms(2) by (auto simp: encoded_def message_content_def)
  obtain fr fd where failed: "failed (omID m) (Some e) (pb_db s) = (fr, fd)" by fastforce
  have "map encoded (pending_of (rows fd)) = map encoded (pending_of (rows (pb_db s)))"
    using mark_failed [OF failed] pending_of_failed [of _ _ _ "rows (pb_db s)"] by (auto simp: encoded_map simp del: map_map)
  then show ?thesis
    by (simp add: publish_message_def assms(1) new_outbox_publisher_def produce e failed)
qed

lemma poison_fold:
  assumes "pu = new_outbox_publisher get sent failed produce interval n" "\<forall>m \<in> set ms. encoded m = None"
  shows "pb_broker (fold (publish_message pu) ms s) = pb_broker s \<and>
    map encoded (pending_of (rows (pb_db (fold (publish_message pu) ms s)))) = map encoded (pending_of (rows (pb_db s)))"
  using assms(2) by (induction ms arbitrary: s) (simp_all add: poison_message [OF assms(1)])

lemma poison_pass:
  assumes pu: "pu = new_outbox_publisher get sent failed produce interval n"
    and poison: "\<forall>x \<in> set (take (nat (pu_batch_size pu)) (map encoded (pending_of (rows (pb_db s))))). x = None"
  shows "pb_broker (publish_pending pu s) = pb_broker s \<and>
    map encoded (pending_of (rows (pb_db (publish_pending pu s)))) = map encoded (pending_of (rows (pb_db s)))"
proof -
  have b: "0 \<le> pu_batch_size pu" "pu_pending pu = get" by (simp_all add: pu new_outbox_publisher_def)
  obtain r d where get: "get (pu_batch_size pu) (pb_db s) = (r, d)" by fastforce
  note law = get_pending [OF b(1) get]
  show ?thesis
  proof (cases r)
    case (Inl e)
    then show ?thesis using law get b by (simp add: publish_pending_def)
  next
    case (Inr ms)
    then have "\<forall>m \<in> set ms. encoded m = None" using law poison by (auto simp: take_map)
    from poison_fold [OF pu this, of "s\<lparr>pb_db := d\<rparr>"] show ?thesis
      using Inr law get b by (simp add: publish_pending_def)
  qed
qed

lemma poison_passes:
  assumes pu: "pu = new_outbox_publisher get sent failed produce interval n"
    and poison: "\<forall>m \<in> set (take (nat (pu_batch_size pu)) (pending_of (rows (pb_db s)))). encoded m = None"
  shows "pb_broker ((publish_pending pu ^^ k) s) = pb_broker s \<and>
    map encoded (pending_of (rows (pb_db ((publish_pending pu ^^ k) s)))) = map encoded (pending_of (rows (pb_db s)))"
proof (induction k)
  case (Suc k)
  then have "\<forall>x \<in> set (take (nat (pu_batch_size pu)) (map encoded (pending_of (rows (pb_db ((publish_pending pu ^^ k) s)))))). x = None"
    using poison by (auto simp: take_map)
  from poison_pass [OF pu this] Suc show ?case by simp
qed simp

end

section \<open>Both packages and the Kafka producer\<close>

lemma pending_messages_of: "pending_messages d = pending_of (d_outbox d)"
  by (simp add: pending_messages_def pending_of_def)

text \<open>Every statement uses up a fault.\<close>

lemma stmt_faults:
  assumes "stmt f d = (r, d')" "\<And>d. d_faults (snd (f d)) = d_faults d"
  shows "length (d_faults d') = length (d_faults d) - 1"
proof -
  have "d' = snd (stmt f d)" using assms(1) by simp
  then show ?thesis by (simp add: stmt_def assms(2) split: list.split db_fault.split)
qed

lemma update_outbox_faults [simp]: "d_faults (snd (update_outbox i f d)) = d_faults d"
  by (simp add: update_outbox_def)

lemma update_outbox_rows: "d_outbox (snd (update_outbox i f d)) = set_row i f (d_outbox d)"
  by (simp add: update_outbox_def set_row_def)

definition sent_row :: "int \<Rightarrow> (db, unit) eff" where
  "sent_row i d = update_outbox i (as_sent (d_now d)) d"

definition failed_row :: "int \<Rightarrow> go_error option \<Rightarrow> (db, unit) eff" where
  "failed_row i e d = update_outbox i (as_failed (d_now d) (case e of None \<Rightarrow> [] | Some e \<Rightarrow> err_text e)) d"

lemma marks_as_rows:
  "sql_mark_as_sent i = stmt (sent_row i)" "orm_mark_as_sent i = gorm_write (sent_row i)"
  "sql_mark_publish_failed i e = stmt (failed_row i e)" "orm_mark_publish_failed i e = gorm_write (failed_row i e)"
  by (simp_all add: sql_mark_as_sent_def orm_mark_as_sent_def sql_mark_publish_failed_def orm_mark_publish_failed_def
      sent_row_def [abs_def] failed_row_def [abs_def] as_sent_def [abs_def] as_failed_def [abs_def])

lemma row_updates:
  "d_outbox (snd (sent_row i d)) = set_row i (as_sent (d_now d)) (d_outbox d)" "d_faults (snd (sent_row i d)) = d_faults d"
  "d_outbox (snd (failed_row i e d)) = set_row i (as_failed (d_now d) (case e of None \<Rightarrow> [] | Some e \<Rightarrow> err_text e)) (d_outbox d)"
  "d_faults (snd (failed_row i e d)) = d_faults d" "fst (sent_row i d) = Inr ()"
  by (simp_all add: sent_row_def failed_row_def update_outbox_rows) (simp add: update_outbox_def)

lemma gorm_write_faults:
  assumes "gorm_write f d = (r, d')" "\<And>d. d_faults (snd (f d)) = d_faults d"
  shows "length (d_faults d') \<le> length (d_faults d)" "length (d_faults d') = 0 \<or> length (d_faults d') < length (d_faults d)"
proof -
  have *: "length (d_faults (snd (stmt g e))) = length (d_faults e) - 1" if "\<And>d. d_faults (snd (g d)) = d_faults d" for g :: "(db, 'x) eff" and e
    using stmt_faults [OF _ that, of e] by (metis prod.collapse)
  obtain r1 d1 where 1: "stmt (ret ()) d = (r1, d1)" by fastforce
  obtain r2 d2 where 2: "stmt f d1 = (r2, d2)" by fastforce
  obtain r3 d3 where 3: "stmt (ret ()) d2 = (r3, d3)" by fastforce
  have l: "length (d_faults d1) = length (d_faults d) - 1" "length (d_faults d2) = length (d_faults d1) - 1"
    "length (d_faults d3) = length (d_faults d2) - 1"
    using stmt_faults [OF 1] stmt_faults [OF 2 assms(2)] stmt_faults [OF 3] by simp_all
  have "d_faults d' \<in> {d_faults d1, d_faults d2, d_faults d3}"
    using assms(1) by (auto simp: gorm_write_def transaction_def 1 2 3 rollback_def split: sum.splits if_splits)
  with l show "length (d_faults d') \<le> length (d_faults d)" "length (d_faults d') = 0 \<or> length (d_faults d') < length (d_faults d)"
    by auto
qed

lemma stmt_row:
  assumes "stmt f d = (r, d')" "\<And>d. \<exists>t. d_outbox (snd (f d)) = set_row i (g t) (d_outbox d)"
  shows "d_outbox d' = d_outbox d \<and> d_faults d \<noteq> [] \<or> (\<exists>t. d_outbox d' = set_row i (g t) (d_outbox d))"
proof (cases "d_faults d = []")
  case True
  then show ?thesis using assms(1) assms(2) [of d] by (auto simp: stmt_calm)
next
  case False
  from assms(1) show ?thesis
  proof (cases rule: stmt_cases)
    case (not_run e)
    with False show ?thesis by (simp add: same_tables_def)
  next
    case (ran fs r1)
    with assms(2) [of "d\<lparr>d_faults := fs\<rparr>"] show ?thesis by auto
  qed
qed

lemma gorm_write_row:
  assumes "gorm_write f d = (r, d')" "\<And>d. \<exists>t. d_outbox (snd (f d)) = set_row i (g t) (d_outbox d)"
    and "\<And>d. d_faults (snd (f d)) = d_faults d" "\<And>d. \<exists>x. fst (f d) = Inr x"
  shows "d_outbox d' = d_outbox d \<and> d_faults d \<noteq> [] \<or> (\<exists>t. d_outbox d' = set_row i (g t) (d_outbox d))"
proof (cases "d_faults d = []")
  case True
  obtain x d2 where "f d = (Inr x, d2)" using assms(4) by (metis prod.collapse)
  with True have "transaction (stmt f) d = (Inr x, d2)"
    using assms(3) [of d] by (intro transaction_calm) (simp_all add: stmt_calm)
  with assms(1) assms(2) [of d] \<open>f d = (Inr x, d2)\<close> show ?thesis by (simp add: gorm_write_def)
next
  case False
  from assms(1) [unfolded gorm_write_def] show ?thesis
  proof (cases rule: transaction_cases)
    case (rolled_back e)
    with False show ?thesis by (simp add: same_tables_def)
  next
    case (committed x d1 d2)
    with False stmt_row [OF committed(5) assms(2)] show ?thesis by (auto simp: same_tables_def)
  qed
qed

interpretation sql_outbox: outbox_store sql_get_pending_messages sql_mark_as_sent sql_mark_publish_failed d_outbox
  "\<lambda>d. length (d_faults d)"
proof (unfold_locales, goal_cases)
  case (1 n d r d')
  define q where "q = (\<lambda>d :: db. ((if n < 0 then Inl (PqError ''2201W'') else Inr (take (nat n) (pending_messages d)) :: outbox_message list result), d))"
  have run: "stmt q d = (r, d')" using 1 by (simp add: sql_get_pending_messages_def q_def)
  have "length (d_faults d') = length (d_faults d) - 1" by (rule stmt_faults [OF run]) (simp add: q_def)
  moreover have "d_faults d = [] \<Longrightarrow> \<exists>ms. r = Inr ms" using run 1(1) by (auto simp: stmt_calm q_def)
  moreover from run have "d_outbox d' = d_outbox d \<and> (\<forall>ms. r = Inr ms \<longrightarrow> ms = take (nat n) (pending_of (d_outbox d)))"
  proof (cases rule: stmt_cases)
    case (not_run e)
    then show ?thesis by (simp add: same_tables_def)
  next
    case (ran fs r1)
    then show ?thesis using 1(1) by (auto simp: q_def pending_messages_of)
  qed
  ultimately show ?case by auto
next
  case (2 i d r d')
  then have run: "stmt (sent_row i) d = (r, d')" by (simp add: marks_as_rows)
  have "\<exists>t. d_outbox (snd (sent_row i d)) = set_row i (as_sent t) (d_outbox d)" for d using row_updates by blast
  with stmt_row [OF run] stmt_faults [OF run] show ?case by (auto simp: row_updates)
next
  case (3 i e d r d')
  then have run: "stmt (failed_row i e) d = (r, d')" by (simp add: marks_as_rows)
  have "\<exists>t. d_outbox (snd (failed_row i e d)) = set_row i ((\<lambda>(t, txt). as_failed t txt) t) (d_outbox d)" for d
    using row_updates(3) by (metis case_prod_conv)
  from stmt_row [OF run this] stmt_faults [OF run] show ?case by (force simp: row_updates)
qed

lemma query_faults: "query q d = (r, d') \<Longrightarrow> length (d_faults d') = length (d_faults d) - 1"
  unfolding query_def by (erule stmt_faults) simp

interpretation orm_outbox: outbox_store orm_get_pending_messages orm_mark_as_sent orm_mark_publish_failed d_outbox
  "\<lambda>d. length (d_faults d)"
proof (unfold_locales, goal_cases)
  case (1 n d r d')
  let ?q = "\<lambda>d. if n < 0 then pending_messages d else take (nat n) (pending_messages d)"
  have run: "query ?q d = (r, d')" using 1 by (simp add: orm_get_pending_messages_def)
  from query_Inr [OF run] have "d_outbox d' = d_outbox d" "\<forall>x. r = Inr x \<longrightarrow> x = ?q d'" by (auto simp: same_tables_def)
  moreover have "d_faults d = [] \<Longrightarrow> \<exists>ms. r = Inr ms" using run by (auto simp: query_calm)
  ultimately show ?case using query_faults [OF run] 1(1) by (auto simp: pending_messages_of)
next
  case (2 i d r d')
  then have run: "gorm_write (sent_row i) d = (r, d')" by (simp add: marks_as_rows)
  have "\<exists>t. d_outbox (snd (sent_row i d)) = set_row i (as_sent t) (d_outbox d)" for d using row_updates by blast
  with gorm_write_row [OF run] gorm_write_faults [OF run] show ?case by (auto simp: row_updates)
next
  case (3 i e d r d')
  then have run: "gorm_write (failed_row i e) d = (r, d')" by (simp add: marks_as_rows)
  have row: "\<exists>t. d_outbox (snd (failed_row i e d)) = set_row i ((\<lambda>(t, txt). as_failed t txt) t) (d_outbox d)" for d
    using row_updates(3) by (metis case_prod_conv)
  have "\<exists>x. fst (failed_row i e d) = Inr x" for d by (simp add: failed_row_def update_outbox_def)
  from gorm_write_row [OF run row row_updates(4) this] gorm_write_faults [OF run] show ?case by (force simp: row_updates)
qed

text \<open>What \<open>ProduceRaw\<close> sends: the payload, or with the Avro codec its encoding, if it has one.\<close>

fun raw_encode :: "(string \<Rightarrow> link_update result) \<Rightarrow> confluent_producer \<Rightarrow> string \<times> string \<times> string \<Rightarrow> kafka_message option" where
  "raw_encode unmarshal kp (topic, key, payload) =
     (case kp_codec kp of
        None \<Rightarrow> Some (update_message topic key payload)
      | Some serialize \<Rightarrow>
          (case unmarshal payload of
             Inl e \<Rightarrow> None
           | Inr u \<Rightarrow> (case serialize u of Inl e \<Rightarrow> None | Inr body \<Rightarrow> Some (update_message topic key body))))"

lemma produce_bytes_script:
  "produce_bytes t k v b = (r, b') \<Longrightarrow>
   (if b_script b = [] then r = Inr () \<and> b_script b' = [] else length (b_script b') < length (b_script b))"
  by (auto simp: produce_bytes_def next_outcome_def store_if_def Let_def
      split: produce_outcome.splits list.splits if_splits)

interpretation kafka_raw: raw_producer "kafka_produce_raw unmarshal kp" "raw_encode unmarshal kp" b_log "\<lambda>b. length (b_script b)"
  for unmarshal kp
proof (unfold_locales, goal_cases)
  case (1 t k v p r p')
  then show ?case by (auto simp: kafka_produce_raw_def split: option.splits sum.splits)
next
  case (2 t k v p r p' m)
  then obtain body where "produce_bytes t k body p = (r, p')" "m = update_message t k body"
    by (auto simp: kafka_produce_raw_def split: option.splits sum.splits)
  with produce_bytes_cases [of t k body p r p'] produce_bytes_script [of t k body p r p'] show ?case by auto
qed

interpretation sql_pass: outbox_pass sql_get_pending_messages sql_mark_as_sent sql_mark_publish_failed d_outbox
  "\<lambda>d. length (d_faults d)" "kafka_produce_raw unmarshal kp" "raw_encode unmarshal kp" b_log "\<lambda>b. length (b_script b)"
  for unmarshal kp ..

interpretation orm_pass: outbox_pass orm_get_pending_messages orm_mark_as_sent orm_mark_publish_failed d_outbox
  "\<lambda>d. length (d_faults d)" "kafka_produce_raw unmarshal kp" "raw_encode unmarshal kp" b_log "\<lambda>b. length (b_script b)"
  for unmarshal kp ..

definition raw_message :: "(string \<Rightarrow> link_update result) \<Rightarrow> confluent_producer \<Rightarrow> outbox_message \<Rightarrow> kafka_message option" where
  "raw_message unmarshal kp m = raw_encode unmarshal kp (message_content m)"

text \<open>The publisher the program sets up, over either repository package.\<close>

definition outbox_publishers ::
    "(string \<Rightarrow> link_update result) \<Rightarrow> confluent_producer \<Rightarrow> duration \<Rightarrow> int \<Rightarrow> (db, broker) outbox_publisher set" where
  "outbox_publishers unmarshal kp interval n =
     {new_outbox_publisher sql_get_pending_messages sql_mark_as_sent sql_mark_publish_failed (kafka_produce_raw unmarshal kp) interval n,
      new_outbox_publisher orm_get_pending_messages orm_mark_as_sent orm_mark_publish_failed (kafka_produce_raw unmarshal kp) interval n}"

lemma encoded_raw: "sql_pass.encoded unmarshal kp = raw_message unmarshal kp" "orm_pass.encoded unmarshal kp = raw_message unmarshal kp"
  by (simp_all add: fun_eq_iff sql_pass.encoded_def orm_pass.encoded_def raw_message_def)

lemma outbox_passes:
  assumes "pu \<in> outbox_publishers unmarshal kp interval n" "db_ok (pb_db s)"
  shows "\<exists>new. b_log (pb_broker ((publish_pending pu ^^ k) s)) = b_log (pb_broker s) @ new \<and>
     set new \<subseteq> {km. \<exists>m \<in> set (pending_messages (pb_db s)). raw_message unmarshal kp m = Some km} \<and>
     list_all2 (row_step (raw_message unmarshal kp) new) (d_outbox (pb_db s)) (d_outbox (pb_db ((publish_pending pu ^^ k) s)))"
proof -
  have ids: "distinct (map omID (d_outbox (pb_db s)))" using assms(2) by (simp add: db_ok_def)
  from assms(1) show ?thesis unfolding outbox_publishers_def
  proof (elim insertE emptyE)
    assume "pu = new_outbox_publisher sql_get_pending_messages sql_mark_as_sent sql_mark_publish_failed (kafka_produce_raw unmarshal kp) interval n"
    from sql_pass.passes_move [OF this ids, of k] show ?thesis
      unfolding sql_pass.moves_def encoded_raw pending_messages_of by blast
  next
    assume "pu = new_outbox_publisher orm_get_pending_messages orm_mark_as_sent orm_mark_publish_failed (kafka_produce_raw unmarshal kp) interval n"
    from orm_pass.passes_move [OF this ids, of k] show ?thesis
      unfolding orm_pass.moves_def encoded_raw pending_messages_of by blast
  qed
qed

lemma outbox_drain:
  assumes "pu \<in> outbox_publishers unmarshal kp interval n" "db_ok (pb_db s)"
    and "\<forall>m \<in> set (pending_messages (pb_db s)). raw_message unmarshal kp m \<noteq> None"
    and "length (d_faults (pb_db s)) + length (b_script (pb_broker s)) + length (pending_messages (pb_db s)) \<le> k"
  shows "pending_messages (pb_db ((publish_pending pu ^^ k) s)) = []"
proof -
  have ids: "distinct (map omID (d_outbox (pb_db s)))" using assms(2) by (simp add: db_ok_def)
  note hyps = assms(3,4) [unfolded pending_messages_of]
  from assms(1) show ?thesis unfolding outbox_publishers_def pending_messages_of
  proof (elim insertE emptyE)
    assume pu: "pu = new_outbox_publisher sql_get_pending_messages sql_mark_as_sent sql_mark_publish_failed (kafka_produce_raw unmarshal kp) interval n"
    show "pending_of (d_outbox (pb_db ((publish_pending pu ^^ k) s))) = []"
      using sql_pass.passes_drain [OF pu ids, unfolded encoded_raw sql_pass.potential_def, OF hyps] .
  next
    assume pu: "pu = new_outbox_publisher orm_get_pending_messages orm_mark_as_sent orm_mark_publish_failed (kafka_produce_raw unmarshal kp) interval n"
    show "pending_of (d_outbox (pb_db ((publish_pending pu ^^ k) s))) = []"
      using orm_pass.passes_drain [OF pu ids, unfolded encoded_raw orm_pass.potential_def, OF hyps] .
  qed
qed

lemma outbox_poison:
  assumes "pu \<in> outbox_publishers unmarshal kp interval n"
    and "\<forall>m \<in> set (take (nat (pu_batch_size pu)) (pending_messages (pb_db s))). raw_message unmarshal kp m = None"
  shows "pb_broker ((publish_pending pu ^^ k) s) = pb_broker s"
proof -
  note hyps = assms(2) [unfolded pending_messages_of]
  from assms(1) show ?thesis unfolding outbox_publishers_def
  proof (elim insertE emptyE)
    assume pu: "pu = new_outbox_publisher sql_get_pending_messages sql_mark_as_sent sql_mark_publish_failed (kafka_produce_raw unmarshal kp) interval n"
    show ?thesis using sql_pass.poison_passes [OF pu, unfolded encoded_raw, OF hyps] by blast
  next
    assume pu: "pu = new_outbox_publisher orm_get_pending_messages orm_mark_as_sent orm_mark_publish_failed (kafka_produce_raw unmarshal kp) interval n"
    show ?thesis using orm_pass.poison_passes [OF pu, unfolded encoded_raw, OF hyps] by blast
  qed
qed

section \<open>What the passes guarantee\<close>

definition example_pending :: "int \<Rightarrow> instant \<Rightarrow> string \<Rightarrow> outbox_message" where
  "example_pending i t payload =
     \<lparr>omID = i, omTopic = ''link.updates'', omMessageKey = ''7'', omPayload = payload, omStatus = OutboxPending,
      omAttempts = 0, omLastError = None, omCreatedAt = t, omUpdatedAt = t, omSentAt = None\<rparr>"

text \<open>Two messages in the outbox, the older one with the given payload.\<close>

definition example_outbox :: "string \<Rightarrow> db_fault list \<Rightarrow> produce_outcome list \<Rightarrow> (db, broker) publishing" where
  "example_outbox payload faults script =
     \<lparr>pb_db = (empty_db 9)\<lparr>d_outbox := [example_pending 1 5 payload, example_pending 2 6 ''ok''], d_outbox_seq := 2, d_faults := faults\<rparr>,
      pb_broker = \<lparr>b_log = [], b_script = script\<rparr>\<rparr>"

definition example_kafka :: confluent_producer where
  "example_kafka = \<lparr>kp_topic = ''link.updates'', kp_codec = Some (\<lambda>u. Inr (uURL u))\<rparr>"

definition example_unmarshal :: "string \<Rightarrow> link_update result" where
  "example_unmarshal s = (if s = ''ok'' then Inr (empty_update\<lparr>uURL := ''url''\<rparr>) else Inl (LibError ''json.Unmarshal'' s))"

lemma example_outbox_ok: "db_ok (pb_db (example_outbox payload faults script))"
  by (simp add: example_outbox_def example_pending_def empty_db_def db_ok_def)

lemma example_outbox_pending:
  "pending_messages (pb_db (example_outbox payload faults script)) = [example_pending 1 5 payload, example_pending 2 6 ''ok'']"
  by (simp add: example_outbox_def example_pending_def pending_messages_def)

text \<open>
  (C12) Whatever statements of the database fail or lose their answer and whatever Kafka answers, after any
  number of passes of the publisher over either repository package: the Kafka log has grown only by messages
  that were pending, encoded as \<open>ProduceRaw\<close> does, no row of the outbox is lost or changes its identity or
  content, and a row has become sent only if its message is among the ones stored.
\<close>

theorem outbox_sent_only_stored:
  assumes "pu \<in> outbox_publishers unmarshal kp interval n" "db_ok (pb_db s)"
  shows "\<exists>new. b_log (pb_broker ((publish_pending pu ^^ k) s)) = b_log (pb_broker s) @ new \<and>
     set new \<subseteq> {km. \<exists>m \<in> set (pending_messages (pb_db s)). raw_message unmarshal kp m = Some km} \<and>
     list_all2 (row_step (raw_message unmarshal kp) new) (d_outbox (pb_db s)) (d_outbox (pb_db ((publish_pending pu ^^ k) s)))"
  by (rule outbox_passes [OF assms])

lemma outbox_sent_only_stored_witness:
  "let s = example_outbox ''ok'' [Healthy, AckLost ErrUnexpectedError] [ContextDone True];
       s3 = (publish_pending (new_outbox_publisher sql_get_pending_messages sql_mark_as_sent
         sql_mark_publish_failed (kafka_produce_raw example_unmarshal example_kafka) 0 0) ^^ 3) s
   in \<exists>new. b_log (pb_broker s3) = new \<and>
        list_all2 (row_step (raw_message example_unmarshal example_kafka) new) (d_outbox (pb_db s)) (d_outbox (pb_db s3))"
proof -
  have "new_outbox_publisher sql_get_pending_messages sql_mark_as_sent sql_mark_publish_failed
      (kafka_produce_raw example_unmarshal example_kafka) 0 0 \<in> outbox_publishers example_unmarshal example_kafka 0 0"
    by (simp add: outbox_publishers_def)
  from outbox_sent_only_stored [OF this example_outbox_ok [of "''ok''" "[Healthy, AckLost ErrUnexpectedError]" "[ContextDone True]"], of 3]
  show ?thesis unfolding Let_def by (auto simp: example_outbox_def)
qed

text \<open>
  (C5) Passes do empty the outbox: if every pending message can be encoded, then after as many passes as the
  database and Kafka still have faults and there are pending messages, nothing is pending and each of
  those messages is stored in Kafka.
\<close>

theorem outbox_drains:
  assumes pu: "pu \<in> outbox_publishers unmarshal kp interval n" and ok: "db_ok (pb_db s)"
    and enc: "\<forall>m \<in> set (pending_messages (pb_db s)). raw_message unmarshal kp m \<noteq> None"
    and k: "length (d_faults (pb_db s)) + length (b_script (pb_broker s)) + length (pending_messages (pb_db s)) \<le> k"
  shows "pending_messages (pb_db ((publish_pending pu ^^ k) s)) = [] \<and>
    (\<forall>m \<in> set (pending_messages (pb_db s)).
       the (raw_message unmarshal kp m) \<in> set (b_log (pb_broker ((publish_pending pu ^^ k) s))))"
proof
  let ?s = "(publish_pending pu ^^ k) s"
  show drained: "pending_messages (pb_db ?s) = []" by (rule outbox_drain [OF pu ok enc k])
  obtain new where new: "b_log (pb_broker ?s) = b_log (pb_broker s) @ new"
      "list_all2 (row_step (raw_message unmarshal kp) new) (d_outbox (pb_db s)) (d_outbox (pb_db ?s))"
    using outbox_passes [OF pu ok] by blast
  show "\<forall>m \<in> set (pending_messages (pb_db s)). the (raw_message unmarshal kp m) \<in> set (b_log (pb_broker ?s))"
  proof
    fix m assume "m \<in> set (pending_messages (pb_db s))"
    then have m: "m \<in> set (d_outbox (pb_db s))" "omStatus m = OutboxPending" by (auto simp: pending_messages_def)
    then obtain m' where m': "m' \<in> set (d_outbox (pb_db ?s))" "row_step (raw_message unmarshal kp) new m m'"
      using new(2) by (metis in_set_conv_nth list_all2_conv_all_nth)
    then have "omStatus m' \<noteq> OutboxPending"
      using drained pending_of_member [of m' "d_outbox (pb_db ?s)"] by (auto simp: pending_messages_of)
    then show "the (raw_message unmarshal kp m) \<in> set (b_log (pb_broker ?s))"
      using m'(2) m(2) new(1) by (auto simp: row_step_def)
  qed
qed

lemma outbox_drains_witness:
  "pending_messages (pb_db ((publish_pending (new_outbox_publisher orm_get_pending_messages orm_mark_as_sent
      orm_mark_publish_failed (kafka_produce_raw example_unmarshal example_kafka) 0 1) ^^ 5)
      (example_outbox ''ok'' [Refused ErrContextDone, Healthy] [EnqueueError ErrContextDone]))) = []"
  using outbox_drains [of "new_outbox_publisher orm_get_pending_messages orm_mark_as_sent
      orm_mark_publish_failed (kafka_produce_raw example_unmarshal example_kafka) 0 1" example_unmarshal example_kafka 0 1
      "example_outbox ''ok'' [Refused ErrContextDone, Healthy] [EnqueueError ErrContextDone]" 5,
      OF _ example_outbox_ok, unfolded example_outbox_pending]
  by (simp add: outbox_publishers_def raw_message_def message_content_def example_pending_def example_kafka_def
      example_unmarshal_def example_outbox_def)

text \<open>
  (C37) Messages that can never be encoded block the outbox: nothing takes them out of the pending ones, so
  when they are the oldest and fill a batch, no number of passes produces anything, however many good
  messages wait behind them.
\<close>

theorem poison_batch_blocks_outbox:
  assumes "pu \<in> outbox_publishers unmarshal kp interval n"
    and "\<forall>m \<in> set (take (nat (pu_batch_size pu)) (pending_messages (pb_db s))). raw_message unmarshal kp m = None"
  shows "pb_broker ((publish_pending pu ^^ k) s) = pb_broker s"
  by (rule outbox_poison [OF assms])

lemma poison_batch_blocks_outbox_witness:
  "raw_message example_unmarshal example_kafka (example_pending 2 6 ''ok'') \<noteq> None \<and>
   (\<forall>k. b_log (pb_broker ((publish_pending (new_outbox_publisher sql_get_pending_messages sql_mark_as_sent
      sql_mark_publish_failed (kafka_produce_raw example_unmarshal example_kafka) 0 1) ^^ k) (example_outbox ''bad'' [] []))) = [])"
proof -
  let ?pu = "new_outbox_publisher sql_get_pending_messages sql_mark_as_sent sql_mark_publish_failed
      (kafka_produce_raw example_unmarshal example_kafka) 0 1"
  have "pb_broker ((publish_pending ?pu ^^ k) (example_outbox ''bad'' [] [])) = pb_broker (example_outbox ''bad'' [] [])" for k
  proof (rule poison_batch_blocks_outbox [of _ example_unmarshal example_kafka 0 1])
    show "\<forall>m \<in> set (take (nat (pu_batch_size ?pu)) (pending_messages (pb_db (example_outbox ''bad'' [] [])))).
        raw_message example_unmarshal example_kafka m = None"
      unfolding example_outbox_pending
      by (simp add: new_outbox_publisher_def raw_message_def message_content_def example_pending_def example_kafka_def example_unmarshal_def)
  qed (simp add: outbox_publishers_def)
  then show ?thesis
    by (simp add: example_outbox_def raw_message_def message_content_def example_pending_def example_kafka_def example_unmarshal_def)
qed

end
