(* ===== verification/Bot_Dialogue.thy ===== *)
theory Bot_Dialogue
  imports Link_Parsers Scrapper_Db
begin

text \<open>
  The bot's dialogue with a chat: the sessions of \<open>/track\<close> in their table, as both repository
  packages keep it (\<open>persistence/*/repositories/track_session_repository.go\<close>), the track service
  (\<open>application/services/track_service.go\<close>), the commands (\<open>application/commands\<close>), the dispatcher
  (\<open>application/dispatch/dispatch.go\<close>) and the loop over the messages of Telegram
  (\<open>infrastructure/adapters/bot.go\<close>).  The client of the scrapper is the interface
  \<open>ScrapperClient\<close>: a record of its operations on the world outside.  Metrics and logging are left out.
\<close>

section \<open>Sessions\<close>

definition state_idle :: string where "state_idle = ''idle''"
definition state_waiting_for_url :: string where "state_waiting_for_url = ''waiting_for_url''"
definition state_waiting_for_tags :: string where "state_waiting_for_tags = ''waiting_for_tags''"

record track_session =
  tsChatID :: int
  tsState :: string
  tsURL :: string

text \<open>The table \<open>track_sessions\<close>, with the script of faults of the database.\<close>

record session_db =
  ss_rows :: "track_session list"
  ss_faults :: "db_fault list"

definition session_stmt :: "(session_db, 'a) eff \<Rightarrow> (session_db, 'a) eff" where
  "session_stmt f d =
     (case ss_faults d of
        [] \<Rightarrow> f d
      | Healthy # fs \<Rightarrow> f (d\<lparr>ss_faults := fs\<rparr>)
      | Refused e # fs \<Rightarrow> (Inl e, d\<lparr>ss_faults := fs\<rparr>)
      | AckLost e # fs \<Rightarrow> (Inl e, snd (f (d\<lparr>ss_faults := fs\<rparr>))))"

text \<open>gorm's transaction around one statement that writes; a refused commit rolls back.\<close>

definition session_write :: "(session_db, 'a) eff \<Rightarrow> (session_db, 'a) eff" where
  "session_write f d =
     (case session_stmt (ret ()) d of
        (Inl e, d1) \<Rightarrow> (Inl e, d1)
      | (Inr _, d1) \<Rightarrow>
          (case session_stmt f d1 of
             (Inl e, d2) \<Rightarrow> (Inl e, d2\<lparr>ss_rows := ss_rows d1\<rparr>)
           | (Inr x, d2) \<Rightarrow>
               (case session_stmt (ret ()) d2 of
                  (Inr _, d3) \<Rightarrow> (Inr x, d3)
                | (Inl e, d3) \<Rightarrow>
                    (Inl e, case ss_faults d2 of AckLost _ # _ \<Rightarrow> d3 | _ \<Rightarrow> d3\<lparr>ss_rows := ss_rows d1\<rparr>))))"

definition find_session :: "int \<Rightarrow> track_session list \<Rightarrow> track_session option" where
  "find_session chat rows = find (\<lambda>r. tsChatID r = chat) rows"

text \<open>\<open>INSERT ... ON CONFLICT (chat_id) DO UPDATE SET state, url\<close>\<close>

definition upsert_session :: "track_session \<Rightarrow> (session_db, unit) eff" where
  "upsert_session r d =
     (Inr (), d\<lparr>ss_rows :=
        (if find_session (tsChatID r) (ss_rows d) = None then ss_rows d @ [r]
         else map (\<lambda>x. if tsChatID x = tsChatID r then r else x) (ss_rows d))\<rparr>)"

definition delete_session :: "int \<Rightarrow> (session_db, unit) eff" where
  "delete_session chat d = (Inr (), d\<lparr>ss_rows := filter (\<lambda>r. tsChatID r \<noteq> chat) (ss_rows d)\<rparr>)"

text \<open>A session found, or \<open>None\<close> for \<open>ok = false\<close>.\<close>

record 'd session_repository =
  sr_get :: "int \<Rightarrow> ('d, track_session option) eff"
  sr_set :: "int \<Rightarrow> track_session \<Rightarrow> ('d, unit) eff"
  sr_reset :: "int \<Rightarrow> ('d, unit) eff"

definition sql_session_get :: "int \<Rightarrow> (session_db, track_session option) eff" where
  "sql_session_get chat = session_stmt (\<lambda>d. (Inr (find_session chat (ss_rows d)), d))"

definition sql_session_set :: "int \<Rightarrow> track_session \<Rightarrow> (session_db, unit) eff" where
  "sql_session_set chat session = session_stmt (upsert_session (session\<lparr>tsChatID := chat\<rparr>))"

definition sql_session_reset :: "int \<Rightarrow> (session_db, unit) eff" where
  "sql_session_reset chat = session_stmt (delete_session chat)"

definition orm_session_get :: "int \<Rightarrow> (session_db, track_session option) eff" where
  "orm_session_get chat = session_stmt (\<lambda>d. (Inr (find_session chat (ss_rows d)), d))"

definition orm_session_set :: "int \<Rightarrow> track_session \<Rightarrow> (session_db, unit) eff" where
  "orm_session_set chat session =
     session_write (upsert_session \<lparr>tsChatID = chat, tsState = tsState session, tsURL = tsURL session\<rparr>)"

definition orm_session_reset :: "int \<Rightarrow> (session_db, unit) eff" where
  "orm_session_reset chat = session_write (delete_session chat)"

definition sql_sessions_repo :: "session_db session_repository" where
  "sql_sessions_repo = \<lparr>sr_get = sql_session_get, sr_set = sql_session_set, sr_reset = sql_session_reset\<rparr>"

definition orm_sessions_repo :: "session_db session_repository" where
  "orm_sessions_repo = \<lparr>sr_get = orm_session_get, sr_set = orm_session_set, sr_reset = orm_session_reset\<rparr>"

section \<open>The client of the scrapper\<close>

record bot_link =
  blURL :: string
  blTags :: "string list"

record 'w scrapper_client =
  cl_register :: "int \<Rightarrow> ('w, unit) eff"
  cl_delete_chat :: "int \<Rightarrow> ('w, unit) eff"
  cl_add :: "int \<Rightarrow> string \<Rightarrow> string list \<Rightarrow> ('w, unit) eff"
  cl_remove :: "int \<Rightarrow> string \<Rightarrow> ('w, unit) eff"
  cl_remove_by_tag :: "int \<Rightarrow> string \<Rightarrow> ('w, int) eff"
  cl_list :: "int \<Rightarrow> ('w, bot_link list) eff"

text \<open>The state of the bot, and what a handler returns: a text and an error.\<close>

record ('d, 'w) bot_state =
  bs_sessions :: 'd
  bs_world :: 'w

type_synonym reply = "string \<times> go_error option"
type_synonym ('d, 'w, 'a) bot = "('d, 'w) bot_state \<Rightarrow> 'a \<times> ('d, 'w) bot_state"

definition on_sessions :: "('d, 'a) eff \<Rightarrow> ('d, 'w, 'a result) bot" where
  "on_sessions m s = (case m (bs_sessions s) of (r, d) \<Rightarrow> (r, s\<lparr>bs_sessions := d\<rparr>))"

definition on_world :: "('w, 'a) eff \<Rightarrow> ('d, 'w, 'a result) bot" where
  "on_world m s = (case m (bs_world s) of (r, w) \<Rightarrow> (r, s\<lparr>bs_world := w\<rparr>))"

definition andthen :: "('s \<Rightarrow> 'a \<times> 's) \<Rightarrow> ('a \<Rightarrow> 's \<Rightarrow> 'b \<times> 's) \<Rightarrow> 's \<Rightarrow> 'b \<times> 's" where
  "andthen m k s = (case m s of (x, s') \<Rightarrow> k x s')"

record ('d, 'w) track_service =
  tkClient :: "'w scrapper_client"
  tkRepo :: "'d session_repository"

section \<open>Texts\<close>

definition txt_register_failed :: string where
  "txt_register_failed =
     encode_runes
      [0x41D, 0x435, 0x20, 0x443, 0x434, 0x430, 0x43B, 0x43E, 0x441, 0x44C, 0x20, 0x437, 0x430, 0x440,
       0x435, 0x433, 0x438, 0x441, 0x442, 0x440, 0x438, 0x440, 0x43E, 0x432, 0x430, 0x442, 0x44C, 0x20,
       0x447, 0x430, 0x442] @
     ''. '' @
     encode_runes
      [0x41F, 0x43E, 0x43F, 0x440, 0x43E, 0x431, 0x443, 0x439, 0x20, 0x43F, 0x43E, 0x437, 0x436, 0x435]"

definition txt_state_not_saved :: string where
  "txt_state_not_saved =
     encode_runes
      [0x41D, 0x435, 0x20, 0x443, 0x434, 0x430, 0x43B, 0x43E, 0x441, 0x44C, 0x20, 0x441, 0x43E, 0x445,
       0x440, 0x430, 0x43D, 0x438, 0x442, 0x44C, 0x20, 0x441, 0x43E, 0x441, 0x442, 0x43E, 0x44F, 0x43D,
       0x438, 0x435] @
     ''. '' @
     encode_runes
      [0x41F, 0x43E, 0x43F, 0x440, 0x43E, 0x431, 0x443, 0x439, 0x20, 0x43F, 0x43E, 0x437, 0x436, 0x435]"

definition txt_send_link :: string where
  "txt_send_link =
     encode_runes
      [0x41E, 0x442, 0x43F, 0x440, 0x430, 0x432, 0x44C, 0x20, 0x43C, 0x43D, 0x435, 0x20, 0x441, 0x441,
       0x44B, 0x43B, 0x43A, 0x443] @
     '', '' @
     encode_runes
      [0x43A, 0x43E, 0x442, 0x43E, 0x440, 0x443, 0x44E, 0x20, 0x445, 0x43E, 0x447, 0x435, 0x448, 0x44C,
       0x20, 0x43E, 0x442, 0x441, 0x43B, 0x435, 0x436, 0x438, 0x432, 0x430, 0x442, 0x44C]"

definition txt_bad_link :: string where
  "txt_bad_link =
     encode_runes
      [0x41D, 0x435, 0x43A, 0x43E, 0x440, 0x440, 0x435, 0x43A, 0x442, 0x43D, 0x430, 0x44F, 0x20, 0x441,
       0x441, 0x44B, 0x43B, 0x43A, 0x430] @
     ''. '' @
     encode_runes
      [0x41F, 0x43E, 0x434, 0x434, 0x435, 0x440, 0x436, 0x438, 0x432, 0x430, 0x44E, 0x442, 0x441, 0x44F,
       0x20, 0x442, 0x43E, 0x43B, 0x44C, 0x43A, 0x43E, 0x20, 0x441, 0x441, 0x44B, 0x43B, 0x43A, 0x438,
       0x20] @
     ''GitHub '' @
     encode_runes
      [0x438, 0x20] @
     ''StackOverflow''"

definition txt_send_tags :: string where
  "txt_send_tags =
     encode_runes
      [0x41E, 0x442, 0x43F, 0x440, 0x430, 0x432, 0x44C, 0x20, 0x43C, 0x43D, 0x435, 0x20, 0x442, 0x435,
       0x433, 0x438] @
     '', '' @
     encode_runes
      [0x440, 0x430, 0x437, 0x434, 0x435, 0x43B, 0x435, 0x43D, 0x43D, 0x44B, 0x435, 0x20, 0x437, 0x430,
       0x43F, 0x44F, 0x442, 0x43E, 0x439] @
     '', '' @
     encode_runes
      [0x438, 0x43B, 0x438, 0x20, 0x43D, 0x430, 0x43F, 0x438, 0x448, 0x438, 0x20, 0x22] @
     ''-'' @
     encode_runes
      [0x22, 0x20, 0x435, 0x441, 0x43B, 0x438, 0x20, 0x445, 0x43E, 0x447, 0x435, 0x448, 0x44C, 0x20,
       0x43F, 0x440, 0x43E, 0x43F, 0x443, 0x441, 0x442, 0x438, 0x442, 0x44C, 0x20, 0x44D, 0x442, 0x43E,
       0x442, 0x20, 0x44D, 0x442, 0x430, 0x43F]"

definition txt_state_not_read :: string where
  "txt_state_not_read =
     encode_runes
      [0x41D, 0x435, 0x20, 0x443, 0x434, 0x430, 0x43B, 0x43E, 0x441, 0x44C, 0x20, 0x43F, 0x43E, 0x43B,
       0x443, 0x447, 0x438, 0x442, 0x44C, 0x20, 0x441, 0x43E, 0x441, 0x442, 0x43E, 0x44F, 0x43D, 0x438,
       0x435] @
     ''. '' @
     encode_runes
      [0x41F, 0x43E, 0x43F, 0x440, 0x43E, 0x431, 0x443, 0x439, 0x20, 0x43F, 0x43E, 0x437, 0x436, 0x435]"

definition txt_already_tracked :: string where
  "txt_already_tracked =
     encode_runes
      [0x421, 0x441, 0x44B, 0x43B, 0x43A, 0x430, 0x20, 0x443, 0x436, 0x435, 0x20, 0x43E, 0x442, 0x441,
       0x43B, 0x435, 0x436, 0x438, 0x432, 0x430, 0x435, 0x442, 0x441, 0x44F]"

definition txt_add_failed :: string where
  "txt_add_failed =
     encode_runes
      [0x41D, 0x435, 0x20, 0x43F, 0x43E, 0x43B, 0x443, 0x447, 0x438, 0x43B, 0x43E, 0x441, 0x44C, 0x20,
       0x434, 0x43E, 0x431, 0x430, 0x432, 0x438, 0x442, 0x44C, 0x20, 0x441, 0x441, 0x44B, 0x43B, 0x43A,
       0x443]"

definition txt_added_not_cleared :: string where
  "txt_added_not_cleared =
     encode_runes
      [0x421, 0x441, 0x44B, 0x43B, 0x43A, 0x430, 0x20, 0x434, 0x43E, 0x431, 0x430, 0x432, 0x43B, 0x435,
       0x43D, 0x430] @
     '', '' @
     encode_runes
      [0x43D, 0x43E, 0x20, 0x43D, 0x435, 0x20, 0x443, 0x434, 0x430, 0x43B, 0x43E, 0x441, 0x44C, 0x20,
       0x43E, 0x447, 0x438, 0x441, 0x442, 0x438, 0x442, 0x44C, 0x20, 0x441, 0x43E, 0x441, 0x442, 0x43E,
       0x44F, 0x43D, 0x438, 0x435]"

definition txt_added :: string where
  "txt_added =
     encode_runes
      [0x421, 0x441, 0x44B, 0x43B, 0x43A, 0x430, 0x20, 0x434, 0x43E, 0x431, 0x430, 0x432, 0x43B, 0x435,
       0x43D, 0x430, 0x20, 0x443, 0x441, 0x43F, 0x435, 0x448, 0x43D, 0x43E] @
     ''!''"

definition txt_tracking_cancelled :: string where
  "txt_tracking_cancelled =
     encode_runes
      [0x41E, 0x442, 0x441, 0x43B, 0x435, 0x436, 0x438, 0x432, 0x430, 0x43D, 0x438, 0x435, 0x20, 0x43E,
       0x442, 0x43C, 0x435, 0x43D, 0x435, 0x43D, 0x43E]"

definition txt_finish_first :: string where
  "txt_finish_first =
     encode_runes
      [0x421, 0x43D, 0x430, 0x447, 0x430, 0x43B, 0x430, 0x20, 0x437, 0x430, 0x432, 0x435, 0x440, 0x448,
       0x438, 0x442, 0x435, 0x20, 0x442, 0x435, 0x43A, 0x443, 0x449, 0x443, 0x44E, 0x20, 0x43E, 0x43F,
       0x435, 0x440, 0x430, 0x446, 0x438, 0x44E, 0x20, 0x438, 0x43B, 0x438, 0x20, 0x438, 0x441, 0x43F,
       0x43E, 0x43B, 0x44C, 0x437, 0x443, 0x439, 0x442, 0x435, 0x20] @
     ''/cancel''"

definition txt_cancel_failed :: string where
  "txt_cancel_failed =
     encode_runes
      [0x41D, 0x435, 0x20, 0x443, 0x434, 0x430, 0x43B, 0x43E, 0x441, 0x44C, 0x20, 0x43E, 0x442, 0x43C,
       0x435, 0x43D, 0x438, 0x442, 0x44C, 0x20, 0x43E, 0x43F, 0x435, 0x440, 0x430, 0x446, 0x438, 0x44E] @
     ''. '' @
     encode_runes
      [0x41F, 0x43E, 0x43F, 0x440, 0x43E, 0x431, 0x443, 0x439, 0x20, 0x43F, 0x43E, 0x437, 0x436, 0x435]"

definition txt_cancelled :: string where
  "txt_cancelled =
     encode_runes
      [0x41E, 0x43F, 0x435, 0x440, 0x430, 0x446, 0x438, 0x44F, 0x20, 0x43E, 0x442, 0x43C, 0x435, 0x43D,
       0x435, 0x43D, 0x430]"

definition txt_unknown_message :: string where
  "txt_unknown_message =
     encode_runes
      [0x41D, 0x435, 0x438, 0x437, 0x432, 0x435, 0x441, 0x442, 0x43D, 0x430, 0x44F, 0x20, 0x43A, 0x43E,
       0x43C, 0x430, 0x43D, 0x434, 0x430] @
     ''. '' @
     encode_runes
      [0x418, 0x441, 0x43F, 0x43E, 0x43B, 0x44C, 0x437, 0x443, 0x439, 0x20] @
     ''/help''"

definition txt_unknown_command :: string where
  "txt_unknown_command =
     encode_runes
      [0x41D, 0x435, 0x438, 0x437, 0x432, 0x435, 0x441, 0x442, 0x43D, 0x430, 0x44F, 0x20, 0x43A, 0x43E,
       0x43C, 0x430, 0x43D, 0x434, 0x430] @
     ''. '' @
     encode_runes
      [0x412, 0x43E, 0x441, 0x43F, 0x43E, 0x43B, 0x44C, 0x437, 0x443, 0x439, 0x442, 0x435, 0x441, 0x44C,
       0x20] @
     ''/help, '' @
     encode_runes
      [0x447, 0x442, 0x43E, 0x431, 0x44B, 0x20, 0x43F, 0x43E, 0x441, 0x43C, 0x43E, 0x442, 0x440, 0x435,
       0x442, 0x44C, 0x20, 0x434, 0x43E, 0x441, 0x442, 0x443, 0x43F, 0x43D, 0x44B, 0x435, 0x20, 0x43A,
       0x43E, 0x43C, 0x430, 0x43D, 0x434, 0x44B]"

definition txt_start_failed :: string where
  "txt_start_failed =
     encode_runes
      [0x41D, 0x435, 0x20, 0x443, 0x434, 0x430, 0x43B, 0x43E, 0x441, 0x44C, 0x20, 0x437, 0x430, 0x440,
       0x435, 0x433, 0x438, 0x441, 0x442, 0x440, 0x438, 0x440, 0x43E, 0x432, 0x430, 0x442, 0x44C, 0x20,
       0x43F, 0x43E, 0x43B, 0x44C, 0x437, 0x43E, 0x432, 0x430, 0x442, 0x435, 0x43B, 0x44F]"

definition txt_welcome :: string where
  "txt_welcome =
     encode_runes
      [0x414, 0x43E, 0x431, 0x440, 0x43E, 0x20, 0x43F, 0x43E, 0x436, 0x430, 0x43B, 0x43E, 0x432, 0x430,
       0x442, 0x44C] @
     ''!'' @
     encode_runes
      [0xA, 0xA] @
     ''/help - '' @
     encode_runes
      [0x43F, 0x43E, 0x441, 0x43C, 0x43E, 0x442, 0x440, 0x435, 0x442, 0x44C, 0x20, 0x441, 0x43F, 0x438,
       0x441, 0x43E, 0x43A, 0x20, 0x43A, 0x43E, 0x43C, 0x430, 0x43D, 0x434, 0x20, 0x438, 0x20, 0x43F,
       0x440, 0x438, 0x43C, 0x435, 0x440, 0x44B, 0x20, 0x438, 0x441, 0x43F, 0x43E, 0x43B, 0x44C, 0x437,
       0x43E, 0x432, 0x430, 0x43D, 0x438, 0x44F]"

definition txt_help :: string where
  "txt_help =
     encode_runes
      [0x414, 0x43E, 0x441, 0x442, 0x443, 0x43F, 0x43D, 0x44B, 0x435, 0x20, 0x43A, 0x43E, 0x43C, 0x430,
       0x43D, 0x434, 0x44B] @
     '':'' @
     encode_runes
      [0xA] @
     ''/start - '' @
     encode_runes
      [0x43D, 0x430, 0x447, 0x430, 0x43B, 0x43E, 0x20, 0x440, 0x430, 0x431, 0x43E, 0x442, 0x44B, 0x20,
       0x441, 0x20, 0x431, 0x43E, 0x442, 0x43E, 0x43C, 0xA] @
     ''/help - '' @
     encode_runes
      [0x43F, 0x43E, 0x43A, 0x430, 0x437, 0x430, 0x442, 0x44C, 0x20, 0x44D, 0x442, 0x43E, 0x20, 0x441,
       0x43E, 0x43E, 0x431, 0x449, 0x435, 0x43D, 0x438, 0x435, 0xA] @
     ''/track - '' @
     encode_runes
      [0x43D, 0x430, 0x447, 0x430, 0x442, 0x44C, 0x20, 0x434, 0x438, 0x430, 0x43B, 0x43E, 0x433, 0x20,
       0x434, 0x43B, 0x44F, 0x20, 0x434, 0x43E, 0x431, 0x430, 0x432, 0x43B, 0x435, 0x43D, 0x438, 0x44F,
       0x20, 0x441, 0x441, 0x44B, 0x43B, 0x43A, 0x438, 0xA, 0x20, 0x20, 0x20, 0x20, 0x428, 0x430,
       0x433, 0x20] @
     ''1: '' @
     encode_runes
      [0x43E, 0x442, 0x43F, 0x440, 0x430, 0x432, 0x44C, 0x20] @
     ''/track'' @
     encode_runes
      [0xA, 0x20, 0x20, 0x20, 0x20, 0x428, 0x430, 0x433, 0x20] @
     ''2: '' @
     encode_runes
      [0x43E, 0x442, 0x43F, 0x440, 0x430, 0x432, 0x44C, 0x20, 0x441, 0x441, 0x44B, 0x43B, 0x43A, 0x443,
       0x20] @
     ''(GitHub '' @
     encode_runes
      [0x438, 0x43B, 0x438, 0x20] @
     ''StackOverflow)'' @
     encode_runes
      [0xA, 0x20, 0x20, 0x20, 0x20, 0x428, 0x430, 0x433, 0x20] @
     ''3: '' @
     encode_runes
      [0x43E, 0x442, 0x43F, 0x440, 0x430, 0x432, 0x44C, 0x20, 0x442, 0x435, 0x433, 0x438, 0x20, 0x447,
       0x435, 0x440, 0x435, 0x437, 0x20, 0x437, 0x430, 0x43F, 0x44F, 0x442, 0x443, 0x44E, 0x20] @
     ''('' @
     encode_runes
      [0x43D, 0x430, 0x43F, 0x440, 0x438, 0x43C, 0x435, 0x440] @
     '': work, bug) '' @
     encode_runes
      [0x438, 0x43B, 0x438, 0x20, 0x27] @
     ''-'' @
     encode_runes
      [0x27, 0x20, 0x447, 0x442, 0x43E, 0x431, 0x44B, 0x20, 0x43F, 0x440, 0x43E, 0x43F, 0x443, 0x441,
       0x442, 0x438, 0x442, 0x44C, 0xA] @
     ''/untrack [tag] <url> - '' @
     encode_runes
      [0x43F, 0x435, 0x440, 0x435, 0x441, 0x442, 0x430, 0x442, 0x44C, 0x20, 0x43E, 0x442, 0x441, 0x43B,
       0x435, 0x436, 0x438, 0x432, 0x430, 0x442, 0x44C, 0x20, 0x443, 0x43A, 0x430, 0x437, 0x430, 0x43D,
       0x43D, 0x443, 0x44E, 0x20, 0x441, 0x441, 0x44B, 0x43B, 0x43A, 0x443] @
     '';'' @
     encode_runes
      [0x44C, 0x435, 0x441, 0x43B, 0x438, 0x20, 0x443, 0x43A, 0x430, 0x437, 0x430, 0x442, 0x44C, 0x20,
       0x442, 0x435, 0x433] @
     '', '' @
     encode_runes
      [0x431, 0x443, 0x434, 0x443, 0x442, 0x20, 0x443, 0x434, 0x430, 0x43B, 0x435, 0x43D, 0x44B, 0x20,
       0x432, 0x441, 0x435, 0x20, 0x441, 0x441, 0x44B, 0x43B, 0x43A, 0x438] @
     '', '' @
     encode_runes
      [0x43A, 0x20, 0x43A, 0x43E, 0x442, 0x43E, 0x440, 0x44B, 0x43C, 0x20, 0x431, 0x44B, 0x43B, 0x20,
       0x43F, 0x440, 0x438, 0x43A, 0x440, 0x435, 0x43F, 0x43B, 0x435, 0x43D, 0x20, 0x434, 0x430, 0x43D,
       0x43D, 0x44B, 0x439, 0x20, 0x442, 0x435, 0x433, 0xA] @
     ''/list [tag] - '' @
     encode_runes
      [0x43F, 0x43E, 0x43A, 0x430, 0x437, 0x430, 0x442, 0x44C, 0x20, 0x441, 0x43F, 0x438, 0x441, 0x43E,
       0x43A, 0x20, 0x43E, 0x442, 0x441, 0x43B, 0x435, 0x436, 0x438, 0x432, 0x430, 0x435, 0x43C, 0x44B,
       0x445, 0x20, 0x441, 0x441, 0x44B, 0x43B, 0x43E, 0x43A] @
     ''; '' @
     encode_runes
      [0x435, 0x441, 0x43B, 0x438, 0x20, 0x443, 0x43A, 0x430, 0x437, 0x430, 0x442, 0x44C, 0x20, 0x442,
       0x435, 0x433] @
     '', '' @
     encode_runes
      [0x441, 0x43F, 0x438, 0x441, 0x43E, 0x43A, 0x20, 0x431, 0x443, 0x434, 0x435, 0x442, 0x20, 0x43E,
       0x442, 0x444, 0x438, 0x43B, 0x44C, 0x442, 0x440, 0x43E, 0x432, 0x430, 0x43D, 0xA] @
     ''/cancel - '' @
     encode_runes
      [0x43E, 0x442, 0x43C, 0x435, 0x43D, 0x438, 0x442, 0x44C, 0x20, 0x442, 0x435, 0x43A, 0x443, 0x449,
       0x443, 0x44E, 0x20, 0x43E, 0x43F, 0x435, 0x440, 0x430, 0x446, 0x438, 0x44E, 0x20] @
     ''(/track)''"

definition txt_list_failed :: string where
  "txt_list_failed =
     encode_runes
      [0x41E, 0x448, 0x438, 0x431, 0x43A, 0x430, 0x20, 0x43F, 0x43E, 0x43B, 0x443, 0x447, 0x435, 0x43D,
       0x438, 0x44F, 0x20, 0x441, 0x441, 0x44B, 0x43B, 0x43E, 0x43A]"

definition txt_list_empty :: string where
  "txt_list_empty =
     encode_runes
      [0x421, 0x43F, 0x438, 0x441, 0x43E, 0x43A, 0x20, 0x43E, 0x442, 0x441, 0x43B, 0x435, 0x436, 0x438,
       0x432, 0x430, 0x435, 0x43C, 0x44B, 0x445, 0x20, 0x441, 0x441, 0x44B, 0x43B, 0x43E, 0x43A, 0x20,
       0x43F, 0x443, 0x441, 0x442]"

definition txt_no_links_with_tag :: string where
  "txt_no_links_with_tag =
     encode_runes
      [0x421, 0x441, 0x44B, 0x43B, 0x43A, 0x438, 0x20, 0x441, 0x20, 0x443, 0x43A, 0x430, 0x437, 0x430,
       0x43D, 0x43D, 0x44B, 0x43C, 0x20, 0x442, 0x435, 0x433, 0x43E, 0x43C, 0x20, 0x43D, 0x435, 0x20,
       0x43D, 0x430, 0x439, 0x434, 0x435, 0x43D, 0x44B]"

definition txt_links :: string where
  "txt_links =
     encode_runes
      [0x41E, 0x442, 0x441, 0x43B, 0x435, 0x436, 0x438, 0x432, 0x430, 0x435, 0x43C, 0x44B, 0x435, 0x20,
       0x441, 0x441, 0x44B, 0x43B, 0x43A, 0x438] @
     '':'' @
     encode_runes
      [0xA]"

definition txt_untrack_usage :: string where
  "txt_untrack_usage =
     encode_runes
      [0x418, 0x441, 0x43F, 0x43E, 0x43B, 0x44C, 0x437, 0x43E, 0x432, 0x430, 0x43D, 0x438, 0x435] @
     '':'' @
     encode_runes
      [0xA] @
     ''/untrack <url> '' @
     encode_runes
      [0x2014, 0x20, 0x443, 0x434, 0x430, 0x43B, 0x438, 0x442, 0x44C, 0x20, 0x43F, 0x43E, 0x20, 0x441,
       0x441, 0x44B, 0x43B, 0x43A, 0x435, 0xA] @
     ''/untrack tag <tag> '' @
     encode_runes
      [0x2014, 0x20, 0x443, 0x434, 0x430, 0x43B, 0x438, 0x442, 0x44C, 0x20, 0x432, 0x441, 0x435, 0x20,
       0x441, 0x441, 0x44B, 0x43B, 0x43A, 0x438, 0x20, 0x441, 0x20, 0x442, 0x435, 0x433, 0x43E, 0x43C]"

definition txt_untrack_tag_usage :: string where
  "txt_untrack_tag_usage =
     encode_runes
      [0x418, 0x441, 0x43F, 0x43E, 0x43B, 0x44C, 0x437, 0x43E, 0x432, 0x430, 0x43D, 0x438, 0x435] @
     '': /untrack tag <tag>''"

definition txt_remove_by_tag_failed :: string where
  "txt_remove_by_tag_failed =
     encode_runes
      [0x41D, 0x435, 0x20, 0x43F, 0x43E, 0x43B, 0x443, 0x447, 0x438, 0x43B, 0x43E, 0x441, 0x44C, 0x20,
       0x443, 0x434, 0x430, 0x43B, 0x438, 0x442, 0x44C, 0x20, 0x441, 0x441, 0x44B, 0x43B, 0x43A, 0x438,
       0x20, 0x43F, 0x43E, 0x20, 0x442, 0x435, 0x433, 0x443]"

definition txt_removed_by_tag :: string where
  "txt_removed_by_tag =
     encode_runes
      [0x423, 0x434, 0x430, 0x43B, 0x435, 0x43D, 0x43E, 0x20, 0x441, 0x441, 0x44B, 0x43B, 0x43E, 0x43A,
       0x20, 0x441, 0x20, 0x442, 0x435, 0x433, 0x43E, 0x43C, 0x20]"

definition txt_remove_failed :: string where
  "txt_remove_failed =
     encode_runes
      [0x41D, 0x435, 0x20, 0x43F, 0x43E, 0x43B, 0x443, 0x447, 0x438, 0x43B, 0x43E, 0x441, 0x44C, 0x20,
       0x443, 0x434, 0x430, 0x43B, 0x438, 0x442, 0x44C, 0x20, 0x441, 0x441, 0x44B, 0x43B, 0x43A, 0x443]"

definition txt_removed :: string where
  "txt_removed =
     encode_runes
      [0x421, 0x441, 0x44B, 0x43B, 0x43A, 0x430, 0x20, 0x443, 0x434, 0x430, 0x43B, 0x435, 0x43D, 0x430]"

section \<open>The track service\<close>

definition ts_start :: "('d, 'w) track_service \<Rightarrow> int \<Rightarrow> ('d, 'w, string) bot" where
  "ts_start svc chat =
     andthen (on_world (cl_register (tkClient svc) chat)) (\<lambda>r.
       case r of
         Inl _ \<Rightarrow> Pair txt_register_failed
       | Inr _ \<Rightarrow>
           andthen (on_sessions (sr_set (tkRepo svc) chat \<lparr>tsChatID = chat, tsState = state_waiting_for_url, tsURL = []\<rparr>)) (\<lambda>r.
             Pair (case r of Inl _ \<Rightarrow> txt_state_not_saved | Inr _ \<Rightarrow> txt_send_link)))"

definition ts_handle_url :: "('d, 'w) track_service \<Rightarrow> int \<Rightarrow> string \<Rightarrow> ('d, 'w, string) bot" where
  "ts_handle_url svc chat url =
     andthen (on_sessions (sr_get (tkRepo svc) chat)) (\<lambda>r.
       case r of
         Inl _ \<Rightarrow> Pair []
       | Inr None \<Rightarrow> Pair []
       | Inr (Some session) \<Rightarrow>
           (case bot_parse_link url of
              Inl _ \<Rightarrow> Pair txt_bad_link
            | Inr _ \<Rightarrow>
                andthen (on_sessions (sr_set (tkRepo svc) chat (session\<lparr>tsURL := url, tsState := state_waiting_for_tags\<rparr>))) (\<lambda>r.
                  Pair (case r of Inl _ \<Rightarrow> txt_state_not_saved | Inr _ \<Rightarrow> txt_send_tags))))"

definition parse_tags :: "string \<Rightarrow> string list" where
  "parse_tags text =
     (if text = ''-'' then [] else filter (\<lambda>t. t \<noteq> []) (map trim_space (split_on (CHR '','') text)))"

text \<open>\<open>strings.Contains(err.Error(), ...)\<close>\<close>

definition says_already_tracked :: "go_error \<Rightarrow> bool" where
  "says_already_tracked e \<longleftrightarrow> contains (err_text e) ''AlreadyExists'' \<or> contains (err_text e) ''already tracked''"

text \<open>The part of \<open>HandleTags\<close> after the session is read.\<close>

definition ts_add_link :: "('d, 'w) track_service \<Rightarrow> int \<Rightarrow> string \<Rightarrow> string list \<Rightarrow> ('d, 'w, reply) bot" where
  "ts_add_link svc chat url tags =
     andthen (on_world (cl_register (tkClient svc) chat)) (\<lambda>r.
       case r of
         Inl e \<Rightarrow> Pair (txt_register_failed, Some e)
       | Inr _ \<Rightarrow>
           andthen (on_world (cl_add (tkClient svc) chat url tags)) (\<lambda>r.
             case r of
               Inl e \<Rightarrow>
                 (if says_already_tracked e
                  then andthen (on_sessions (sr_reset (tkRepo svc) chat)) (\<lambda>_. Pair (txt_already_tracked, None))
                  else Pair (txt_add_failed, Some e))
             | Inr _ \<Rightarrow>
                 andthen (on_sessions (sr_reset (tkRepo svc) chat)) (\<lambda>r.
                   Pair (case r of Inl e \<Rightarrow> (txt_added_not_cleared, Some e) | Inr _ \<Rightarrow> (txt_added, None)))))"

definition ts_handle_tags :: "('d, 'w) track_service \<Rightarrow> int \<Rightarrow> string \<Rightarrow> ('d, 'w, reply) bot" where
  "ts_handle_tags svc chat text =
     andthen (on_sessions (sr_get (tkRepo svc) chat)) (\<lambda>r.
       case r of
         Inl e \<Rightarrow> Pair (txt_state_not_read, Some e)
       | Inr None \<Rightarrow> Pair ([], None)
       | Inr (Some session) \<Rightarrow> ts_add_link svc chat (tsURL session) (parse_tags text))"

definition ts_cancel :: "('d, 'w) track_service \<Rightarrow> int \<Rightarrow> ('d, 'w, string) bot" where
  "ts_cancel svc chat = andthen (on_sessions (sr_reset (tkRepo svc) chat)) (\<lambda>_. Pair txt_tracking_cancelled)"

section \<open>Commands\<close>

text \<open>A command: its name and what it does for a chat and a text.\<close>

type_synonym ('d, 'w) command = "string \<times> (int \<Rightarrow> string \<Rightarrow> ('d, 'w, reply) bot)"

definition start_command :: "'w scrapper_client \<Rightarrow> ('d, 'w) command" where
  "start_command client =
     (''/start'', \<lambda>chat _.
        andthen (on_world (cl_register client chat)) (\<lambda>r.
          Pair (case r of Inl e \<Rightarrow> (txt_start_failed, Some e) | Inr _ \<Rightarrow> (txt_welcome, None))))"

definition help_command :: "('d, 'w) command" where
  "help_command = (''/help'', \<lambda>_ _. Pair (txt_help, None))"

definition track_command :: "('d, 'w) track_service \<Rightarrow> ('d, 'w) command" where
  "track_command svc = (''/track'', \<lambda>chat _. andthen (ts_start svc chat) (\<lambda>text. Pair (text, None)))"

definition extract_tag :: "string \<Rightarrow> string" where
  "extract_tag text = (let args = Go_Strings.fields text in if length args < 2 then [] else args ! 1)"

definition list_line :: "bot_link \<Rightarrow> string" where
  "list_line l =
     ''- '' @ blURL l @ (if length (blTags l) > 0 then '' ('' @ join '', '' (blTags l) @ '')'' else []) @ [CHR 0x0A]"

definition list_command :: "'w scrapper_client \<Rightarrow> ('d, 'w) command" where
  "list_command client =
     (''/list'', \<lambda>chat text.
        let tag = extract_tag text in
        andthen (on_world (cl_register client chat)) (\<lambda>r.
          case r of
            Inl e \<Rightarrow> Pair (txt_register_failed, Some e)
          | Inr _ \<Rightarrow>
              andthen (on_world (cl_list client chat)) (\<lambda>r.
                Pair (case r of
                  Inl e \<Rightarrow> (txt_list_failed, Some e)
                | Inr links \<Rightarrow>
                    (if length links = 0 then (txt_list_empty, None)
                     else
                       (let filtered = filter (\<lambda>l. list_ex (\<lambda>t. t = tag) (blTags l)) links in
                        if tag \<noteq> [] \<and> length filtered = 0 then (txt_no_links_with_tag, None)
                        else (txt_links @ concat (map list_line (if tag \<noteq> [] then filtered else links)), None)))))))"

definition bot_is_url :: "unicode \<Rightarrow> string \<Rightarrow> bool" where
  "bot_is_url uc s =
     (let s = to_lower uc (trim_space s) in has_prefix s ''http://'' \<or> has_prefix s ''https://'')"

text \<open>The answer to the removal of a tag's links, the same on both paths.\<close>

definition removed_by_tag :: "string \<Rightarrow> int result \<Rightarrow> reply" where
  "removed_by_tag tag r =
     (case r of
        Inl e \<Rightarrow> (txt_remove_by_tag_failed, Some e)
      | Inr n \<Rightarrow>
          (if n = 0 then (txt_no_links_with_tag, None)
           else (txt_removed_by_tag @ tag @ '': '' @ format_int n, None)))"

definition untrack_command :: "unicode \<Rightarrow> 'w scrapper_client \<Rightarrow> ('d, 'w) command" where
  "untrack_command uc client =
     (''/untrack'', \<lambda>chat text.
        let args = Go_Strings.fields text in
        if length args < 2 then Pair (txt_untrack_usage, None)
        else
          andthen (on_world (cl_register client chat)) (\<lambda>r.
            case r of
              Inl e \<Rightarrow> Pair (txt_register_failed, Some e)
            | Inr _ \<Rightarrow>
                (let arg = args ! 1 in
                 if arg = ''tag'' \<or> \<not> bot_is_url uc arg then
                   (if length args < 3 then
                      (if arg \<noteq> ''tag''
                       then andthen (on_world (cl_remove_by_tag client chat arg)) (\<lambda>r. Pair (removed_by_tag arg r))
                       else Pair (txt_untrack_tag_usage, None))
                    else
                      (let tag = join '' '' (drop 2 args)
                       in andthen (on_world (cl_remove_by_tag client chat tag)) (\<lambda>r. Pair (removed_by_tag tag r))))
                 else
                   andthen (on_world (cl_remove client chat arg)) (\<lambda>r.
                     Pair (case r of Inl e \<Rightarrow> (txt_remove_failed, Some e) | Inr _ \<Rightarrow> (txt_removed, None))))))"

definition cancel_command :: "('d, 'w) command" where
  "cancel_command = (''/cancel'', \<lambda>_ _. Pair (''Operation cancelled'', None))"

definition unknown_command :: "('d, 'w) command" where
  "unknown_command = (''unknown'', \<lambda>_ _. Pair (txt_unknown_command, None))"

section \<open>The dispatcher\<close>

record ('d, 'w) dispatcher =
  dpCommands :: "string \<Rightarrow> (int \<Rightarrow> string \<Rightarrow> ('d, 'w, reply) bot) option"
  dpTrackService :: "('d, 'w) track_service"
  dpRepo :: "'d session_repository"

definition new_dispatcher ::
    "('d, 'w) command list \<Rightarrow> ('d, 'w) track_service \<Rightarrow> 'd session_repository \<Rightarrow> ('d, 'w) dispatcher" where
  "new_dispatcher cmds svc repo =
     \<lparr>dpCommands = fold (\<lambda>(name, run) m. m(name \<mapsto> run)) cmds Map.empty, dpTrackService = svc, dpRepo = repo\<rparr>"

definition new_default_dispatcher ::
    "unicode \<Rightarrow> 'w scrapper_client \<Rightarrow> ('d, 'w) track_service \<Rightarrow> 'd session_repository \<Rightarrow> ('d, 'w) dispatcher" where
  "new_default_dispatcher uc client svc repo =
     new_dispatcher
       [start_command client, help_command, track_command svc, untrack_command uc client, list_command client,
        cancel_command, unknown_command] svc repo"

text \<open>\<open>strings.Split(text, " ")[0]\<close>\<close>

definition command_name :: "string \<Rightarrow> string" where
  "command_name text = hd (split_on (CHR '' '') text)"

text \<open>A command that is not in the map is the unknown one; a map without it would give Go a nil interface.\<close>

definition find_command :: "('d, 'w) dispatcher \<Rightarrow> string \<Rightarrow> (int \<Rightarrow> string \<Rightarrow> ('d, 'w, reply) bot) option" where
  "find_command d name = (case dpCommands d name of Some c \<Rightarrow> Some c | None \<Rightarrow> dpCommands d ''unknown'')"

definition dispatch :: "('d, 'w) dispatcher \<Rightarrow> int \<Rightarrow> string \<Rightarrow> ('d, 'w, reply option) bot" where
  "dispatch d chat text =
     andthen (on_sessions (sr_get (dpRepo d) chat)) (\<lambda>r.
       case r of
         Inl e \<Rightarrow> Pair (Some (txt_state_not_read, Some e))
       | Inr session \<Rightarrow>
           if has_prefix text ''/'' then
             (if session \<noteq> None \<and> \<not> has_prefix text ''/cancel'' then Pair (Some (txt_finish_first, None))
              else if has_prefix text ''/cancel'' then
                andthen (on_sessions (sr_reset (dpRepo d) chat)) (\<lambda>r.
                  Pair (Some (case r of Inl e \<Rightarrow> (txt_cancel_failed, Some e) | Inr _ \<Rightarrow> (txt_cancelled, None))))
              else
                (case find_command d (command_name text) of
                   None \<Rightarrow> Pair None
                 | Some run \<Rightarrow> andthen (run chat text) (\<lambda>r. Pair (Some r))))
           else
             (case session of
                Some st \<Rightarrow>
                  if tsState st = state_waiting_for_url then
                    andthen (ts_handle_url (dpTrackService d) chat text) (\<lambda>t. Pair (Some (t, None)))
                  else if tsState st = state_waiting_for_tags then
                    andthen (ts_handle_tags (dpTrackService d) chat text) (\<lambda>r. Pair (Some r))
                  else Pair (Some (txt_unknown_message, None))
              | None \<Rightarrow> Pair (Some (txt_unknown_message, None))))"

section \<open>The loop over the messages\<close>

text \<open>
  The updates of Telegram (\<open>None\<close> for one without a message); what is sent back, an empty text is
  not.  The result is \<open>None\<close> where the code would panic on a nil command.
\<close>

fun bot_run :: "(int \<Rightarrow> string \<Rightarrow> 'w \<Rightarrow> 'w) \<Rightarrow> ('d, 'w) dispatcher \<Rightarrow> (int \<times> string) option list \<Rightarrow> ('d, 'w, unit option) bot" where
  "bot_run send d [] s = (Some (), s)"
| "bot_run send d (None # updates) s = bot_run send d updates s"
| "bot_run send d (Some (chat, text) # updates) s =
     (case dispatch d chat text s of
        (None, s1) \<Rightarrow> (None, s1)
      | (Some (response, err), s1) \<Rightarrow>
          bot_run send d updates (if response \<noteq> [] then s1\<lparr>bs_world := send chat response (bs_world s1)\<rparr> else s1))"

end
