(* ===== verification/Bot_Properties.thy ===== *)
theory Bot_Properties
  imports Bot_Dialogue Agent_Text
begin

text \<open>
  Properties of the bot's dialogue: the session repository as an interface, given by both packages;
  a recording of the calls to the scrapper; what chats can make the bot add, under any faults; and the
  refinement of the dialogue of each chat by the dispatcher when nothing fails.
\<close>

section \<open>The session repository as an interface\<close>

text \<open>
  A get answers with the session, a set or reset that reports success has taken place, one that
  fails may or may not have, and without faults nothing fails.
\<close>

locale session_store =
  fixes repo :: "'d session_repository" and view :: "'d \<Rightarrow> int \<Rightarrow> track_session option" and calm :: "'d \<Rightarrow> bool"
  assumes get: "sr_get repo c d = (rg, d') \<Longrightarrow>
      view d' = view d \<and> (\<forall>x. rg = Inr x \<longrightarrow> x = view d c) \<and> (calm d \<longrightarrow> calm d' \<and> rg = Inr (view d c))"
    and set: "sr_set repo c st d = (r, d') \<Longrightarrow>
      (view d' = view d \<and> r \<noteq> Inr () \<or> view d' = (view d)(c \<mapsto> st\<lparr>tsChatID := c\<rparr>)) \<and> (calm d \<longrightarrow> calm d' \<and> r = Inr ())"
    and reset: "sr_reset repo c d = (r, d') \<Longrightarrow>
      (view d' = view d \<and> r \<noteq> Inr () \<or> view d' = (view d)(c := None)) \<and> (calm d \<longrightarrow> calm d' \<and> r = Inr ())"

definition session_view :: "session_db \<Rightarrow> int \<Rightarrow> track_session option" where
  "session_view d c = find_session c (ss_rows d)"

lemma session_stmt_cases:
  assumes "session_stmt f d = (r, d')"
  obtains (not_run) e where "r = Inl e" "ss_rows d' = ss_rows d" "ss_faults d \<noteq> []"
  | (ran) fs r1 where "f (d\<lparr>ss_faults := fs\<rparr>) = (r1, d')" "r = r1 \<or> (\<exists>e. r = Inl e) \<and> ss_faults d \<noteq> []"
proof (cases "ss_faults d")
  case Nil
  have "d\<lparr>ss_faults := []\<rparr> = d" using Nil by simp
  then have "f (d\<lparr>ss_faults := []\<rparr>) = (r, d')" using assms Nil by (metis (no_types) session_stmt_def list.simps(4))
  then show ?thesis using ran by blast
next
  case (Cons x fs)
  show ?thesis
  proof (cases x)
    case Healthy
    then show ?thesis using assms Cons ran [of fs r] by (simp add: session_stmt_def)
  next
    case (Refused e)
    then show ?thesis using assms Cons not_run [of e] by (auto simp: session_stmt_def)
  next
    case (AckLost e)
    then show ?thesis using assms Cons ran [of fs "fst (f (d\<lparr>ss_faults := fs\<rparr>))"] by (auto simp: session_stmt_def)
  qed
qed

lemma session_stmt_calm [simp]: "ss_faults d = [] \<Longrightarrow> session_stmt f d = f d"
  by (simp add: session_stmt_def)

lemma session_write_calm:
  "ss_faults d = [] \<Longrightarrow> f d = (Inr x, d') \<Longrightarrow> ss_faults d' = [] \<Longrightarrow> session_write f d = (Inr x, d')"
  by (simp add: session_write_def)

lemma session_write_done:
  assumes "session_write f d = (r, d')" "\<And>d. ss_faults (snd (f d)) = ss_faults d" "\<And>d. fst (f d) = Inr ()" "ss_faults d = []"
  shows "ss_faults d' = [] \<and> r = Inr ()"
proof -
  have "f d = (Inr (), snd (f d))" using assms(3) [of d] by (metis prod.collapse)
  then have "session_write f d = (Inr (), snd (f d))" using assms(2,4) by (intro session_write_calm) auto
  with assms(1,2,4) show ?thesis by auto
qed

lemma session_write_cases:
  assumes "session_write f d = (r, d')" "\<And>d. ss_rows (snd (f d)) = g (ss_rows d)" "\<And>d. \<exists>x. fst (f d) = Inr x"
  shows "(\<exists>e. r = Inl e) \<and> ss_rows d' = ss_rows d \<or> ss_rows d' = g (ss_rows d)"
proof -
  have noop: "ss_rows (snd (session_stmt (ret ()) d)) = ss_rows d" for d
    by (simp add: session_stmt_def split: list.split db_fault.split)
  obtain r1 d1 where 1: "session_stmt (ret ()) d = (r1, d1)" "ss_rows d1 = ss_rows d" using noop [of d] by (metis prod.collapse)
  obtain r2 d2 where 2: "session_stmt f d1 = (r2, d2)" by fastforce
  obtain r3 d3 where 3: "session_stmt (ret ()) d2 = (r3, d3)" "ss_rows d3 = ss_rows d2" using noop [of d2] by (metis prod.collapse)
  have "\<exists>x. r2 = Inr x \<Longrightarrow> ss_rows d2 = g (ss_rows d)"
    using 2
  proof (cases rule: session_stmt_cases)
    case (ran fs r)
    then show ?thesis using assms(2) [of "d1\<lparr>ss_faults := fs\<rparr>"] 1(2) by simp
  qed auto
  then show ?thesis
    using assms(1) 1(2) 3(2) by (auto simp: session_write_def 1(1) 2 3(1) split: sum.splits list.splits db_fault.splits)
qed

definition upserted :: "track_session \<Rightarrow> track_session list \<Rightarrow> track_session list" where
  "upserted r rows =
     (if find_session (tsChatID r) rows = None then rows @ [r] else map (\<lambda>x. if tsChatID x = tsChatID r then r else x) rows)"

lemma upsert_rows: "ss_rows (snd (upsert_session r d)) = upserted r (ss_rows d)" "\<exists>x. fst (upsert_session r d) = Inr x"
  "ss_faults (snd (upsert_session r d)) = ss_faults d"
  by (simp_all add: upsert_session_def upserted_def)

lemma delete_rows: "ss_rows (snd (delete_session c d)) = filter (\<lambda>r. tsChatID r \<noteq> c) (ss_rows d)" "\<exists>x. fst (delete_session c d) = Inr x"
  "ss_faults (snd (delete_session c d)) = ss_faults d"
  by (simp_all add: delete_session_def)

lemma find_session_Nil [simp]: "find_session c [] = None"
  by (simp add: find_session_def)

lemma find_session_Cons [simp]: "find_session c (r # rows) = (if tsChatID r = c then Some r else find_session c rows)"
  by (simp add: find_session_def)

lemma find_session_append: "find_session c (rows @ [r]) =
    (case find_session c rows of Some x \<Rightarrow> Some x | None \<Rightarrow> if tsChatID r = c then Some r else None)"
  by (induction rows) auto

lemma find_upserted: "find_session c (upserted r rows) = (if c = tsChatID r then Some r else find_session c rows)"
proof (cases "find_session (tsChatID r) rows = None")
  case True
  then show ?thesis by (auto simp: upserted_def find_session_append split: option.split)
next
  case False
  have "find_session c (map (\<lambda>x. if tsChatID x = tsChatID r then r else x) rows) =
      (if c = tsChatID r then (if find_session c rows = None then None else Some r) else find_session c rows)" for c
    by (induction rows) auto
  with False show ?thesis by (auto simp: upserted_def)
qed

lemma find_filtered: "find_session c (filter (\<lambda>r. tsChatID r \<noteq> c') rows) = (if c = c' then None else find_session c rows)"
  by (induction rows) auto

lemma session_view_upserted: "ss_rows d' = upserted r (ss_rows d) \<Longrightarrow> session_view d' = (session_view d)(tsChatID r \<mapsto> r)"
  by (auto simp: fun_eq_iff session_view_def find_upserted)

lemma session_view_filtered:
  "ss_rows d' = filter (\<lambda>r. tsChatID r \<noteq> c) (ss_rows d) \<Longrightarrow> session_view d' = (session_view d)(c := None)"
  by (auto simp: fun_eq_iff session_view_def find_filtered)

lemma session_view_same: "ss_rows d' = ss_rows d \<Longrightarrow> session_view d' = session_view d"
  by (simp add: fun_eq_iff session_view_def)

lemma session_get_laws:
  assumes "session_stmt (\<lambda>d. (Inr (find_session c (ss_rows d)), d)) d = (r, d')"
  shows "session_view d' = session_view d \<and> (\<forall>x. r = Inr x \<longrightarrow> x = session_view d c) \<and>
    (ss_faults d = [] \<longrightarrow> ss_faults d' = [] \<and> r = Inr (session_view d c))"
proof -
  have "ss_faults d = [] \<longrightarrow> ss_faults d' = [] \<and> r = Inr (session_view d c)" using assms by (auto simp: session_view_def)
  moreover from assms have "session_view d' = session_view d \<and> (\<forall>x. r = Inr x \<longrightarrow> x = session_view d c)"
    by (cases rule: session_stmt_cases) (auto simp: session_view_def fun_eq_iff)
  ultimately show ?thesis by blast
qed

lemma session_stmt_unit:
  assumes "session_stmt f d = (r, d')" "\<And>d. ss_rows (snd (f d)) = g (ss_rows d)" "\<And>d. fst (f d) = Inr ()"
  shows "ss_rows d' = ss_rows d \<and> r \<noteq> Inr () \<or> ss_rows d' = g (ss_rows d)"
  using assms(1)
proof (cases rule: session_stmt_cases)
  case (ran fs r1)
  then show ?thesis using assms(2) [of "d\<lparr>ss_faults := fs\<rparr>"] by simp
qed simp

lemma session_unit [simp]: "fst (upsert_session r d) = Inr ()" "fst (delete_session c d) = Inr ()"
  by (simp_all add: upsert_session_def delete_session_def)

interpretation sql_sessions: session_store sql_sessions_repo session_view "\<lambda>d. ss_faults d = []"
proof (unfold_locales, goal_cases)
  case (1 c d r d')
  show ?case by (rule session_get_laws) (use 1 in \<open>simp add: sql_sessions_repo_def sql_session_get_def\<close>)
next
  case (2 c st d r d')
  then have run: "session_stmt (upsert_session (st\<lparr>tsChatID := c\<rparr>)) d = (r, d')"
    by (simp add: sql_sessions_repo_def sql_session_set_def)
  from session_stmt_unit [OF run upsert_rows(1)]
  have "session_view d' = session_view d \<and> r \<noteq> Inr () \<or> session_view d' = (session_view d)(c \<mapsto> st\<lparr>tsChatID := c\<rparr>)"
    using session_view_same [of d' d] session_view_upserted [of d' "st\<lparr>tsChatID := c\<rparr>" d] by auto
  moreover have "ss_faults d = [] \<longrightarrow> ss_faults d' = [] \<and> r = Inr ()" using run by (auto simp: upsert_session_def)
  ultimately show ?case by blast
next
  case (3 c d r d')
  then have run: "session_stmt (delete_session c) d = (r, d')" by (simp add: sql_sessions_repo_def sql_session_reset_def)
  from session_stmt_unit [OF run delete_rows(1)]
  have "session_view d' = session_view d \<and> r \<noteq> Inr () \<or> session_view d' = (session_view d)(c := None)"
    using session_view_same [of d' d] session_view_filtered [of d' c d] by auto
  moreover have "ss_faults d = [] \<longrightarrow> ss_faults d' = [] \<and> r = Inr ()" using run by (auto simp: delete_session_def)
  ultimately show ?case by blast
qed

interpretation orm_sessions: session_store orm_sessions_repo session_view "\<lambda>d. ss_faults d = []"
proof (unfold_locales, goal_cases)
  case (1 c d r d')
  show ?case by (rule session_get_laws) (use 1 in \<open>simp add: orm_sessions_repo_def orm_session_get_def\<close>)
next
  case (2 c st d r d')
  let ?st = "st\<lparr>tsChatID := c\<rparr>"
  have "\<lparr>tsChatID = c, tsState = tsState st, tsURL = tsURL st\<rparr> = ?st" by simp
  with 2 have run: "session_write (upsert_session ?st) d = (r, d')"
    by (simp add: orm_sessions_repo_def orm_session_set_def)
  from session_write_cases [OF run upsert_rows(1,2)]
  have "session_view d' = session_view d \<and> r \<noteq> Inr () \<or> session_view d' = (session_view d)(c \<mapsto> ?st)"
    using session_view_same [of d' d] session_view_upserted [of d' ?st d] by auto
  moreover have "ss_faults d = [] \<longrightarrow> ss_faults d' = [] \<and> r = Inr ()"
    using session_write_done [OF run upsert_rows(3)] by simp
  ultimately show ?case by blast
next
  case (3 c d r d')
  then have run: "session_write (delete_session c) d = (r, d')" by (simp add: orm_sessions_repo_def orm_session_reset_def)
  from session_write_cases [OF run delete_rows(1,2)]
  have "session_view d' = session_view d \<and> r \<noteq> Inr () \<or> session_view d' = (session_view d)(c := None)"
    using session_view_same [of d' d] session_view_filtered [of d' c d] by auto
  moreover have "ss_faults d = [] \<longrightarrow> ss_faults d' = [] \<and> r = Inr ()"
    using session_write_done [OF run delete_rows(3)] by simp
  ultimately show ?case by blast
qed

section \<open>Recording the calls to the scrapper\<close>

datatype call =
    CRegister int
  | CDeleteChat int
  | CAdd int string "string list"
  | CRemove int string
  | CRemoveByTag int string
  | CList int

fun call_chat :: "call \<Rightarrow> int" where
  "call_chat (CRegister c) = c"
| "call_chat (CDeleteChat c) = c"
| "call_chat (CAdd c u ts) = c"
| "call_chat (CRemove c u) = c"
| "call_chat (CRemoveByTag c t) = c"
| "call_chat (CList c) = c"

record 'w recorder =
  rc_calls :: "call list"
  rc_inner :: 'w

definition recorded :: "call \<Rightarrow> ('w, 'a) eff \<Rightarrow> ('w recorder, 'a) eff" where
  "recorded c m s = (case m (rc_inner s) of (r, w) \<Rightarrow> (r, \<lparr>rc_calls = rc_calls s @ [c], rc_inner = w\<rparr>))"

text \<open>Any client, with its calls recorded.\<close>

definition recording :: "'w scrapper_client \<Rightarrow> 'w recorder scrapper_client" where
  "recording cl =
     \<lparr>cl_register = (\<lambda>c. recorded (CRegister c) (cl_register cl c)),
      cl_delete_chat = (\<lambda>c. recorded (CDeleteChat c) (cl_delete_chat cl c)),
      cl_add = (\<lambda>c u ts. recorded (CAdd c u ts) (cl_add cl c u ts)),
      cl_remove = (\<lambda>c u. recorded (CRemove c u) (cl_remove cl c u)),
      cl_remove_by_tag = (\<lambda>c t. recorded (CRemoveByTag c t) (cl_remove_by_tag cl c t)),
      cl_list = (\<lambda>c. recorded (CList c) (cl_list cl c))\<rparr>"

lemma on_world_recorded:
  assumes "on_world (recorded c m) s = (r, s')"
  shows "bs_sessions s' = bs_sessions s \<and> rc_calls (bs_world s') = rc_calls (bs_world s) @ [c]"
  using assms by (auto simp: on_world_def recorded_def split: prod.splits)

text \<open>The dispatcher of the program over a repository and a recorded client.\<close>

definition recording_dispatcher ::
    "unicode \<Rightarrow> 'w scrapper_client \<Rightarrow> 'd session_repository \<Rightarrow> ('d, 'w recorder) dispatcher" where
  "recording_dispatcher uc cl repo =
     new_default_dispatcher uc (recording cl) \<lparr>tkClient = recording cl, tkRepo = repo\<rparr> repo"

definition recording_send :: "(int \<Rightarrow> string \<Rightarrow> 'w \<Rightarrow> 'w) \<Rightarrow> int \<Rightarrow> string \<Rightarrow> 'w recorder \<Rightarrow> 'w recorder" where
  "recording_send send c text w = w\<lparr>rc_inner := send c text (rc_inner w)\<rparr>"

section \<open>Invariants of the handlers\<close>

definition keeps :: "('s \<Rightarrow> bool) \<Rightarrow> ('s \<Rightarrow> 'a \<times> 's) \<Rightarrow> bool" where
  "keeps I m \<longleftrightarrow> (\<forall>s. I s \<longrightarrow> I (snd (m s)))"

named_theorems keeps_intros

lemma keepsD: "keeps I m \<Longrightarrow> I s \<Longrightarrow> m s = (x, s') \<Longrightarrow> I s'"
  by (force simp: keeps_def)

lemma keeps_run: "keeps I m \<Longrightarrow> I s \<Longrightarrow> I (snd (m s))"
  by (simp add: keeps_def)

lemma keeps_Pair [keeps_intros]: "keeps I (Pair x)"
  by (simp add: keeps_def)

lemma keeps_andthen [keeps_intros]: "keeps I m \<Longrightarrow> (\<And>x. keeps I (k x)) \<Longrightarrow> keeps I (andthen m k)"
  by (simp add: keeps_def andthen_def split: prod.split) (metis snd_conv)

lemma keeps_if [keeps_intros]: "(b \<Longrightarrow> keeps I m) \<Longrightarrow> (\<not> b \<Longrightarrow> keeps I n) \<Longrightarrow> keeps I (if b then m else n)"
  by simp

lemma keeps_sum [keeps_intros]:
  "(\<And>e. r = Inl e \<Longrightarrow> keeps I (f e)) \<Longrightarrow> (\<And>x. r = Inr x \<Longrightarrow> keeps I (g x)) \<Longrightarrow>
   keeps I (case r of Inl e \<Rightarrow> f e | Inr x \<Rightarrow> g x)"
  by (cases r) simp_all

lemma keeps_option [keeps_intros]:
  "(r = None \<Longrightarrow> keeps I f) \<Longrightarrow> (\<And>x. r = Some x \<Longrightarrow> keeps I (g x)) \<Longrightarrow> keeps I (case r of None \<Rightarrow> f | Some x \<Rightarrow> g x)"
  by (cases r) simp_all

text \<open>
  \<open>asked H\<close>: the links added were sent by the chat as a message and are links the parser accepts, with
  the tags of another of its messages; the messages are those of \<open>H\<close>.
\<close>

definition session_asked :: "(int \<times> string) set \<Rightarrow> int \<Rightarrow> track_session \<Rightarrow> bool" where
  "session_asked H c st \<longleftrightarrow>
     (tsState st = state_waiting_for_tags \<longrightarrow> (c, tsURL st) \<in> H \<and> (\<exists>p. bot_parse_link (tsURL st) = Inr p))"

fun call_asked :: "(int \<times> string) set \<Rightarrow> call \<Rightarrow> bool" where
  "call_asked H (CAdd c url tags) =
     ((c, url) \<in> H \<and> (\<exists>p. bot_parse_link url = Inr p) \<and> (\<exists>t. (c, t) \<in> H \<and> tags = parse_tags t))"
| "call_asked H x = True"

lemma call_asked_mono: "call_asked H x \<Longrightarrow> H \<subseteq> H' \<Longrightarrow> call_asked H' x"
  by (cases x) auto

lemma waiting_states: "state_waiting_for_url \<noteq> state_waiting_for_tags"
  by (simp add: state_waiting_for_url_def state_waiting_for_tags_def)

context session_store
begin

definition asked :: "(int \<times> string) set \<Rightarrow> ('d, 'w recorder) bot_state \<Rightarrow> bool" where
  "asked H s \<longleftrightarrow>
     (\<forall>c st. view (bs_sessions s) c = Some st \<longrightarrow> session_asked H c st) \<and> list_all (call_asked H) (rc_calls (bs_world s))"

lemma asked_mono: "asked H s \<Longrightarrow> H \<subseteq> H' \<Longrightarrow> asked H' s"
  using call_asked_mono unfolding asked_def list_all_iff session_asked_def by blast

lemma keeps_recorded [keeps_intros]: "call_asked H x \<Longrightarrow> keeps (asked H) (on_world (recorded x m))"
  unfolding keeps_def
proof (intro allI impI, goal_cases)
  case (1 s)
  obtain r s' where run: "on_world (recorded x m) s = (r, s')" by fastforce
  with on_world_recorded [OF run] 1 show ?case by (simp add: asked_def)
qed

lemma keeps_get [keeps_intros]: "keeps (asked H) (on_sessions (sr_get repo c))"
  unfolding keeps_def
proof (intro allI impI, goal_cases)
  case ok: (1 s)
  obtain r d where run: "sr_get repo c (bs_sessions s) = (r, d)" by fastforce
  with get [OF run] ok show ?case by (auto simp: asked_def on_sessions_def)
qed

lemma keeps_reset [keeps_intros]: "keeps (asked H) (on_sessions (sr_reset repo c))"
  unfolding keeps_def
proof (intro allI impI, goal_cases)
  case ok: (1 s)
  obtain r d where run: "sr_reset repo c (bs_sessions s) = (r, d)" by fastforce
  with reset [OF run] ok show ?case
    by (auto simp: asked_def on_sessions_def split: if_splits)
qed

lemma keeps_set:
  assumes "session_asked H c (st\<lparr>tsChatID := c\<rparr>)"
  shows "keeps (asked H) (on_sessions (sr_set repo c st))"
  unfolding keeps_def
proof (intro allI impI, goal_cases)
  case ok: (1 s)
  obtain r d where run: "sr_set repo c st (bs_sessions s) = (r, d)" by fastforce
  with set [OF run] ok assms show ?case
    by (auto simp: asked_def on_sessions_def split: if_splits)
qed

end

lemma keeps_plain_calls [keeps_intros]: "call_asked H (CRegister c)" "call_asked H (CRemove c u)" "call_asked H (CRemoveByTag c t)"
  "call_asked H (CList c)"
  by simp_all

lemma recording_simps [simp]:
  "cl_register (recording cl) c = recorded (CRegister c) (cl_register cl c)"
  "cl_add (recording cl) c u ts = recorded (CAdd c u ts) (cl_add cl c u ts)"
  "cl_remove (recording cl) c u = recorded (CRemove c u) (cl_remove cl c u)"
  "cl_remove_by_tag (recording cl) c t = recorded (CRemoveByTag c t) (cl_remove_by_tag cl c t)"
  "cl_list (recording cl) c = recorded (CList c) (cl_list cl c)"
  by (simp_all add: recording_def)

context session_store
begin

lemma keeps_start:
  "keeps (asked H) (ts_start \<lparr>tkClient = recording cl, tkRepo = repo\<rparr> c)"
  unfolding ts_start_def track_service.simps recording_simps
  by (intro keeps_intros keeps_set) (simp add: session_asked_def waiting_states)

lemma keeps_commands:
  "keeps (asked H) (snd (start_command (recording cl)) c t)" "keeps (asked H) (snd help_command c t)"
  "keeps (asked H) (snd (track_command \<lparr>tkClient = recording cl, tkRepo = repo\<rparr>) c t)"
  "keeps (asked H) (snd (untrack_command uc (recording cl)) c t)" "keeps (asked H) (snd (list_command (recording cl)) c t)"
  "keeps (asked H) (snd cancel_command c t)" "keeps (asked H) (snd unknown_command c t)"
  unfolding start_command_def help_command_def track_command_def untrack_command_def list_command_def cancel_command_def
    unknown_command_def snd_conv Let_def recording_simps
  by (intro keeps_intros keeps_start)+

lemma keeps_handle_url:
  assumes "(c, url) \<in> H"
  shows "keeps (asked H) (ts_handle_url \<lparr>tkClient = recording cl, tkRepo = repo\<rparr> c url)"
  unfolding ts_handle_url_def track_service.simps
  by (intro keeps_intros keeps_set) (simp add: session_asked_def assms)

lemma keeps_handle_tags:
  assumes t: "(c, text) \<in> H" and s: "asked H s" "view (bs_sessions s) c = Some st" "tsState st = state_waiting_for_tags"
  shows "asked H (snd (ts_handle_tags \<lparr>tkClient = recording cl, tkRepo = repo\<rparr> c text s))"
proof -
  obtain r s1 where get1: "on_sessions (sr_get repo c) s = (r, s1)" by fastforce
  have s1: "asked H s1" using keepsD [OF keeps_get s(1) get1] .
  have r: "\<forall>x. r = Inr x \<longrightarrow> x = Some st"
    using get1 get [of c "bs_sessions s"] s(2) by (auto simp: on_sessions_def split: prod.splits)
  have add: "call_asked H (CAdd c (tsURL st) (parse_tags text))"
    using s t by (auto simp: asked_def session_asked_def)
  show ?thesis
  proof (cases r)
    case (Inl e)
    then show ?thesis using s1 by (simp add: ts_handle_tags_def andthen_def get1)
  next
    case (Inr x)
    with r have "r = Inr (Some st)" by simp
    moreover have "keeps (asked H) (ts_add_link \<lparr>tkClient = recording cl, tkRepo = repo\<rparr> c (tsURL st) (parse_tags text))"
      unfolding ts_add_link_def track_service.simps recording_simps by (intro keeps_intros keeps_recorded add)
    ultimately show ?thesis using s1 by (simp add: ts_handle_tags_def andthen_def get1 keeps_def)
  qed
qed

end

lemma andthen_Pair [simp]: "snd (andthen m (\<lambda>x. Pair (f x)) s) = snd (m s)" "fst (andthen m (\<lambda>x. Pair (f x)) s) = f (fst (m s))"
  by (simp_all add: andthen_def split: prod.split)

text \<open>Every command of the default dispatcher, and every message.\<close>

lemma default_commands:
  "dpCommands (new_default_dispatcher uc cl svc repo) =
     [''/start'' \<mapsto> snd (start_command cl), ''/help'' \<mapsto> snd help_command, ''/track'' \<mapsto> snd (track_command svc),
      ''/untrack'' \<mapsto> snd (untrack_command uc cl), ''/list'' \<mapsto> snd (list_command cl), ''/cancel'' \<mapsto> snd cancel_command,
      ''unknown'' \<mapsto> snd unknown_command]"
  by (simp add: new_default_dispatcher_def new_dispatcher_def start_command_def help_command_def track_command_def
      untrack_command_def list_command_def cancel_command_def unknown_command_def Let_def)

lemma default_fields [simp]:
  "dpTrackService (new_default_dispatcher uc cl svc repo) = svc" "dpRepo (new_default_dispatcher uc cl svc repo) = repo"
  by (simp_all add: new_default_dispatcher_def new_dispatcher_def)

lemma find_command_cases:
  obtains run where "find_command (new_default_dispatcher uc cl svc repo) name = Some run"
    "run \<in> {snd (start_command cl), snd help_command, snd (track_command svc), snd (untrack_command uc cl),
       snd (list_command cl), snd cancel_command, snd unknown_command}"
proof -
  have "\<exists>run. find_command (new_default_dispatcher uc cl svc repo) name = Some run \<and>
     run \<in> {snd (start_command cl), snd help_command, snd (track_command svc), snd (untrack_command uc cl),
       snd (list_command cl), snd cancel_command, snd unknown_command}"
    unfolding find_command_def default_commands by auto
  then show thesis using that by blast
qed

context session_store
begin

lemma asked_dispatch:
  assumes t: "(c, text) \<in> H" and s: "asked H s"
  shows "asked H (snd (dispatch (recording_dispatcher uc cl repo) c text s)) \<and>
    fst (dispatch (recording_dispatcher uc cl repo) c text s) \<noteq> None"
proof -
  let ?svc = "\<lparr>tkClient = recording cl, tkRepo = repo\<rparr>" and ?d = "recording_dispatcher uc cl repo"
  have d: "dpRepo ?d = repo" "dpTrackService ?d = ?svc" by (simp_all add: recording_dispatcher_def)
  obtain r s1 where get1: "on_sessions (sr_get repo c) s = (r, s1)" by fastforce
  have s1: "asked H s1" using keepsD [OF keeps_get s get1] .
  have r: "\<forall>x. r = Inr x \<longrightarrow> x = view (bs_sessions s1) c"
    using get1 get [of c "bs_sessions s"] by (auto simp: on_sessions_def split: prod.splits)
  have reset: "asked H (snd (on_sessions (sr_reset repo c) s1))" by (rule keeps_run [OF keeps_reset s1])
  obtain run where run: "find_command ?d (command_name text) = Some run"
    "run \<in> {snd (start_command (recording cl)), snd help_command, snd (track_command ?svc), snd (untrack_command uc (recording cl)),
       snd (list_command (recording cl)), snd cancel_command, snd unknown_command}"
    unfolding recording_dispatcher_def by (rule find_command_cases)
  have cmd: "asked H (snd (run c text s1))"
    using run(2) by (elim insertE emptyE) (simp_all only: keeps_run [OF keeps_commands(1) s1] keeps_run [OF keeps_commands(2) s1]
        keeps_run [OF keeps_commands(3) s1] keeps_run [OF keeps_commands(4) s1] keeps_run [OF keeps_commands(5) s1]
        keeps_run [OF keeps_commands(6) s1] keeps_run [OF keeps_commands(7) s1])
  have url: "asked H (snd (ts_handle_url ?svc c text s1))" by (rule keeps_run [OF keeps_handle_url [OF t] s1])
  have tags: "asked H (snd (ts_handle_tags ?svc c text s1))"
    if "r = Inr (Some st)" "tsState st = state_waiting_for_tags" for st
    using keeps_handle_tags [OF t s1] r that by simp
  show ?thesis
  proof (cases r)
    case (Inl e)
    then show ?thesis using s1 by (simp add: dispatch_def andthen_def d get1)
  next
    case (Inr session)
    then show ?thesis using s1 reset cmd url tags
      by (auto simp: dispatch_def andthen_def [of "on_sessions (sr_get repo c)"] d get1 run(1) split: option.split)
  qed
qed

lemma asked_send: "asked H s \<Longrightarrow> asked H (s\<lparr>bs_world := recording_send send c text (bs_world s)\<rparr>)"
  by (simp add: asked_def recording_send_def)

lemma asked_run:
  assumes "asked H s" "\<forall>c text. Some (c, text) \<in> set updates \<longrightarrow> (c, text) \<in> H"
  shows "asked H (snd (bot_run (recording_send send) (recording_dispatcher uc cl repo) updates s)) \<and>
    fst (bot_run (recording_send send) (recording_dispatcher uc cl repo) updates s) = Some ()"
  using assms
proof (induction updates arbitrary: s)
  case (Cons u updates)
  show ?case
  proof (cases u)
    case None
    with Cons show ?thesis by simp
  next
    case (Some m)
    obtain c t where m: "m = (c, t)" by fastforce
    obtain r s1 where run: "dispatch (recording_dispatcher uc cl repo) c t s = (r, s1)" by fastforce
    have "asked H s1" "r \<noteq> None"
      using asked_dispatch [of c t H s uc cl] Cons.prems run by (auto simp: Some m)
    then show ?thesis
      using Cons.IH [of s1] Cons.IH [OF asked_send, of s1 send c] Cons.prems by (auto simp: Some m run)
  qed
qed simp

end

section \<open>The dialogue of one chat\<close>

text \<open>
  The specification: the state of a chat's dialogue and the calls one of its messages leads to, when
  nothing fails.
\<close>

datatype dialogue = Idle | AwaitURL | AwaitTags string

definition session_of :: "int \<Rightarrow> dialogue \<Rightarrow> track_session option" where
  "session_of c dl =
     (case dl of
        Idle \<Rightarrow> None
      | AwaitURL \<Rightarrow> Some \<lparr>tsChatID = c, tsState = state_waiting_for_url, tsURL = []\<rparr>
      | AwaitTags url \<Rightarrow> Some \<lparr>tsChatID = c, tsState = state_waiting_for_tags, tsURL = url\<rparr>)"

definition untrack_calls :: "unicode \<Rightarrow> int \<Rightarrow> string list \<Rightarrow> call list" where
  "untrack_calls uc c args =
     (if length args < 2 then []
      else CRegister c #
        (if args ! 1 \<noteq> ''tag'' \<and> bot_is_url uc (args ! 1) then [CRemove c (args ! 1)]
         else if 3 \<le> length args then [CRemoveByTag c (join '' '' (drop 2 args))]
         else if args ! 1 = ''tag'' then [] else [CRemoveByTag c (args ! 1)]))"

definition command_step :: "unicode \<Rightarrow> int \<Rightarrow> string \<Rightarrow> dialogue \<times> call list" where
  "command_step uc c text =
     (let name = command_name text in
      if name = ''/track'' then (AwaitURL, [CRegister c])
      else if name = ''/start'' then (Idle, [CRegister c])
      else if name = ''/list'' then (Idle, [CRegister c, CList c])
      else if name = ''/untrack'' then (Idle, untrack_calls uc c (Go_Strings.fields text))
      else (Idle, []))"

definition chat_step :: "unicode \<Rightarrow> int \<Rightarrow> string \<Rightarrow> dialogue \<Rightarrow> dialogue \<times> call list" where
  "chat_step uc c text dl =
     (if has_prefix text ''/cancel'' then (Idle, [])
      else if has_prefix text ''/'' then (if dl = Idle then command_step uc c text else (dl, []))
      else
        (case dl of
           Idle \<Rightarrow> (Idle, [])
         | AwaitURL \<Rightarrow> (case bot_parse_link text of Inl _ \<Rightarrow> AwaitURL | Inr _ \<Rightarrow> AwaitTags text, [])
         | AwaitTags url \<Rightarrow> (Idle, [CRegister c, CAdd c url (parse_tags text)])))"

fun chat_run :: "unicode \<Rightarrow> int \<Rightarrow> string list \<Rightarrow> dialogue \<Rightarrow> dialogue \<times> call list" where
  "chat_run uc c [] dl = (dl, [])"
| "chat_run uc c (t # ts) dl =
     (case chat_step uc c t dl of (dl1, k1) \<Rightarrow> case chat_run uc c ts dl1 of (dl2, k2) \<Rightarrow> (dl2, k1 @ k2))"

fun own_messages :: "int \<Rightarrow> (int \<times> string) option list \<Rightarrow> string list" where
  "own_messages c [] = []"
| "own_messages c (None # us) = own_messages c us"
| "own_messages c (Some (c', t) # us) = (if c' = c then t # own_messages c us else own_messages c us)"

text \<open>
  A scrapper behind the client: \<open>I cs w\<close> says that \<open>w\<close> is its world after the calls \<open>cs\<close>.  A call that is
  made in such a world leads to the world after it; a registration and the addition of a link for a chat
  just registered are answered without an error.  Only the calls with \<open>P\<close> are considered.
\<close>

definition answers_at :: "(call list \<Rightarrow> 'w \<Rightarrow> bool) \<Rightarrow> call list \<Rightarrow> call \<Rightarrow> ('w, 'a) eff \<Rightarrow> bool" where
  "answers_at I cs x m \<longleftrightarrow> (\<forall>w. I cs w \<longrightarrow> (\<exists>y w'. m w = (Inr y, w') \<and> I (cs @ [x]) w'))"

definition keeps_at :: "(call list \<Rightarrow> 'w \<Rightarrow> bool) \<Rightarrow> call list \<Rightarrow> call \<Rightarrow> ('w, 'a) eff \<Rightarrow> bool" where
  "keeps_at I cs x m \<longleftrightarrow> (\<forall>w. I cs w \<longrightarrow> I (cs @ [x]) (snd (m w)))"

definition serves_calls :: "(call \<Rightarrow> bool) \<Rightarrow> (call list \<Rightarrow> 'w \<Rightarrow> bool) \<Rightarrow> 'w scrapper_client \<Rightarrow> bool" where
  "serves_calls P I cl \<longleftrightarrow>
     (\<forall>cs c u ts.
        (P (CRegister c) \<longrightarrow> answers_at I cs (CRegister c) (cl_register cl c)) \<and>
        (P (CAdd c u ts) \<longrightarrow> answers_at I (cs @ [CRegister c]) (CAdd c u ts) (cl_add cl c u ts)) \<and>
        (P (CRemove c u) \<longrightarrow> keeps_at I cs (CRemove c u) (cl_remove cl c u)) \<and>
        (P (CRemoveByTag c u) \<longrightarrow> keeps_at I cs (CRemoveByTag c u) (cl_remove_by_tag cl c u)) \<and>
        (P (CList c) \<longrightarrow> keeps_at I cs (CList c) (cl_list cl c)))"

lemma serves_callsD:
  assumes "serves_calls P I cl"
  shows "P (CRegister c) \<Longrightarrow> answers_at I cs (CRegister c) (cl_register cl c)"
    "P (CAdd c u ts) \<Longrightarrow> answers_at I (cs @ [CRegister c]) (CAdd c u ts) (cl_add cl c u ts)"
    "P (CRemove c u) \<Longrightarrow> keeps_at I cs (CRemove c u) (cl_remove cl c u)"
    "P (CRemoveByTag c u) \<Longrightarrow> keeps_at I cs (CRemoveByTag c u) (cl_remove_by_tag cl c u)"
    "P (CList c) \<Longrightarrow> keeps_at I cs (CList c) (cl_list cl c)"
  using assms unfolding serves_calls_def by blast+

lemma answers_keeps_at: "answers_at I cs x m \<Longrightarrow> keeps_at I cs x m"
  unfolding answers_at_def keeps_at_def by (metis snd_conv)

text \<open>A scrapper that answers every call.\<close>

definition answers :: "('w, 'a) eff \<Rightarrow> bool" where
  "answers m \<longleftrightarrow> (\<forall>w. \<exists>x w'. m w = (Inr x, w'))"

definition reliable :: "'w scrapper_client \<Rightarrow> bool" where
  "reliable cl \<longleftrightarrow> (\<forall>c u ts. answers (cl_register cl c) \<and> answers (cl_add cl c u ts))"

lemma reliable_serves: "reliable cl \<Longrightarrow> serves_calls (\<lambda>_. True) (\<lambda>_ _. True) cl"
  by (simp add: reliable_def serves_calls_def answers_def answers_at_def keeps_at_def)

lemma chat_step_calls: "x \<in> set (snd (chat_step uc c t dl)) \<Longrightarrow> call_chat x = c"
  by (auto simp: chat_step_def command_step_def untrack_calls_def Let_def split: if_splits dialogue.splits)

context session_store
begin

definition shows_as ::
    "(call list \<Rightarrow> 'w \<Rightarrow> bool) \<Rightarrow> ('d, 'w recorder) bot_state \<Rightarrow> (int \<Rightarrow> track_session option) \<times> call list \<Rightarrow> bool" where
  "shows_as I s a \<longleftrightarrow>
     calm (bs_sessions s) \<and> view (bs_sessions s) = fst a \<and> rc_calls (bs_world s) = snd a \<and> I (snd a) (rc_inner (bs_world s))"

definition runs where
  "runs I m a X b \<longleftrightarrow> (\<forall>s. shows_as I s a \<longrightarrow> (\<exists>x s'. m s = (x, s') \<and> X x \<and> shows_as I s' b))"

lemma runs_Pair: "X x \<Longrightarrow> runs I (Pair x) a X a"
  by (simp add: runs_def)

lemma runs_andthen:
  assumes "runs I m a X b" "\<And>x. X x \<Longrightarrow> runs I (k x) b Y c"
  shows "runs I (andthen m k) a Y c"
  unfolding runs_def
proof (intro allI impI, goal_cases)
  case (1 s)
  then obtain x s1 where m: "m s = (x, s1)" "X x" "shows_as I s1 b" using assms(1) unfolding runs_def by blast
  then obtain y s2 where "k x s1 = (y, s2)" "Y y" "shows_as I s2 c" using assms(2) unfolding runs_def by blast
  then show ?case by (simp add: andthen_def m(1))
qed

lemma runs_get: "runs I (on_sessions (sr_get repo c)) (v, cs) (\<lambda>r. r = Inr (v c)) (v, cs)"
  unfolding runs_def
proof (intro allI impI, goal_cases)
  case (1 s)
  obtain r d where run: "sr_get repo c (bs_sessions s) = (r, d)" by fastforce
  have "view d = view (bs_sessions s)" "calm d" "r = Inr (view (bs_sessions s) c)"
    using get [OF run] 1 unfolding shows_as_def by blast+
  with 1 show ?case by (simp add: on_sessions_def run shows_as_def)
qed

lemma runs_set: "runs I (on_sessions (sr_set repo c st)) (v, cs) (\<lambda>r. r = Inr ()) (v(c \<mapsto> st\<lparr>tsChatID := c\<rparr>), cs)"
  unfolding runs_def
proof (intro allI impI, goal_cases)
  case (1 s)
  obtain r d where run: "sr_set repo c st (bs_sessions s) = (r, d)" by fastforce
  from set [OF run] 1 show ?case by (auto simp: on_sessions_def run shows_as_def)
qed

lemma runs_reset: "runs I (on_sessions (sr_reset repo c)) (v, cs) (\<lambda>r. r = Inr ()) (v(c := None), cs)"
  unfolding runs_def
proof (intro allI impI, goal_cases)
  case (1 s)
  obtain r d where run: "sr_reset repo c (bs_sessions s) = (r, d)" by fastforce
  from reset [OF run] 1 show ?case by (auto simp: on_sessions_def run shows_as_def)
qed

lemma runs_call: "answers_at I cs k m \<Longrightarrow> runs I (on_world (recorded k m)) (v, cs) (\<lambda>r. \<exists>x. r = Inr x) (v, cs @ [k])"
  unfolding runs_def
proof (intro allI impI, goal_cases)
  case (1 s)
  then obtain x w where "m (rc_inner (bs_world s)) = (Inr x, w)" "I (cs @ [k]) w"
    unfolding answers_at_def shows_as_def by auto
  with 1(2) show ?case by (simp add: on_world_def recorded_def shows_as_def)
qed

lemma runs_keeps: "keeps_at I cs k m \<Longrightarrow> runs I (on_world (recorded k m)) (v, cs) (\<lambda>_. True) (v, cs @ [k])"
  unfolding runs_def
proof (intro allI impI, goal_cases)
  case (1 s)
  then have "I (cs @ [k]) (snd (m (rc_inner (bs_world s))))" unfolding keeps_at_def shows_as_def by auto
  with 1(2) show ?case by (cases "m (rc_inner (bs_world s))") (simp add: on_world_def recorded_def shows_as_def)
qed

lemma runs_start:
  assumes "serves_calls P I cl" "P (CRegister c)"
  shows "runs I (ts_start \<lparr>tkClient = recording cl, tkRepo = repo\<rparr> c) (v, cs) (\<lambda>_. True)
     (v(c := session_of c AwaitURL), cs @ [CRegister c])"
  unfolding ts_start_def track_service.simps recording_simps
proof (rule runs_andthen [OF runs_call])
  show "answers_at I cs (CRegister c) (cl_register cl c)" using serves_callsD(1) [OF assms] .
  fix r :: "unit result" assume "\<exists>x. r = Inr x"
  then obtain x where r: "r = Inr x" by blast
  have "runs I (on_sessions (sr_set repo c \<lparr>tsChatID = c, tsState = state_waiting_for_url, tsURL = []\<rparr>)) (v, cs @ [CRegister c])
      (\<lambda>r. r = Inr ()) (v(c := session_of c AwaitURL), cs @ [CRegister c])"
    using runs_set [of I c "\<lparr>tsChatID = c, tsState = state_waiting_for_url, tsURL = []\<rparr>" v "cs @ [CRegister c]"]
    by (simp add: session_of_def)
  then show "runs I (case r of Inl _ \<Rightarrow> Pair txt_register_failed
      | Inr _ \<Rightarrow> andthen (on_sessions (sr_set repo c \<lparr>tsChatID = c, tsState = state_waiting_for_url, tsURL = []\<rparr>))
          (\<lambda>r. Pair (case r of Inl _ \<Rightarrow> txt_state_not_saved | Inr _ \<Rightarrow> txt_send_link)))
      (v, cs @ [CRegister c]) (\<lambda>_. True) (v(c := session_of c AwaitURL), cs @ [CRegister c])"
    unfolding r by (auto intro: runs_andthen runs_Pair)
qed

end

lemma chat_step_command:
  "\<not> has_prefix t ''/cancel'' \<Longrightarrow> has_prefix t ''/'' \<Longrightarrow> chat_step uc c t Idle = command_step uc c t"
  by (simp add: chat_step_def)

lemma command_name_cancel: "command_name t = ''/cancel'' \<Longrightarrow> has_prefix t ''/cancel''"
proof -
  have prefix: "has_prefix t (hd (split_on d t))" for d
  proof (induction t)
    case (Cons c t)
    then show ?case by (auto simp: has_prefix_def)
  qed (simp add: has_prefix_def)
  show "command_name t = ''/cancel'' \<Longrightarrow> has_prefix t ''/cancel''"
    using prefix [of "CHR '' ''"] by (simp add: command_name_def)
qed

context session_store
begin

lemma runs_command_call:
  assumes "keeps_at I cs x m" "\<And>r. runs I (k r) (v, cs @ [x]) (\<lambda>_. True) b"
  shows "runs I (andthen (on_world (recorded x m)) k) (v, cs) (\<lambda>_. True) b"
  by (rule runs_andthen [OF runs_keeps [OF assms(1)]]) (rule assms(2))

lemma runs_after_call:
  assumes "answers_at I cs y m" "\<And>x. runs I (g x) (v, cs @ [y]) (\<lambda>_. True) b"
  shows "runs I (andthen (on_world (recorded y m)) (\<lambda>r. case r of Inl e \<Rightarrow> f e | Inr x \<Rightarrow> g x)) (v, cs) (\<lambda>_. True) b"
  by (rule runs_andthen [OF runs_call [OF assms(1)]]) (use assms(2) in auto)

lemma runs_True: "runs I (Pair x) a (\<lambda>_. True) a"
  by (simp add: runs_Pair)

lemma runs_commands:
  assumes cl: "serves_calls P I cl" and v: "v c = None"
  shows "P (CRegister c) \<Longrightarrow> runs I (snd (start_command (recording cl)) c t) (v, cs) (\<lambda>_. True) (v, cs @ [CRegister c])"
    "runs I (snd help_command c t) (v, cs) (\<lambda>_. True) (v, cs)" "runs I (snd cancel_command c t) (v, cs) (\<lambda>_. True) (v, cs)"
    "runs I (snd unknown_command c t) (v, cs) (\<lambda>_. True) (v, cs)"
    "P (CRegister c) \<Longrightarrow> runs I (snd (track_command \<lparr>tkClient = recording cl, tkRepo = repo\<rparr>) c t) (v, cs) (\<lambda>_. True)
       (v(c := session_of c AwaitURL), cs @ [CRegister c])"
    "P (CRegister c) \<Longrightarrow> P (CList c) \<Longrightarrow>
       runs I (snd (list_command (recording cl)) c t) (v, cs) (\<lambda>_. True) (v, cs @ [CRegister c, CList c])"
    "\<forall>x \<in> set (untrack_calls uc c (Go_Strings.fields t)). P x \<Longrightarrow>
       runs I (snd (untrack_command uc (recording cl)) c t) (v, cs) (\<lambda>_. True) (v, cs @ untrack_calls uc c (Go_Strings.fields t))"
proof -
  note a = serves_callsD [OF cl]
  show "runs I (snd (start_command (recording cl)) c t) (v, cs) (\<lambda>_. True) (v, cs @ [CRegister c])" if "P (CRegister c)"
    unfolding start_command_def snd_conv recording_simps
    by (rule runs_command_call [OF answers_keeps_at [OF a(1) [OF that]]]) (rule runs_True)
  show "runs I (snd help_command c t) (v, cs) (\<lambda>_. True) (v, cs)" "runs I (snd cancel_command c t) (v, cs) (\<lambda>_. True) (v, cs)"
    "runs I (snd unknown_command c t) (v, cs) (\<lambda>_. True) (v, cs)"
    by (simp_all add: help_command_def cancel_command_def unknown_command_def runs_True)
  show "runs I (snd (track_command \<lparr>tkClient = recording cl, tkRepo = repo\<rparr>) c t) (v, cs) (\<lambda>_. True)
       (v(c := session_of c AwaitURL), cs @ [CRegister c])" if "P (CRegister c)"
    unfolding track_command_def snd_conv by (rule runs_andthen [OF runs_start [OF cl that]]) (rule runs_True)
  show "runs I (snd (list_command (recording cl)) c t) (v, cs) (\<lambda>_. True) (v, cs @ [CRegister c, CList c])"
    if "P (CRegister c)" "P (CList c)"
  proof -
    have two: "cs @ [CRegister c, CList c] = (cs @ [CRegister c]) @ [CList c]" by simp
    show ?thesis unfolding list_command_def snd_conv recording_simps Let_def two
      by (intro runs_after_call a that runs_command_call runs_True)
  qed
  show "runs I (snd (untrack_command uc (recording cl)) c t) (v, cs) (\<lambda>_. True) (v, cs @ untrack_calls uc c (Go_Strings.fields t))"
    if P: "\<forall>x \<in> set (untrack_calls uc c (Go_Strings.fields t)). P x"
  proof (cases "length (Go_Strings.fields t) < 2")
    case True
    then show ?thesis by (simp add: untrack_command_def untrack_calls_def runs_True)
  next
    case False
    define args where "args = Go_Strings.fields t"
    have two: "cs @ [CRegister c, x] = (cs @ [CRegister c]) @ [x]" for x by simp
    have calls: "runs I (andthen (on_world (recorded x m)) (\<lambda>r. Pair (h r))) (v, cs @ [CRegister c]) (\<lambda>_. True) (v, cs @ [CRegister c, x])"
      if "keeps_at I (cs @ [CRegister c]) x m" for x h and m :: "('a, 'y) eff"
      unfolding two by (rule runs_command_call [OF that]) (rule runs_True)
    have args: "\<not> length args < 2" "\<forall>x \<in> set (untrack_calls uc c args). P x" using False P by (simp_all add: args_def)
    then have "P (CRegister c)" by (simp add: untrack_calls_def)
    with args show ?thesis
      unfolding untrack_command_def snd_conv recording_simps untrack_calls_def Let_def args_def [symmetric]
      by (simp only: if_False, intro runs_after_call a(1)) (auto simp: calls a runs_True not_le not_less)
  qed
qed

lemma runs_handle_url:
  assumes "v c = session_of c AwaitURL"
  shows "runs I (ts_handle_url \<lparr>tkClient = recording cl, tkRepo = repo\<rparr> c t) (v, cs) (\<lambda>_. True)
     (v(c := session_of c (case bot_parse_link t of Inl _ \<Rightarrow> AwaitURL | Inr _ \<Rightarrow> AwaitTags t)), cs)"
  unfolding ts_handle_url_def track_service.simps
proof (rule runs_andthen [OF runs_get], goal_cases)
  case (1 r)
  then have r: "r = Inr (Some \<lparr>tsChatID = c, tsState = state_waiting_for_url, tsURL = []\<rparr>)" using assms by (simp add: session_of_def)
  show ?case
  proof (cases "bot_parse_link t")
    case (Inl e)
    then show ?thesis using assms runs_True [of I _ "(v, cs)"] by (simp add: r fun_upd_idem)
  next
    case (Inr p)
    have "runs I (on_sessions (sr_set repo c \<lparr>tsChatID = c, tsState = state_waiting_for_tags, tsURL = t\<rparr>)) (v, cs)
        (\<lambda>r. r = Inr ()) (v(c := session_of c (AwaitTags t)), cs)"
      using runs_set [of I c "\<lparr>tsChatID = c, tsState = state_waiting_for_tags, tsURL = t\<rparr>" v cs] by (simp add: session_of_def)
    then show ?thesis unfolding r sum.case option.case Inr
      by (simp) (erule runs_andthen, rule runs_True)
  qed
qed

lemma runs_handle_tags:
  assumes cl: "serves_calls P I cl" and P: "P (CRegister c)" "P (CAdd c url (parse_tags t))" and "v c = session_of c (AwaitTags url)"
  shows "runs I (ts_handle_tags \<lparr>tkClient = recording cl, tkRepo = repo\<rparr> c t) (v, cs) (\<lambda>_. True)
     (v(c := None), cs @ [CRegister c, CAdd c url (parse_tags t)])"
  unfolding ts_handle_tags_def track_service.simps
proof (rule runs_andthen [OF runs_get], goal_cases)
  case (1 r)
  then have r: "r = Inr (Some \<lparr>tsChatID = c, tsState = state_waiting_for_tags, tsURL = url\<rparr>)" using assms(4) by (simp add: session_of_def)
  have two: "cs @ [CRegister c, x] = (cs @ [CRegister c]) @ [x]" for x by simp
  note a = serves_callsD(1) [OF cl P(1)] serves_callsD(2) [OF cl P(2)]
  show ?case
    unfolding r sum.case option.case track_session.simps ts_add_link_def track_service.simps recording_simps two
    by (intro runs_after_call a, rule runs_andthen [OF runs_reset], rule runs_True)
qed

end

context session_store
begin

lemma runs_imp: "runs I m a (\<lambda>_. True) b \<Longrightarrow> runs I (andthen m (\<lambda>x. Pair (Some (f x)))) a (\<lambda>r. r \<noteq> None) b"
  by (rule runs_andthen [where X = "\<lambda>_. True"]) (auto intro: runs_Pair)

lemma runs_command:
  assumes cl: "serves_calls P I cl" and P: "\<forall>x \<in> set (snd (command_step uc c t)). P x" and v: "v c = None" and t: "\<not> has_prefix t ''/cancel''"
    and run: "find_command (recording_dispatcher uc cl repo) (command_name t) = Some run"
  shows "runs I (run c t) (v, cs) (\<lambda>_. True) (v(c := session_of c (fst (command_step uc c t))), cs @ snd (command_step uc c t))"
proof -
  note cmds = runs_commands [OF cl, of v c, OF v]
  have calls: "command_name t \<in> {''/track'', ''/start'', ''/list''} \<Longrightarrow> P (CRegister c)" "command_name t = ''/list'' \<Longrightarrow> P (CList c)"
    "command_name t = ''/untrack'' \<Longrightarrow> \<forall>x \<in> set (untrack_calls uc c (Go_Strings.fields t)). P x"
    using P by (auto simp: command_step_def Let_def)
  have same: "v(c := session_of c Idle) = v" using v by (simp add: session_of_def fun_upd_idem)
  have name: "command_name t \<noteq> ''/cancel''" using t command_name_cancel by blast
  have eq: "run = snd (if command_name t = ''/track'' then track_command \<lparr>tkClient = recording cl, tkRepo = repo\<rparr>
      else if command_name t = ''/start'' then start_command (recording cl)
      else if command_name t = ''/list'' then list_command (recording cl)
      else if command_name t = ''/untrack'' then untrack_command uc (recording cl)
      else if command_name t = ''/help'' then help_command else unknown_command)"
    using run name by (auto simp: find_command_def recording_dispatcher_def default_commands split: if_splits)
  show ?thesis unfolding eq command_step_def Let_def using calls by (simp add: same cmds)
qed

lemma runs_dispatch:
  assumes cl: "serves_calls P I cl" and P: "\<forall>x \<in> set (snd (chat_step uc c t dl)). P x" and v: "v c = session_of c dl"
  shows "runs I (dispatch (recording_dispatcher uc cl repo) c t) (v, cs) (\<lambda>r. r \<noteq> None)
     (v(c := session_of c (fst (chat_step uc c t dl))), cs @ snd (chat_step uc c t dl))"
proof -
  let ?d = "recording_dispatcher uc cl repo"
  have d: "dpRepo ?d = repo" "dpTrackService ?d = \<lparr>tkClient = recording cl, tkRepo = repo\<rparr>"
    by (simp_all add: recording_dispatcher_def)
  show ?thesis unfolding dispatch_def d
  proof (rule runs_andthen [OF runs_get], goal_cases)
    case (1 r)
    then have r: "r = Inr (session_of c dl)" using v by simp
    show ?case
    proof (cases "has_prefix t ''/cancel''")
      case True
      then have slash: "has_prefix t ''/''" by (auto simp: has_prefix_iff)
      have "runs I (andthen (on_sessions (sr_reset repo c)) (\<lambda>r. Pair (Some (f r)))) (v, cs) (\<lambda>r. r \<noteq> None) (v(c := None), cs)" for f :: "unit result \<Rightarrow> reply"
        by (rule runs_andthen [OF runs_reset]) (simp add: runs_Pair)
      with True slash show ?thesis unfolding r sum.case
        by (simp add: chat_step_def session_of_def [of c Idle])
    next
      case False
      have same: "v(c := session_of c dl) = v" using v by (simp add: fun_upd_idem)
      obtain run where run: "find_command ?d (command_name t) = Some run"
        unfolding recording_dispatcher_def by (rule find_command_cases)
      have P': "dl = Idle \<Longrightarrow> has_prefix t ''/'' \<Longrightarrow> \<forall>x \<in> set (snd (command_step uc c t)). P x"
        "\<not> has_prefix t ''/'' \<Longrightarrow> dl = AwaitTags u \<Longrightarrow> P (CRegister c) \<and> P (CAdd c u (parse_tags t))" for u
        using P False by (auto simp: chat_step_def)
      have cmd: "dl = Idle \<Longrightarrow> has_prefix t ''/'' \<Longrightarrow> runs I (andthen (run c t) (\<lambda>r. Pair (Some r))) (v, cs) (\<lambda>r. r \<noteq> None)
          (v(c := session_of c (fst (command_step uc c t))), cs @ snd (command_step uc c t))"
        using v by (intro runs_imp runs_command [OF cl P'(1) _ False run]) (simp_all add: session_of_def)
      have url: "dl = AwaitURL \<Longrightarrow> runs I (andthen (ts_handle_url \<lparr>tkClient = recording cl, tkRepo = repo\<rparr> c t) (\<lambda>t. Pair (Some (t, None :: go_error option))))
          (v, cs) (\<lambda>r. r \<noteq> None) (v(c := session_of c (case bot_parse_link t of Inl _ \<Rightarrow> AwaitURL | Inr _ \<Rightarrow> AwaitTags t)), cs)"
        using v by (intro runs_imp runs_handle_url) simp
      have tags: "dl = AwaitTags u \<Longrightarrow> \<not> has_prefix t ''/'' \<Longrightarrow> runs I (andthen (ts_handle_tags \<lparr>tkClient = recording cl, tkRepo = repo\<rparr> c t) (\<lambda>r. Pair (Some r)))
          (v, cs) (\<lambda>r. r \<noteq> None) (v(c := None), cs @ [CRegister c, CAdd c u (parse_tags t)])" for u
        using v P'(2) [of u] by (intro runs_imp runs_handle_tags [OF cl]) simp_all
      note parts = False run cmd url tags same waiting_states
      show ?thesis unfolding r sum.case
        by (cases dl) (use parts in \<open>simp_all add: chat_step_def session_of_def runs_Pair\<close>)
    qed
  qed
qed

end

context session_store
begin

lemma shows_as_send:
  "shows_as I s a \<Longrightarrow> (\<And>cs w. I cs w \<Longrightarrow> I cs (send c t w)) \<Longrightarrow> shows_as I (s\<lparr>bs_world := recording_send send c t (bs_world s)\<rparr>) a"
  by (simp add: shows_as_def recording_send_def)

lemma runs_messages:
  assumes cl: "serves_calls P I cl" and send: "\<And>cs w c t. I cs w \<Longrightarrow> I cs (send c t w)"
    and "shows_as I s (v, cs)" "\<forall>c. v c = session_of c (dl c)"
    and "\<forall>c. \<forall>x \<in> set (snd (chat_run uc c (own_messages c updates) (dl c))). P x"
  shows "\<exists>s' v' cs'. bot_run (recording_send send) (recording_dispatcher uc cl repo) updates s = (Some (), s') \<and> shows_as I s' (v', cs') \<and>
    (\<forall>c. v' c = session_of c (fst (chat_run uc c (own_messages c updates) (dl c))) \<and>
      filter (\<lambda>x. call_chat x = c) cs' = filter (\<lambda>x. call_chat x = c) cs @ snd (chat_run uc c (own_messages c updates) (dl c)))"
  using assms(3-5)
proof (induction updates arbitrary: s v cs dl)
  case Nil
  then show ?case by auto
next
  case (Cons u updates)
  show ?case
  proof (cases u)
    case None
    with Cons show ?thesis by simp
  next
    case (Some m)
    obtain c0 t where m: "m = (c0, t)" by fastforce
    obtain dl1 new where step: "chat_step uc c0 t (dl c0) = (dl1, new)" by fastforce
    have "v c0 = session_of c0 (dl c0)" using Cons.prems(2) by blast
    moreover have "\<forall>x \<in> set (snd (chat_step uc c0 t (dl c0))). P x"
      using Cons.prems(3) [rule_format, of _ c0] by (simp add: Some m step split: prod.splits)
    ultimately have "runs I (dispatch (recording_dispatcher uc cl repo) c0 t) (v, cs) (\<lambda>r. r \<noteq> None)
        (v(c0 := session_of c0 (fst (chat_step uc c0 t (dl c0)))), cs @ snd (chat_step uc c0 t (dl c0)))"
      by (intro runs_dispatch [OF cl])
    from this Cons.prems(1) obtain rep s1 where
      run: "dispatch (recording_dispatcher uc cl repo) c0 t s = (Some rep, s1)" "shows_as I s1 (v(c0 := session_of c0 dl1), cs @ new)"
      unfolding runs_def step fst_conv snd_conv by blast
    obtain response err where rep: "rep = (response, err)" by fastforce
    define s2 where "s2 = (if response \<noteq> [] then s1\<lparr>bs_world := recording_send send c0 response (bs_world s1)\<rparr> else s1)"
    have s2: "shows_as I s2 (v(c0 := session_of c0 dl1), cs @ new)"
      using run(2) by (simp add: s2_def shows_as_send send)
    have "\<forall>c. (v(c0 := session_of c0 dl1)) c = session_of c ((dl(c0 := dl1)) c)" using Cons.prems(2) by simp
    moreover have "\<forall>c. \<forall>x \<in> set (snd (chat_run uc c (own_messages c updates) ((dl(c0 := dl1)) c))). P x"
    proof (intro allI ballI)
      fix c x assume "x \<in> set (snd (chat_run uc c (own_messages c updates) ((dl(c0 := dl1)) c)))"
      then have "x \<in> set (snd (chat_run uc c (own_messages c (u # updates)) (dl c)))"
        by (auto simp: Some m step split: prod.splits if_splits)
      then show "P x" using Cons.prems(3) by blast
    qed
    ultimately have "\<forall>c. (v(c0 := session_of c0 dl1)) c = session_of c ((dl(c0 := dl1)) c)"
      "\<forall>c. \<forall>x \<in> set (snd (chat_run uc c (own_messages c updates) ((dl(c0 := dl1)) c))). P x" .
    from Cons.IH [OF s2 this] obtain s' v' cs' where
      IH: "bot_run (recording_send send) (recording_dispatcher uc cl repo) updates s2 = (Some (), s')" "shows_as I s' (v', cs')"
        "\<And>c. v' c = session_of c (fst (chat_run uc c (own_messages c updates) ((dl(c0 := dl1)) c)))"
        "\<And>c. filter (\<lambda>x. call_chat x = c) cs' =
           filter (\<lambda>x. call_chat x = c) (cs @ new) @ snd (chat_run uc c (own_messages c updates) ((dl(c0 := dl1)) c))"
      by blast
    have new: "filter (\<lambda>x. call_chat x = c) new = (if c = c0 then new else [])" for c
      using chat_step_calls [of _ uc c0 t "dl c0"] by (auto simp: step filter_id_conv filter_empty_conv)
    have "bot_run (recording_send send) (recording_dispatcher uc cl repo) (u # updates) s = (Some (), s')"
      using IH(1) by (simp add: Some m run(1) rep s2_def split del: if_split)
    moreover have "v' c = session_of c (fst (chat_run uc c (own_messages c (u # updates)) (dl c))) \<and>
      filter (\<lambda>x. call_chat x = c) cs' = filter (\<lambda>x. call_chat x = c) cs @ snd (chat_run uc c (own_messages c (u # updates)) (dl c))" for c
      using IH(3) [of c] IH(4) [of c] by (simp add: Some m step new split: prod.split)
    ultimately show ?thesis using IH(2) by blast
  qed
qed

end

section \<open>What chats get\<close>

definition example_client :: "unit scrapper_client" where
  "example_client =
     \<lparr>cl_register = (\<lambda>_. ret ()), cl_delete_chat = (\<lambda>_. ret ()), cl_add = (\<lambda>_ _ _. ret ()), cl_remove = (\<lambda>_ _. ret ()),
      cl_remove_by_tag = (\<lambda>_ _. ret 0), cl_list = (\<lambda>_. ret [])\<rparr>"

definition example_unicode :: unicode where
  "example_unicode = \<lparr>uni_letter = (\<lambda>_. False), uni_digit = (\<lambda>_. False), uni_lower = (\<lambda>r. r)\<rparr>"

definition example_bot :: "(session_db, unit recorder) bot_state" where
  "example_bot = \<lparr>bs_sessions = \<lparr>ss_rows = [], ss_faults = []\<rparr>, bs_world = \<lparr>rc_calls = [], rc_inner = ()\<rparr>\<rparr>"

definition example_messages :: "(int \<times> string) option list" where
  "example_messages =
     [Some (1, ''/track''), Some (2, ''/track''), Some (1, ''https://github.com/owner/repo''), None, Some (2, ''/list''),
      Some (1, ''go, ,bug''), Some (2, ''/cancel'')]"

text \<open>
  (C16) Whatever the messages, the faults of the session table and the answers of the scrapper, over either
  session repository: the loop of the bot goes through all messages (no command is missing), and every link it
  has the scrapper add is one the parser accepts, was sent as a message by that same chat, and gets
  the tags of another message of that chat.
\<close>

theorem bot_adds_only_what_chats_asked:
  assumes "repo \<in> {sql_sessions_repo, orm_sessions_repo}" "ss_rows (bs_sessions s) = []" "rc_calls (bs_world s) = []"
    and "bot_run (recording_send send) (recording_dispatcher uc cl repo) updates s = (r, s')"
  shows "r = Some () \<and>
    (\<forall>c url tags. CAdd c url tags \<in> set (rc_calls (bs_world s')) \<longrightarrow>
       (\<exists>p. bot_parse_link url = Inr p) \<and> Some (c, url) \<in> set updates \<and> (\<exists>t. Some (c, t) \<in> set updates \<and> tags = parse_tags t))"
proof -
  let ?H = "{(c, t). Some (c, t) \<in> set updates}"
  have "session_view (bs_sessions s) = (\<lambda>c. None)" using assms(2) by (simp add: fun_eq_iff session_view_def)
  then have start: "sql_sessions.asked ?H s" "orm_sessions.asked ?H s"
    using assms(3) by (simp_all add: sql_sessions.asked_def orm_sessions.asked_def)
  have "list_all (call_asked ?H) (rc_calls (bs_world s')) \<and> r = Some ()"
    using assms(1)
  proof (elim insertE emptyE)
    assume "repo = sql_sessions_repo"
    with sql_sessions.asked_run [OF start(1), of updates send uc cl] assms(4) show ?thesis by (auto simp: sql_sessions.asked_def)
  next
    assume "repo = orm_sessions_repo"
    with orm_sessions.asked_run [OF start(2), of updates send uc cl] assms(4) show ?thesis by (auto simp: orm_sessions.asked_def)
  qed
  then show ?thesis by (fastforce simp: list_all_iff)
qed

lemma bot_adds_only_what_chats_asked_witness:
  "fst (bot_run (recording_send (\<lambda>_ _ w. w)) (recording_dispatcher example_unicode example_client sql_sessions_repo) example_messages
     (example_bot\<lparr>bs_sessions := \<lparr>ss_rows = [], ss_faults = [Healthy, AckLost ErrUnexpectedError]\<rparr>\<rparr>)) = Some ()"
proof -
  let ?s = "example_bot\<lparr>bs_sessions := \<lparr>ss_rows = [], ss_faults = [Healthy, AckLost ErrUnexpectedError]\<rparr>\<rparr>"
  obtain r s' where run: "bot_run (recording_send (\<lambda>_ _ w. w)) (recording_dispatcher example_unicode example_client sql_sessions_repo)
      example_messages ?s = (r, s')" by fastforce
  have "r = Some ()"
    using bot_adds_only_what_chats_asked [OF _ _ _ run] by (simp add: example_bot_def)
  then show ?thesis by (simp only: run fst_conv)
qed

text \<open>
  (C10) When the session table and the scrapper do not fail, the loop implements the dialogue of every chat,
  however the messages of the chats are interleaved: a chat's session and the calls made for it are what
  the specification \<open>chat_run\<close> gives for that chat's own messages alone.
\<close>

theorem bot_refines_dialogues:
  assumes repo: "repo \<in> {sql_sessions_repo, orm_sessions_repo}" and "bs_sessions s = \<lparr>ss_rows = [], ss_faults = []\<rparr>"
    and "rc_calls (bs_world s) = []" and cl: "reliable cl"
    and run: "bot_run (recording_send send) (recording_dispatcher uc cl repo) updates s = (r, s')"
  shows "r = Some () \<and>
    (\<forall>c. session_view (bs_sessions s') c = session_of c (fst (chat_run uc c (own_messages c updates) Idle)) \<and>
         filter (\<lambda>x. call_chat x = c) (rc_calls (bs_world s')) = snd (chat_run uc c (own_messages c updates) Idle))"
proof -
  have "session_view (bs_sessions s) = (\<lambda>c. None)" using assms(2) by (simp add: fun_eq_iff session_view_def)
  then have start: "sql_sessions.shows_as (\<lambda>_ _. True) s (\<lambda>c. None, [])" "orm_sessions.shows_as (\<lambda>_ _. True) s (\<lambda>c. None, [])"
    using assms(2,3) by (simp_all add: sql_sessions.shows_as_def orm_sessions.shows_as_def)
  have idle: "\<forall>c. None = session_of c Idle" by (simp add: session_of_def)
  from repo show ?thesis
  proof (elim insertE emptyE)
    assume "repo = sql_sessions_repo"
    with sql_sessions.runs_messages [OF reliable_serves [OF cl] _ start(1), where send = send and dl = "\<lambda>_. Idle" and uc = uc and updates = updates] run idle show ?thesis
      by (auto simp: sql_sessions.shows_as_def)
  next
    assume "repo = orm_sessions_repo"
    with orm_sessions.runs_messages [OF reliable_serves [OF cl] _ start(2), where send = send and dl = "\<lambda>_. Idle" and uc = uc and updates = updates] run idle show ?thesis
      by (auto simp: orm_sessions.shows_as_def)
  qed
qed

lemma bot_refines_dialogues_witness:
  "\<exists>s'. bot_run (recording_send (\<lambda>_ _ w. w)) (recording_dispatcher example_unicode example_client orm_sessions_repo) example_messages
      example_bot = (Some (), s') \<and>
    filter (\<lambda>x. call_chat x = 1) (rc_calls (bs_world s')) =
      [CRegister 1, CRegister 1, CAdd 1 ''https://github.com/owner/repo'' [''go'', ''bug'']]"
proof -
  obtain r s' where run: "bot_run (recording_send (\<lambda>_ _ w. w)) (recording_dispatcher example_unicode example_client orm_sessions_repo)
      example_messages example_bot = (r, s')" by fastforce
  have "reliable example_client" by (simp add: reliable_def answers_def example_client_def)
  moreover have "snd (chat_run example_unicode 1 (own_messages 1 example_messages) Idle) =
      [CRegister 1, CRegister 1, CAdd 1 ''https://github.com/owner/repo'' [''go'', ''bug'']]"
    by code_simp
  ultimately show ?thesis
    using bot_refines_dialogues [OF _ _ _ _ run] run by (auto simp: example_bot_def)
qed

end
