(* ===== verification/Scrapper_Api.thy ===== *)
theory Scrapper_Api
  imports Services_Properties Traffic_Limits
begin

text \<open>
  The two servers of the scrapper over its services: the HTTP handlers and their router
  (\<open>infrastructure/http/handlers/*.go\<close>, \<open>infrastructure/http/router.go\<close>) and the gRPC server
  (\<open>infrastructure/grpc/scrapper_grpc_server.go\<close>).  The JSON decoders and encoders are arguments, and so is
  what \<open>http.ServeMux\<close> replies to a path no pattern takes; paths are the ones the mux has cleaned.
  Metrics and logging are left out.
\<close>

section \<open>JSON\<close>

record api_json =
  aj_add_link :: "string \<Rightarrow> (string \<times> string list) result"
  aj_remove_link :: "string \<Rightarrow> string result"
  aj_remove_by_tag :: "string \<Rightarrow> string result"
  aj_create_tag :: "string \<Rightarrow> (int \<times> string) result"
  aj_rename_tag :: "string \<Rightarrow> (int \<times> string \<times> string) result"
  aj_delete_tag :: "string \<Rightarrow> (int \<times> string) result"
  aj_encode_removed :: "int \<Rightarrow> string result"
  aj_encode_links :: "link list \<Rightarrow> string result"
  aj_encode_tags :: "tag list \<Rightarrow> string result"

text \<open>A JSON reply; \<open>Encode\<close> writes nothing when it fails.\<close>

definition reply_json :: "string result \<Rightarrow> server_reply" where
  "reply_json encoded =
     (case encoded of
        Inl _ \<Rightarrow> reply_error ''failed to encode response'' 500
      | Inr body \<Rightarrow> \<lparr>spStatus = 200, spContentType = ''application/json'', spBody = body\<rparr>)"

section \<open>Chats\<close>

definition chat_id_of_path :: "server_request \<Rightarrow> int result" where
  "chat_id_of_path r = parse_int64 (trim_prefix (srPath r) ''/tg-chat/'')"

definition handle_register_chat :: "('s, 'c) link_service \<Rightarrow> ('s, 'c) services handler" where
  "handle_register_chat svc r s =
     (case chat_id_of_path r of
        Inl _ \<Rightarrow> (reply_error ''invalid chat id'' 400, s)
      | Inr chat \<Rightarrow>
          (case svc_register_chat svc chat s of
             (Inl e, s1) \<Rightarrow> (reply_error (err_text e) 500, s1)
           | (Inr _, s1) \<Rightarrow> (reply_status 200, s1)))"

definition handle_delete_chat :: "('s, 'c) link_service \<Rightarrow> ('s, 'c) services handler" where
  "handle_delete_chat svc r s =
     (case chat_id_of_path r of
        Inl _ \<Rightarrow> (reply_error ''invalid chat id'' 400, s)
      | Inr chat \<Rightarrow>
          (case svc_delete_chat svc chat s of
             (Inl e, s1) \<Rightarrow> (reply_error (err_text e) 404, s1)
           | (Inr _, s1) \<Rightarrow> (reply_status 200, s1)))"

section \<open>Links\<close>

definition get_chat_id_from_request :: "server_request \<Rightarrow> int result" where
  "get_chat_id_from_request r = parse_int64 (srHeader r ''Tg-Chat-Id'')"

definition handle_add_link :: "api_json \<Rightarrow> ('s, 'c) link_service \<Rightarrow> ('s, 'c) services handler" where
  "handle_add_link json svc r s =
     (case get_chat_id_from_request r of
        Inl _ \<Rightarrow> (reply_error ''invalid chat id'' 400, s)
      | Inr chat \<Rightarrow>
          (case aj_add_link json (srBody r) of
             Inl _ \<Rightarrow> (reply_error ''invalid body'' 400, s)
           | Inr (url, tags) \<Rightarrow>
               (case svc_add_link svc chat \<lparr>linkID = 0, linkURL = url, linkTags = tags, linkLastUpdatedAt = time_zero\<rparr> s of
                  (Inl e, s1) \<Rightarrow> (reply_error (err_text e) (if err_is e ErrChatNotFound then 404 else 400), s1)
                | (Inr _, s1) \<Rightarrow> (reply_status 200, s1))))"

definition handle_remove_link :: "api_json \<Rightarrow> ('s, 'c) link_service \<Rightarrow> ('s, 'c) services handler" where
  "handle_remove_link json svc r s =
     (case get_chat_id_from_request r of
        Inl _ \<Rightarrow> (reply_error ''invalid chat id'' 400, s)
      | Inr chat \<Rightarrow>
          (case aj_remove_link json (srBody r) of
             Inl _ \<Rightarrow> (reply_error ''invalid body'' 400, s)
           | Inr url \<Rightarrow>
               (case svc_remove_link svc chat url s of
                  (Inl e, s1) \<Rightarrow> (reply_error (err_text e) (if err_is e ErrChatNotFound then 404 else 400), s1)
                | (Inr _, s1) \<Rightarrow> (reply_status 200, s1))))"

definition handle_remove_links_by_tag :: "api_json \<Rightarrow> ('s, 'c) link_service \<Rightarrow> ('s, 'c) services handler" where
  "handle_remove_links_by_tag json svc r s =
     (case get_chat_id_from_request r of
        Inl _ \<Rightarrow> (reply_error ''invalid chat id'' 400, s)
      | Inr chat \<Rightarrow>
          (case aj_remove_by_tag json (srBody r) of
             Inl _ \<Rightarrow> (reply_error ''invalid body'' 400, s)
           | Inr tag \<Rightarrow>
               (case svc_remove_links_by_tag svc chat tag s of
                  (Inl e, s1) \<Rightarrow> (reply_error (err_text e) (if err_is e ErrChatNotFound then 404 else 400), s1)
                | (Inr n, s1) \<Rightarrow> (reply_json (aj_encode_removed json n), s1))))"

definition handle_list_links :: "api_json \<Rightarrow> ('s, 'c) link_service \<Rightarrow> ('s, 'c) services handler" where
  "handle_list_links json svc r s =
     (case get_chat_id_from_request r of
        Inl _ \<Rightarrow> (reply_error ''invalid chat id'' 400, s)
      | Inr chat \<Rightarrow>
          (case svc_list_links svc chat s of
             (Inl e, s1) \<Rightarrow> (reply_error (err_text e) (if err_is e ErrChatNotFound then 404 else 500), s1)
           | (Inr links, s1) \<Rightarrow> (reply_json (aj_encode_links json links), s1)))"

section \<open>Tags\<close>

text \<open>The status of an error of the tag service, as the switches of the tag handlers choose it.\<close>

definition tag_error_status :: "go_error \<Rightarrow> int" where
  "tag_error_status e =
     (if err_is e ErrChatNotFound then 404
      else if err_is e ErrTagNotFound then 404
      else if err_is e ErrTagExists then 409
      else if err_is e ErrInvalidRequest then 400
      else 500)"

definition handle_create_tag :: "api_json \<Rightarrow> 's tag_ops \<Rightarrow> ('s, 'c) services handler" where
  "handle_create_tag json tags r s =
     (case aj_create_tag json (srBody r) of
        Inl _ \<Rightarrow> (reply_error ''invalid body'' 400, s)
      | Inr (chat, name) \<Rightarrow>
          (case on_store (svc_create_tag tags chat name) s of
             (Inl e, s1) \<Rightarrow>
               (reply_error (err_text e)
                  (if err_is e ErrChatNotFound then 404
                   else if err_is e ErrTagExists then 409
                   else if err_is e ErrInvalidRequest then 400
                   else 500), s1)
           | (Inr _, s1) \<Rightarrow> (reply_status 201, s1)))"

definition handle_list_tags :: "api_json \<Rightarrow> 's tag_ops \<Rightarrow> ('s, 'c) services handler" where
  "handle_list_tags json tags r s =
     (case parse_int64 (srQuery r ''chatId'') of
        Inl _ \<Rightarrow> (reply_error ''invalid chat id'' 400, s)
      | Inr chat \<Rightarrow>
          (case on_store (svc_list_tags tags chat) s of
             (Inl e, s1) \<Rightarrow> (reply_error (err_text e) (if err_is e ErrChatNotFound then 404 else 500), s1)
           | (Inr ts, s1) \<Rightarrow> (reply_json (aj_encode_tags json ts), s1)))"

definition handle_rename_tag :: "api_json \<Rightarrow> 's tag_ops \<Rightarrow> ('s, 'c) services handler" where
  "handle_rename_tag json tags r s =
     (case aj_rename_tag json (srBody r) of
        Inl _ \<Rightarrow> (reply_error ''invalid body'' 400, s)
      | Inr (chat, old_name, new_name) \<Rightarrow>
          (case on_store (svc_rename_tag tags chat old_name new_name) s of
             (Inl e, s1) \<Rightarrow> (reply_error (err_text e) (tag_error_status e), s1)
           | (Inr _, s1) \<Rightarrow> (reply_status 200, s1)))"

definition handle_delete_tag :: "api_json \<Rightarrow> 's tag_ops \<Rightarrow> ('s, 'c) services handler" where
  "handle_delete_tag json tags r s =
     (case aj_delete_tag json (srBody r) of
        Inl _ \<Rightarrow> (reply_error ''invalid body'' 400, s)
      | Inr (chat, name) \<Rightarrow>
          (case on_store (svc_delete_tag tags chat name) s of
             (Inl e, s1) \<Rightarrow>
               (reply_error (err_text e)
                  (if err_is e ErrChatNotFound then 404
                   else if err_is e ErrTagNotFound then 404
                   else if err_is e ErrInvalidRequest then 400
                   else 500), s1)
           | (Inr _, s1) \<Rightarrow> (reply_status 200, s1)))"

section \<open>The router\<close>

definition new_router ::
    "(server_request \<Rightarrow> server_reply) \<Rightarrow> api_json \<Rightarrow> ('s, 'c) link_service \<Rightarrow> 's tag_ops \<Rightarrow> ('s, 'c) services handler" where
  "new_router unmatched json svc tags r s =
     (let path = srPath r; meth = srMethod r; not_allowed = (reply_status 405, s) in
      if has_prefix path ''/tg-chat/'' then
        (if meth = ''POST'' then handle_register_chat svc r s
         else if meth = ''DELETE'' then handle_delete_chat svc r s
         else not_allowed)
      else if path = ''/list'' then
        (if meth = ''GET'' then handle_list_links json svc r s else not_allowed)
      else if path = ''/links/by-tag'' then
        (if meth = ''DELETE'' then handle_remove_links_by_tag json svc r s else not_allowed)
      else if path = ''/links'' then
        (if meth = ''POST'' then handle_add_link json svc r s
         else if meth = ''DELETE'' then handle_remove_link json svc r s
         else not_allowed)
      else if path = ''/tags'' then
        (if meth = ''GET'' then handle_list_tags json tags r s
         else if meth = ''POST'' then handle_create_tag json tags r s
         else if meth = ''PUT'' then handle_rename_tag json tags r s
         else if meth = ''DELETE'' then handle_delete_tag json tags r s
         else not_allowed)
      else (unmatched r, s))"

section \<open>The gRPC server\<close>

definition status_from_err :: "go_error \<Rightarrow> go_error" where
  "status_from_err e =
     (if err_is e ErrChatNotFound then GrpcStatus ''NotFound'' (err_text e)
      else if err_is e ErrLinkAlreadyTracked then GrpcStatus ''AlreadyExists'' (err_text e)
      else if err_is e ErrLinkNotTracked then GrpcStatus ''NotFound'' (err_text e)
      else if err_is e ErrInvalidURL then GrpcStatus ''InvalidArgument'' (err_text e)
      else if err_is e ErrInvalidAPIResponse then GrpcStatus ''Internal'' (err_text e)
      else GrpcStatus ''Internal'' ''internal server error'')"

text \<open>\<open>return nil, statusFromErr(err)\<close>\<close>

definition with_status :: "('s, 'a) eff \<Rightarrow> ('s, 'a) eff" where
  "with_status m s = (case m s of (Inl e, s1) \<Rightarrow> (Inl (status_from_err e), s1) | (Inr x, s1) \<Rightarrow> (Inr x, s1))"

text \<open>The check for a nil request.\<close>

definition non_nil :: "'q option \<Rightarrow> ('q \<Rightarrow> ('s, 'a) eff) \<Rightarrow> ('s, 'a) eff" where
  "non_nil req f = (case req of None \<Rightarrow> throw (GrpcStatus ''InvalidArgument'' ''nil request'') | Some q \<Rightarrow> f q)"

definition grpc_register_chat :: "('s, 'c) link_service \<Rightarrow> int option \<Rightarrow> (('s, 'c) services, unit) eff" where
  "grpc_register_chat svc req = non_nil req (\<lambda>chat. with_status (svc_register_chat svc chat))"

definition grpc_delete_chat :: "('s, 'c) link_service \<Rightarrow> int option \<Rightarrow> (('s, 'c) services, unit) eff" where
  "grpc_delete_chat svc req = non_nil req (\<lambda>chat. with_status (svc_delete_chat svc chat))"

definition grpc_add_link :: "('s, 'c) link_service \<Rightarrow> (int \<times> string \<times> string list) option \<Rightarrow> (('s, 'c) services, unit) eff" where
  "grpc_add_link svc req =
     non_nil req (\<lambda>(chat, url, tags).
       with_status (svc_add_link svc chat \<lparr>linkID = 0, linkURL = url, linkTags = tags, linkLastUpdatedAt = time_zero\<rparr>))"

definition grpc_remove_link :: "('s, 'c) link_service \<Rightarrow> (int \<times> string) option \<Rightarrow> (('s, 'c) services, unit) eff" where
  "grpc_remove_link svc req = non_nil req (\<lambda>(chat, url). with_status (svc_remove_link svc chat url))"

definition grpc_remove_links_by_tag :: "('s, 'c) link_service \<Rightarrow> (int \<times> string) option \<Rightarrow> (('s, 'c) services, int) eff" where
  "grpc_remove_links_by_tag svc req = non_nil req (\<lambda>(chat, tag). with_status (svc_remove_links_by_tag svc chat tag))"

definition grpc_list_links :: "('s, 'c) link_service \<Rightarrow> int option \<Rightarrow> (('s, 'c) services, (string \<times> string list) list) eff" where
  "grpc_list_links svc req =
     non_nil req (\<lambda>chat.
       bindE (with_status (svc_list_links svc chat)) (\<lambda>links. ret (map (\<lambda>l. (linkURL l, linkTags l)) links)))"

section \<open>What the servers do\<close>

text \<open>
  The request of the chats that an HTTP request stands for: \<open>None\<close> where it is no well-formed call of an
  existing operation (on the tags, the dictionary has no request).
\<close>

definition request_of_http :: "api_json \<Rightarrow> server_request \<Rightarrow> request option" where
  "request_of_http json r =
     (if has_prefix (srPath r) ''/tg-chat/'' then
        (case chat_id_of_path r of
           Inl _ \<Rightarrow> None
         | Inr chat \<Rightarrow>
             if srMethod r = ''POST'' then Some (RegisterChat chat)
             else if srMethod r = ''DELETE'' then Some (DeleteChat chat) else None)
      else
        (case get_chat_id_from_request r of
           Inl _ \<Rightarrow> None
         | Inr chat \<Rightarrow>
             if srPath r = ''/list'' \<and> srMethod r = ''GET'' then Some (ListLinks chat)
             else if srPath r = ''/links/by-tag'' \<and> srMethod r = ''DELETE'' then
               (case aj_remove_by_tag json (srBody r) of Inl _ \<Rightarrow> None | Inr tag \<Rightarrow> Some (RemoveLinksByTag chat tag))
             else if srPath r = ''/links'' \<and> srMethod r = ''POST'' then
               (case aj_add_link json (srBody r) of
                  Inl _ \<Rightarrow> None
                | Inr (url, tags) \<Rightarrow>
                    Some (AddLink chat \<lparr>linkID = 0, linkURL = url, linkTags = tags, linkLastUpdatedAt = time_zero\<rparr>))
             else if srPath r = ''/links'' \<and> srMethod r = ''DELETE'' then
               (case aj_remove_link json (srBody r) of Inl _ \<Rightarrow> None | Inr url \<Rightarrow> Some (RemoveLink chat url))
             else None))"

text \<open>The reply for an answer of the services.\<close>

fun error_status :: "request \<Rightarrow> go_error \<Rightarrow> int" where
  "error_status (RegisterChat c) e = 500"
| "error_status (DeleteChat c) e = 404"
| "error_status (ListLinks c) e = (if err_is e ErrChatNotFound then 404 else 500)"
| "error_status q e = (if err_is e ErrChatNotFound then 404 else 400)"

fun reply_of_answer :: "api_json \<Rightarrow> request \<Rightarrow> answer \<Rightarrow> server_reply" where
  "reply_of_answer json q (Failed e) = reply_error (err_text e) (error_status q e)"
| "reply_of_answer json q (Links ls) = reply_json (aj_encode_links json ls)"
| "reply_of_answer json q (Removed n) = reply_json (aj_encode_removed json n)"
| "reply_of_answer json q Done = reply_status 200"

lemma router_serves:
  assumes "srPath r \<noteq> ''/tags''"
  shows "case request_of_http json r of
      Some q \<Rightarrow> new_router unmatched json svc tags r s = map_prod (reply_of_answer json q) id (serve svc q s)
    | None \<Rightarrow> \<exists>w. new_router unmatched json svc tags r s = (w, s) \<and> (w = unmatched r \<or> spStatus w \<in> {400, 405})"
proof -
  note unfold = request_of_http_def new_router_def Let_def answered_def reply_error_def reply_status_def
  consider "has_prefix (srPath r) ''/tg-chat/''" | "srPath r = ''/list''" | "srPath r = ''/links/by-tag''" | "srPath r = ''/links''"
    | "\<not> has_prefix (srPath r) ''/tg-chat/''" "srPath r \<noteq> ''/list''" "srPath r \<noteq> ''/links/by-tag''" "srPath r \<noteq> ''/links''"
    by blast
  then show ?thesis
  proof cases
    case 1
    then show ?thesis
      by (cases "chat_id_of_path r") (simp_all add: unfold handle_register_chat_def handle_delete_chat_def split: sum.split prod.split)
  next
    case 2
    then show ?thesis
      by (cases "get_chat_id_from_request r") (simp_all add: unfold has_prefix_def handle_list_links_def split: sum.split prod.split)
  next
    case 3
    then show ?thesis
      by (cases "get_chat_id_from_request r"; cases "aj_remove_by_tag json (srBody r)")
        (simp_all add: unfold has_prefix_def handle_remove_links_by_tag_def split: sum.split prod.split)
  next
    case 4
    then show ?thesis
      by (cases "get_chat_id_from_request r"; cases "aj_add_link json (srBody r)"; cases "aj_remove_link json (srBody r)")
        (simp_all add: unfold has_prefix_def handle_add_link_def handle_remove_link_def split: sum.split prod.split)
  next
    case 5
    then show ?thesis using assms by (cases "get_chat_id_from_request r") (simp_all add: unfold)
  qed
qed

text \<open>The same request over gRPC.\<close>

datatype grpc_reply = GEmpty | GLinks "(string \<times> string list) list" | GRemoved int

definition grpc_replied :: "('a \<Rightarrow> grpc_reply) \<Rightarrow> 'a result \<times> 's \<Rightarrow> grpc_reply result \<times> 's" where
  "grpc_replied f rs = (map_sum id f (fst rs), snd rs)"

fun grpc_serve :: "('s, 'c) link_service \<Rightarrow> request \<Rightarrow> ('s, 'c) services \<Rightarrow> grpc_reply result \<times> ('s, 'c) services" where
  "grpc_serve svc (RegisterChat c) s = grpc_replied (\<lambda>_. GEmpty) (grpc_register_chat svc (Some c) s)"
| "grpc_serve svc (DeleteChat c) s = grpc_replied (\<lambda>_. GEmpty) (grpc_delete_chat svc (Some c) s)"
| "grpc_serve svc (AddLink c l) s = grpc_replied (\<lambda>_. GEmpty) (grpc_add_link svc (Some (c, linkURL l, linkTags l)) s)"
| "grpc_serve svc (RemoveLink c u) s = grpc_replied (\<lambda>_. GEmpty) (grpc_remove_link svc (Some (c, u)) s)"
| "grpc_serve svc (ListLinks c) s = grpc_replied GLinks (grpc_list_links svc (Some c) s)"
| "grpc_serve svc (RemoveLinksByTag c n) s = grpc_replied GRemoved (grpc_remove_links_by_tag svc (Some (c, n)) s)"

fun grpc_answer :: "answer \<Rightarrow> grpc_reply result" where
  "grpc_answer (Failed e) = Inl (status_from_err e)"
| "grpc_answer Done = Inr GEmpty"
| "grpc_answer (Links ls) = Inr (GLinks (map (\<lambda>l. (linkURL l, linkTags l)) ls))"
| "grpc_answer (Removed n) = Inr (GRemoved n)"

text \<open>Links come from outside without an id and an instant.\<close>

fun outside_request :: "request \<Rightarrow> bool" where
  "outside_request (AddLink c l) = (linkID l = 0 \<and> linkLastUpdatedAt l = time_zero)"
| "outside_request q = True"

lemma outside_request_of_http: "request_of_http json r = Some q \<Longrightarrow> outside_request q \<and> srPath r \<noteq> ''/tags''"
  by (auto simp: request_of_http_def has_prefix_def split: if_splits sum.splits prod.splits)

lemma grpc_serves: "outside_request q \<Longrightarrow> grpc_serve svc q s = map_prod grpc_answer id (serve svc q s)"
proof (cases q)
  case (AddLink c l)
  moreover assume "outside_request q"
  ultimately have "\<lparr>linkID = 0, linkURL = linkURL l, linkTags = linkTags l, linkLastUpdatedAt = time_zero\<rparr> = l" by (cases l) simp
  then show ?thesis
    by (simp add: AddLink grpc_add_link_def non_nil_def with_status_def answered_def grpc_replied_def split: prod.split sum.split)
qed (simp_all add: grpc_register_chat_def grpc_delete_chat_def grpc_remove_link_def grpc_list_links_def grpc_remove_links_by_tag_def
    non_nil_def with_status_def answered_def grpc_replied_def bindE_def split: prod.split sum.split)

text \<open>
  (C18) The HTTP API and the gRPC API are two ways to the same services.  An HTTP request (other than one on the
  tags) that is a well-formed call of an operation has the effect of that operation and gets the
  reply of its answer, and the gRPC call of that operation has the same effect and the status or message
  of the same answer; any other HTTP request changes nothing and is refused with 400 or 405, or is none
  of the router's.
\<close>

theorem http_and_grpc_serve_alike:
  assumes "srPath r \<noteq> ''/tags''"
  shows "case request_of_http json r of
      Some q \<Rightarrow>
        (case serve svc q s of (a, s1) \<Rightarrow>
           new_router unmatched json svc tags r s = (reply_of_answer json q a, s1) \<and> grpc_serve svc q s = (grpc_answer a, s1))
    | None \<Rightarrow> \<exists>w. new_router unmatched json svc tags r s = (w, s) \<and> (w = unmatched r \<or> spStatus w \<in> {400, 405})"
proof (cases "request_of_http json r")
  case None
  then show ?thesis using router_serves [OF assms, where json = json and unmatched = unmatched and svc = svc and tags = tags and s = s] by simp
next
  case (Some q)
  then have "outside_request q" using outside_request_of_http by blast
  then show ?thesis
    using router_serves [OF assms, where json = json and unmatched = unmatched and svc = svc and tags = tags and s = s] grpc_serves [where q = q and svc = svc and s = s] Some by (cases "serve svc q s") simp
qed

definition example_json :: api_json where
  "example_json =
     \<lparr>aj_add_link = (\<lambda>b. Inr (b, [''tag''])), aj_remove_link = Inr, aj_remove_by_tag = Inr,
      aj_create_tag = (\<lambda>b. Inr (1, b)), aj_rename_tag = (\<lambda>b. Inr (1, b, b)), aj_delete_tag = (\<lambda>b. Inr (1, b)),
      aj_encode_removed = (\<lambda>n. Inr (format_int n)), aj_encode_links = (\<lambda>ls. Inr (concat (map linkURL ls))),
      aj_encode_tags = (\<lambda>ts. Inr (concat (map tagName ts)))\<rparr>"

definition example_api_request :: "string \<Rightarrow> string \<Rightarrow> string \<Rightarrow> server_request" where
  "example_api_request meth path body =
     \<lparr>srMethod = meth, srPath = path, srQuery = (\<lambda>_. []), srHeader = (\<lambda>k. if k = ''Tg-Chat-Id'' then ''42'' else []),
      srRemoteAddr = ''10.0.0.1:5000'', srBody = body\<rparr>"

lemma http_and_grpc_serve_alike_witness:
  "request_of_http example_json (example_api_request ''DELETE'' ''/links'' ''u'') = Some (RemoveLink 42 ''u'') \<and>
   (\<forall>svc tags s. case serve svc (RemoveLink 42 ''u'') s of (a, s1) \<Rightarrow>
      new_router (\<lambda>_. reply_status 404) example_json svc tags (example_api_request ''DELETE'' ''/links'' ''u'') s =
        (reply_of_answer example_json (RemoveLink 42 ''u'') a, s1))"
proof -
  have "get_chat_id_from_request (example_api_request ''DELETE'' ''/links'' ''u'') = Inr 42"
    by (simp add: get_chat_id_from_request_def example_api_request_def parse_int64_def parse_uint_def digit_val_def)
  then have q: "request_of_http example_json (example_api_request ''DELETE'' ''/links'' ''u'') = Some (RemoveLink 42 ''u'')"
    by (simp add: request_of_http_def example_api_request_def example_json_def has_prefix_def)
  moreover have "srPath (example_api_request ''DELETE'' ''/links'' ''u'') \<noteq> ''/tags''" by (simp add: example_api_request_def)
  note alike = http_and_grpc_serve_alike [OF this, where json = example_json and unmatched = "\<lambda>_. reply_status 404", unfolded q option.case]
  show ?thesis
  proof (intro conjI allI q)
    fix svc :: "('a, 'b) link_service" and tags :: "'a tag_ops" and s :: "('a, 'b) services"
    show "case serve svc (RemoveLink 42 ''u'') s of (a, s1) \<Rightarrow>
      new_router (\<lambda>_. reply_status 404) example_json svc tags (example_api_request ''DELETE'' ''/links'' ''u'') s =
        (reply_of_answer example_json (RemoveLink 42 ''u'') a, s1)"
      using alike [of svc tags s] by (cases "serve svc (RemoveLink 42 ''u'') s") simp
  qed
qed

end
