(* ===== verification/Scrapper_Client.thy ===== *)
theory Scrapper_Client
  imports Bot_Dialogue Traffic_Limits
begin

text \<open>
  The bot's clients of the scrapper (\<open>bot/internal/application/clients\<close>): over HTTP with timeouts, retries
  and a circuit breaker (\<open>scrapper_client.go\<close>), over gRPC (\<open>grpc_scrapper_client.go\<close>), and the one that falls
  back from the first to the second (\<open>fallback_scrapper_client.go\<close>).  The HTTP exchange, the retrier, the
  breaker, JSON and the stub generated for gRPC are arguments.
\<close>

section \<open>Over HTTP\<close>

record client_json =
  cj_add_link :: "string \<Rightarrow> string list \<Rightarrow> string result"
  cj_remove_link :: "string \<Rightarrow> string result"
  cj_remove_by_tag :: "string \<Rightarrow> string result"
  cj_links :: "string \<Rightarrow> bot_link list result"
  cj_removed :: "string \<Rightarrow> int result"

text \<open>What a call reads into the variable its operation captures.\<close>

datatype captured = Nothing | Listed "bot_link list" | Count int

record 'w http_client =
  hcBaseURL :: string
  hcDo :: "duration \<Rightarrow> http_request \<Rightarrow> ('w, http_response) eff"
  hcTimeout :: duration
  hcRetry :: http_retry_config
  hcRetrier :: "('w \<times> captured) retrier"
  hcBreaker :: "(('w \<times> captured, unit) eff \<Rightarrow> ('w \<times> captured, unit) eff) option"
  hcJSON :: client_json

definition new_scrapper_client ::
    "(duration \<Rightarrow> http_request \<Rightarrow> ('w, http_response) eff) \<Rightarrow> ('w \<times> captured) retrier \<Rightarrow>
     ((breaker_settings \<times> breaker_memory) option \<Rightarrow> (('w \<times> captured, unit) eff \<Rightarrow> ('w \<times> captured, unit) eff) option) \<Rightarrow>
     client_json \<Rightarrow> string \<Rightarrow> duration \<Rightarrow> http_retry_config \<Rightarrow> circuit_breaker_config \<Rightarrow> 'w http_client" where
  "new_scrapper_client do_request retrier gobreaker json base_url timeout retry_config breaker_config =
     \<lparr>hcBaseURL = base_url, hcDo = do_request, hcTimeout = normalize_timeout timeout,
      hcRetry = normalize_retry_config retry_config, hcRetrier = retrier,
      hcBreaker = gobreaker (new_circuit_breaker ''bot-to-scrapper'' breaker_config), hcJSON = json\<rparr>"

text \<open>The operation handed to the retrier, the same in every call: one request, then its status, then its body.\<close>

definition call_once ::
    "'w http_client \<Rightarrow> (string \<Rightarrow> captured result) \<Rightarrow> http_request \<Rightarrow> ('w \<times> captured, unit) eff" where
  "call_once c decode req s =
     (case hcDo c (normalize_timeout (hcTimeout c)) req (fst s) of
        (Inl e, w) \<Rightarrow> (Inl e, w, snd s)
      | (Inr resp, w) \<Rightarrow>
          if rsStatus resp \<noteq> 200 then (Inl (new_http_status_error ''scrapper'' (rsStatus resp) (hcRetry c)), w, snd s)
          else (case decode (rsBody resp) of Inl e \<Rightarrow> (Inl e, w, snd s) | Inr x \<Rightarrow> (Inr (), w, x)))"

definition call_scrapper ::
    "'w http_client \<Rightarrow> (string \<Rightarrow> captured result) \<Rightarrow> captured \<Rightarrow> http_request \<Rightarrow> ('w, captured) eff" where
  "call_scrapper c decode start req w =
     (case do_with_circuit_breaker (hcBreaker c)
             (do_with_http_retry (hcRetrier c) (hcRetry c) (call_once c decode req)) (w, start) of
        (Inl e, w1, x) \<Rightarrow> (Inl e, w1)
      | (Inr _, w1, x) \<Rightarrow> (Inr x, w1))"

definition set_chat_id_header :: "int \<Rightarrow> (string \<times> string) list \<Rightarrow> (string \<times> string) list" where
  "set_chat_id_header chat headers = headers @ [(''Tg-Chat-Id'', format_int chat)]"

definition chat_request :: "'w http_client \<Rightarrow> string \<Rightarrow> int \<Rightarrow> http_request" where
  "chat_request c meth chat =
     \<lparr>rqMethod = meth, rqURL = hcBaseURL c @ ''/tg-chat/'' @ format_int chat, rqHeaders = [], rqBody = []\<rparr>"

definition json_request :: "'w http_client \<Rightarrow> string \<Rightarrow> string \<Rightarrow> int \<Rightarrow> string \<Rightarrow> http_request" where
  "json_request c meth path chat body =
     \<lparr>rqMethod = meth, rqURL = hcBaseURL c @ path,
      rqHeaders = set_chat_id_header chat [(''Content-Type'', ''application/json'')], rqBody = body\<rparr>"

definition http_register_chat :: "'w http_client \<Rightarrow> int \<Rightarrow> ('w, unit) eff" where
  "http_register_chat c chat =
     bindE (call_scrapper c (\<lambda>_. Inr Nothing) Nothing (chat_request c ''POST'' chat)) (\<lambda>_. ret ())"

definition http_delete_chat :: "'w http_client \<Rightarrow> int \<Rightarrow> ('w, unit) eff" where
  "http_delete_chat c chat =
     bindE (call_scrapper c (\<lambda>_. Inr Nothing) Nothing (chat_request c ''DELETE'' chat)) (\<lambda>_. ret ())"

definition http_add_link :: "'w http_client \<Rightarrow> int \<Rightarrow> string \<Rightarrow> string list \<Rightarrow> ('w, unit) eff" where
  "http_add_link c chat url tags =
     (case cj_add_link (hcJSON c) url tags of
        Inl e \<Rightarrow> throw e
      | Inr data \<Rightarrow>
          bindE (call_scrapper c (\<lambda>_. Inr Nothing) Nothing (json_request c ''POST'' ''/links'' chat data)) (\<lambda>_. ret ()))"

definition http_remove_link :: "'w http_client \<Rightarrow> int \<Rightarrow> string \<Rightarrow> ('w, unit) eff" where
  "http_remove_link c chat url =
     (case cj_remove_link (hcJSON c) url of
        Inl e \<Rightarrow> throw e
      | Inr data \<Rightarrow>
          bindE (call_scrapper c (\<lambda>_. Inr Nothing) Nothing (json_request c ''DELETE'' ''/links'' chat data)) (\<lambda>_. ret ()))"

definition http_list_links :: "'w http_client \<Rightarrow> int \<Rightarrow> ('w, bot_link list) eff" where
  "http_list_links c chat =
     bindE (call_scrapper c
         (\<lambda>body. case cj_links (hcJSON c) body of Inl _ \<Rightarrow> Inl ErrInvalidAPIResponse | Inr ls \<Rightarrow> Inr (Listed ls)) (Listed [])
         \<lparr>rqMethod = ''GET'', rqURL = hcBaseURL c @ ''/list'', rqHeaders = set_chat_id_header chat [], rqBody = []\<rparr>)
       (\<lambda>x. ret (case x of Listed ls \<Rightarrow> ls | _ \<Rightarrow> []))"

definition http_remove_links_by_tag :: "'w http_client \<Rightarrow> int \<Rightarrow> string \<Rightarrow> ('w, int) eff" where
  "http_remove_links_by_tag c chat tag =
     (case cj_remove_by_tag (hcJSON c) tag of
        Inl e \<Rightarrow> throw e
      | Inr data \<Rightarrow>
          bindE (call_scrapper c
              (\<lambda>body. case cj_removed (hcJSON c) body of Inl _ \<Rightarrow> Inl ErrInvalidAPIResponse | Inr n \<Rightarrow> Inr (Count n)) (Count 0)
              (json_request c ''DELETE'' ''/links/by-tag'' chat data))
            (\<lambda>x. ret (case x of Count n \<Rightarrow> n | _ \<Rightarrow> 0)))"

definition http_scrapper_client :: "'w http_client \<Rightarrow> 'w scrapper_client" where
  "http_scrapper_client c =
     \<lparr>cl_register = http_register_chat c, cl_delete_chat = http_delete_chat c, cl_add = http_add_link c,
      cl_remove = http_remove_link c, cl_remove_by_tag = http_remove_links_by_tag c, cl_list = http_list_links c\<rparr>"

section \<open>Over gRPC\<close>

text \<open>The generated stub: the fields of the requests, and those of the replies.\<close>

record 'w scrapper_stub =
  st_register :: "int \<Rightarrow> ('w, unit) eff"
  st_delete_chat :: "int \<Rightarrow> ('w, unit) eff"
  st_add :: "int \<times> string \<times> string list \<Rightarrow> ('w, unit) eff"
  st_remove :: "int \<times> string \<Rightarrow> ('w, unit) eff"
  st_remove_by_tag :: "int \<times> string \<Rightarrow> ('w, int) eff"
  st_list :: "int \<Rightarrow> ('w, (string \<times> string list) list) eff"

definition grpc_client_add_link :: "'w scrapper_stub \<Rightarrow> int \<Rightarrow> string \<Rightarrow> string list \<Rightarrow> ('w, unit) eff" where
  "grpc_client_add_link stub chat url tags = st_add stub (chat, url, tags)"

definition grpc_client_remove_link :: "'w scrapper_stub \<Rightarrow> int \<Rightarrow> string \<Rightarrow> ('w, unit) eff" where
  "grpc_client_remove_link stub chat url = st_remove stub (chat, url)"

definition grpc_client_list_links :: "'w scrapper_stub \<Rightarrow> int \<Rightarrow> ('w, bot_link list) eff" where
  "grpc_client_list_links stub chat =
     bindE (st_list stub chat) (\<lambda>links. ret (map (\<lambda>(url, tags). \<lparr>blURL = url, blTags = tags\<rparr>) links))"

definition grpc_client_remove_links_by_tag :: "'w scrapper_stub \<Rightarrow> int \<Rightarrow> string \<Rightarrow> ('w, int) eff" where
  "grpc_client_remove_links_by_tag stub chat tag = st_remove_by_tag stub (chat, tag)"

definition grpc_scrapper_client :: "'w scrapper_stub \<Rightarrow> 'w scrapper_client" where
  "grpc_scrapper_client stub =
     \<lparr>cl_register = st_register stub, cl_delete_chat = st_delete_chat stub, cl_add = grpc_client_add_link stub,
      cl_remove = grpc_client_remove_link stub, cl_remove_by_tag = grpc_client_remove_links_by_tag stub,
      cl_list = grpc_client_list_links stub\<rparr>"

section \<open>With a fallback\<close>

definition or_else :: "('w, 'a) eff \<Rightarrow> ('w, 'a) eff \<Rightarrow> ('w, 'a) eff" where
  "or_else first second w = (case first w of (Inl e, w1) \<Rightarrow> second w1 | (Inr x, w1) \<Rightarrow> (Inr x, w1))"

definition fallback_scrapper_client :: "'w scrapper_client \<Rightarrow> 'w scrapper_client \<Rightarrow> 'w scrapper_client" where
  "fallback_scrapper_client http grpc =
     \<lparr>cl_register = (\<lambda>chat. or_else (cl_register http chat) (cl_register grpc chat)),
      cl_delete_chat = (\<lambda>chat. or_else (cl_delete_chat http chat) (cl_delete_chat grpc chat)),
      cl_add = (\<lambda>chat url tags. or_else (cl_add http chat url tags) (cl_add grpc chat url tags)),
      cl_remove = (\<lambda>chat url. or_else (cl_remove http chat url) (cl_remove grpc chat url)),
      cl_remove_by_tag = (\<lambda>chat tag. or_else (cl_remove_by_tag http chat tag) (cl_remove_by_tag grpc chat tag)),
      cl_list = (\<lambda>chat. or_else (cl_list http chat) (cl_list grpc chat))\<rparr>"

end
