(* ===== verification/Client_Server.thy ===== *)
theory Client_Server
  imports Scrapper_Api Scrapper_Client
begin

text \<open>
  The bot's clients against the scrapper's servers: the HTTP client over a network that carries its requests
  to the router, the gRPC client over a stub that calls the gRPC server, and the fallback client over both.
  What the two sides' JSON must have in common is \<open>json_agree\<close>; \<open>encoding/json\<close> replaces what is no valid
  UTF-8, so it is asked of valid texts only.
\<close>

section \<open>The network\<close>

definition to_server :: "string \<Rightarrow> http_request \<Rightarrow> server_request" where
  "to_server base rq =
     \<lparr>srMethod = rqMethod rq, srPath = trim_prefix (rqURL rq) base, srQuery = (\<lambda>_. []),
      srHeader = (\<lambda>k. case map_of (rqHeaders rq) k of Some v \<Rightarrow> v | None \<Rightarrow> []),
      srRemoteAddr = ''127.0.0.1:40000'', srBody = rqBody rq\<rparr>"

text \<open>A script of what happens to the next exchanges; the request may be lost, or the answer.\<close>

datatype net_fault = Carried | RequestLost go_error | AnswerLost go_error

definition wired ::
    "'s handler \<Rightarrow> string \<Rightarrow> duration \<Rightarrow> http_request \<Rightarrow> ('s \<times> net_fault list, http_response) eff" where
  "wired handler base timeout rq sn =
     (case sn of (s, faults) \<Rightarrow>
        case handler (to_server base rq) s of (w, s1) \<Rightarrow>
          let answer = Inr \<lparr>rsStatus = spStatus w, rsBody = spBody w\<rparr> in
          case faults of
            [] \<Rightarrow> (answer, s1, [])
          | Carried # fs \<Rightarrow> (answer, s1, fs)
          | RequestLost e # fs \<Rightarrow> (Inl e, s, fs)
          | AnswerLost e # fs \<Rightarrow> (Inl e, s1, fs))"

definition wired_stub :: "('s, 'c) link_service \<Rightarrow> (('s, 'c) services \<times> net_fault list) scrapper_stub" where
  "wired_stub svc =
     \<lparr>st_register = (\<lambda>c (s, fs). case grpc_register_chat svc (Some c) s of (r, s1) \<Rightarrow> (r, s1, fs)),
      st_delete_chat = (\<lambda>c (s, fs). case grpc_delete_chat svc (Some c) s of (r, s1) \<Rightarrow> (r, s1, fs)),
      st_add = (\<lambda>q (s, fs). case grpc_add_link svc (Some q) s of (r, s1) \<Rightarrow> (r, s1, fs)),
      st_remove = (\<lambda>q (s, fs). case grpc_remove_link svc (Some q) s of (r, s1) \<Rightarrow> (r, s1, fs)),
      st_remove_by_tag = (\<lambda>q (s, fs). case grpc_remove_links_by_tag svc (Some q) s of (r, s1) \<Rightarrow> (r, s1, fs)),
      st_list = (\<lambda>c (s, fs). case grpc_list_links svc (Some c) s of (r, s1) \<Rightarrow> (r, s1, fs))\<rparr>"

section \<open>What is asked of a client\<close>

datatype bot_answer = BotDone | BotLinks "bot_link list" | BotRemoved int

fun ask :: "'w scrapper_client \<Rightarrow> request \<Rightarrow> ('w, bot_answer) eff" where
  "ask cl (RegisterChat c) = bindE (cl_register cl c) (\<lambda>_. ret BotDone)"
| "ask cl (DeleteChat c) = bindE (cl_delete_chat cl c) (\<lambda>_. ret BotDone)"
| "ask cl (AddLink c l) = bindE (cl_add cl c (linkURL l) (linkTags l)) (\<lambda>_. ret BotDone)"
| "ask cl (RemoveLink c u) = bindE (cl_remove cl c u) (\<lambda>_. ret BotDone)"
| "ask cl (ListLinks c) = bindE (cl_list cl c) (\<lambda>ls. ret (BotLinks ls))"
| "ask cl (RemoveLinksByTag c t) = bindE (cl_remove_by_tag cl c t) (\<lambda>n. ret (BotRemoved n))"

definition bot_link_of :: "link \<Rightarrow> bot_link" where
  "bot_link_of l = \<lparr>blURL = linkURL l, blTags = linkTags l\<rparr>"

fun bot_answer_of :: "answer \<Rightarrow> bot_answer" where
  "bot_answer_of (Links ls) = BotLinks (map bot_link_of ls)"
| "bot_answer_of (Removed n) = BotRemoved n"
| "bot_answer_of a = BotDone"

definition utf8_link :: "link \<Rightarrow> bool" where
  "utf8_link l \<longleftrightarrow> valid_utf8 (linkURL l) \<and> list_all valid_utf8 (linkTags l)"

fun utf8_request :: "request \<Rightarrow> bool" where
  "utf8_request (AddLink c l) = utf8_link l"
| "utf8_request (RemoveLink c u) = valid_utf8 u"
| "utf8_request (RemoveLinksByTag c t) = valid_utf8 t"
| "utf8_request q = True"

fun utf8_answer :: "answer \<Rightarrow> bool" where
  "utf8_answer (Links ls) = list_all utf8_link ls"
| "utf8_answer a = True"

fun request_chat :: "request \<Rightarrow> int" where
  "request_chat (RegisterChat c) = c"
| "request_chat (DeleteChat c) = c"
| "request_chat (AddLink c l) = c"
| "request_chat (RemoveLink c u) = c"
| "request_chat (ListLinks c) = c"
| "request_chat (RemoveLinksByTag c t) = c"

text \<open>Each side reads what the other writes.\<close>

definition json_agree :: "client_json \<Rightarrow> api_json \<Rightarrow> bool" where
  "json_agree cj aj \<longleftrightarrow>
     (\<forall>u ts. valid_utf8 u \<and> list_all valid_utf8 ts \<longrightarrow> (\<exists>b. cj_add_link cj u ts = Inr b \<and> aj_add_link aj b = Inr (u, ts))) \<and>
     (\<forall>u. valid_utf8 u \<longrightarrow> (\<exists>b. cj_remove_link cj u = Inr b \<and> aj_remove_link aj b = Inr u)) \<and>
     (\<forall>t. valid_utf8 t \<longrightarrow> (\<exists>b. cj_remove_by_tag cj t = Inr b \<and> aj_remove_by_tag aj b = Inr t)) \<and>
     (\<forall>ls. list_all utf8_link ls \<longrightarrow> (\<exists>b. aj_encode_links aj ls = Inr b \<and> cj_links cj b = Inr (map bot_link_of ls))) \<and>
     (\<forall>n. \<exists>b. aj_encode_removed aj n = Inr b \<and> cj_removed cj b = Inr n)"

lemma json_agreeD:
  assumes "json_agree cj aj"
  shows "utf8_link l \<Longrightarrow> \<exists>b. cj_add_link cj (linkURL l) (linkTags l) = Inr b \<and> aj_add_link aj b = Inr (linkURL l, linkTags l)"
    "valid_utf8 u \<Longrightarrow> \<exists>b. cj_remove_link cj u = Inr b \<and> aj_remove_link aj b = Inr u"
    "valid_utf8 t \<Longrightarrow> \<exists>b. cj_remove_by_tag cj t = Inr b \<and> aj_remove_by_tag aj b = Inr t"
    "list_all utf8_link ls \<Longrightarrow> \<exists>b. aj_encode_links aj ls = Inr b \<and> cj_links cj b = Inr (map bot_link_of ls)"
    "\<exists>b. aj_encode_removed aj n = Inr b \<and> cj_removed cj b = Inr n"
  using assms unfolding json_agree_def utf8_link_def by blast+

text \<open>A call whose first attempt is answered with 200 and can be read makes no other.\<close>

lemma call_scrapper_ok:
  assumes "documented_retry (hcRetrier c)" "hcBreaker c = None" "0 < rcMaxAttempts (normalize_retry_config (hcRetry c))"
    and "hcDo c (normalize_timeout (hcTimeout c)) req w = (Inr \<lparr>rsStatus = 200, rsBody = body\<rparr>, w1)" "decode body = Inr x"
  shows "call_scrapper c decode start req w = (Inr x, w1)"
proof -
  have "call_once c decode req (w, start) = (Inr (), w1, x)" using assms(4,5) by (simp add: call_once_def)
  then have "do_with_http_retry (hcRetrier c) (hcRetry c) (call_once c decode req) (w, start) = (Inr (), w1, x)"
    using assms(1,3) unfolding do_with_http_retry_def documented_retry_def Let_def by auto
  then show ?thesis using assms(2) by (simp add: call_scrapper_def do_with_circuit_breaker_def)
qed

definition int64 :: "int \<Rightarrow> bool" where
  "int64 n \<longleftrightarrow> - int int64_bound \<le> n \<and> n < int int64_bound"

text \<open>The requests the client makes are the ones the router takes for the operation.\<close>

lemma client_requests:
  assumes "int64 chat" "json_agree cj aj"
  shows "request_of_http aj (to_server (hcBaseURL c) (chat_request c ''POST'' chat)) = Some (RegisterChat chat)"
    "request_of_http aj (to_server (hcBaseURL c) (chat_request c ''DELETE'' chat)) = Some (DeleteChat chat)"
    "request_of_http aj (to_server (hcBaseURL c)
        \<lparr>rqMethod = ''GET'', rqURL = hcBaseURL c @ ''/list'', rqHeaders = set_chat_id_header chat [], rqBody = []\<rparr>) = Some (ListLinks chat)"
    "aj_add_link aj b = Inr (u, ts) \<Longrightarrow>
       request_of_http aj (to_server (hcBaseURL c) (json_request c ''POST'' ''/links'' chat b)) =
         Some (AddLink chat \<lparr>linkID = 0, linkURL = u, linkTags = ts, linkLastUpdatedAt = time_zero\<rparr>)"
    "aj_remove_link aj b = Inr u \<Longrightarrow>
       request_of_http aj (to_server (hcBaseURL c) (json_request c ''DELETE'' ''/links'' chat b)) = Some (RemoveLink chat u)"
    "aj_remove_by_tag aj b = Inr t \<Longrightarrow>
       request_of_http aj (to_server (hcBaseURL c) (json_request c ''DELETE'' ''/links/by-tag'' chat b)) = Some (RemoveLinksByTag chat t)"
  using assms(1)
  by (simp_all add: request_of_http_def to_server_def chat_request_def json_request_def set_chat_id_header_def chat_id_of_path_def
      get_chat_id_from_request_def has_prefix_def trim_prefix_def parse_format_int64 int64_def)

text \<open>The exchange over a network that carries the request.\<close>

lemma wired_serves:
  assumes "request_of_http aj (to_server base req) = Some q" "serve svc q s = (a, s1)"
  shows "wired (new_router unmatched aj svc tags) base timeout req (s, []) =
    (Inr \<lparr>rsStatus = spStatus (reply_of_answer aj q a), rsBody = spBody (reply_of_answer aj q a)\<rparr>, s1, [])"
proof -
  have "new_router unmatched aj svc tags (to_server base req) s = (reply_of_answer aj q a, s1)"
    using router_serves [where r = "to_server base req" and json = aj and unmatched = unmatched and svc = svc and tags = tags and s = s]
      outside_request_of_http [OF assms(1)] assms by simp
  then show ?thesis by (simp add: wired_def)
qed

definition http_wired :: "'w http_client \<Rightarrow> (duration \<Rightarrow> http_request \<Rightarrow> ('w, http_response) eff) \<Rightarrow> bool" where
  "http_wired c exchange \<longleftrightarrow>
     documented_retry (hcRetrier c) \<and> hcBreaker c = None \<and> 0 < rcMaxAttempts (normalize_retry_config (hcRetry c)) \<and> hcDo c = exchange"

lemma http_client_serves:
  assumes c: "http_wired c (wired (new_router unmatched aj svc tags) (hcBaseURL c))" and agree: "json_agree (hcJSON c) aj"
    and q: "outside_request q" "utf8_request q" "int64 (request_chat q)"
    and a: "serve svc q s = (a, s1)" "\<forall>e. a \<noteq> Failed e" "utf8_answer a"
  shows "ask (http_scrapper_client c) q (s, []) = (Inr (bot_answer_of a), s1, [])"
proof -
  have call: "call_scrapper c decode start req (s, []) = (Inr x, s1, [])"
    if "request_of_http aj (to_server (hcBaseURL c) req) = Some q" "reply_of_answer aj q a = \<lparr>spStatus = 200, spContentType = ct, spBody = body\<rparr>"
      "decode body = Inr x" for req ct body decode start x
    using c that wired_serves [OF that(1) a(1), of unmatched tags] unfolding http_wired_def
    by (intro call_scrapper_ok) auto
  note reqs = client_requests [OF q(3) agree]
  have id: "\<lparr>linkID = 0, linkURL = linkURL l, linkTags = linkTags l, linkLastUpdatedAt = time_zero\<rparr> = l"
    if "linkID l = 0" "linkLastUpdatedAt l = time_zero" for l :: link using that by (cases l) simp
  have fail: "a = Done \<or> (\<exists>ls. a = Links ls) \<or> (\<exists>n. a = Removed n)" using a(2) by (cases a) auto
  show ?thesis
  proof (cases q)
    case (RegisterChat chat)
    then have "a = Done" using a fail by (auto simp: answered_def split: sum.splits prod.splits)
    then show ?thesis using call [OF reqs(1) [of c, unfolded RegisterChat request_chat.simps, folded RegisterChat]]
      by (simp add: RegisterChat http_scrapper_client_def http_register_chat_def reply_status_def)
  next
    case (DeleteChat chat)
    then have "a = Done" using a fail by (auto simp: answered_def split: sum.splits prod.splits)
    then show ?thesis using call [OF reqs(2) [of c, unfolded DeleteChat request_chat.simps, folded DeleteChat]]
      by (simp add: DeleteChat http_scrapper_client_def http_delete_chat_def reply_status_def)
  next
    case (AddLink chat l)
    then have fin: "a = Done" using a fail by (auto simp: answered_def split: sum.splits prod.splits)
    obtain b where b: "cj_add_link (hcJSON c) (linkURL l) (linkTags l) = Inr b" "aj_add_link aj b = Inr (linkURL l, linkTags l)"
      using json_agreeD(1) [OF agree, of l] q(2) AddLink by auto
    have "request_of_http aj (to_server (hcBaseURL c) (json_request c ''POST'' ''/links'' chat b)) = Some q"
      using reqs(4) [OF b(2), of c] id [of l] q(1) by (simp add: AddLink)
    from call [OF this] show ?thesis by (simp add: AddLink http_scrapper_client_def http_add_link_def b(1) fin reply_status_def)
  next
    case (RemoveLink chat u)
    then have fin: "a = Done" using a fail by (auto simp: answered_def split: sum.splits prod.splits)
    obtain b where b: "cj_remove_link (hcJSON c) u = Inr b" "aj_remove_link aj b = Inr u"
      using json_agreeD(2) [OF agree, of u] q(2) RemoveLink by auto
    have "request_of_http aj (to_server (hcBaseURL c) (json_request c ''DELETE'' ''/links'' chat b)) = Some q"
      using reqs(5) [OF b(2), of c] by (simp add: RemoveLink)
    from call [OF this] show ?thesis by (simp add: RemoveLink http_scrapper_client_def http_remove_link_def b(1) fin reply_status_def)
  next
    case (ListLinks chat)
    then obtain ls where ls: "a = Links ls" using a fail by (auto simp: answered_def split: sum.splits prod.splits)
    obtain b where b: "aj_encode_links aj ls = Inr b" "cj_links (hcJSON c) b = Inr (map bot_link_of ls)"
      using json_agreeD(4) [OF agree, of ls] a(3) ls by auto
    have "request_of_http aj (to_server (hcBaseURL c)
        \<lparr>rqMethod = ''GET'', rqURL = hcBaseURL c @ ''/list'', rqHeaders = set_chat_id_header chat [], rqBody = []\<rparr>) = Some q"
      using reqs(3) [of c] by (simp add: ListLinks)
    from call [OF this] show ?thesis by (simp add: ListLinks http_scrapper_client_def http_list_links_def b ls reply_json_def)
  next
    case (RemoveLinksByTag chat t)
    then obtain n where n: "a = Removed n" using a fail by (auto simp: answered_def split: sum.splits prod.splits)
    obtain b where b: "cj_remove_by_tag (hcJSON c) t = Inr b" "aj_remove_by_tag aj b = Inr t"
      using json_agreeD(3) [OF agree, of t] q(2) RemoveLinksByTag by auto
    obtain b2 where b2: "aj_encode_removed aj n = Inr b2" "cj_removed (hcJSON c) b2 = Inr n" using json_agreeD(5) [OF agree] by blast
    have "request_of_http aj (to_server (hcBaseURL c) (json_request c ''DELETE'' ''/links/by-tag'' chat b)) = Some q"
      using reqs(6) [OF b(2), of c] by (simp add: RemoveLinksByTag)
    from call [OF this] show ?thesis
      by (simp add: RemoveLinksByTag http_scrapper_client_def http_remove_links_by_tag_def b(1) b2 n reply_json_def)
  qed
qed

lemma grpc_client_serves:
  assumes "outside_request q" "serve svc q s = (a, s1)" "\<forall>e. a \<noteq> Failed e"
  shows "ask (grpc_scrapper_client (wired_stub svc)) q (s, fs) = (Inr (bot_answer_of a), s1, fs)"
proof -
  have served: "grpc_serve svc q s = (grpc_answer a, s1)" using grpc_serves [OF assms(1), of svc s] assms(2) by simp
  have fail: "a = Done \<or> (\<exists>ls. a = Links ls) \<or> (\<exists>n. a = Removed n)" using assms(3) by (cases a) auto
  show ?thesis
  proof (cases q)
    case (AddLink c l)
    then show ?thesis using served fail
      by (cases "grpc_add_link svc (Some (c, linkURL l, linkTags l)) s"; cases "fst (grpc_add_link svc (Some (c, linkURL l, linkTags l)) s)")
        (auto simp: grpc_scrapper_client_def wired_stub_def grpc_client_add_link_def bindE_def grpc_replied_def)
  next
    case (ListLinks c)
    then show ?thesis using served fail
      by (cases "grpc_list_links svc (Some c) s"; cases "fst (grpc_list_links svc (Some c) s)")
        (auto simp: grpc_scrapper_client_def wired_stub_def grpc_client_list_links_def bindE_def grpc_replied_def bot_link_of_def)
  next
    case (RegisterChat c)
    then show ?thesis using served fail
      by (cases "grpc_register_chat svc (Some c) s"; cases "fst (grpc_register_chat svc (Some c) s)")
        (auto simp: grpc_scrapper_client_def wired_stub_def bindE_def grpc_replied_def)
  next
    case (DeleteChat c)
    then show ?thesis using served fail
      by (cases "grpc_delete_chat svc (Some c) s"; cases "fst (grpc_delete_chat svc (Some c) s)")
        (auto simp: grpc_scrapper_client_def wired_stub_def bindE_def grpc_replied_def)
  next
    case (RemoveLink c u)
    then show ?thesis using served fail
      by (cases "grpc_remove_link svc (Some (c, u)) s"; cases "fst (grpc_remove_link svc (Some (c, u)) s)")
        (auto simp: grpc_scrapper_client_def wired_stub_def grpc_client_remove_link_def bindE_def grpc_replied_def)
  next
    case (RemoveLinksByTag c t)
    then show ?thesis using served fail
      by (cases "grpc_remove_links_by_tag svc (Some (c, t)) s"; cases "fst (grpc_remove_links_by_tag svc (Some (c, t)) s)")
        (auto simp: grpc_scrapper_client_def wired_stub_def grpc_client_remove_links_by_tag_def bindE_def grpc_replied_def)
  qed
qed

lemma ask_fallback:
  "ask (fallback_scrapper_client http grpc) q w =
     (case ask http q w of (Inl e, w1) \<Rightarrow> ask grpc q w1 | (Inr x, w1) \<Rightarrow> (Inr x, w1))"
  by (cases q) (simp_all add: fallback_scrapper_client_def or_else_def bindE_def split: prod.split sum.split)

text \<open>A request that is lost, with an error that is no reason to try again, changes nothing.\<close>

lemma call_scrapper_lost:
  assumes "http_wired c (wired handler (hcBaseURL c))" "\<not> is_retryable_error e"
  shows "call_scrapper c decode start req (s, [RequestLost e]) = (Inl e, s, [])"
proof -
  have "call_once c decode req ((s, [RequestLost e]), start) = (Inl e, (s, []), start)"
    using assms(1) by (auto simp: http_wired_def call_once_def wired_def Let_def split: prod.split)
  then have "do_with_http_retry (hcRetrier c) (hcRetry c) (call_once c decode req) ((s, [RequestLost e]), start) = (Inl e, (s, []), start)"
    using assms unfolding do_with_http_retry_def documented_retry_def http_wired_def Let_def by auto
  then show ?thesis using assms(1) by (simp add: call_scrapper_def do_with_circuit_breaker_def http_wired_def)
qed

lemma http_client_lost:
  assumes "http_wired c (wired handler (hcBaseURL c))" "\<not> is_retryable_error e" and agree: "json_agree (hcJSON c) aj" and "utf8_request q"
  shows "ask (http_scrapper_client c) q (s, [RequestLost e]) = (Inl e, s, [])"
proof -
  note lost = call_scrapper_lost [OF assms(1,2)]
  note enc = json_agreeD [OF agree]
  show ?thesis
    using assms(4) by (cases q)
      (auto simp: http_scrapper_client_def http_register_chat_def http_delete_chat_def http_add_link_def http_remove_link_def
        http_list_links_def http_remove_links_by_tag_def lost dest: enc(1-3))
qed

section \<open>The clients reach the services\<close>

text \<open>A wire format for lists of texts, enough for an example.\<close>

definition pack :: "string list \<Rightarrow> string" where
  "pack xs = concat (map (\<lambda>x. concat (map (\<lambda>c. [CHR ''x'', c]) x) @ [CHR ''.'']) xs)"

fun unpack :: "string \<Rightarrow> string \<Rightarrow> string list" where
  "unpack cur [] = []"
| "unpack cur [c] = [cur]"
| "unpack cur (c # d # s) = (if c = CHR ''.'' then cur # unpack [] (d # s) else unpack (cur @ [d]) s)"

lemma unpack_text: "unpack cur (concat (map (\<lambda>c. [CHR ''x'', c]) x) @ CHR ''.'' # s) = (cur @ x) # unpack [] s"
proof (induction x arbitrary: cur)
  case Nil
  then show ?case by (cases s) simp_all
qed simp

lemma unpack_pack: "unpack [] (pack xs) = xs"
  by (induction xs) (simp_all add: pack_def unpack_text)

definition packed_client_json :: client_json where
  "packed_client_json =
     \<lparr>cj_add_link = (\<lambda>u ts. Inr (pack (u # ts))), cj_remove_link = Inr, cj_remove_by_tag = Inr,
      cj_links = (\<lambda>b. Inr (map (\<lambda>x. let y = unpack [] x in \<lparr>blURL = hd y, blTags = tl y\<rparr>) (unpack [] b))),
      cj_removed = (\<lambda>b. Inr (if b \<noteq> [] \<and> hd b = CHR ''-'' then - int (length (tl b)) else int (length b)))\<rparr>"

definition packed_api_json :: api_json where
  "packed_api_json =
     example_json\<lparr>aj_add_link := (\<lambda>b. let y = unpack [] b in Inr (hd y, tl y)),
       aj_encode_links := (\<lambda>ls. Inr (pack (map (\<lambda>l. pack (linkURL l # linkTags l)) ls))),
       aj_encode_removed := (\<lambda>n. Inr (if n < 0 then CHR ''-'' # replicate (nat (- n)) (CHR ''1'') else replicate (nat n) (CHR ''1'')))\<rparr>"

lemma packed_json_agree: "json_agree packed_client_json packed_api_json"
  unfolding json_agree_def packed_client_json_def packed_api_json_def example_json_def
  by (auto simp: unpack_pack bot_link_of_def o_def hd_replicate)



end
