(* ===== verification/Notifications.thy ===== *)
theory Notifications
  imports Link_Update Kafka_Producer Client_Server
begin

text \<open>
  The way of a notification from the scrapper to the chats: the scrapper's clients of the bot over HTTP,
  gRPC and Kafka and the one with a fallback (\<open>scrapper/internal/infrastructure/clients/*_bot_client.go\<close>), and
  the bot's side: the update service (\<open>bot/internal/application/services/update_service.go\<close>), the HTTP handler and its
  router, and the gRPC server.  JSON, the exchange, the retrier and the stub are arguments; the base URL is one
  \<open>http.NewRequest\<close> takes.
\<close>

section \<open>The clients of the scrapper\<close>

record 'w http_bot_client =
  hbBaseURL :: string
  hbDo :: "duration \<Rightarrow> http_request \<Rightarrow> ('w, http_response) eff"
  hbTimeout :: duration
  hbRetry :: http_retry_config
  hbRetrier :: "'w retrier"
  hbMarshal :: "link_update \<Rightarrow> string result"

definition new_http_bot_client ::
    "(duration \<Rightarrow> http_request \<Rightarrow> ('w, http_response) eff) \<Rightarrow> 'w retrier \<Rightarrow> (link_update \<Rightarrow> string result) \<Rightarrow>
     string \<Rightarrow> duration \<Rightarrow> http_retry_config list \<Rightarrow> 'w http_bot_client" where
  "new_http_bot_client do_request retrier marshal base_url timeout retry_configs =
     (let retry_config =
        (case retry_configs of [] \<Rightarrow> \<lparr>rcMaxAttempts = 0, rcDelay = 0, rcRetryableHTTPStatuses = []\<rparr> | cfg # _ \<Rightarrow> cfg)
      in \<lparr>hbBaseURL = base_url, hbDo = do_request, hbTimeout = normalize_timeout timeout,
          hbRetry = normalize_retry_config retry_config, hbRetrier = retrier, hbMarshal = marshal\<rparr>)"

definition update_request :: "'w http_bot_client \<Rightarrow> string \<Rightarrow> http_request" where
  "update_request c body =
     \<lparr>rqMethod = ''POST'', rqURL = hbBaseURL c @ ''/updates'', rqHeaders = [(''Content-Type'', ''application/json'')], rqBody = body\<rparr>"

definition send_once :: "'w http_bot_client \<Rightarrow> http_request \<Rightarrow> ('w, unit) eff" where
  "send_once c req w =
     (case hbDo c (normalize_timeout (hbTimeout c)) req w of
        (Inl e, w1) \<Rightarrow> (Inl (WrapErr ''bot http request failed'' e), w1)
      | (Inr resp, w1) \<Rightarrow>
          (if rsStatus resp \<noteq> 200 then Inl (new_http_status_error ''bot'' (rsStatus resp) (hbRetry c)) else Inr (), w1))"

definition http_send_update :: "'w http_bot_client \<Rightarrow> link_update \<Rightarrow> ('w, unit) eff" where
  "http_send_update c u =
     (case hbMarshal c u of
        Inl e \<Rightarrow> throw e
      | Inr body \<Rightarrow> do_with_http_retry (hbRetrier c) (hbRetry c) (send_once c (update_request c body)))"

text \<open>The request of the generated stub: URL, description and chats.\<close>

definition grpc_send_update :: "(string \<times> string \<times> int list \<Rightarrow> ('w, unit) eff) \<Rightarrow> link_update \<Rightarrow> ('w, unit) eff" where
  "grpc_send_update stub u = stub (uURL u, uDescription u, uTgChatIDs u)"

definition kafka_send_update :: "(link_update \<Rightarrow> string result) \<Rightarrow> confluent_producer \<Rightarrow> link_update \<Rightarrow> (broker, unit) eff" where
  "kafka_send_update json producer u = kafka_produce json producer u"

definition fallback_send_update ::
    "(link_update \<Rightarrow> ('w, unit) eff) \<Rightarrow> (link_update \<Rightarrow> ('w, unit) eff) \<Rightarrow> link_update \<Rightarrow> ('w, unit) eff" where
  "fallback_send_update primary fallback u w =
     (case primary u w of
        (Inr x, w1) \<Rightarrow> (Inr x, w1)
      | (Inl primary_err, w1) \<Rightarrow>
          (case fallback u w1 of
             (Inl fallback_err, w2) \<Rightarrow> (Inl (JoinErr primary_err fallback_err), w2)
           | (Inr x, w2) \<Rightarrow> (Inr x, w2)))"

section \<open>The bot\<close>

definition bot_handle_link_update :: "(int \<Rightarrow> string \<Rightarrow> ('w, unit) eff) \<Rightarrow> link_update \<Rightarrow> ('w, unit) eff" where
  "bot_handle_link_update send u =
     (if uURL u = [] \<or> length (uTgChatIDs u) = 0 then throw ErrInvalidLinkUpdate
      else foreachE (\<lambda>chat. send chat (subscriber_notification_body u)) (uTgChatIDs u))"

definition updates_handle :: "(string \<Rightarrow> link_update result) \<Rightarrow> (link_update \<Rightarrow> ('w, unit) eff) \<Rightarrow> 'w handler" where
  "updates_handle decode handle r w =
     (case decode (srBody r) of
        Inl _ \<Rightarrow> (reply_status 400, w)
      | Inr u \<Rightarrow>
          (case handle u w of
             (Inl e, w1) \<Rightarrow> (reply_status (if err_is e ErrInvalidLinkUpdate then 400 else 500), w1)
           | (Inr _, w1) \<Rightarrow> (reply_status 200, w1)))"

definition new_bot_router :: "(server_request \<Rightarrow> server_reply) \<Rightarrow> 'w handler \<Rightarrow> 'w handler" where
  "new_bot_router unmatched updates r w = (if srPath r = ''/updates'' then updates r w else (unmatched r, w))"

text \<open>The gRPC server sends its own text, and an error of a message is only logged.\<close>

definition bot_grpc_send_update ::
    "(int \<Rightarrow> string \<Rightarrow> ('w, unit) eff) \<Rightarrow> (string \<times> string \<times> int list) option \<Rightarrow> ('w, unit) eff" where
  "bot_grpc_send_update send req =
     (case req of
        None \<Rightarrow> throw (GrpcStatus ''InvalidArgument'' ''invalid update request'')
      | Some (url, description, chats) \<Rightarrow>
          if url = [] \<or> length chats = 0 then throw (GrpcStatus ''InvalidArgument'' ''invalid update request'')
          else
            foreachE (\<lambda>chat. bindE (attempt (send chat (default_link_update_notice_prefix @ url))) (\<lambda>_. ret ())) chats)"

section \<open>Telegram\<close>

text \<open>
  The messages the chats have got, and a script of the next calls: one may fail, before or after the
  message is out (\<open>infrastructure/adapters/bot.go\<close>, \<open>SendMessage\<close>).
\<close>

record telegram =
  tg_sent :: "(int \<times> string) list"
  tg_script :: "(go_error \<times> bool) option list"

definition send_message :: "int \<Rightarrow> string \<Rightarrow> (telegram, unit) eff" where
  "send_message chat text t =
     (let out = t\<lparr>tg_sent := tg_sent t @ [(chat, text)], tg_script := tl (tg_script t)\<rparr> in
      case tg_script t of
        [] \<Rightarrow> (Inr (), out)
      | None # _ \<Rightarrow> (Inr (), out)
      | Some (e, arrived) # os \<Rightarrow> (Inl e, if arrived then out else t\<lparr>tg_script := os\<rparr>))"

lemma send_message_log:
  "send_message chat text t = (r, t') \<Longrightarrow>
     (r = Inr () \<longrightarrow> tg_sent t' = tg_sent t @ [(chat, text)]) \<and> (tg_sent t' = tg_sent t \<or> tg_sent t' = tg_sent t @ [(chat, text)])"
  by (auto simp: send_message_def Let_def split: list.splits option.splits prod.splits)

text \<open>What one handling of an update sends: every chat's message in order, up to the first that fails.\<close>

lemma foreach_send_log:
  assumes "foreachE (\<lambda>chat. send_message chat text) chats t = (r, t')"
  shows "\<exists>new. tg_sent t' = tg_sent t @ new \<and> set new \<subseteq> (\<lambda>c. (c, text)) ` set chats \<and>
    (r = Inr () \<longrightarrow> new = map (\<lambda>c. (c, text)) chats)"
  using assms
proof (induction chats arbitrary: t)
  case (Cons c chats)
  obtain r1 t1 where 1: "send_message c text t = (r1, t1)" by fastforce
  note log = send_message_log [OF 1]
  show ?case
  proof (cases r1)
    case (Inl e)
    then show ?thesis using Cons.prems 1 log by (auto simp: bindE_def)
  next
    case (Inr x)
    then have "foreachE (\<lambda>chat. send_message chat text) chats t1 = (r, t')" using Cons.prems 1 by (simp add: bindE_def)
    from Cons.IH [OF this] obtain new where "tg_sent t' = tg_sent t1 @ new" "set new \<subseteq> (\<lambda>c. (c, text)) ` set chats"
        "r = Inr () \<longrightarrow> new = map (\<lambda>c. (c, text)) chats" by blast
    then show ?thesis using Inr log by (intro exI [of _ "(c, text) # new"]) auto
  qed
qed simp

lemma handle_update_log:
  assumes "bot_handle_link_update send_message u t = (r, t')"
  shows "\<exists>new. tg_sent t' = tg_sent t @ new \<and> set new \<subseteq> (\<lambda>c. (c, subscriber_notification_body u)) ` set (uTgChatIDs u) \<and>
    (r = Inr () \<longrightarrow> uTgChatIDs u \<noteq> [] \<and> new = map (\<lambda>c. (c, subscriber_notification_body u)) (uTgChatIDs u))"
  using assms foreach_send_log [of "subscriber_notification_body u" "uTgChatIDs u" t r t']
  by (auto simp: bot_handle_link_update_def split: if_splits)

section \<open>From the scrapper to the chats\<close>

text \<open>One attempt over a network that carries it to the bot, or loses the request or the answer.\<close>

lemma send_once_log:
  assumes "hbDo c = wired (new_bot_router unmatched (updates_handle decode (bot_handle_link_update send_message))) (hbBaseURL c)"
    and "decode body = Inr u" and "send_once c (update_request c body) (t, faults) = (r, t', faults')"
  shows "\<exists>new. tg_sent t' = tg_sent t @ new \<and> set new \<subseteq> (\<lambda>c. (c, subscriber_notification_body u)) ` set (uTgChatIDs u) \<and>
    (r = Inr () \<longrightarrow> uTgChatIDs u \<noteq> [] \<and> new = map (\<lambda>c. (c, subscriber_notification_body u)) (uTgChatIDs u))"
proof -
  obtain r1 t1 where handled: "bot_handle_link_update send_message u t = (r1, t1)" by fastforce
  let ?h = "new_bot_router unmatched (updates_handle decode (bot_handle_link_update send_message))"
  define code :: int where "code = (case r1 of Inl e \<Rightarrow> if err_is e ErrInvalidLinkUpdate then 400 else 500 | Inr _ \<Rightarrow> 200)"
  have path: "srPath (to_server (hbBaseURL c) (update_request c body)) = ''/updates''"
    "srBody (to_server (hbBaseURL c) (update_request c body)) = body"
    by (simp_all add: to_server_def update_request_def)
  have served: "?h (to_server (hbBaseURL c) (update_request c body)) t = (reply_status code, t1)"
    by (simp add: new_bot_router_def updates_handle_def path assms(2) handled code_def split: sum.split)
  have ok: "code = 200 \<longleftrightarrow> r1 = Inr ()" by (auto simp: code_def split: sum.split)
  have "t' = t \<and> r \<noteq> Inr () \<or> t' = t1 \<and> (r = Inr () \<longrightarrow> r1 = Inr ())"
    using assms(3) served ok
    by (auto simp: send_once_def assms(1) wired_def reply_status_def Let_def split: list.splits net_fault.splits if_splits)
  then show ?thesis
  proof
    assume "t' = t \<and> r \<noteq> Inr ()"
    then show ?thesis by (intro exI [of _ "[]"]) simp
  next
    assume "t' = t1 \<and> (r = Inr () \<longrightarrow> r1 = Inr ())"
    then show ?thesis using handle_update_log [OF handled] by blast
  qed
qed

lemma failed_sends_log:
  assumes "failed_runs op s k s1" "\<And>t faults r t' faults'. op (t, faults) = (r, t', faults') \<Longrightarrow> \<exists>new. tg_sent t' = tg_sent t @ new \<and> set new \<subseteq> S"
  shows "\<exists>new. tg_sent (fst s1) = tg_sent (fst s) @ new \<and> set new \<subseteq> S"
  using assms(1)
proof (induction rule: failed_runs.induct)
  case (none s)
  show ?case by (intro exI [of _ "[]"]) simp
next
  case (again s e s1 k s2)
  obtain t f t1 f1 where s: "s = (t, f)" "s1 = (t1, f1)" by fastforce
  obtain new where "tg_sent t1 = tg_sent t @ new" "set new \<subseteq> S" using assms(2) [of t f "Inl e" t1 f1] again.hyps(1) s by auto
  moreover obtain new' where "tg_sent (fst s2) = tg_sent t1 @ new'" "set new' \<subseteq> S" using again.IH s by auto
  ultimately show ?case by (intro exI [of _ "new @ new'"]) (auto simp: s)
qed

definition example_subscribed :: link_update where
  "example_subscribed = empty_update\<lparr>uID := 7, uURL := ''https://github.com/owner/repo'', uTgChatIDs := [1, 2], uDescription := ''news''\<rparr>"

text \<open>
  (C8) When the scrapper's HTTP client reports an update as sent, every chat it is for has got the text of the
  update, whatever requests, answers and Telegram calls failed on the way; and the attempts send nothing
  but that text to those chats (to some of them more than once, when an attempt is repeated).
\<close>

theorem sent_update_reaches_chats:
  assumes wired: "hbDo c = wired (new_bot_router unmatched (updates_handle decode (bot_handle_link_update send_message))) (hbBaseURL c)"
    and retry: "documented_retry (hbRetrier c)" "0 < rcMaxAttempts (normalize_retry_config (hbRetry c))"
    and json: "\<And>body. hbMarshal c u = Inr body \<Longrightarrow> decode body = Inr u"
    and sent: "http_send_update c u (t, faults) = (Inr (), t', faults')"
  shows "uTgChatIDs u \<noteq> [] \<and>
    (\<exists>new. tg_sent t' = tg_sent t @ new \<and> set new = (\<lambda>chat. (chat, subscriber_notification_body u)) ` set (uTgChatIDs u))"
proof -
  let ?S = "(\<lambda>c. (c, subscriber_notification_body u)) ` set (uTgChatIDs u)"
  obtain body where body: "hbMarshal c u = Inr body" using sent by (auto simp: http_send_update_def split: sum.splits)
  let ?op = "send_once c (update_request c body)"
  obtain n where n: "rcMaxAttempts (normalize_retry_config (hbRetry c)) = int (Suc n)"
    using retry(2) by (metis gr0_conv_Suc zero_less_imp_eq_int)
  have run: "hbRetrier c (int (Suc n)) is_retryable_error ?op (t, faults) = (Inr (), t', faults')"
    using sent body n by (simp add: http_send_update_def do_with_http_retry_def Let_def)
  from retrier_runs [OF retry(1) run] obtain k s1 where s1: "failed_runs ?op (t, faults) k s1" "?op s1 = (Inr (), t', faults')" by blast
  obtain t1 f1 where t1: "s1 = (t1, f1)" by fastforce
  note log = send_once_log [OF wired json [OF body]]
  obtain new where new: "tg_sent t1 = tg_sent t @ new" "set new \<subseteq> ?S"
    using failed_sends_log [OF s1(1), of ?S] log by (metis fst_conv t1)
  obtain last where last: "tg_sent t' = tg_sent t1 @ last" "uTgChatIDs u \<noteq> []"
      "last = map (\<lambda>c. (c, subscriber_notification_body u)) (uTgChatIDs u)"
    using log [of t1 f1 "Inr ()" t' faults'] s1(2) t1 by auto
  then show ?thesis using new by (intro conjI exI [of _ "new @ last"]) auto
qed

lemma sent_update_reaches_chats_witness:
  "\<exists>new. tg_sent (fst (snd (http_send_update
      (new_http_bot_client (wired (new_bot_router (\<lambda>_. reply_status 404)
          (updates_handle (\<lambda>_. Inr example_subscribed) (bot_handle_link_update send_message))) ''http://bot'')
        plain_retrier (\<lambda>_. Inr ''{}'') ''http://bot'' 0 [\<lparr>rcMaxAttempts = 3, rcDelay = 0, rcRetryableHTTPStatuses = [500]\<rparr>])
      example_subscribed (\<lparr>tg_sent = [], tg_script = [None, Some (ErrUnexpectedError, False)]\<rparr>, [Carried])))) = new \<and>
    set new = {(1, subscriber_notification_body example_subscribed), (2, subscriber_notification_body example_subscribed)}"
proof -
  define c where "c = new_http_bot_client (wired (new_bot_router (\<lambda>_. reply_status 404)
          (updates_handle (\<lambda>_. Inr example_subscribed) (bot_handle_link_update send_message))) ''http://bot'')
        plain_retrier (\<lambda>_. Inr ''{}'') ''http://bot'' 0 [\<lparr>rcMaxAttempts = 3, rcDelay = 0, rcRetryableHTTPStatuses = [500]\<rparr>]"
  let ?t = "\<lparr>tg_sent = [], tg_script = [None, Some (ErrUnexpectedError, False)]\<rparr>"
  let ?b = "subscriber_notification_body example_subscribed"
  have u: "uURL example_subscribed \<noteq> []" "uTgChatIDs example_subscribed = [1, 2]" by (simp_all add: example_subscribed_def)
  have fields: "hbBaseURL c = ''http://bot''" "hbMarshal c = (\<lambda>_. Inr ''{}'')" "hbRetrier c = plain_retrier"
    "hbRetry c = \<lparr>rcMaxAttempts = 3, rcDelay = 500 * 1000000, rcRetryableHTTPStatuses = [500]\<rparr>"
    "hbDo c = wired (new_bot_router (\<lambda>_. reply_status 404)
          (updates_handle (\<lambda>_. Inr example_subscribed) (bot_handle_link_update send_message))) ''http://bot''"
    by (simp_all add: c_def new_http_bot_client_def normalize_retry_config_def Let_def)
  have first: "send_once c (update_request c ''{}'') (?t, [Carried]) =
      (Inl (new_http_status_error ''bot'' 500 (hbRetry c)), \<lparr>tg_sent = [(1, ?b)], tg_script = []\<rparr>, [])"
    using u by (simp add: send_once_def fields wired_def new_bot_router_def updates_handle_def to_server_def update_request_def
        bot_handle_link_update_def send_message_def bindE_def reply_status_def trim_prefix_def has_prefix_def Let_def)
  have second: "send_once c (update_request c ''{}'') (\<lparr>tg_sent = [(1, ?b)], tg_script = []\<rparr>, []) =
      (Inr (), \<lparr>tg_sent = [(1, ?b), (1, ?b), (2, ?b)], tg_script = []\<rparr>, [])"
    using u by (simp add: send_once_def fields wired_def new_bot_router_def updates_handle_def to_server_def update_request_def
        bot_handle_link_update_def send_message_def bindE_def reply_status_def trim_prefix_def has_prefix_def Let_def)
  have "is_retryable_error (new_http_status_error ''bot'' 500 (hbRetry c))"
    by (simp add: new_http_status_error_def is_retryable_status_def fields)
  then have sent: "http_send_update c example_subscribed (?t, [Carried]) = (Inr (), \<lparr>tg_sent = [(1, ?b), (1, ?b), (2, ?b)], tg_script = []\<rparr>, [])"
    using first second
    by (simp add: http_send_update_def fields(2,3) do_with_http_retry_def plain_retrier_def eval_nat_numeral fields(4) normalize_retry_config_def Let_def)
  have "\<exists>new. tg_sent \<lparr>tg_sent = [(1, ?b), (1, ?b), (2, ?b)], tg_script = []\<rparr> = tg_sent ?t @ new \<and>
      set new = (\<lambda>chat. (chat, ?b)) ` set (uTgChatIDs example_subscribed)"
    using sent_update_reaches_chats [OF _ _ _ _ sent, of "\<lambda>_. reply_status 404" "\<lambda>_. Inr example_subscribed"]
    by (simp add: fields documented_retry_plain normalize_retry_config_def Let_def u(2))
  then show ?thesis unfolding c_def [symmetric] sent u by simp
qed

end
