(* ===== verification/Env_Config.thy ===== *)
theory Env_Config
  imports Traffic_Limits
begin

text \<open>
  What the three \<open>config.go\<close> files share: reading an environment variable as a text, a number,
  a switch, a duration or a list, with its default, and \<open>log.Fatalf\<close> on a value that does not do.

  The environment maps every name to its value, the empty text when it is not set, as \<open>os.Getenv\<close>
  gives it.  A loader is an effect over it: \<open>godotenv.Load\<close>, a library, may add variables, the
  readers leave it as it is.  \<open>Inl (ErrText m)\<close> is the end of the process with the message \<open>m\<close>.
\<close>

type_synonym environment = "string \<Rightarrow> string"
type_synonym 'a loader = "(environment, 'a) eff"

definition os_getenv :: "string \<Rightarrow> string loader" where
  "os_getenv key env = (Inr (env key), env)"

definition log_fatal :: "string \<Rightarrow> 'a loader" where
  "log_fatal message = throw (ErrText message)"

definition fatal_if :: "bool \<Rightarrow> string \<Rightarrow> unit loader" where
  "fatal_if bad message = (if bad then log_fatal message else ret ())"

lemma fatal_if_ok: "\<not> bad \<Longrightarrow> fatal_if bad message env = (Inr (), env)"
  by (simp add: fatal_if_def)

section \<open>Readers\<close>

definition get_env :: "string \<Rightarrow> string \<Rightarrow> string loader" where
  "get_env key default_value =
     bindE (os_getenv key) (\<lambda>value. if value = [] then ret default_value else ret value)"

definition get_required_env :: "string \<Rightarrow> string loader" where
  "get_required_env key =
     bindE (os_getenv key) (\<lambda>value. if value = [] then log_fatal (key @ '' is not set'') else ret value)"

definition get_env_int :: "string \<Rightarrow> int \<Rightarrow> int loader" where
  "get_env_int key default_value =
     bindE (os_getenv key) (\<lambda>value.
       if value = [] then ret default_value
       else case parse_int64 value of
              Inl err \<Rightarrow> log_fatal (''invalid int value for '' @ key @ '': '' @ value)
            | Inr parsed \<Rightarrow> ret parsed)"

definition get_env_duration :: "string \<Rightarrow> duration \<Rightarrow> duration loader" where
  "get_env_duration key default_value =
     bindE (os_getenv key) (\<lambda>value.
       if value = [] then ret default_value
       else case parse_duration value of
              Inl err \<Rightarrow> log_fatal (''invalid duration value for '' @ key @ '': '' @ value)
            | Inr parsed \<Rightarrow> ret parsed)"

text \<open>The bot's reader also wants it positive.\<close>

definition get_env_positive_duration :: "string \<Rightarrow> duration \<Rightarrow> duration loader" where
  "get_env_positive_duration key default_value =
     bindE (os_getenv key) (\<lambda>value.
       if value = [] then ret default_value
       else case parse_duration value of
              Inl err \<Rightarrow> log_fatal (''invalid duration value for '' @ key @ '': '' @ value)
            | Inr parsed \<Rightarrow> bindE (fatal_if (parsed \<le> 0) (key @ '' must be positive'')) (\<lambda>_. ret parsed))"

definition get_env_bool :: "string \<Rightarrow> bool \<Rightarrow> bool loader" where
  "get_env_bool key default_value =
     bindE (os_getenv key) (\<lambda>value.
       if value = [] then ret default_value
       else case parse_bool value of
              Inl err \<Rightarrow> log_fatal (''invalid bool value for '' @ key @ '': '' @ value)
            | Inr parsed \<Rightarrow> ret parsed)"

definition get_env_uint :: "string \<Rightarrow> int \<Rightarrow> int loader" where
  "get_env_uint key default_value =
     bindE (os_getenv key) (\<lambda>value.
       if value = [] then ret default_value
       else case parse_uint64 value of
              Inl err \<Rightarrow> log_fatal (''invalid uint value for '' @ key @ '': '' @ value)
            | Inr parsed \<Rightarrow> bindE (fatal_if (parsed = 0) (key @ '' must be positive'')) (\<lambda>_. ret parsed))"

definition get_env_float64 :: "string \<Rightarrow> float64 \<Rightarrow> float64 loader" where
  "get_env_float64 key default_value =
     bindE (os_getenv key) (\<lambda>value.
       if value = [] then ret default_value
       else case parse_float value of
              Inl err \<Rightarrow> log_fatal (''invalid float value for '' @ key @ '': '' @ value)
            | Inr parsed \<Rightarrow> ret parsed)"

definition get_env_string_slice :: "string \<Rightarrow> string \<Rightarrow> string list loader" where
  "get_env_string_slice key default_value =
     bindE (get_env key default_value) (\<lambda>value.
       ret (filter (\<lambda>part. part \<noteq> []) (map trim_space (split_on (CHR '','') value))))"

fun parse_int_parts :: "string \<Rightarrow> string list \<Rightarrow> int list loader" where
  "parse_int_parts key [] = ret []"
| "parse_int_parts key (part # parts) =
     (let part = trim_space part
      in if part = [] then parse_int_parts key parts
         else case parse_int64 part of
                Inl err \<Rightarrow> log_fatal (''invalid int value in '' @ key @ '': '' @ part)
              | Inr parsed \<Rightarrow> bindE (parse_int_parts key parts) (\<lambda>result. ret (parsed # result)))"

definition get_env_int_slice :: "string \<Rightarrow> string \<Rightarrow> int list loader" where
  "get_env_int_slice key default_value =
     bindE (get_env key default_value) (\<lambda>value.
     bindE (parse_int_parts key (split_on (CHR '','') value)) (\<lambda>result.
     bindE (fatal_if (result = []) (key @ '' must not be empty'')) (\<lambda>_.
       ret result)))"

section \<open>What a loader reads and what it returns\<close>

named_theorems returns_intros
named_theorems reads_intros

text \<open>A loader gives a value with a property or ends the process with a message.\<close>

definition returns :: "'a loader \<Rightarrow> ('a \<Rightarrow> bool) \<Rightarrow> bool" where
  "returns m P \<longleftrightarrow> (\<forall>env. case fst (m env) of Inl e \<Rightarrow> (\<exists>msg. e = ErrText msg) | Inr x \<Rightarrow> P x)"

definition reads :: "string set \<Rightarrow> 'a loader \<Rightarrow> bool" where
  "reads K m \<longleftrightarrow>
     (\<forall>env. snd (m env) = env) \<and>
     (\<forall>env env'. (\<forall>k\<in>K. env k = env' k) \<longrightarrow> fst (m env) = fst (m env'))"

lemma returnsD: "returns m P \<Longrightarrow> m env = (Inr x, env') \<Longrightarrow> P x"
  by (metis fst_conv returns_def sum.case(2))

lemma returns_ret: "P x \<Longrightarrow> returns (ret x) P"
  by (simp add: returns_def)

lemma returns_log_fatal: "returns (log_fatal msg) P"
  by (simp add: log_fatal_def returns_def)

lemma returns_fatal_if: "returns (fatal_if bad msg) (\<lambda>_. \<not> bad)"
  by (simp add: fatal_if_def log_fatal_def returns_def)

lemma returns_bindE:
  assumes m: "returns m P" and k: "\<And>x. P x \<Longrightarrow> returns (k x) Q"
  shows "returns (bindE m k) Q"
  unfolding returns_def
proof
  fix env
  obtain r env' where run: "m env = (r, env')" by fastforce
  with m have "case r of Inl e \<Rightarrow> \<exists>msg. e = ErrText msg | Inr x \<Rightarrow> P x"
    unfolding returns_def by (metis fst_conv)
  with run k show "case fst (bindE m k env) of Inl e \<Rightarrow> \<exists>msg. e = ErrText msg | Inr x \<Rightarrow> Q x"
    by (cases r) (auto simp: bindE_def returns_def)
qed

lemma reads_keeps: "reads K m \<Longrightarrow> snd (m env) = env"
  by (simp add: reads_def)

lemma reads_local: "reads K m \<Longrightarrow> (\<And>k. k \<in> K \<Longrightarrow> env k = env' k) \<Longrightarrow> fst (m env) = fst (m env')"
  by (auto simp: reads_def)

lemma reads_ret [reads_intros]: "reads K (ret x)"
  by (simp add: reads_def)

lemma reads_throw [reads_intros]: "reads K (throw e)"
  by (simp add: reads_def)

lemma reads_log_fatal [reads_intros]: "reads K (log_fatal msg)"
  by (simp add: log_fatal_def reads_throw)

lemma reads_fatal_if [reads_intros]: "reads K (fatal_if bad msg)"
  by (simp add: fatal_if_def reads_ret reads_log_fatal)

lemma reads_os_getenv: "key \<in> K \<Longrightarrow> reads K (os_getenv key)"
  by (simp add: reads_def os_getenv_def)

lemma reads_bindE [reads_intros]:
  assumes m: "reads K m" and k: "\<And>x. reads K (k x)"
  shows "reads K (bindE m k)"
proof -
  have run: "bindE m k env = (case fst (m env) of Inl e \<Rightarrow> (Inl e, env) | Inr x \<Rightarrow> k x env)" for env
    using reads_keeps [OF m, of env] by (cases "m env") (simp add: bindE_def)
  show ?thesis
    unfolding reads_def
  proof (intro conjI allI impI)
    show "snd (bindE m k env) = env" for env
      by (auto simp: run reads_keeps [OF k] split: sum.split)
    show "fst (bindE m k env) = fst (bindE m k env')" if "\<forall>key\<in>K. env key = env' key" for env env'
      using that by (auto simp: run reads_local [OF m, of env env'] reads_local [OF k, of env env'] split: sum.split)
  qed
qed

section \<open>The contract of a reader\<close>

text \<open>
  A reader gives the default when the variable is not set, the value its text stands for when it
  stands for one, and ends the process when it does not; it looks at no other variable.
\<close>

locale env_reader =
  fixes get :: "string \<Rightarrow> 'd \<Rightarrow> 'a loader"
    and default_of :: "'d \<Rightarrow> 'a result"
    and decode :: "string \<Rightarrow> 'a result"
    and valid :: "'a \<Rightarrow> bool"
  assumes accepts: "(if env key = [] then default_of d else decode (env key)) = Inr x \<Longrightarrow> get key d env = (Inr x, env)"
    and refuses: "(if env key = [] then default_of d else decode (env key)) = Inl e \<Longrightarrow> \<exists>msg. get key d env = (Inl (ErrText msg), env)"
    and local_value: "env key = env' key \<Longrightarrow> fst (get key d env) = fst (get key d env')"
    and decode_valid: "decode v = Inr x \<Longrightarrow> v \<noteq> [] \<Longrightarrow> valid x"
begin

lemma keeps_environment: "snd (get key d env) = env"
  using accepts [of env key d] refuses [of env key d]
  by (cases "if env key = [] then default_of d else decode (env key)") (fastforce simp del: if_split_asm)+

lemma get_reads: "key \<in> K \<Longrightarrow> reads K (get key d)"
  using keeps_environment local_value unfolding reads_def by blast

lemma get_value:
  "get key d env = (Inr x, env') \<longleftrightarrow> (if env key = [] then default_of d else decode (env key)) = Inr x \<and> env' = env"
proof (cases "if env key = [] then default_of d else decode (env key)")
  case (Inl e)
  then obtain msg where "get key d env = (Inl (ErrText msg), env)" using refuses by blast
  with Inl show ?thesis by simp
next
  case (Inr y)
  then have "get key d env = (Inr y, env)" by (rule accepts)
  with Inr show ?thesis by auto
qed

lemma get_unset: "env key = [] \<Longrightarrow> default_of d = Inr x \<Longrightarrow> get key d env = (Inr x, env)"
  by (simp add: accepts)

lemma get_returns:
  assumes "\<And>x. default_of d = Inr x \<Longrightarrow> valid x"
  shows "returns (get key d) valid"
  unfolding returns_def
proof
  fix env
  show "case fst (get key d env) of Inl e \<Rightarrow> \<exists>msg. e = ErrText msg | Inr x \<Rightarrow> valid x"
  proof (cases "if env key = [] then default_of d else decode (env key)")
    case (Inl e)
    then obtain msg where "get key d env = (Inl (ErrText msg), env)" using refuses by blast
    then show ?thesis by simp
  next
    case (Inr x)
    then have "valid x" using assms decode_valid by (auto split: if_splits)
    moreover have "get key d env = (Inr x, env)" using Inr by (rule accepts)
    ultimately show ?thesis by simp
  qed
qed

end

section \<open>The values the parsers give\<close>

definition is_int64 :: "int \<Rightarrow> bool" where
  "is_int64 n \<longleftrightarrow> - (2 ^ 63) \<le> n \<and> n < 2 ^ 63"

definition is_float64 :: "float64 \<Rightarrow> bool" where
  "is_float64 x \<longleftrightarrow> x \<in> {NaN, PosInf, NegInf} \<or> (\<exists>q. x = round64 q)"

lemma parse_int64_range: "parse_int64 s = Inr n \<Longrightarrow> is_int64 n"
  by (auto simp: parse_int64_def is_int64_def Let_def split: option.splits if_splits)

lemma parse_uint64_range: "parse_uint64 s = Inr n \<Longrightarrow> 0 \<le> n \<and> n < 2 ^ 64"
  by (auto simp: parse_uint64_def split: option.splits if_splits)

lemma parse_float_range: "parse_float s = Inr x \<Longrightarrow> is_float64 x"
  by (auto simp: parse_float_def is_float64_def Let_def split: option.splits if_splits prod.splits)

lemma pow2_pos: "0 < pow2 e"
  by (simp add: pow2_def)

lemma round_even_nonneg: "0 \<le> x \<Longrightarrow> 0 \<le> round_even x"
  by (simp add: round_even_def Let_def)

lemma scaled_round_nonneg: "0 \<le> x \<Longrightarrow> 0 \<le> rat_of_int (round_even (x / pow2 e)) * pow2 e"
  using pow2_pos [of e] round_even_nonneg [of "x / pow2 e"] by simp

lemma round64_nonneg: "0 \<le> x \<Longrightarrow> round64 x = Fin v \<Longrightarrow> 0 \<le> v"
  using scaled_round_nonneg [of x "max (- 1022) (exponent x) - 52"]
  by (auto simp: round64_def Let_def split: if_splits)

lemma trunc64_nonneg: "(\<And>v. x = Fin v \<Longrightarrow> 0 \<le> v) \<Longrightarrow> 0 \<le> trunc64 x"
  by (cases x) simp_all

lemma mult64_nonneg: "mult64 (Fin x) b = Fin v \<Longrightarrow> 0 \<le> x \<Longrightarrow> (\<And>y. b = Fin y \<Longrightarrow> 0 \<le> y) \<Longrightarrow> 0 \<le> v"
  by (cases b) (auto intro: round64_nonneg [OF mult_nonneg_nonneg])

lemma div64_nonneg: "div64 a b = Fin v \<Longrightarrow> (\<And>x. a = Fin x \<Longrightarrow> 0 \<le> x) \<Longrightarrow> (\<And>y. b = Fin y \<Longrightarrow> 0 \<le> y) \<Longrightarrow> 0 \<le> v"
  by (cases "(a, b)" rule: div64.cases) (auto intro: round64_nonneg [OF divide_nonneg_nonneg] split: if_splits)

lemma fraction_of_unit_nonneg:
  assumes "0 \<le> f" "0 \<le> u"
  shows "0 \<le> fraction_of_unit f u k"
  unfolding fraction_of_unit_def
proof (rule trunc64_nonneg)
  fix v
  assume v: "mult64 (float_of_int f) (div64 (float_of_int u) (round64 (10 ^ k))) = Fin v"
  have int: "0 \<le> x" if "float_of_int n = Fin x" "0 \<le> n" for n x
    using that round64_nonneg [of "of_int n" x] by (simp add: float_of_int_def)
  have unit: "0 \<le> y" if "div64 (float_of_int u) (round64 (10 ^ k)) = Fin y" for y
    using that int [of u] assms round64_nonneg [of "10 ^ k"] by (blast intro: div64_nonneg zero_le_power zero_le_numeral)
  obtain x where x: "float_of_int f = Fin x" using v by (cases "float_of_int f") simp_all
  show "0 \<le> v" using v int [OF x assms(1)] unit unfolding x by (rule mult64_nonneg)
qed

lemma leading_int_nonneg: "leading_int x s = Some (v, t) \<Longrightarrow> 0 \<le> x \<Longrightarrow> 0 \<le> v"
  by (induction x s rule: leading_int.induct) (auto split: option.splits if_splits)

lemma duration_units_pos: "duration_units u = Some n \<Longrightarrow> 0 < n"
  by (auto simp: duration_units_def split: if_splits)

lemma duration_part_nonneg: "duration_part s = Some (w, t) \<Longrightarrow> 0 \<le> w"
  by (auto simp: duration_part_def Let_def split: option.splits if_splits prod.splits
      dest!: leading_int_nonneg duration_units_pos intro!: add_nonneg_nonneg fraction_of_unit_nonneg)

lemma duration_parts_range: "duration_parts d s = Some x \<Longrightarrow> 0 \<le> d \<Longrightarrow> d \<le> int63 \<Longrightarrow> 0 \<le> x \<and> x \<le> int63"
proof (induction d s rule: duration_parts.induct)
  case (1 d s)
  show ?case
  proof (cases "s = []")
    case True
    with "1.prems" show ?thesis by (simp add: duration_parts.simps)
  next
    case False
    with "1.prems"(1) obtain w t where w: "duration_part s = Some (w, t)" and in_range: "\<not> int63 < d + w"
      and rest: "duration_parts (d + w) t = Some x"
      by (auto simp: duration_parts.simps [of d s] split: option.splits if_splits)
    have "0 \<le> d + w" using duration_part_nonneg [OF w] "1.prems"(2) by simp
    with in_range show ?thesis
      using "1.IH" [OF False w refl in_range rest] by simp
  qed
qed

lemma parse_duration_range: "parse_duration s = Inr d \<Longrightarrow> is_int64 d"
proof -
  assume "parse_duration s = Inr d"
  then consider "d = 0" | x where "duration_parts 0 (drop_sign s) = Some x" "d = - x \<or> d = x \<and> x < int63"
    by (auto simp: parse_duration_def Let_def split: option.splits if_splits)
  then show ?thesis
  proof cases
    case 1
    then show ?thesis by (simp add: is_int64_def)
  next
    case 2
    then have "0 \<le> x \<and> x \<le> int63" using duration_parts_range by (simp add: int63_def)
    with 2(2) show ?thesis by (auto simp: is_int64_def int63_def)
  qed
qed

section \<open>The readers keep the contract\<close>

lemmas reader_defs = os_getenv_def log_fatal_def fatal_if_def bindE_def

interpretation env_text: env_reader get_env Inr Inr "\<lambda>x. x \<noteq> []"
  by unfold_locales (auto simp: get_env_def reader_defs split: if_splits)

interpretation env_required: env_reader "\<lambda>key (_ :: unit). get_required_env key" "\<lambda>_. Inl (ErrText [])" Inr "\<lambda>x. x \<noteq> []"
  by unfold_locales (auto simp: get_required_env_def reader_defs split: if_splits)

interpretation env_int: env_reader get_env_int Inr parse_int64 is_int64
  by unfold_locales (auto simp: get_env_int_def reader_defs parse_int64_range split: if_splits sum.splits)

interpretation env_duration: env_reader get_env_duration Inr parse_duration is_int64
  by unfold_locales (auto simp: get_env_duration_def reader_defs parse_duration_range split: if_splits sum.splits)

definition parse_positive_duration :: "string \<Rightarrow> duration result" where
  "parse_positive_duration s =
     (case parse_duration s of Inl e \<Rightarrow> Inl e | Inr d \<Rightarrow> if d \<le> 0 then Inl (ErrText ''must be positive'') else Inr d)"

definition is_positive_int64 :: "int \<Rightarrow> bool" where
  "is_positive_int64 n \<longleftrightarrow> 0 < n \<and> n < 2 ^ 63"

lemma parse_positive_duration_range: "parse_positive_duration s = Inr d \<Longrightarrow> is_positive_int64 d"
  using parse_duration_range [of s d]
  by (auto simp: parse_positive_duration_def is_positive_int64_def is_int64_def split: sum.splits if_splits)

interpretation env_positive_duration: env_reader get_env_positive_duration Inr parse_positive_duration is_positive_int64
  by unfold_locales
    (auto simp: get_env_positive_duration_def parse_positive_duration_def reader_defs split: if_splits sum.splits
      dest: parse_duration_range simp: is_positive_int64_def is_int64_def)

interpretation env_bool: env_reader get_env_bool Inr parse_bool "\<lambda>_. True"
  by unfold_locales (auto simp: get_env_bool_def reader_defs split: if_splits sum.splits)

interpretation env_float: env_reader get_env_float64 Inr parse_float is_float64
  by unfold_locales (auto simp: get_env_float64_def reader_defs parse_float_range split: if_splits sum.splits)

definition parse_positive_uint :: "string \<Rightarrow> int result" where
  "parse_positive_uint s =
     (case parse_uint64 s of Inl e \<Rightarrow> Inl e | Inr n \<Rightarrow> if n = 0 then Inl (ErrText ''must be positive'') else Inr n)"

definition is_positive_uint :: "int \<Rightarrow> bool" where
  "is_positive_uint n \<longleftrightarrow> 0 < n \<and> n < 2 ^ 64"

lemma parse_positive_uint_range: "parse_positive_uint s = Inr n \<Longrightarrow> is_positive_uint n"
  using parse_uint64_range [of s n]
  by (auto simp: parse_positive_uint_def is_positive_uint_def split: sum.splits if_splits)

interpretation env_uint: env_reader get_env_uint Inr parse_positive_uint is_positive_uint
  by unfold_locales
    (auto simp: get_env_uint_def parse_positive_uint_def reader_defs split: if_splits sum.splits
      dest!: parse_uint64_range simp: is_positive_uint_def)

text \<open>Lists: the parts without their blanks; what they contain.\<close>

definition trimmed :: "string list \<Rightarrow> string list" where
  "trimmed parts = filter (\<lambda>part. part \<noteq> []) (map trim_space parts)"

definition trimmed_parts :: "string \<Rightarrow> string list" where
  "trimmed_parts value = trimmed (split_on (CHR '','') value)"

text \<open>A text of plain characters is its own trimming.\<close>

definition plain :: "string \<Rightarrow> bool" where
  "plain s \<longleftrightarrow> list_all (\<lambda>c. 0x20 < byte_of c \<and> byte_of c < 0x80) s"

lemma trim_space_plain: "plain s \<Longrightarrow> trim_space s = s"
proof -
  assume plain: "plain s"
  then have chunks: "rune_chunks s = map (\<lambda>c. (byte_of c, [c])) s"
    by (intro rune_chunks_ascii) (auto simp: plain_def is_ascii_def list_all_iff)
  have "\<not> is_space (byte_of c)" if "c \<in> set s" for c
    using plain that by (auto simp: plain_def list_all_iff is_space_def)
  then have keep: "dropWhile (\<lambda>c. is_space (fst c)) (map (\<lambda>c. (byte_of c, [c])) t) = map (\<lambda>c. (byte_of c, [c])) t"
    if "set t \<subseteq> set s" for t
    using that by (cases t) auto
  show ?thesis
    using keep [of s] keep [of "rev s"]
    by (simp add: trim_space_def trim_left_func_def trim_right_func_def chunk_bytes_def chunks rev_map comp_def)
qed

lemma trimmed_plain: "list_all plain parts \<Longrightarrow> trimmed parts = filter (\<lambda>part. part \<noteq> []) parts"
  by (induction parts) (auto simp: trimmed_def trim_space_plain)

lemma split_on_none: "d \<notin> set s \<Longrightarrow> split_on d s = [s]"
  by (induction s) auto

lemma split_on_append: "d \<notin> set s \<Longrightarrow> split_on d (s @ d # t) = s # split_on d t"
  by (induction s) auto

lemma split_on_join: "xs \<noteq> [] \<Longrightarrow> list_all (\<lambda>x. d \<notin> set x) xs \<Longrightarrow> split_on d (join [d] xs) = xs"
  by (induction "[d]" xs rule: join.induct) (simp_all add: split_on_none split_on_append)

lemma trimmed_parts_join:
  "parts \<noteq> [] \<Longrightarrow> list_all (\<lambda>x. CHR '','' \<notin> set x) parts \<Longrightarrow> list_all plain parts \<Longrightarrow>
     trimmed_parts (join '','' parts) = filter (\<lambda>part. part \<noteq> []) parts"
  by (simp add: trimmed_parts_def split_on_join trimmed_plain)

interpretation env_list: env_reader get_env_string_slice "\<lambda>d. Inr (trimmed_parts d)" "\<lambda>v. Inr (trimmed_parts v)" "\<lambda>parts. [] \<notin> set parts"
  by unfold_locales (auto simp: get_env_string_slice_def get_env_def trimmed_parts_def trimmed_def reader_defs split: if_splits)

fun decode_ints :: "string list \<Rightarrow> int list result" where
  "decode_ints [] = Inr []"
| "decode_ints (part # parts) =
     (case parse_int64 part of
        Inl e \<Rightarrow> Inl e
      | Inr n \<Rightarrow> (case decode_ints parts of Inl e \<Rightarrow> Inl e | Inr ns \<Rightarrow> Inr (n # ns)))"

definition decode_int_list :: "string \<Rightarrow> int list result" where
  "decode_int_list value =
     (case decode_ints (trimmed_parts value) of
        Inl e \<Rightarrow> Inl e
      | Inr ns \<Rightarrow> if ns = [] then Inl (ErrText ''must not be empty'') else Inr ns)"

definition is_int64_list :: "int list \<Rightarrow> bool" where
  "is_int64_list ns \<longleftrightarrow> ns \<noteq> [] \<and> list_all is_int64 ns"

lemma parse_int_parts_run:
  "case decode_ints (trimmed parts) of
     Inr ns \<Rightarrow> parse_int_parts key parts env = (Inr ns, env)
   | Inl e \<Rightarrow> (\<exists>msg. parse_int_parts key parts env = (Inl (ErrText msg), env))"
proof (induction parts)
  case Nil
  show ?case by (simp add: trimmed_def)
next
  case (Cons part parts)
  show ?case
  proof (cases "trim_space part = []")
    case True
    with Cons.IH show ?thesis by (auto simp: trimmed_def Let_def split: sum.splits)
  next
    case False
    then have split: "trimmed (part # parts) = trim_space part # trimmed parts" by (simp add: trimmed_def)
    show ?thesis
    proof (cases "parse_int64 (trim_space part)")
      case (Inl e)
      with False show ?thesis by (simp add: split Let_def log_fatal_def)
    next
      case (Inr n)
      with False Cons.IH show ?thesis
        by (auto simp: split Let_def bindE_def split: sum.splits)
    qed
  qed
qed

lemma decode_ints_range: "decode_ints parts = Inr ns \<Longrightarrow> list_all is_int64 ns"
  by (induction parts arbitrary: ns) (auto split: sum.splits dest: parse_int64_range)

lemma decode_int_list_range: "decode_int_list v = Inr ns \<Longrightarrow> is_int64_list ns"
  by (auto simp: decode_int_list_def is_int64_list_def dest: decode_ints_range split: sum.splits if_splits)

lemma get_env_int_slice_run:
  "case decode_int_list (if env key = [] then d else env key) of
     Inr ns \<Rightarrow> get_env_int_slice key d env = (Inr ns, env)
   | Inl e \<Rightarrow> (\<exists>msg. get_env_int_slice key d env = (Inl (ErrText msg), env))"
proof -
  define v where "v = (if env key = [] then d else env key)"
  have "get_env key d env = (Inr v, env)" by (simp add: v_def get_env_def reader_defs)
  then show ?thesis
    using parse_int_parts_run [where parts = "split_on (CHR '','') v" and key = key and env = env]
    by (auto simp: get_env_int_slice_def decode_int_list_def trimmed_parts_def trimmed_def reader_defs
        simp flip: v_def split: sum.splits)
qed

lemma parse_int_parts_reads: "reads K (parse_int_parts key parts)"
proof (induction parts)
  case Nil
  show ?case unfolding parse_int_parts.simps by (rule reads_ret)
next
  case (Cons part parts)
  show ?case
  proof (cases "parse_int64 (trim_space part)")
    case (Inl e)
    with Cons.IH show ?thesis by (simp add: Let_def reads_log_fatal)
  next
    case (Inr n)
    have "reads K (bindE (parse_int_parts key parts) (\<lambda>result. ret (n # result)))"
      by (rule reads_bindE [OF Cons.IH reads_ret])
    with Inr Cons.IH show ?thesis by (simp add: Let_def)
  qed
qed

lemma get_env_int_slice_reads: "reads {key} (get_env_int_slice key d)"
  unfolding get_env_int_slice_def
  by (intro reads_intros parse_int_parts_reads env_text.get_reads) simp

interpretation env_int_list: env_reader get_env_int_slice decode_int_list decode_int_list is_int64_list
proof
  fix env :: environment and key d
  show "get_env_int_slice key d env = (Inr ns, env)"
    if "(if env key = [] then decode_int_list d else decode_int_list (env key)) = Inr ns" for ns
    using that get_env_int_slice_run [where env = env and key = key and d = d] by (simp split: if_splits)
  show "\<exists>msg. get_env_int_slice key d env = (Inl (ErrText msg), env)"
    if "(if env key = [] then decode_int_list d else decode_int_list (env key)) = Inl e" for e
    using that get_env_int_slice_run [where env = env and key = key and d = d] by (simp split: if_splits)
  show "fst (get_env_int_slice key d env) = fst (get_env_int_slice key d env')" if "env key = env' key" for env'
    using that by (intro reads_local [OF get_env_int_slice_reads [of key]]) simp
qed (rule decode_int_list_range)

lemmas readers_read [reads_intros] =
  env_text.get_reads env_required.get_reads env_int.get_reads env_duration.get_reads env_positive_duration.get_reads
  env_bool.get_reads env_float.get_reads env_uint.get_reads env_list.get_reads env_int_list.get_reads

lemma get_env_returns: "returns (get_env key d) (\<lambda>x. d \<noteq> [] \<longrightarrow> x \<noteq> [])"
  by (simp add: returns_def get_env_def reader_defs)

lemma reads_attempt [reads_intros]: "reads K m \<Longrightarrow> reads K (attempt m)"
  by (auto simp: reads_def)

lemma reads_total: "reads K m \<Longrightarrow> \<exists>r. m env = (r, env)"
  by (metis reads_keeps prod.collapse)

lemma returns_attempt_bindE: "(\<And>r. returns (k r) Q) \<Longrightarrow> returns (bindE (attempt m) k) Q"
  by (rule returns_bindE [where P = "\<lambda>_. True"]) (simp_all add: returns_def)

lemma returns_os_getenv_bindE: "(\<And>x. returns (k x) Q) \<Longrightarrow> returns (bindE (os_getenv key) k) Q"
  by (rule returns_bindE [where P = "\<lambda>_. True"]) (simp_all add: returns_def os_getenv_def)

text \<open>One step of a loader: the value read has the type of its reader.\<close>

lemmas returns_steps [returns_intros] =
  returns_attempt_bindE returns_os_getenv_bindE returns_bindE [OF returns_fatal_if] returns_bindE [OF get_env_returns]
  returns_bindE [OF env_required.get_returns] returns_bindE [OF env_int.get_returns]
  returns_bindE [OF env_duration.get_returns] returns_bindE [OF env_positive_duration.get_returns]
  returns_bindE [OF env_bool.get_returns] returns_bindE [OF env_float.get_returns] returns_bindE [OF env_uint.get_returns]
  returns_bindE [OF env_list.get_returns] returns_bindE [OF env_int_list.get_returns] returns_ret

text \<open>A variable that is not set.\<close>

lemmas unset_readers =
  env_text.get_unset [OF _ refl] env_int.get_unset [OF _ refl] env_duration.get_unset [OF _ refl]
  env_positive_duration.get_unset [OF _ refl] env_bool.get_unset [OF _ refl] env_float.get_unset [OF _ refl]
  env_uint.get_unset [OF _ refl] env_list.get_unset [OF _ refl]

end
