(* ===== verification/Agent_Config.thy ===== *)
theory Agent_Config
  imports Scrapper_Config
begin

text \<open>
  \<open>agent/internal/config/config.go\<close>: the agent's configuration and \<open>MustLoad\<close>, which checks only
  that what is set can be read.
\<close>

record agent_kafka_config =
  akBootstrapServers :: string
  akRawUpdatesTopic :: string
  akProcessedTopic :: string
  akDLQTopic :: string
  akConsumerGroup :: string
  akClientID :: string
  akMaxRetries :: int
  akSchemaRegistryURL :: string
  akRawUpdatesSubject :: string
  akProcessedSubject :: string
  akSerializationFormat :: string

record filtering_config =
  fcStopWords :: "string list"
  fcExcludedAuthors :: "string list"
  fcMinLength :: int

record prioritization_config =
  pzHighKeywords :: "string list"
  pzLowKeywords :: "string list"

record ai_config =
  aiEnabled :: bool
  aiAPIURL :: string
  aiToken :: string
  aiModel :: string
  aiTimeout :: duration

text \<open>\<open>SummarizationConfig\<close> and \<open>GroupingConfig\<close> have one field each.\<close>

record agent_config =
  acfKafka :: agent_kafka_config
  acfFiltering :: filtering_config
  acfThreshold :: int
  acfPrioritization :: prioritization_config
  acfWindow :: duration
  acfAI :: ai_config

definition default_stop_words :: string where "default_stop_words = ''spam,ads,promo''"
definition default_excluded_authors :: string where "default_excluded_authors = ''bot-user''"
definition default_high_keywords :: string where "default_high_keywords = ''critical,urgent,breaking,security''"
definition default_low_keywords :: string where "default_low_keywords = ''minor,typo,chore,docs''"

definition agent_defaults :: agent_config where
  "agent_defaults =
     \<lparr>acfKafka =
        \<lparr>akBootstrapServers = ''localhost:19092,localhost:19093,localhost:19094'',
         akRawUpdatesTopic = ''link.raw-updates'', akProcessedTopic = ''link.processed-updates'',
         akDLQTopic = ''link.raw-updates-dlq'', akConsumerGroup = ''ai-agent'', akClientID = ''ai-agent'',
         akMaxRetries = 3, akSchemaRegistryURL = ''http://localhost:18085'',
         akRawUpdatesSubject = ''link.raw-updates-value'', akProcessedSubject = ''link.processed-updates-value'',
         akSerializationFormat = ''JSON''\<rparr>,
      acfFiltering =
        \<lparr>fcStopWords = [''spam'', ''ads'', ''promo''], fcExcludedAuthors = [''bot-user''], fcMinLength = 20\<rparr>,
      acfThreshold = 500,
      acfPrioritization =
        \<lparr>pzHighKeywords = [''critical'', ''urgent'', ''breaking'', ''security''],
         pzLowKeywords = [''minor'', ''typo'', ''chore'', ''docs'']\<rparr>,
      acfWindow = seconds 30,
      acfAI =
        \<lparr>aiEnabled = False, aiAPIURL = ''https://api-inference.huggingface.co/models/sshleifer/distilbart-cnn-12-6'',
         aiToken = [], aiModel = ''sshleifer/distilbart-cnn-12-6'', aiTimeout = seconds 20\<rparr>\<rparr>"

section \<open>Loading\<close>

definition agent_load_kafka_config :: "agent_kafka_config loader" where
  "agent_load_kafka_config =
     (let d = acfKafka agent_defaults in
      bindE (get_env ''AI_KAFKA_BOOTSTRAP_SERVERS'' (akBootstrapServers d)) (\<lambda>servers.
      bindE (get_env ''AI_KAFKA_RAW_UPDATES_TOPIC'' (akRawUpdatesTopic d)) (\<lambda>raw.
      bindE (get_env ''AI_KAFKA_PROCESSED_UPDATES_TOPIC'' (akProcessedTopic d)) (\<lambda>processed.
      bindE (get_env ''AI_KAFKA_DLQ_TOPIC'' (akDLQTopic d)) (\<lambda>dlq.
      bindE (get_env ''AI_KAFKA_CONSUMER_GROUP'' (akConsumerGroup d)) (\<lambda>group.
      bindE (get_env ''AI_KAFKA_CLIENT_ID'' (akClientID d)) (\<lambda>client.
      bindE (get_env_int ''AI_KAFKA_MAX_RETRIES'' (akMaxRetries d)) (\<lambda>retries.
      bindE (get_env ''AI_SCHEMA_REGISTRY_URL'' (akSchemaRegistryURL d)) (\<lambda>registry.
      bindE (get_env ''AI_KAFKA_RAW_UPDATES_SUBJECT'' (akRawUpdatesSubject d)) (\<lambda>raw_subject.
      bindE (get_env ''AI_KAFKA_PROCESSED_UPDATES_SUBJECT'' (akProcessedSubject d)) (\<lambda>processed_subject.
      bindE (get_env ''AI_KAFKA_SERIALIZATION_FORMAT'' (akSerializationFormat d)) (\<lambda>format.
        ret \<lparr>akBootstrapServers = servers, akRawUpdatesTopic = raw, akProcessedTopic = processed, akDLQTopic = dlq,
             akConsumerGroup = group, akClientID = client, akMaxRetries = retries, akSchemaRegistryURL = registry,
             akRawUpdatesSubject = raw_subject, akProcessedSubject = processed_subject,
             akSerializationFormat = format\<rparr>))))))))))))"

definition load_ai_config :: "ai_config loader" where
  "load_ai_config =
     (let d = acfAI agent_defaults in
      bindE (get_env_bool ''AI_SUMMARIZER_ENABLED'' (aiEnabled d)) (\<lambda>enabled.
      bindE (get_env ''AI_SUMMARIZER_API_URL'' (aiAPIURL d)) (\<lambda>api_url.
      bindE (os_getenv ''AI_SUMMARIZER_TOKEN'') (\<lambda>token.
      bindE (get_env ''AI_SUMMARIZER_MODEL'' (aiModel d)) (\<lambda>model.
      bindE (get_env_duration ''AI_SUMMARIZER_TIMEOUT'' (aiTimeout d)) (\<lambda>time_out.
        ret \<lparr>aiEnabled = enabled, aiAPIURL = api_url, aiToken = token, aiModel = model, aiTimeout = time_out\<rparr>))))))"

definition agent_must_load :: "unit loader \<Rightarrow> agent_config loader" where
  "agent_must_load godotenv =
     (let d = agent_defaults in
      bindE (attempt godotenv) (\<lambda>_.
      bindE agent_load_kafka_config (\<lambda>kafka.
      bindE (get_env_string_slice ''AI_FILTER_STOP_WORDS'' default_stop_words) (\<lambda>stop_words.
      bindE (get_env_string_slice ''AI_FILTER_EXCLUDED_AUTHORS'' default_excluded_authors) (\<lambda>authors.
      bindE (get_env_int ''AI_FILTER_MIN_LENGTH'' (fcMinLength (acfFiltering d))) (\<lambda>min_length.
      bindE (get_env_int ''AI_SUMMARIZATION_THRESHOLD'' (acfThreshold d)) (\<lambda>threshold.
      bindE (get_env_string_slice ''AI_HIGH_KEYWORDS'' default_high_keywords) (\<lambda>high.
      bindE (get_env_string_slice ''AI_LOW_KEYWORDS'' default_low_keywords) (\<lambda>low.
      bindE (get_env_duration ''AI_GROUP_WINDOW'' (acfWindow d)) (\<lambda>window.
      bindE load_ai_config (\<lambda>ai.
        ret \<lparr>acfKafka = kafka,
             acfFiltering = \<lparr>fcStopWords = stop_words, fcExcludedAuthors = authors, fcMinLength = min_length\<rparr>,
             acfThreshold = threshold,
             acfPrioritization = \<lparr>pzHighKeywords = high, pzLowKeywords = low\<rparr>,
             acfWindow = window, acfAI = ai\<rparr>)))))))))))"

section \<open>What a loaded configuration is\<close>

definition agent_kafka_config_ok :: "agent_kafka_config \<Rightarrow> bool" where
  "agent_kafka_config_ok k \<longleftrightarrow>
     [] \<notin> {akBootstrapServers k, akRawUpdatesTopic k, akProcessedTopic k, akDLQTopic k, akConsumerGroup k,
            akClientID k, akSchemaRegistryURL k, akRawUpdatesSubject k, akProcessedSubject k, akSerializationFormat k} \<and>
     is_int64 (akMaxRetries k)"

definition agent_config_ok :: "agent_config \<Rightarrow> bool" where
  "agent_config_ok cfg \<longleftrightarrow>
     agent_kafka_config_ok (acfKafka cfg) \<and>
     [] \<notin> set (fcStopWords (acfFiltering cfg)) \<and> [] \<notin> set (fcExcludedAuthors (acfFiltering cfg)) \<and>
     [] \<notin> set (pzHighKeywords (acfPrioritization cfg)) \<and> [] \<notin> set (pzLowKeywords (acfPrioritization cfg)) \<and>
     is_int64 (fcMinLength (acfFiltering cfg)) \<and> is_int64 (acfThreshold cfg) \<and> is_int64 (acfWindow cfg) \<and>
     [] \<notin> {aiAPIURL (acfAI cfg), aiModel (acfAI cfg)} \<and> is_int64 (aiTimeout (acfAI cfg))"

lemma trimmed_parts_nonempty: "[] \<notin> set (trimmed_parts s)"
  by (simp add: trimmed_parts_def trimmed_def)

lemma agent_load_kafka_config_ok: "returns agent_load_kafka_config agent_kafka_config_ok"
  unfolding agent_load_kafka_config_def Let_def
  by (intro returns_intros) (auto simp: agent_kafka_config_ok_def agent_defaults_def is_int64_def)

lemma load_ai_config_ok:
  "returns load_ai_config (\<lambda>ai. [] \<notin> {aiAPIURL ai, aiModel ai} \<and> is_int64 (aiTimeout ai))"
  unfolding load_ai_config_def Let_def
  by (intro returns_intros) (auto simp: agent_defaults_def is_int64_def)

lemma agent_must_load_ok: "returns (agent_must_load godotenv) agent_config_ok"
  unfolding agent_must_load_def Let_def
  by (intro returns_intros returns_bindE [OF agent_load_kafka_config_ok] returns_bindE [OF load_ai_config_ok])
    (auto simp: agent_config_ok_def agent_defaults_def is_int64_def trimmed_parts_nonempty)

section \<open>The defaults\<close>

lemma trimmed_default_lists:
  "trimmed_parts default_stop_words = [''spam'', ''ads'', ''promo'']"
  "trimmed_parts default_excluded_authors = [''bot-user'']"
  "trimmed_parts default_high_keywords = [''critical'', ''urgent'', ''breaking'', ''security'']"
  "trimmed_parts default_low_keywords = [''minor'', ''typo'', ''chore'', ''docs'']"
  using trimmed_parts_join [of "[''spam'', ''ads'', ''promo'']"] trimmed_parts_join [of "[''bot-user'']"]
    trimmed_parts_join [of "[''critical'', ''urgent'', ''breaking'', ''security'']"]
    trimmed_parts_join [of "[''minor'', ''typo'', ''chore'', ''docs'']"]
  by (simp_all add: default_stop_words_def default_excluded_authors_def default_high_keywords_def
      default_low_keywords_def plain_def)

lemma bindE_unset_bool: "env key = [] \<Longrightarrow> bindE (get_env_bool key d) k env = k d env"
  by (rule bindE_Inr [OF env_bool.get_unset [OF _ refl]])

lemma agent_load_groups_default:
  assumes "\<And>key. env key = []"
  shows "agent_load_kafka_config env = (Inr (acfKafka agent_defaults), env)"
    "load_ai_config env = (Inr (acfAI agent_defaults), env)"
  using assms
  by (simp_all add: agent_load_kafka_config_def load_ai_config_def os_getenv_def bindE_unset_bool unset_readers agent_defaults_def)

lemma agent_load_defaults:
  assumes "\<And>key. env key = []"
  shows "agent_must_load (ret ()) env = (Inr agent_defaults, env)"
  using assms
  by (simp add: agent_must_load_def agent_load_groups_default unset_readers trimmed_default_lists Let_def)
    (simp add: agent_defaults_def)

end
