(* ===== verification/Config_Properties.thy ===== *)
theory Config_Properties
  imports Bot_Config Agent_Config
begin

text \<open>
  What the loaders of the three programs guarantee, and how the helpers that normalise the same
  settings again relate to it.
\<close>

section \<open>The helpers find nothing to correct\<close>

lemma loaded_rate_limit_is_normal: "rate_limit_config_ok r \<Longrightarrow> normalize_rate_limiter_config r = r"
  by (simp add: normalize_rate_limiter_config_def rate_limit_config_ok_def is_positive_int64_def Let_def)

lemma loaded_retry_is_normal:
  "retry_config_ok r \<Longrightarrow> rcMaxAttempts (normalize_retry_config r) = rcMaxAttempts r \<and>
     rcRetryableHTTPStatuses (normalize_retry_config r) = rcRetryableHTTPStatuses r \<and>
     (0 < rcDelay r \<longrightarrow> normalize_retry_config r = r)"
  by (simp add: normalize_retry_config_def retry_config_ok_def is_positive_uint_def Let_def)

section \<open>Properties\<close>


section \<open>A number that is cut off\<close>

text \<open>
  \<open>uint32\<close> of a number checked to be positive: \<open>2\<^sup>3\<^sup>2\<close> passes the check and is 0 in the configuration,
  for which the breaker takes its own default.
\<close>

lemma parse_two_to_32: "parse_positive_uint ''4294967296'' = Inr (2 ^ 32)"
  by (simp add: parse_positive_uint_def parse_uint64_def parse_uint_def digit_val_def)

lemma minimum_requests_cut_off:
  assumes "load_circuit_breaker_config get_duration prefix env = (Inr c, env')"
    and "\<And>key d e. snd (get_duration key d e) = e"
    and "env (prefix @ ''_MINIMUM_REQUESTS'') = ''4294967296''"
  shows "cbMinimumRequests c = 0 \<and> cbMinimumRequests (normalize_circuit_breaker_config c) = 2"
proof -
  from assms(1) obtain minimum where
    "get_env_uint (prefix @ ''_MINIMUM_REQUESTS'') 2 env = (Inr minimum, env)"
    and c: "cbMinimumRequests c = word_of_int minimum"
    unfolding load_circuit_breaker_config_def Let_def
    by (auto simp: env_bool.get_value env_float.get_value env_uint.get_value default_circuit_breaker_def
        split: if_splits elim!: bindE_Inr_E)
  then have "minimum = 2 ^ 32" using assms(3) parse_two_to_32 by (simp add: env_uint.get_value)
  then have "cbMinimumRequests c = 0" unfolding c by simp
  then show ?thesis by (simp add: normalize_circuit_breaker_config_def Let_def)
qed

end
