(* ===== verification/Agent_Main.thy ===== *)
theory Agent_Main
  imports Agent_Pipeline Agent_Config
begin

text \<open>
  \<open>agent/cmd/agent.go\<close>: what the agent makes of its configuration, its run as polls of the consumer and
  callbacks of the timers between them, and how it stops.  The context of \<open>main\<close> is the one of the
  consumer, so the only way its error is done is that it was cancelled.  Last what a run has published:
  a ledger of the updates that the handler took.
\<close>

section \<open>From the configuration\<close>

definition agent_producer_config :: "agent_config \<Rightarrow> link_update_producer_config" where
  "agent_producer_config cfg =
     (let k = acfKafka cfg in
      \<lparr>pc_bootstrap_servers = akBootstrapServers k, pc_topic = akProcessedTopic k,
       pc_client_id = akClientID k @ ''-producer'', pc_schema_registry_url = akSchemaRegistryURL k,
       pc_link_updates_subject = akProcessedSubject k, pc_serialization_format = akSerializationFormat k\<rparr>)"

definition agent_consumer_config :: "agent_config \<Rightarrow> link_update_consumer_config" where
  "agent_consumer_config cfg =
     (let k = acfKafka cfg in
      \<lparr>cc_bootstrap_servers = akBootstrapServers k, cc_topic = akRawUpdatesTopic k, cc_dlq_topic = akDLQTopic k,
       cc_consumer_group = akConsumerGroup k, cc_client_id = akClientID k @ ''-consumer'',
       cc_max_retries = akMaxRetries k, cc_schema_registry_url = akSchemaRegistryURL k,
       cc_link_updates_subject = akRawUpdatesSubject k, cc_serialization_format = akSerializationFormat k\<rparr>)"

text \<open>What a summary depends on outside: whether the context is done, and what the model answers.\<close>

record summary_world =
  sw_ctx_done :: bool
  sw_http :: "hf_request \<Rightarrow> hf_reply"

definition agent_summarizer :: "agent_config \<Rightarrow> summary_world \<Rightarrow> string \<Rightarrow> int \<Rightarrow> string result option" where
  "agent_summarizer cfg w =
     (if aiEnabled (acfAI cfg)
      then hf_summarize (new_hf_summarizer (aiAPIURL (acfAI cfg)) (aiToken (acfAI cfg))) (sw_http w)
      else stub_summarize (sw_ctx_done w))"

definition agent_processor :: "unicode \<Rightarrow> agent_config \<Rightarrow> summary_world \<Rightarrow> processor" where
  "agent_processor uc cfg w =
     new_processor
       (new_filter_service uc (fcStopWords (acfFiltering cfg)) (fcExcludedAuthors (acfFiltering cfg))
         (fcMinLength (acfFiltering cfg)))
       (agent_summarizer cfg w)
       (new_priority_service uc (pzHighKeywords (acfPrioritization cfg)) (pzLowKeywords (acfPrioritization cfg)))
       (acfThreshold cfg)"

text \<open>The errors of the libraries' constructors, and the constructors of the codecs.\<close>

record kafka_library =
  kl_producer_err :: "go_error option"
  kl_consumer_err :: "go_error option"
  kl_dlq_err :: "go_error option"
  kl_subscribe_err :: "go_error option"
  kl_encoder :: "string \<Rightarrow> string \<Rightarrow> (link_update \<Rightarrow> string result) result"
  kl_decoder :: "string \<Rightarrow> string \<Rightarrow> (string \<Rightarrow> link_update result) result"

definition agent_start :: "kafka_library \<Rightarrow> agent_config \<Rightarrow> (confluent_producer \<times> link_update_consumer) result" where
  "agent_start lib cfg =
     (case new_confluent_link_update_producer (agent_producer_config cfg) (kl_producer_err lib) (kl_encoder lib) of
        Inl e \<Rightarrow> Inl e
      | Inr producer \<Rightarrow>
          (case new_link_update_consumer (agent_consumer_config cfg) True (kl_consumer_err lib) (kl_dlq_err lib) (kl_decoder lib) of
             Inl e \<Rightarrow> Inl e
           | Inr consumer \<Rightarrow> Inr (producer, consumer)))"

section \<open>The run\<close>

text \<open>
  Between two polls the callbacks of timers run; each is one \<open>flushChat\<close> (their finer interleavings are in
  \<open>Agent_Grouping\<close>).  An update is handled in the world of its poll.
\<close>

datatype agent_event = Polls summary_world poll_event | TimerFires int

fun agent_loop ::
    "(summary_world \<Rightarrow> 'p grouping Kafka_Consumer.handler) \<Rightarrow> (link_update \<Rightarrow> ('p, unit) eff) \<Rightarrow> (string \<Rightarrow> link_update result) \<Rightarrow>
     (dead_letter_message \<Rightarrow> string result) \<Rightarrow> link_update_consumer \<Rightarrow> agent_event list \<Rightarrow>
     'p grouping consumer_state \<Rightarrow> loop_result \<times> 'p grouping consumer_state" where
  "agent_loop handle produce unmarshal marshal c [] s = (Running, s)"
| "agent_loop handle produce unmarshal marshal c (TimerFires chat # es) s =
     (case flush_chat produce chat (cs_handler s) of
        None \<Rightarrow> (Panicked, s)
      | Some g \<Rightarrow> agent_loop handle produce unmarshal marshal c es (s\<lparr>cs_handler := g\<rparr>))"
| "agent_loop handle produce unmarshal marshal c (Polls w e # es) s =
     (case start_loop (handle w) unmarshal marshal c [e] s of
        (Running, s1) \<Rightarrow> agent_loop handle produce unmarshal marshal c es s1
      | stopped \<Rightarrow> stopped)"

datatype exit_state = StillRunning | Exited int | Crashed

fun agent_polled :: "agent_event list \<Rightarrow> (summary_world \<times> consumed_message) list" where
  "agent_polled [] = []"
| "agent_polled (Polls w (PollMessage m) # es) = (w, m) # agent_polled es"
| "agent_polled (_ # es) = agent_polled es"

text \<open>
  The end of \<open>main\<close>.  \<open>os.Exit\<close> skips the deferred calls, a return and a panic run them: the
  buffers are flushed.
\<close>

definition agent_stop ::
    "(link_update \<Rightarrow> ('p, unit) eff) \<Rightarrow> (int set \<Rightarrow> int list) \<Rightarrow> loop_result \<Rightarrow> 'p grouping consumer_state \<Rightarrow>
     exit_state \<times> 'p grouping consumer_state" where
  "agent_stop produce order res s =
     (let deferred =
        (\<lambda>code. case flush_all produce order (cs_handler s) of
                  None \<Rightarrow> (Crashed, s)
                | Some g \<Rightarrow> (code, s\<lparr>cs_handler := g\<rparr>))
      in case res of
           Running \<Rightarrow> (StillRunning, s)
         | Panicked \<Rightarrow> deferred Crashed
         | Returned e \<Rightarrow> (if \<not> err_is e ErrContextDone then (Exited 1, s) else deferred (Exited 0)))"

definition agent_main ::
    "unicode \<Rightarrow> kafka_library \<Rightarrow> (link_update \<Rightarrow> string result) \<Rightarrow> (string \<Rightarrow> link_update result) \<Rightarrow>
     (dead_letter_message \<Rightarrow> string result) \<Rightarrow> (int set \<Rightarrow> int list) \<Rightarrow> agent_config \<Rightarrow> agent_event list \<Rightarrow>
     broker grouping consumer_state \<Rightarrow> exit_state \<times> broker grouping consumer_state" where
  "agent_main uc lib json unmarshal marshal order cfg events s =
     (case agent_start lib cfg of
        Inl e \<Rightarrow> (Exited 1, s)
      | Inr (producer, consumer) \<Rightarrow>
          (let produce = kafka_produce json producer;
               handle = (\<lambda>w. handle_link_update uc (agent_processor uc cfg w) produce (acfWindow cfg));
               (res, s1) =
                 (case kl_subscribe_err lib of
                    Some e \<Rightarrow> (Returned (WrapErr ''subscribe to kafka topic'' e), s)
                  | None \<Rightarrow> agent_loop handle produce unmarshal marshal consumer events s)
           in agent_stop produce order res s1))"

section \<open>The ledger\<close>

text \<open>What a chat is owed of some updates: one for every mention of it.\<close>

definition mentions :: "int \<Rightarrow> link_update list \<Rightarrow> link_update list" where
  "mentions chat us =
     concat (map (\<lambda>u. map (\<lambda>_. u\<lparr>uTgChatIDs := [chat]\<rparr>) (filter (\<lambda>c. c = chat) (uTgChatIDs u))) us)"

text \<open>What it has got in batches.\<close>

definition published :: "int \<Rightarrow> (int \<times> link_update list) list \<Rightarrow> link_update list" where
  "published chat batches = concat (map snd (filter (\<lambda>b. fst b = chat) batches))"

lemma mentions_append [simp]: "mentions chat (us @ vs) = mentions chat us @ mentions chat vs"
  by (simp add: mentions_def)

lemma mentions_Nil [simp]: "mentions chat [] = []"
  by (simp add: mentions_def)

lemma published_snoc [simp]:
  "published chat (bs @ [(c, us)]) = published chat bs @ (if c = chat then us else [])"
  by (simp add: published_def)

definition batch_update :: "int \<times> link_update list \<Rightarrow> link_update" where
  "batch_update b = grouped (fst b) (snd b)"

text \<open>What the processor makes of an update.\<close>

definition processed :: "unicode \<Rightarrow> processor \<Rightarrow> link_update \<Rightarrow> link_update list" where
  "processed uc p u = (case process uc p u of Some (Inr (v, ok)) \<Rightarrow> if ok then [v] else [] | _ \<Rightarrow> [])"

text \<open>What the agent takes of a message.\<close>

definition accepted_of_message ::
    "unicode \<Rightarrow> processor \<Rightarrow> (string \<Rightarrow> link_update result) \<Rightarrow> link_update_consumer \<Rightarrow> consumed_message \<Rightarrow> link_update list" where
  "accepted_of_message uc p unmarshal c m =
     (case decode_message unmarshal c m of
        Inl e \<Rightarrow> []
      | Inr u \<Rightarrow> if validate_link_update u = None then processed uc p u else [])"

text \<open>A producer that never fails in its good states.\<close>

locale reliable_producer = update_producer +
  fixes good :: "'a \<Rightarrow> bool"
  assumes produces: "good p \<Longrightarrow> \<exists>p'. produce u p = (Inr (), p') \<and> good p'"
begin

text \<open>From the log \<open>m0\<close> on, the batches that are out and the buffers are together what the chats are owed.\<close>

definition ledger :: "'b list \<Rightarrow> link_update list \<Rightarrow> 'a grouping \<Rightarrow> bool" where
  "ledger m0 us s \<longleftrightarrow>
     good (g_producer s) \<and> buffers_filled (g_buffers s) \<and> finite (dom (g_buffers s)) \<and>
     (\<exists>batches. stored (g_producer s) = m0 @ map (message_of \<circ> batch_update) batches \<and>
        (\<forall>b \<in> set batches. snd b \<noteq> []) \<and>
        (\<forall>chat. published chat batches @ buffered (g_buffers s) chat = mentions chat us))"

lemma ledger_start: "good p \<Longrightarrow> ledger (stored p) [] (new_grouping_service p)"
  unfolding ledger_def new_grouping_service_def
  by (auto simp: buffers_filled_def buffered_def published_def)

lemma ledger_add:
  assumes "0 < window" "ledger m0 us s"
  shows "ledger m0 (us @ [u]) (add produce window u s)"
proof -
  have "finite (dom (g_buffers (add produce window u s)))"
    using assms by (simp add: add_def dom_fold_add_for_chat ledger_def)
  moreover have "buffered (g_buffers (add produce window u s)) chat = buffered (g_buffers s) chat @ mentions chat [u]" for chat
    using add_buffers [OF assms(1), of produce u s chat] by (simp add: mentions_def)
  ultimately show ?thesis
    using assms unfolding ledger_def add_producer [OF assms(1)]
    by (metis append.assoc buffers_filled_add mentions_append)
qed

lemma ledger_flush_chat:
  assumes "ledger m0 us s" "flush_chat produce chat s = Some s'"
  shows "ledger m0 us s'"
proof (cases "chat \<in> dom (g_buffers s)")
  case False
  then have "s' = s" using assms(2) by (auto simp: flush_chat_def take_chat_def domIff)
  with assms(1) show ?thesis by simp
next
  case True
  let ?us = "buffered (g_buffers s) chat"
  have filled: "buffers_filled (g_buffers s)" using assms(1) by (simp add: ledger_def)
  obtain p' where p': "produce (grouped chat ?us) (g_producer s) = (Inr (), p')" "good p'"
    using produces assms(1) unfolding ledger_def by blast
  have s': "s' = \<lparr>g_buffers = (g_buffers s)(chat := None), g_producer = p'\<rparr>"
    using flush_chat_step [OF filled True, of produce] assms(2) p'(1) by simp
  obtain batches where b: "stored (g_producer s) = m0 @ map (message_of \<circ> batch_update) batches"
    "\<forall>b \<in> set batches. snd b \<noteq> []"
    "\<And>c. published c batches @ buffered (g_buffers s) c = mentions c us"
    using assms(1) unfolding ledger_def by blast
  have "published c (batches @ [(chat, ?us)]) @ buffered (g_buffers s') c = mentions c us" for c
    using b(3) [of c] by (auto simp: s' buffered_def)
  moreover have "stored p' = m0 @ map (message_of \<circ> batch_update) (batches @ [(chat, ?us)])"
    using produce_ok [OF p'(1)] b(1) by (simp add: batch_update_def)
  moreover have "\<forall>b \<in> set (batches @ [(chat, ?us)]). snd b \<noteq> []"
    using b(2) buffers_filled_dom [OF filled True] by simp
  moreover have "buffers_filled (g_buffers s')" "finite (dom (g_buffers s'))"
    using assms(1) by (auto simp: s' ledger_def buffers_filled_def)
  moreover have "g_producer s' = p'" by (simp add: s')
  ultimately show ?thesis using p'(2) unfolding ledger_def
    by (intro conjI exI [of _ "batches @ [(chat, ?us)]"] allI) simp_all
qed

lemma ledger_flush_chats: "ledger m0 us s \<Longrightarrow> flush_chats produce cs s = Some s' \<Longrightarrow> ledger m0 us s'"
  by (induction cs arbitrary: s) (auto split: option.splits intro: ledger_flush_chat)

text \<open>After \<open>FlushAll\<close> nothing is owed.\<close>

lemma ledger_flush_all:
  assumes "ledger m0 us s" "flush_all produce order s = Some s'" "\<And>S. finite S \<Longrightarrow> set (order S) = S"
  shows "\<exists>batches. stored (g_producer s') = m0 @ map (message_of \<circ> batch_update) batches \<and>
     (\<forall>b \<in> set batches. snd b \<noteq> []) \<and> (\<forall>chat. published chat batches = mentions chat us)"
proof -
  have "ledger m0 us s'" using assms(1,2) ledger_flush_chats by (simp add: flush_all_def)
  moreover have "g_buffers s' = Map.empty"
    using flush_all_buffers [OF assms(3) _ assms(2)] assms(1) by (simp add: ledger_def)
  ultimately show ?thesis by (simp add: ledger_def buffered_def)
qed

text \<open>The handler adds to the ledger what the processor makes of the update, or fails and changes nothing.\<close>

lemma ledger_handle:
  assumes "0 < window" "ledger m0 us s" "handle_link_update uc p produce window u s = Some (r, s')"
  shows "case r of Inl e \<Rightarrow> s' = s \<and> processed uc p u = [] | Inr _ \<Rightarrow> ledger m0 (us @ processed uc p u) s'"
  using assms ledger_add [OF assms(1,2)]
  by (auto simp: handle_link_update_def processed_def split: option.splits sum.splits if_splits)

lemma ledger_retry:
  assumes "0 < window" "ledger m0 us (cs_handler s)" "k \<le> mx"
    and "retry_loop (handle_link_update uc p produce window) mx u k s = Some (r, s')"
  shows "ledger m0 (us @ processed uc p u) (cs_handler s')"
  using assms(2-)
proof (induction "nat (mx + 1 - k)" arbitrary: k s rule: less_induct)
  case less
  let ?h = "handle_link_update uc p produce window"
  note run = less.prems(3) [unfolded retry_loop.simps [of ?h mx u k s]]
  obtain r1 s1 where call: "call_handler ?h u s = Some (r1, s1)"
    using run less.prems(2) by (auto split: option.splits)
  then have h: "?h u (cs_handler s) = Some (r1, cs_handler s1)" by (blast dest: call_handler_SomeD)
  note step = ledger_handle [OF assms(1) less.prems(1) h]
  obtain sr s2 where sl: "sleep_with_context s1 = (sr, s2)" by fastforce
  then have s2: "cs_handler s2 = cs_handler s1" using sleep_with_context_facts(1) [of s1] by simp
  show ?case
  proof (cases "k < mx \<and> isl r1 \<and> \<not> isl sr")
    case True
    then have run2: "retry_loop ?h mx u (k + 1) s2 = Some (r, s')"
      using run less.prems(2) call sl by (cases r1; cases sr) simp_all
    have "ledger m0 us (cs_handler s2)" using True step less.prems(1) s2 by (cases r1) simp_all
    then show ?thesis using less.hyps [of "k + 1" s2] True run2 by simp
  next
    case False
    then have "cs_handler s' = cs_handler s1"
      using run less.prems(2) call sl s2 by (cases r1; cases sr) (auto split: if_splits)
    then show ?thesis using step less.prems(1) by (cases r1) simp_all
  qed
qed

lemma send_to_dlq_handler: "send_to_dlq_and_commit marshal c m reason e s = (r, s') \<Longrightarrow> cs_handler s' = cs_handler s"
proof (cases "dlq_produce marshal (lc_dlq_topic c) (cs_now s) m reason (Some e) (cs_dlq s)")
  case (Pair r1 d)
  assume run: "send_to_dlq_and_commit marshal c m reason e s = (r, s')"
  show "cs_handler s' = cs_handler s"
  proof (cases r1)
    case (Inl e1)
    then show ?thesis using run Pair by (auto simp: send_to_dlq_and_commit_def)
  next
    case (Inr x)
    then have "commit_message m (s\<lparr>cs_dlq := d\<rparr>) = (r, s')" using run Pair by (simp add: send_to_dlq_and_commit_def)
    then show ?thesis using commit_message_facts(1) [of m "s\<lparr>cs_dlq := d\<rparr>"] by simp
  qed
qed

lemma ledger_handle_message:
  assumes "0 < window" "ledger m0 us (cs_handler s)" "0 \<le> lc_max_retries c"
    and "handle_message (handle_link_update uc p produce window) unmarshal marshal c m s = Some (r, s')"
  shows "ledger m0 (us @ accepted_of_message uc p unmarshal c m) (cs_handler s')"
proof (cases "\<exists>u. decode_message unmarshal c m = Inr u \<and> validate_link_update u = None")
  case False
  then have "\<exists>reason e. send_to_dlq_and_commit marshal c m reason e s = (r, s')"
    using assms(4) by (auto simp: handle_message_def split: sum.splits option.splits)
  then have "cs_handler s' = cs_handler s" by (blast dest: send_to_dlq_handler)
  moreover have "accepted_of_message uc p unmarshal c m = []"
    using False by (auto simp: accepted_of_message_def split: sum.split)
  ultimately show ?thesis using assms(2) by simp
next
  case True
  then obtain u where u: "decode_message unmarshal c m = Inr u" "validate_link_update u = None" by blast
  obtain r1 s1 where run: "retry_loop (handle_link_update uc p produce window) (lc_max_retries c) u 0 s = Some (r1, s1)"
    using assms(4) u by (auto simp: handle_message_def handle_with_retries_def split: option.splits)
  have "cs_handler s' = cs_handler s1"
    using assms(4) u run commit_message_facts(1) [of m s1]
    by (cases r1) (auto simp: handle_message_def handle_with_retries_def dest: send_to_dlq_handler)
  then show ?thesis
    using ledger_retry [OF assms(1,2,3) run] u by (simp add: accepted_of_message_def)
qed

lemma start_one:
  assumes "start_loop handle unmarshal marshal c [e] s = (res, s')"
  obtains (idle) "polled [e] = []" "s' = s"
  | (panic) m where "e = PollMessage m" "handle_message handle unmarshal marshal c m s = None" "s' = s" "res = Panicked"
  | (handled) m r where "e = PollMessage m" "handle_message handle unmarshal marshal c m s = Some (r, s')"
proof (cases e)
  case (PollMessage m)
  show ?thesis
  proof (cases "handle_message handle unmarshal marshal c m s")
    case None
    then show ?thesis using assms PollMessage by (intro panic [of m]) simp_all
  next
    case (Some q)
    obtain r s1 where q: "q = (r, s1)" by fastforce
    have "s1 = s'" using assms PollMessage Some q by (cases r) simp_all
    then show ?thesis using PollMessage Some q by (intro handled [of m r]) simp_all
  qed
next
  case PollContextDone
  then show ?thesis using assms by (intro idle) simp_all
next
  case PollNothing
  then show ?thesis using assms by (intro idle) simp_all
next
  case (PollError err fatal)
  then show ?thesis using assms by (intro idle) (simp_all split: if_splits)
next
  case PollOther
  then show ?thesis using assms by (intro idle) simp_all
qed

lemma ledger_agent_loop:
  assumes "0 < window" "0 \<le> lc_max_retries c" "ledger m0 us (cs_handler s)"
    and "agent_loop (\<lambda>w. handle_link_update uc (proc w) produce window) produce unmarshal marshal c events s = (res, s')"
  shows "\<exists>seen rest. agent_polled events = seen @ rest \<and> (res = Running \<longrightarrow> rest = []) \<and>
     ledger m0 (us @ concat (map (\<lambda>(w, m). accepted_of_message uc (proc w) unmarshal c m) seen)) (cs_handler s') \<and>
     (\<exists>ms. cs_committed s' = cs_committed s @ ms \<and> set ms \<subseteq> snd ` set seen)"
  using assms(3,4)
proof (induction events arbitrary: us s)
  case Nil
  then show ?case by (intro exI [of _ "[]"]) simp
next
  case (Cons ev es)
  let ?h = "\<lambda>w. handle_link_update uc (proc w) produce window"
  let ?acc = "\<lambda>(w, m). accepted_of_message uc (proc w) unmarshal c m"
  show ?case
  proof (cases ev)
    case (TimerFires chat)
    obtain g where g: "flush_chat produce chat (cs_handler s) = Some g" using flush_chat_Some by blast
    have "ledger m0 us (cs_handler (s\<lparr>cs_handler := g\<rparr>))" using ledger_flush_chat [OF Cons.prems(1) g] by simp
    moreover have "agent_loop ?h produce unmarshal marshal c es (s\<lparr>cs_handler := g\<rparr>) = (res, s')"
      using Cons.prems(2) TimerFires g by simp
    ultimately show ?thesis using Cons.IH [of us "s\<lparr>cs_handler := g\<rparr>"] TimerFires by simp
  next
    case (Polls w e)
    obtain res1 s1 where one: "start_loop (?h w) unmarshal marshal c [e] s = (res1, s1)" by fastforce
    have rest: "if res1 = Running then agent_loop ?h produce unmarshal marshal c es s1 = (res, s') else res1 = res \<and> s1 = s'"
      using Cons.prems(2) Polls one by (auto split: loop_result.splits)
    define new where "new = (case e of PollMessage m \<Rightarrow> [(w, m)] | _ \<Rightarrow> [])"
    have polled: "agent_polled (ev # es) = new @ agent_polled es" using Polls by (cases e) (simp_all add: new_def)
    obtain taken where taken: "taken = new \<or> taken = [] \<and> res1 \<noteq> Running"
      "ledger m0 (us @ concat (map ?acc taken)) (cs_handler s1)"
      "\<exists>ms. cs_committed s1 = cs_committed s @ ms \<and> set ms \<subseteq> snd ` set taken"
      using one
    proof (cases rule: start_one)
      case idle
      then have "new = []" by (cases e) (auto simp: new_def)
      with idle Cons.prems(1) that [of "[]"] show ?thesis by simp
    next
      case (panic m)
      with Cons.prems(1) that [of "[]"] show ?thesis by simp
    next
      case (handled m r)
      then have "\<exists>ms. cs_committed s1 = cs_committed s @ ms \<and> set ms \<subseteq> {m}"
        using handle_message_outcome [OF handled(2) assms(2)] by auto
      then show ?thesis
        using ledger_handle_message [OF assms(1) Cons.prems(1) assms(2) handled(2)] handled(1) that [of new]
        by (simp add: new_def)
    qed
    show ?thesis
    proof (cases "res1 = Running")
      case False
      then have "res1 = res" "s1 = s'" using rest by simp_all
      moreover obtain more where "agent_polled (ev # es) = taken @ more"
        using taken(1) polled by auto
      ultimately show ?thesis using taken(2,3) False
        by (intro exI [of _ taken] exI [of _ more]) simp
    next
      case True
      then have "taken = new" using taken(1) by simp
      from Cons.IH [OF taken(2)] rest True obtain seen more ms where
        "agent_polled es = seen @ more" "res = Running \<longrightarrow> more = []"
        "ledger m0 ((us @ concat (map ?acc taken)) @ concat (map ?acc seen)) (cs_handler s')"
        "cs_committed s' = cs_committed s1 @ ms" "set ms \<subseteq> snd ` set seen" by auto
      moreover obtain ms1 where "cs_committed s1 = cs_committed s @ ms1" "set ms1 \<subseteq> snd ` set new"
        using taken(3) \<open>taken = new\<close> by blast
      ultimately show ?thesis using polled \<open>taken = new\<close>
        by (intro exI [of _ "new @ seen"] exI [of _ more] conjI exI [of _ "ms1 @ ms"]) (simp_all add: image_Un le_supI1 le_supI2)
    qed
  qed
qed

end

interpretation kafka: reliable_producer "kafka_produce json p" "kafka_message_of json p" b_log
    "\<lambda>b. b_script b = [] \<and> (\<forall>u. \<exists>body. kafka_body json p u = Inr body)"
  for json p
proof (unfold_locales, goal_cases)
  case (1 b u)
  then obtain body where "kafka_body json p u = Inr body" by blast
  with 1 show ?case
    by (simp add: kafka_produce_def produce_bytes_def next_outcome_def store_if_def Let_def)
qed

section \<open>What a run publishes\<close>

text \<open>A message whose update the handler takes at once is committed.\<close>

lemma handle_message_ok:
  assumes "decode_message unmarshal c m = Inr u" "validate_link_update u = None" "handle u (cs_handler s) = Some (Inr (), h)"
    and "0 \<le> lc_max_retries c" "cs_commit_script s = []"
  shows "handle_message handle unmarshal marshal c m s =
     Some (Inr (), s\<lparr>cs_handler := h, cs_attempts := Suc (cs_attempts s), cs_committed := cs_committed s @ [m]\<rparr>)"
  using assms
  by (simp add: handle_message_def handle_with_retries_def retry_loop.simps [of _ _ u 0] call_handler_def commit_message_def)

lemma agent_stop_flushed:
  assumes "agent_stop produce order res s = (Exited 0, s')"
  shows "\<exists>g. flush_all produce order (cs_handler s) = Some g \<and> s' = s\<lparr>cs_handler := g\<rparr>"
proof (cases "flush_all produce order (cs_handler s)")
  case None
  then show ?thesis using assms by (simp add: agent_stop_def split: loop_result.splits if_splits)
next
  case (Some g)
  then have "s' = s\<lparr>cs_handler := g\<rparr>" using assms by (simp add: agent_stop_def split: loop_result.splits if_splits)
  with Some show ?thesis by blast
qed

lemma agent_start_retries: "agent_start lib cfg = Inr (producer, consumer) \<Longrightarrow> 0 \<le> lc_max_retries consumer"
  by (auto simp: agent_start_def split: sum.splits dest: new_link_update_consumer_retries)


text \<open>A configuration for the examples: no filters, no keywords.\<close>

definition example_agent_config :: agent_config where
  "example_agent_config = agent_defaults
     \<lparr>acfFiltering := \<lparr>fcStopWords = [], fcExcludedAuthors = [], fcMinLength = 0\<rparr>,
      acfPrioritization := \<lparr>pzHighKeywords = [], pzLowKeywords = []\<rparr>\<rparr>"

definition example_kafka_library :: kafka_library where
  "example_kafka_library =
     \<lparr>kl_producer_err = None, kl_consumer_err = None, kl_dlq_err = None, kl_subscribe_err = None,
      kl_encoder = (\<lambda>_ _. Inl ErrInvalidRequest), kl_decoder = (\<lambda>_ _. Inl ErrInvalidRequest)\<rparr>"

definition example_world :: summary_world where
  "example_world = \<lparr>sw_ctx_done = False, sw_http = (\<lambda>_. HfCallError ErrUnexpectedError)\<rparr>"

definition example_agent_producer :: confluent_producer where
  "example_agent_producer = \<lparr>kp_topic = ''link.processed-updates'', kp_codec = None\<rparr>"

definition example_agent_consumer :: link_update_consumer where
  "example_agent_consumer =
     \<lparr>lc_topic = ''link.raw-updates'', lc_dlq_topic = ''link.raw-updates-dlq'', lc_max_retries = 3, lc_codec = None\<rparr>"

definition example_agent_run :: "broker grouping consumer_state" where
  "example_agent_run =
     \<lparr>cs_handler = new_grouping_service \<lparr>b_log = [], b_script = []\<rparr>, cs_attempts = 0,
      cs_dlq = \<lparr>b_log = [], b_script = []\<rparr>, cs_committed = [], cs_commit_script = [], cs_backoff_cancelled = [], cs_now = 1\<rparr>"

lemma example_agent_start:
  "agent_start example_kafka_library example_agent_config = Inr (example_agent_producer, example_agent_consumer)"
proof -
  have json: "\<not> equal_fold_ascii ''JSON'' serialization_format_avro" by code_simp
  have trims: "trim_space ''link.processed-updates'' = ''link.processed-updates''"
    "trim_space ''localhost:19092,localhost:19093,localhost:19094'' = ''localhost:19092,localhost:19093,localhost:19094''"
    by code_simp+
  show ?thesis
    by (simp add: agent_start_def agent_producer_config_def agent_consumer_config_def example_agent_config_def
        example_kafka_library_def agent_defaults_def new_confluent_link_update_producer_def new_link_update_consumer_def
        new_dead_letter_producer_def consumer_max_retries_floor_def example_agent_producer_def example_agent_consumer_def
        json trims Let_def)
qed

lemma example_agent_accepts:
  assumes "uDescription u = []"
  shows "process latin1_tables (agent_processor latin1_tables example_agent_config w) u =
     Some (Inr (u\<lparr>uPriority := priority_medium\<rparr>, True))"
proof -
  have "trim_space [] = []" "rune_count [] = 0" by code_simp+
  then show ?thesis
    by (simp add: assms process_def agent_processor_def new_processor_def should_process_def new_filter_service_def
        new_priority_service_def determine_priority_def example_agent_config_def agent_defaults_def Let_def)
qed


text \<open>
  (C39) When the consumer ends with an error instead, the agent exits at once: what its buffers hold is gone,
  although the messages are committed.  Here one update is handled and committed, and then the client
  reports a fatal error before the window is over: nothing has been published.
\<close>

theorem agent_error_exit_drops_updates:
  assumes start: "agent_start lib cfg = Inr (producer, consumer)" and window: "0 < acfWindow cfg"
    and "kl_subscribe_err lib = None" "cs_commit_script s = []" "\<not> err_is e ErrContextDone"
    and u: "decode_message unmarshal consumer m = Inr u" "validate_link_update u = None"
      "process uc (agent_processor uc cfg w) u = Some (Inr (v, True))" "chat \<in> set (uTgChatIDs v)"
  shows "\<exists>s'. agent_main uc lib json unmarshal marshal order cfg [Polls w (PollMessage m), Polls w (PollError e True)] s
       = (Exited 1, s') \<and>
     cs_committed s' = cs_committed s @ [m] \<and>
     b_log (g_producer (cs_handler s')) = b_log (g_producer (cs_handler s)) \<and>
     v\<lparr>uTgChatIDs := [chat]\<rparr> \<in> set (buffered (g_buffers (cs_handler s')) chat)"
proof -
  let ?produce = "kafka_produce json producer"
  let ?h = "\<lambda>w. handle_link_update uc (agent_processor uc cfg w) ?produce (acfWindow cfg)"
  let ?g = "add ?produce (acfWindow cfg) v (cs_handler s)"
  let ?s2 = "s\<lparr>cs_handler := ?g, cs_attempts := Suc (cs_attempts s), cs_committed := cs_committed s @ [m]\<rparr>"
  have "?h w u (cs_handler s) = Some (Inr (), ?g)" by (simp add: handle_link_update_def u(3))
  then have "handle_message (?h w) unmarshal marshal consumer m s = Some (Inr (), ?s2)"
    using handle_message_ok [OF u(1,2) _ agent_start_retries [OF start] assms(4)] by simp
  then have loop: "agent_loop ?h ?produce unmarshal marshal consumer [Polls w (PollMessage m), Polls w (PollError e True)] s
      = (Returned (WrapErr ''fatal kafka consumer error'' e), ?s2)" by simp
  have "agent_main uc lib json unmarshal marshal order cfg [Polls w (PollMessage m), Polls w (PollError e True)] s = (Exited 1, ?s2)"
    by (simp only: agent_main_def start assms(3) loop Let_def sum.case prod.case option.case)
      (simp add: agent_stop_def assms(5))
  moreover have "v\<lparr>uTgChatIDs := [chat]\<rparr> \<in> set (buffered (g_buffers ?g) chat)"
    using u(4) by (simp add: add_buffers [OF window])
  ultimately show ?thesis using add_producer [OF window, of ?produce v "cs_handler s"] by simp
qed

theorem agent_error_exit_drops_updates_witness:
  "\<exists>s'. agent_main latin1_tables example_kafka_library (\<lambda>u. Inr (uURL u)) example_unmarshal (\<lambda>d. Inr []) sorted_list_of_set
      example_agent_config [Polls example_world (PollMessage (example_message ''u'')),
        Polls example_world (PollError ErrUnexpectedError True)] example_agent_run = (Exited 1, s') \<and>
     cs_committed s' = [example_message ''u''] \<and> b_log (g_producer (cs_handler s')) = []"
proof -
  let ?u = "empty_update\<lparr>uURL := ''u'', uTgChatIDs := [7]\<rparr>"
  have process: "process latin1_tables (agent_processor latin1_tables example_agent_config example_world) ?u
      = Some (Inr (?u\<lparr>uPriority := priority_medium\<rparr>, True))"
    by (rule example_agent_accepts) (simp add: empty_update_def)
  have window: "0 < acfWindow example_agent_config" by (simp add: example_agent_config_def agent_defaults_def)
  have "\<not> err_is ErrUnexpectedError ErrContextDone" "kl_subscribe_err example_kafka_library = None"
    "cs_commit_script example_agent_run = []" "validate_link_update ?u = None"
    "decode_message example_unmarshal example_agent_consumer (example_message ''u'') = Inr ?u"
    "7 \<in> set (uTgChatIDs (?u\<lparr>uPriority := priority_medium\<rparr>))"
    by (simp_all add: example_kafka_library_def example_agent_run_def validate_link_update_def decode_message_def
        example_agent_consumer_def example_unmarshal_def example_message_def)
  from agent_error_exit_drops_updates [OF example_agent_start window this(2,3,1,5,4) process this(6),
      where json = "\<lambda>u. Inr (uURL u)" and marshal = "\<lambda>d. Inr []" and order = sorted_list_of_set]
  obtain s' where "agent_main latin1_tables example_kafka_library (\<lambda>u. Inr (uURL u)) example_unmarshal (\<lambda>d. Inr [])
      sorted_list_of_set example_agent_config [Polls example_world (PollMessage (example_message ''u'')),
        Polls example_world (PollError ErrUnexpectedError True)] example_agent_run = (Exited 1, s')"
    "cs_committed s' = cs_committed example_agent_run @ [example_message ''u'']"
    "b_log (g_producer (cs_handler s')) = b_log (g_producer (cs_handler example_agent_run))" by blast
  then show ?thesis by (simp add: example_agent_run_def new_grouping_service_def)
qed

end
