(* ===== verification/Bot_Main.thy ===== *)
theory Bot_Main
  imports Bot_Config Kafka_Consumer Notifications
begin

text \<open>
  \<open>bot/cmd/bot.go\<close>: what the bot makes of its configuration, and the handler its Kafka consumer calls.  What
  the libraries answer when they connect is an argument.  The four servers that \<open>main\<close> starts side by side share
  nothing but the Telegram client and the update service, so each runs as its own theory has it.
\<close>

section \<open>From the configuration\<close>

definition bot_consumer_config :: "bot_config \<Rightarrow> link_update_consumer_config" where
  "bot_consumer_config cfg =
     (let k = bcfKafka cfg in
      \<lparr>cc_bootstrap_servers = bkBootstrapServers k, cc_topic = bkLinkUpdatesTopic k, cc_dlq_topic = bkDLQTopic k,
       cc_consumer_group = bkConsumerGroup k, cc_client_id = bkClientID k, cc_max_retries = bkMaxRetries k,
       cc_schema_registry_url = bkSchemaRegistryURL k, cc_link_updates_subject = bkLinkUpdatesSubject k,
       cc_serialization_format = bkSerializationFormat k\<rparr>)"

record 'w bot_library =
  bl_telegram :: "string \<Rightarrow> go_error option"
  bl_http_do :: "duration \<Rightarrow> http_request \<Rightarrow> ('w, http_response) eff"
  bl_retrier :: "('w \<times> captured) retrier"
  bl_gobreaker :: "(breaker_settings \<times> breaker_memory) option \<Rightarrow> (('w \<times> captured, unit) eff \<Rightarrow> ('w \<times> captured, unit) eff) option"
  bl_json :: client_json
  bl_grpc :: "string \<Rightarrow> 'w scrapper_stub result"
  bl_sql_open :: "string \<Rightarrow> go_error option"
  bl_sql_ping :: "go_error option"
  bl_gorm_open :: "string \<Rightarrow> go_error option"
  bl_consumer_err :: "go_error option"
  bl_dlq_err :: "go_error option"
  bl_decoder :: "string \<Rightarrow> string \<Rightarrow> (string \<Rightarrow> link_update result) result"

definition bot_http_client :: "'w bot_library \<Rightarrow> bot_config \<Rightarrow> 'w scrapper_client" where
  "bot_http_client lib cfg =
     http_scrapper_client
       (new_scrapper_client (bl_http_do lib) (bl_retrier lib) (bl_gobreaker lib) (bl_json lib) (bcfScrapperURL cfg)
         (bcfScrapperHTTPTimeout cfg) (bcfScrapperHTTPRetry cfg) (bcfScrapperHTTPCircuitBreaker cfg))"

text \<open>HTTP alone when there is no gRPC client, otherwise HTTP with gRPC behind it.\<close>

definition bot_scrapper_client :: "'w bot_library \<Rightarrow> bot_config \<Rightarrow> 'w scrapper_client" where
  "bot_scrapper_client lib cfg =
     (case bl_grpc lib (bcfScrapperGRPCAddr cfg) of
        Inl e \<Rightarrow> bot_http_client lib cfg
      | Inr stub \<Rightarrow> fallback_scrapper_client (bot_http_client lib cfg) (grpc_scrapper_client stub))"

definition bot_session_repository :: "'w bot_library \<Rightarrow> bot_config \<Rightarrow> session_db session_repository result" where
  "bot_session_repository lib cfg =
     (if bcfAccessType cfg = ''SQL'' then
        (case bl_sql_open lib (bcfDatabaseURL cfg) of
           Some e \<Rightarrow> Inl e
         | None \<Rightarrow> (case bl_sql_ping lib of Some e \<Rightarrow> Inl e | None \<Rightarrow> Inr sql_sessions_repo))
      else if bcfAccessType cfg = ''ORM'' then
        (case bl_gorm_open lib (bcfDatabaseURL cfg) of Some e \<Rightarrow> Inl e | None \<Rightarrow> Inr orm_sessions_repo)
      else Inl (ErrText ''unknown access type''))"

text \<open>The started parts: the dialogue, the HTTP server's handler and the consumer.  An error ends the process with status 1.\<close>

record ('w, 'l) bot_parts =
  bp_dispatcher :: "(session_db, 'w) dispatcher"
  bp_router :: "('l ip_rate_limiter \<times> telegram) Traffic_Limits.handler"
  bp_consumer :: link_update_consumer

definition bot_start ::
    "unicode \<Rightarrow> 'w bot_library \<Rightarrow> 'l bucket_ops \<Rightarrow> (server_request \<Rightarrow> instant \<times> instant) \<Rightarrow> (server_request \<Rightarrow> server_reply) \<Rightarrow>
     (string \<Rightarrow> link_update result) \<Rightarrow> bot_config \<Rightarrow> ('w, 'l) bot_parts result" where
  "bot_start uc lib buckets clock unmatched decode cfg =
     (case bl_telegram lib (bcfTelegramToken cfg) of
        Some e \<Rightarrow> Inl e
      | None \<Rightarrow>
     (let client = bot_scrapper_client lib cfg in
      case bot_session_repository lib cfg of
        Inl e \<Rightarrow> Inl e
      | Inr repo \<Rightarrow>
          (let track_service = \<lparr>tkClient = client, tkRepo = repo\<rparr>;
               update_service = bot_handle_link_update send_message;
               router = new_bot_router unmatched (updates_handle decode update_service)
           in case new_link_update_consumer (bot_consumer_config cfg) True (bl_consumer_err lib) (bl_dlq_err lib) (bl_decoder lib) of
                Inl e \<Rightarrow> Inl e
              | Inr consumer \<Rightarrow>
                  Inr \<lparr>bp_dispatcher = new_default_dispatcher uc client track_service repo,
                       bp_router = rate_limit_middleware buckets (bcfRateLimit cfg) clock router,
                       bp_consumer = consumer\<rparr>)))"

section \<open>The update service as the consumer's handler\<close>

definition bot_kafka_handler :: "telegram Kafka_Consumer.handler" where
  "bot_kafka_handler u t = Some (bot_handle_link_update send_message u t)"

interpretation bot_updates: link_update_handler bot_kafka_handler "\<lambda>_. True"
  by unfold_locales (simp_all add: bot_kafka_handler_def)

text \<open>Telegram takes every message: a valid update is sent to its chats in their order.\<close>

lemma sends_all:
  "tg_script t = [] \<Longrightarrow>
   foreachE (\<lambda>chat. send_message chat body) chats t = (Inr (), t\<lparr>tg_sent := tg_sent t @ map (\<lambda>c. (c, body)) chats\<rparr>)"
proof (induction chats arbitrary: t)
  case (Cons c chats)
  have "send_message c body t = (Inr (), t\<lparr>tg_sent := tg_sent t @ [(c, body)]\<rparr>)"
    using Cons.prems by (simp add: send_message_def)
  then show ?case using Cons.IH [of "t\<lparr>tg_sent := tg_sent t @ [(c, body)]\<rparr>"] Cons.prems by (simp add: bindE_def)
qed simp

lemma bot_kafka_handler_sends:
  assumes "validate_link_update u = None" "tg_script t = []"
  shows "bot_kafka_handler u t =
     Some (Inr (), t\<lparr>tg_sent := tg_sent t @ map (\<lambda>c. (c, subscriber_notification_body u)) (uTgChatIDs u)\<rparr>)"
  using assms sends_all [OF assms(2)]
  by (simp add: bot_kafka_handler_def bot_handle_link_update_def validate_link_update_def split: if_splits)

end
