(* ===== verification/Scrapper_Main.thy ===== *)
theory Scrapper_Main
  imports Scrapper_Config Scheduler_Facts Services_Properties Outbox_Publisher Notifications Scrapper_Api
begin

text \<open>
  \<open>scrapper/cmd/scrapper.go\<close>: the parts of the scrapper, chosen by its configuration: the repositories, the
  cache, the way to the bot, the scheduler with or without the outbox, and the router behind the rate limiter.
  What the libraries answer when they connect is an argument.  The world of the scheduler is what is outside
  and the broker; the producer of the fallback and of the outbox write to the same broker.
\<close>

section \<open>Storage\<close>

record 'd repositories =
  rpStore :: "'d store_ops"
  rpTags :: "'d tag_ops"
  rpTracking :: "'d tracking_ops"
  rpOutbox :: "'d outbox_ops"
  rpPending :: "int \<Rightarrow> ('d, outbox_message list) eff"
  rpMarkSent :: "int \<Rightarrow> ('d, unit) eff"
  rpMarkFailed :: "int \<Rightarrow> go_error option \<Rightarrow> ('d, unit) eff"

text \<open>The collation of the database orders tags; gorm is opened with its default configuration, which does not translate errors.\<close>

definition sql_repositories :: "(string \<Rightarrow> int) \<Rightarrow> db repositories" where
  "sql_repositories collate =
     \<lparr>rpStore = sql_store,
      rpTags =
        \<lparr>to_chat_exists = sql_chat_exists, to_create = sql_tag_create, to_list = sql_tag_list collate,
         to_rename = sql_tag_rename, to_delete = sql_tag_delete\<rparr>,
      rpTracking = sql_tracking_ops, rpOutbox = sql_outbox_ops,
      rpPending = sql_get_pending_messages, rpMarkSent = sql_mark_as_sent, rpMarkFailed = sql_mark_publish_failed\<rparr>"

definition orm_repositories :: "(string \<Rightarrow> int) \<Rightarrow> db repositories" where
  "orm_repositories collate =
     \<lparr>rpStore = orm_store,
      rpTags =
        \<lparr>to_chat_exists = orm_chat_exists, to_create = orm_tag_create False, to_list = orm_tag_list collate,
         to_rename = orm_tag_rename False, to_delete = orm_tag_delete\<rparr>,
      rpTracking = orm_tracking_ops, rpOutbox = orm_outbox_ops,
      rpPending = orm_get_pending_messages, rpMarkSent = orm_mark_as_sent, rpMarkFailed = orm_mark_publish_failed\<rparr>"

record ('w, 'l) scrapper_library =
  sl_sql_open :: "string \<Rightarrow> go_error option"
  sl_sql_ping :: "go_error option"
  sl_gorm_open :: "string \<Rightarrow> go_error option"
  sl_collate :: "string \<Rightarrow> int"
  sl_valkey_err :: "go_error option"
  sl_producer_err :: "go_error option"
  sl_encoder :: "string \<Rightarrow> string \<Rightarrow> (link_update \<Rightarrow> string result) result"
  sl_update_json :: "link_update \<Rightarrow> string result"
  sl_update_of_json :: "string \<Rightarrow> link_update result"
  sl_http_do :: "duration \<Rightarrow> http_request \<Rightarrow> ('w, http_response) eff"
  sl_retrier :: "'w retrier"
  sl_grpc :: "string \<Rightarrow> (string \<times> string \<times> int list \<Rightarrow> ('w, unit) eff) result"
  sl_net :: "('w \<times> broker) net"
  sl_gobreaker :: "(breaker_settings \<times> breaker_memory) option \<Rightarrow> ('w \<times> broker) breaker"
  sl_links_json :: json_links
  sl_api_json :: api_json
  sl_unmatched :: "server_request \<Rightarrow> server_reply"
  sl_buckets :: "'l bucket_ops"
  sl_clock :: "server_request \<Rightarrow> instant \<times> instant"

definition scrapper_repositories :: "('w, 'l) scrapper_library \<Rightarrow> scrapper_config \<Rightarrow> db repositories result" where
  "scrapper_repositories lib cfg =
     (if cfgAccessType cfg = access_type_sql then
        (case sl_sql_open lib (cfgDatabaseURL cfg) of
           Some e \<Rightarrow> Inl e
         | None \<Rightarrow> (case sl_sql_ping lib of Some e \<Rightarrow> Inl e | None \<Rightarrow> Inr (sql_repositories (sl_collate lib))))
      else if cfgAccessType cfg = access_type_orm then
        (case sl_gorm_open lib (cfgDatabaseURL cfg) of Some e \<Rightarrow> Inl e | None \<Rightarrow> Inr (orm_repositories (sl_collate lib)))
      else Inl (ErrText ''unknown access type''))"

text \<open>A cache that cannot be made is left out.\<close>

definition scrapper_list_cache :: "('w, 'l) scrapper_library \<Rightarrow> scrapper_config \<Rightarrow> valkey cache_ops option" where
  "scrapper_list_cache lib cfg =
     (let v = cfgValkey cfg in
      if vcEnabled v then
        (case new_valkey_list_cache (vcAddresses v) (vcClientSideCacheEnabled v) (vcClientSideCacheTTL v) (sl_valkey_err lib) of
           Inl e \<Rightarrow> None
         | Inr cache \<Rightarrow> Some (valkey_cache cache))
      else None)"

definition scrapper_services :: "unicode \<Rightarrow> ('w, 'l) scrapper_library \<Rightarrow> scrapper_config \<Rightarrow> 'd repositories \<Rightarrow> ('d, valkey) link_service" where
  "scrapper_services uc lib cfg repos =
     \<lparr>ls_store = rpStore repos, ls_cache = scrapper_list_cache lib cfg, ls_ttl = vcTTL (cfgValkey cfg),
      ls_json = sl_links_json lib, ls_unicode = uc\<rparr>"

section \<open>The way to the bot\<close>

definition scrapper_producer_config :: "scrapper_config \<Rightarrow> link_update_producer_config" where
  "scrapper_producer_config cfg =
     (let k = cfgKafka cfg in
      \<lparr>pc_bootstrap_servers = skBootstrapServers k, pc_topic = skLinkUpdatesTopic k, pc_client_id = skClientID k,
       pc_schema_registry_url = skSchemaRegistryURL k, pc_link_updates_subject = skLinkUpdatesSubject k,
       pc_serialization_format = skSerializationFormat k\<rparr>)"

text \<open>The parts of the world.\<close>

definition in_outside :: "('w, 'a) eff \<Rightarrow> ('w \<times> 'b, 'a) eff" where
  "in_outside m s = (case m (fst s) of (r, w) \<Rightarrow> (r, w, snd s))"

definition in_broker :: "('b, 'a) eff \<Rightarrow> ('w \<times> 'b, 'a) eff" where
  "in_broker m s = (case m (snd s) of (r, b) \<Rightarrow> (r, fst s, b))"

type_synonym 'w bot_client = "link_update \<Rightarrow> ('w \<times> broker, unit) eff"

definition scrapper_http_bot_client :: "('w, 'l) scrapper_library \<Rightarrow> scrapper_config \<Rightarrow> 'w bot_client" where
  "scrapper_http_bot_client lib cfg u =
     in_outside (http_send_update
       (new_http_bot_client (sl_http_do lib) (sl_retrier lib) (sl_update_json lib) (cfgBotHTTPURL cfg)
         (cfgExternalAPITimeout cfg) [cfgExternalAPIRetry cfg]) u)"

definition scrapper_bot_client ::
    "('w, 'l) scrapper_library \<Rightarrow> scrapper_config \<Rightarrow> ('w bot_client \<times> confluent_producer option) result" where
  "scrapper_bot_client lib cfg =
     (let new_producer =
        new_confluent_link_update_producer (scrapper_producer_config cfg) (sl_producer_err lib) (sl_encoder lib);
          kafka_client = (\<lambda>producer u. in_broker (kafka_send_update (sl_update_json lib) producer u))
      in if cfgNotificationTransport cfg = notification_transport_kafka then
           (case new_producer of Inl e \<Rightarrow> Inl e | Inr producer \<Rightarrow> Inr (kafka_client producer, Some producer))
         else if cfgNotificationTransport cfg = notification_transport_http then
           (case new_producer of
              Inl e \<Rightarrow> Inl e
            | Inr producer \<Rightarrow>
                Inr (fallback_send_update (scrapper_http_bot_client lib cfg) (kafka_client producer), Some producer))
         else if cfgNotificationTransport cfg = notification_transport_grpc then
           (case sl_grpc lib (cfgBotGRPCAddr cfg) of
              Inl e \<Rightarrow> Inr (scrapper_http_bot_client lib cfg, None)
            | Inr stub \<Rightarrow>
                Inr (fallback_send_update (scrapper_http_bot_client lib cfg) (\<lambda>u. in_outside (grpc_send_update stub u)), None))
         else Inl (ErrText ''unknown notification transport''))"

section \<open>The scheduler\<close>

definition scrapper_github_config :: "scrapper_config \<Rightarrow> github_client_config" where
  "scrapper_github_config cfg =
     \<lparr>ghBaseURL = cfgGitHubBaseURL cfg, ghToken = cfgGitHubToken cfg, ghTimeout = cfgExternalAPITimeout cfg,
      ghPerPage = cfgExternalAPIPerPage cfg, ghRetry = cfgExternalAPIRetry cfg,
      ghCircuitBreaker = cfgExternalAPICircuitBreaker cfg\<rparr>"

definition scrapper_stackoverflow_config :: "scrapper_config \<Rightarrow> stackoverflow_client_config" where
  "scrapper_stackoverflow_config cfg =
     \<lparr>soBaseURL = cfgStackOverflowBaseURL cfg, soSite = cfgStackOverflowSite cfg, soTimeout = cfgExternalAPITimeout cfg,
      soPerPage = cfgExternalAPIPerPage cfg, soRetry = cfgExternalAPIRetry cfg,
      soCircuitBreaker = cfgExternalAPICircuitBreaker cfg\<rparr>"

definition scrapper_scheduler ::
    "unicode \<Rightarrow> ('w, 'l) scrapper_library \<Rightarrow> scrapper_config \<Rightarrow> 'd repositories \<Rightarrow> 'w bot_client \<Rightarrow> ('d, 'w \<times> broker) scheduler" where
  "scrapper_scheduler uc lib cfg repos bot_client =
     new_scheduler (rpTracking repos) (sl_net lib)
       (new_github_client (sl_gobreaker lib) (scrapper_github_config cfg))
       (new_stackoverflow_client (sl_gobreaker lib) (scrapper_stackoverflow_config cfg))
       bot_client (sl_update_json lib) uc (cfgCheckInterval cfg) (cfgLinkBatchSize cfg) (cfgWorkerCount cfg)"

definition outbox_wanted :: "scrapper_config \<Rightarrow> bool" where
  "outbox_wanted cfg \<longleftrightarrow> cfgNotificationTransport cfg = notification_transport_kafka \<and> oxEnabled (cfgOutbox cfg)"

text \<open>The scheduler and, with the outbox, its publisher.\<close>

definition scrapper_outbox ::
    "('w, 'l) scrapper_library \<Rightarrow> scrapper_config \<Rightarrow> 'd repositories \<Rightarrow> confluent_producer option \<Rightarrow> ('d, 'w \<times> broker) scheduler \<Rightarrow>
     (('d, 'w \<times> broker) scheduler \<times> ('d, broker) outbox_publisher option) result" where
  "scrapper_outbox lib cfg repos link_update_producer scheduler =
     (if outbox_wanted cfg then
        (case link_update_producer of
           None \<Rightarrow> Inl (ErrText ''kafka producer is not initialized'')
         | Some producer \<Rightarrow>
             Inr (enable_outbox (Some (rpOutbox repos)) (skLinkUpdatesTopic (cfgKafka cfg)) scheduler,
                  Some (new_outbox_publisher (rpPending repos) (rpMarkSent repos) (rpMarkFailed repos)
                    (kafka_produce_raw (sl_update_of_json lib) producer)
                    (oxPublishInterval (cfgOutbox cfg)) (oxBatchSize (cfgOutbox cfg)))))
      else Inr (scheduler, None))"

section \<open>Start\<close>

record ('w, 'l) scrapper_parts =
  spServices :: "(db, valkey) link_service"
  spScheduler :: "(db, 'w \<times> broker) scheduler"
  spPublisher :: "(db, broker) outbox_publisher option"
  spRouter :: "('l ip_rate_limiter \<times> (db, valkey) services) Traffic_Limits.handler"

text \<open>The handler of the HTTP server.\<close>

definition scrapper_router ::
    "('w, 'l) scrapper_library \<Rightarrow> scrapper_config \<Rightarrow> ('d, valkey) link_service \<Rightarrow> 'd repositories \<Rightarrow>
     ('l ip_rate_limiter \<times> ('d, valkey) services) Traffic_Limits.handler" where
  "scrapper_router lib cfg services repos =
     rate_limit_middleware (sl_buckets lib) (cfgRateLimit cfg) (sl_clock lib)
       (new_router (sl_unmatched lib) (sl_api_json lib) services (rpTags repos))"

text \<open>Every error here ends the process with status 1.\<close>

definition scrapper_start :: "unicode \<Rightarrow> ('w, 'l) scrapper_library \<Rightarrow> scrapper_config \<Rightarrow> ('w, 'l) scrapper_parts result" where
  "scrapper_start uc lib cfg =
     (case scrapper_repositories lib cfg of
        Inl e \<Rightarrow> Inl e
      | Inr repos \<Rightarrow>
          (case scrapper_bot_client lib cfg of
             Inl e \<Rightarrow> Inl e
           | Inr (bot_client, producer) \<Rightarrow>
               (case scrapper_outbox lib cfg repos producer (scrapper_scheduler uc lib cfg repos bot_client) of
                  Inl e \<Rightarrow> Inl e
                | Inr (scheduler, publisher) \<Rightarrow>
                    (let services = scrapper_services uc lib cfg repos in
                     Inr \<lparr>spServices = services, spScheduler = scheduler, spPublisher = publisher,
                          spRouter = scrapper_router lib cfg services repos\<rparr>))))"

section \<open>What starts\<close>

lemma scrapper_bot_client_ok:
  assumes "scrapper_config_ok cfg" "sl_producer_err lib = None" "\<And>url subject. \<exists>codec. sl_encoder lib url subject = Inr codec"
    and "trim_space (skBootstrapServers (cfgKafka cfg)) \<noteq> []" "trim_space (skLinkUpdatesTopic (cfgKafka cfg)) \<noteq> []"
  shows "\<exists>send producer. scrapper_bot_client lib cfg = Inr (send, producer) \<and>
     (cfgNotificationTransport cfg = notification_transport_kafka \<longrightarrow> producer \<noteq> None)"
proof -
  have "\<exists>p. new_confluent_link_update_producer (scrapper_producer_config cfg) (sl_producer_err lib) (sl_encoder lib) = Inr p"
  proof -
    have "sl_encoder lib url subject \<noteq> Inl e" for url subject e using assms(3) [of url subject] by auto
    with assms(2,4,5) show ?thesis
      by (auto simp: new_confluent_link_update_producer_def scrapper_producer_config_def Let_def split: sum.split)
  qed
  then obtain p where p: "new_confluent_link_update_producer (scrapper_producer_config cfg) None (sl_encoder lib) = Inr p"
    using assms(2) by auto
  from assms(1) consider "cfgNotificationTransport cfg = notification_transport_kafka"
    | "cfgNotificationTransport cfg = notification_transport_http" | "cfgNotificationTransport cfg = notification_transport_grpc"
    by (auto simp: scrapper_config_ok_def)
  then show ?thesis
    by cases (auto simp: scrapper_bot_client_def Let_def assms(2) p notification_transport_kafka_def
        notification_transport_http_def notification_transport_grpc_def split: sum.split)
qed

text \<open>
  (C40) A configuration that loads starts, if the database, the broker and the schema registry answer and the
  addresses of the brokers and the topic are not blank: the services and the scheduler are over the same
  package of repositories, the one of the access type; the scheduler stores its notifications, and a
  publisher sends them, with the Kafka transport and the outbox enabled, and only then; batches and workers
  are as configured; and the lists of links are cached if the cache is enabled, its server answers and
  its copies on the client, if any, have a positive time to live.
\<close>

theorem scrapper_starts_as_configured:
  assumes loaded: "fst (scrapper_must_load godotenv env) = Inr cfg"
    and storage: "sl_sql_open lib (cfgDatabaseURL cfg) = None" "sl_sql_ping lib = None" "sl_gorm_open lib (cfgDatabaseURL cfg) = None"
    and kafka: "sl_producer_err lib = None" "\<And>url subject. \<exists>codec. sl_encoder lib url subject = Inr codec"
    and not_blank: "trim_space (skBootstrapServers (cfgKafka cfg)) \<noteq> []" "trim_space (skLinkUpdatesTopic (cfgKafka cfg)) \<noteq> []"
  defines "repos \<equiv> (if cfgAccessType cfg = ''SQL'' then sql_repositories (sl_collate lib) else orm_repositories (sl_collate lib))"
    and "outbox \<equiv> cfgNotificationTransport cfg = ''KAFKA'' \<and> oxEnabled (cfgOutbox cfg)"
    and "v \<equiv> cfgValkey cfg"
  shows "\<exists>parts. scrapper_start uc lib cfg = Inr parts \<and>
     ls_store (spServices parts) = rpStore repos \<and> sc_repo (spScheduler parts) = rpTracking repos \<and>
     sc_outbox (spScheduler parts) = (if outbox then Some (rpOutbox repos) else None) \<and>
     sc_outbox_enabled (spScheduler parts) = outbox \<and> (spPublisher parts \<noteq> None) = outbox \<and>
     sc_batch_size (spScheduler parts) = cfgLinkBatchSize cfg \<and> sc_worker_count (spScheduler parts) = cfgWorkerCount cfg \<and>
     (ls_cache (spServices parts) \<noteq> None \<longleftrightarrow>
        vcEnabled v \<and> sl_valkey_err lib = None \<and> (vcClientSideCacheEnabled v \<longrightarrow> 0 < vcClientSideCacheTTL v))"
proof -
  have ok: "scrapper_config_ok cfg"
    using scrapper_must_load_ok [of godotenv] loaded by (auto simp: returns_def split: sum.splits)
  have repos: "scrapper_repositories lib cfg = Inr repos"
    using ok storage by (auto simp: scrapper_repositories_def repos_def scrapper_config_ok_def access_type_sql_def access_type_orm_def)
  obtain send producer where client: "scrapper_bot_client lib cfg = Inr (send, producer)"
    "cfgNotificationTransport cfg = notification_transport_kafka \<longrightarrow> producer \<noteq> None"
    using scrapper_bot_client_ok [OF ok kafka not_blank] by blast
  have wanted: "outbox_wanted cfg = outbox" by (simp add: outbox_wanted_def outbox_def notification_transport_kafka_def)
  let ?sched = "scrapper_scheduler uc lib cfg repos send"
  have sched: "sc_repo ?sched = rpTracking repos" "sc_outbox ?sched = None" "\<not> sc_outbox_enabled ?sched"
    "sc_batch_size ?sched = cfgLinkBatchSize cfg" "sc_worker_count ?sched = cfgWorkerCount cfg"
    using ok by (simp_all add: scrapper_scheduler_def new_scheduler_def scrapper_config_ok_def is_positive_int64_def)
  have topic: "skLinkUpdatesTopic (cfgKafka cfg) \<noteq> []" using not_blank(2) by auto
  obtain scheduler publisher where outbox: "scrapper_outbox lib cfg repos producer ?sched = Inr (scheduler, publisher)"
    "sc_repo scheduler = rpTracking repos" "sc_outbox scheduler = (if outbox then Some (rpOutbox repos) else None)"
    "sc_outbox_enabled scheduler = outbox" "(publisher \<noteq> None) = outbox"
    "sc_batch_size scheduler = cfgLinkBatchSize cfg" "sc_worker_count scheduler = cfgWorkerCount cfg"
  proof (cases outbox)
    case True
    then obtain p where "producer = Some p" using client(2) wanted by (auto simp: outbox_wanted_def)
    then show thesis using that True sched topic by (simp add: scrapper_outbox_def wanted enable_outbox_def)
  next
    case False
    then show thesis using that sched by (simp add: scrapper_outbox_def wanted)
  qed
  have "vcEnabled v \<Longrightarrow> vcAddresses v \<noteq> []" using ok by (simp add: scrapper_config_ok_def valkey_config_ok_def v_def)
  then have "scrapper_list_cache lib cfg \<noteq> None \<longleftrightarrow>
      vcEnabled v \<and> sl_valkey_err lib = None \<and> (vcClientSideCacheEnabled v \<longrightarrow> 0 < vcClientSideCacheTTL v)"
    by (auto simp: scrapper_list_cache_def v_def new_valkey_list_cache_def Let_def split: option.split)
  then show ?thesis
    using outbox(2-) by (simp add: scrapper_start_def repos client(1) outbox(1) scrapper_services_def Let_def)
qed

definition example_scrapper_library :: "(unit, bool) scrapper_library" where
  "example_scrapper_library =
     \<lparr>sl_sql_open = (\<lambda>_. None), sl_sql_ping = None, sl_gorm_open = (\<lambda>_. None), sl_collate = (\<lambda>_. 0), sl_valkey_err = None,
      sl_producer_err = None, sl_encoder = (\<lambda>_ _. Inr (\<lambda>u. Inr (uURL u))), sl_update_json = (\<lambda>u. Inr (uURL u)),
      sl_update_of_json = (\<lambda>s. Inr (empty_update\<lparr>uURL := s\<rparr>)),
      sl_http_do = (\<lambda>_ _. throw ErrUnexpectedError), sl_retrier = plain_retrier, sl_grpc = (\<lambda>_. Inl ErrUnexpectedError),
      sl_net =
        \<lparr>nt_do = (\<lambda>_ _. throw ErrUnexpectedError), nt_retrier = plain_retrier, nt_issues = (\<lambda>_. Inr []),
         nt_questions = (\<lambda>_. Inr []), nt_posts = (\<lambda>_. Inr []), nt_unescape_html = id, nt_local_zone = (\<lambda>_. 0)\<rparr>,
      sl_gobreaker = (\<lambda>_. None), sl_links_json = codec_of [], sl_api_json = example_json,
      sl_unmatched = (\<lambda>_. reply_status 404), sl_buckets = one_shot_bucket, sl_clock = (\<lambda>_. (0, 0))\<rparr>"

theorem scrapper_starts_as_configured_witness:
  "\<exists>parts. scrapper_start latin1_tables example_scrapper_library scrapper_defaults = Inr parts \<and>
     ls_store (spServices parts) = sql_store \<and> sc_outbox (spScheduler parts) = None \<and> sc_batch_size (spScheduler parts) = 100 \<and>
     ls_cache (spServices parts) \<noteq> None"
proof -
  have loaded: "fst (scrapper_must_load (ret ()) (\<lambda>_. [])) = Inr scrapper_defaults" by (simp add: scrapper_load_defaults)
  have trims: "trim_space ''link.raw-updates'' = ''link.raw-updates''"
    "trim_space ''localhost:19092,localhost:19093,localhost:19094'' = ''localhost:19092,localhost:19093,localhost:19094''"
    by code_simp+
  from scrapper_starts_as_configured [OF loaded, of example_scrapper_library latin1_tables]
  show ?thesis
    by (auto simp: example_scrapper_library_def scrapper_defaults_def trims access_type_sql_def
        notification_transport_http_def sql_repositories_def)
qed

end
