(* ===== verification/Go_Rfc3339.thy ===== *)
theory Go_Rfc3339
  imports Go_Time
begin

text \<open>
  \<open>time.RFC3339Nano\<close>: \<open>Format\<close> of an instant in UTC and \<open>Parse\<close>, with the calendar turned round (the
  day of a date), and their round trip over the years the layout can write, 1 to 9999.  Instants are
  in microseconds, so the digits after the sixth of a fraction are cut off.
\<close>

section \<open>The day of a date\<close>

definition day_of_date :: "int \<Rightarrow> int \<Rightarrow> int \<Rightarrow> int" where
  "day_of_date y m d =
     (let y1 = (if m \<le> 2 then y - 1 else y); era = y1 div 400; yoe = y1 mod 400;
          mp = (if m > 2 then m - 3 else m + 9);
          doy = (153 * mp + 2) div 5 + d - 1
      in era * 146097 + (yoe * 365 + yoe div 4 - yoe div 100 + doy) - 306)"

definition is_leap :: "int \<Rightarrow> bool" where
  "is_leap y \<longleftrightarrow> y mod 4 = 0 \<and> (y mod 100 \<noteq> 0 \<or> y mod 400 = 0)"

definition days_in :: "int \<Rightarrow> int \<Rightarrow> int" where
  "days_in m y =
     (if m = 2 then (if is_leap y then 29 else 28) else if m \<in> {4, 6, 9, 11} then 30 else 31)"

text \<open>The year of the era, counted from March, of a day of the era.\<close>

lemma year_of_era:
  assumes "0 \<le> doe" "doe < 146097"
  obtains yoe r where
    "(doe - doe div 1460 + doe div 36524 - doe div 146096) div 365 = yoe" "0 \<le> yoe" "yoe < 400"
    "doe = 365 * yoe + yoe div 4 - yoe div 100 + r" "0 \<le> r" "r \<le> 365" "r = 365 \<longrightarrow> is_leap (yoe + 1)"
proof -
  define c where "c = min 3 (doe div 36524)"
  define e where "e = doe - 36524 * c"
  define q where "q = e div 1461"
  define f where "f = e - 1461 * q"
  define k where "k = min 3 (f div 365)"
  define r where "r = f - 365 * k"
  have c: "0 \<le> c" "c \<le> 3" using assms(1) by (auto simp: c_def)
  have e: "0 \<le> e" "e \<le> 36524" "e = 36524 \<longrightarrow> c = 3"
    using assms unfolding e_def c_def min_def by (auto split: if_splits)
  have q: "0 \<le> q" "q \<le> 24" using e(1,2) by (auto simp: q_def)
  have f: "0 \<le> f" "f \<le> 1460" "f = 1460 \<longrightarrow> q < 24 \<or> c = 3"
  proof -
    have "f = e mod 1461" by (simp add: f_def q_def minus_mult_div_eq_mod)
    then show "0 \<le> f" "f \<le> 1460" by simp_all
    have "e = 1461 * q + f" by (simp add: f_def)
    then show "f = 1460 \<longrightarrow> q < 24 \<or> c = 3" using q e(3) by auto
  qed
  have k: "0 \<le> k" "k \<le> 3" using f(1) by (auto simp: k_def)
  have r: "0 \<le> r" "r \<le> 365" "r = 365 \<longrightarrow> k = 3 \<and> f = 1460"
    using f unfolding r_def k_def min_def by (auto split: if_splits)
  have doe: "doe = 36524 * c + 1461 * q + 365 * k + r" by (simp add: r_def f_def e_def)
  define yoe where "yoe = 100 * c + 4 * q + k"
  have range: "0 \<le> yoe" "yoe < 400" using c q k by (auto simp: yoe_def)
  have quarters: "yoe div 4 = 25 * c + q" using k by (simp add: yoe_def)
  have centuries: "yoe div 100 = c" using q k by (simp add: yoe_def)
  have leap: "is_leap (yoe + 1)" if "r = 365"
  proof -
    have k3: "k = 3" and qc: "q < 24 \<or> c = 3" using that r(3) f(3) by auto
    have y: "yoe + 1 = 4 * (q + 1) + 100 * c" by (simp add: yoe_def k3)
    have "(yoe + 1) mod 4 = (4 * (q + 1 + 25 * c)) mod 4" by (simp add: y)
    then have four: "(yoe + 1) mod 4 = 0" by simp
    show ?thesis
    proof (cases "q < 24")
      case True
      have "(yoe + 1) mod 100 = (4 * (q + 1)) mod 100" unfolding y by (rule mod_mult_self2)
      also have "\<dots> = 4 * (q + 1)" using True q by simp
      finally show ?thesis using four q by (simp add: is_leap_def)
    next
      case False
      then have "yoe + 1 = 400" using qc q by (simp add: y)
      then show ?thesis by (simp add: is_leap_def)
    qed
  qed
  have rest: "1461 * q + 365 * k + r = e" by (simp add: r_def f_def)
  have top: "doe div 36524 - doe div 146096 = c"
  proof (cases "e = 36524")
    case True
    with e(3) doe rest show ?thesis by simp
  next
    case False
    then have "doe = 36524 * c + e" "e < 36524" using doe rest e(2) by simp_all
    moreover have "doe < 146096" using calculation c by simp
    ultimately show ?thesis using e(1) assms(1) by simp
  qed
  define t where "t = 24 * c + q + 365 * k + r"
  have t: "0 \<le> t" "t < 2920" using c q k r by (simp_all add: t_def)
  have "doe = 1460 * (25 * c + q) + t" by (simp add: doe t_def)
  then have slow: "doe div 1460 = 25 * c + q + t div 1460" by simp
  have year: "0 \<le> r - t div 1460 \<and> r - t div 1460 < 365"
  proof (cases "t < 1460")
    case True
    then have "t div 1460 = 0" using t by simp
    moreover have "r \<noteq> 365" using True r(3) c q by (auto simp: t_def)
    ultimately show ?thesis using r by simp
  next
    case False
    then have "t div 1460 = 1" using t by simp
    moreover have "1 \<le> r" using False c q k by (simp add: t_def)
    ultimately show ?thesis using r by simp
  qed
  have "doe - doe div 1460 + doe div 36524 - doe div 146096 = doe - doe div 1460 + c" using top by simp
  also have "\<dots> = 365 * yoe + (r - t div 1460)" unfolding slow by (simp add: doe yoe_def)
  finally have formula: "(doe - doe div 1460 + doe div 36524 - doe div 146096) div 365 = yoe" using year by simp
  have "doe = 365 * yoe + yoe div 4 - yoe div 100 + r"
    unfolding quarters centuries by (simp add: doe yoe_def)
  then show thesis using that formula range r leap by blast
qed

text \<open>The date of a day, and its day again.\<close>

lemma month_of_day:
  fixes r :: int
  assumes "0 \<le> r" "r \<le> 365"
  defines "mp \<equiv> (5 * r + 2) div 153"
  shows "0 \<le> mp" "mp \<le> 11" "1 \<le> r - (153 * mp + 2) div 5 + 1"
    "r - (153 * mp + 2) div 5 + 1 \<le> (if mp = 11 then (if r = 365 then 29 else 28) else if mp \<in> {1, 3, 6, 8} then 30 else 31)"
proof -
  show mp: "0 \<le> mp" "mp \<le> 11" using assms by (auto simp: mp_def)
  have between: "153 * mp \<le> 5 * r + 2" "5 * r + 2 < 153 * mp + 153"
    unfolding mp_def by presburger+
  have "mp \<in> {0, 1, 2, 3, 4, 5, 6, 7, 8, 9, 10, 11}" using mp by simp presburger
  then show "1 \<le> r - (153 * mp + 2) div 5 + 1"
    "r - (153 * mp + 2) div 5 + 1 \<le> (if mp = 11 then (if r = 365 then 29 else 28) else if mp \<in> {1, 3, 6, 8} then 30 else 31)"
    using between assms(2) by auto
qed

lemma civil_correct:
  assumes "civil days = (y, m, d)"
  shows "day_of_date y m d = days" "1 \<le> m" "m \<le> 12" "1 \<le> d" "d \<le> days_in m y"
    "0 \<le> days \<Longrightarrow> 1 \<le> y" "days < 3652059 \<Longrightarrow> y \<le> 9999"
proof -
  define z where "z = days + 306"
  define era where "era = z div 146097"
  define doe where "doe = z mod 146097"
  have doe: "0 \<le> doe" "doe < 146097" by (simp_all add: doe_def)
  from year_of_era [OF doe] obtain yoe r where
    yoe: "(doe - doe div 1460 + doe div 36524 - doe div 146096) div 365 = yoe" "0 \<le> yoe" "yoe < 400"
    and r: "doe = 365 * yoe + yoe div 4 - yoe div 100 + r" "0 \<le> r" "r \<le> 365" "r = 365 \<longrightarrow> is_leap (yoe + 1)" .
  define mp where "mp = (5 * r + 2) div 153"
  note month = month_of_day [OF r(2,3), folded mp_def]
  have r': "doe - (365 * yoe + yoe div 4 - yoe div 100) = r" using r(1) by simp
  have ymd: "m = (if mp < 10 then mp + 3 else mp - 9)" "d = r - (153 * mp + 2) div 5 + 1"
    "y = yoe + era * 400 + (if m \<le> 2 then 1 else 0)"
    using assms [unfolded civil_def Let_def, folded z_def, folded era_def doe_def, unfolded yoe(1) r', folded mp_def]
    by auto
  have y1: "(if m \<le> 2 then y - 1 else y) = yoe + era * 400" using ymd by simp
  have mp': "(if m > 2 then m - 3 else m + 9) = mp" using ymd(1) month(1,2) by auto
  have z: "z = era * 146097 + doe" by (simp add: era_def doe_def)
  have "(yoe + era * 400) div 400 = era" "(yoe + era * 400) mod 400 = yoe" using yoe(2,3) by simp_all
  then show "day_of_date y m d = days"
    unfolding day_of_date_def Let_def y1 mp' by (simp add: ymd(2)) (use z r(1) z_def in simp)
  show "1 \<le> m" "m \<le> 12" "1 \<le> d" using ymd(1,2) month by auto
  show "d \<le> days_in m y"
  proof (cases "r = 365")
    case True
    then have "mp = 11" by (simp add: mp_def)
    moreover have "is_leap y"
    proof -
      have y: "y = yoe + 1 + 4 * (100 * era)" "y = yoe + 1 + 100 * (4 * era)" "y = yoe + 1 + 400 * era"
        using ymd \<open>mp = 11\<close> by simp_all
      have "y mod 4 = (yoe + 1) mod 4" unfolding y(1) by (rule mod_mult_self2)
      moreover have "y mod 100 = (yoe + 1) mod 100" unfolding y(2) by (rule mod_mult_self2)
      moreover have "y mod 400 = (yoe + 1) mod 400" unfolding y(3) by (rule mod_mult_self2)
      ultimately have "is_leap y = is_leap (yoe + 1)" by (simp only: is_leap_def)
      then show ?thesis using r(4) True by simp
    qed
    ultimately show ?thesis using month(4) True ymd by (simp add: days_in_def)
  next
    case False
    then show ?thesis using month ymd by (auto simp: days_in_def)
  qed
  have winter: "m \<le> 2 \<longleftrightarrow> 306 \<le> r"
    using ymd(1) month(1,2) unfolding mp_def by (auto split: if_splits)
  show "1 \<le> y" if "0 \<le> days"
  proof (cases "era = 0 \<and> yoe = 0")
    case True
    then have "306 \<le> r" using z r(1) that z_def by simp
    then show ?thesis using True winter ymd(3) by simp
  next
    case False
    have "0 \<le> era" using that by (simp add: era_def z_def pos_imp_zdiv_nonneg_iff)
    with False yoe(2) have "1 \<le> yoe + era * 400" by (cases "era = 0") auto
    then show ?thesis using ymd(3) by simp
  qed
  show "y \<le> 9999" if "days < 3652059"
  proof -
    have "z \<le> 3652364" using that by (simp add: z_def)
    then have era: "era \<le> 24" by (simp add: era_def)
    show ?thesis
    proof (cases "era = 24 \<and> yoe = 399")
      case True
      then have "r < 306" using z r(1) \<open>z \<le> 3652364\<close> by simp
      then show ?thesis using True winter ymd(3) by simp
    next
      case False
      then have "yoe + era * 400 \<le> 9998" using era yoe(3) by (cases "era = 24") auto
      then show ?thesis using ymd(3) by simp
    qed
  qed
qed

section \<open>Format\<close>

text \<open>The nine digits of the layout without the trailing zeros; the last three are always zeros here.\<close>

definition fraction_text :: "int \<Rightarrow> string" where
  "fraction_text us = (if us = 0 then [] else CHR ''.'' # trim_right_char (CHR ''0'') (pad 6 us))"

text \<open>\<open>UTC().Format(time.RFC3339Nano)\<close>\<close>

definition format_rfc3339_nano :: "instant \<Rightarrow> string" where
  "format_rfc3339_nano t =
     (let secs = t div microseconds
      in date_text (civil (secs div 86400)) @ ''T'' @ clock_text (secs mod 86400) @
         fraction_text (t mod microseconds) @ ''Z'')"

section \<open>Parse\<close>

text \<open>\<open>getnum\<close>: two digits, or, unless \<open>fixed\<close>, one.\<close>

definition get_num :: "bool \<Rightarrow> string \<Rightarrow> (int \<times> string) option" where
  "get_num fixed s =
     (case s of
        [] \<Rightarrow> None
      | a # s1 \<Rightarrow>
          (case digit_val a of
             None \<Rightarrow> None
           | Some x \<Rightarrow>
               (case (case s1 of [] \<Rightarrow> None | b # s2 \<Rightarrow> map_option (\<lambda>y. (int (x * 10 + y), s2)) (digit_val b)) of
                  Some r \<Rightarrow> Some r
                | None \<Rightarrow> if fixed then None else Some (int x, s1))))"

definition get_year :: "string \<Rightarrow> (int \<times> string) option" where
  "get_year s =
     (if length s < 4 \<or> digit_val (hd s) = None then None
      else map_option (\<lambda>y. (int y, drop 4 s)) (parse_uint (take 4 s)))"

definition expect :: "char \<Rightarrow> string \<Rightarrow> string option" where
  "expect c s = (case s of [] \<Rightarrow> None | d # r \<Rightarrow> if d = c then Some r else None)"

definition is_digit_char :: "char \<Rightarrow> bool" where
  "is_digit_char c \<longleftrightarrow> digit_val c \<noteq> None"

text \<open>The fraction, if there is one, in nanoseconds.\<close>

definition get_fraction :: "string \<Rightarrow> int \<times> string" where
  "get_fraction s =
     (case s of
        c # d # r \<Rightarrow>
          if (c = CHR ''.'' \<or> c = CHR '','') \<and> is_digit_char d then
            (let ds = take 9 (takeWhile is_digit_char (d # r))
             in (case parse_digits 0 ds of None \<Rightarrow> 0 | Some n \<Rightarrow> int n * 10 ^ (9 - length ds),
                 dropWhile is_digit_char (d # r)))
          else (0, s)
      | _ \<Rightarrow> (0, s))"

text \<open>\<open>Z07:00\<close>: the offset in seconds.\<close>

definition get_zone :: "string \<Rightarrow> (int \<times> string) option" where
  "get_zone s =
     (if s \<noteq> [] \<and> hd s = CHR ''Z'' then Some (0, tl s)
      else if length s < 6 \<or> s ! 3 \<noteq> CHR '':'' then None
      else
        (case (get_num True (take 2 (drop 1 s)), get_num True (take 2 (drop 4 s))) of
           (Some (hh, _), Some (mm, _)) \<Rightarrow>
             if hh > 24 \<or> mm > 60 then None
             else if hd s = CHR ''+'' then Some ((hh * 60 + mm) * 60, drop 6 s)
             else if hd s = CHR ''-'' then Some (- ((hh * 60 + mm) * 60), drop 6 s)
             else None
         | _ \<Rightarrow> None))"

definition parse_fields :: "string \<Rightarrow> instant option" where
  "parse_fields s =
     Option.bind (get_year s) (\<lambda>(year, s).
     Option.bind (expect (CHR ''-'') s) (\<lambda>s.
     Option.bind (get_num True s) (\<lambda>(month, s).
     if month \<le> 0 \<or> 12 < month then None else
     Option.bind (expect (CHR ''-'') s) (\<lambda>s.
     Option.bind (get_num True s) (\<lambda>(day, s).
     Option.bind (expect (CHR ''T'') s) (\<lambda>s.
     Option.bind (get_num False s) (\<lambda>(hour, s).
     if 24 \<le> hour then None else
     Option.bind (expect (CHR '':'') s) (\<lambda>s.
     Option.bind (get_num True s) (\<lambda>(minute, s).
     if 60 \<le> minute then None else
     Option.bind (expect (CHR '':'') s) (\<lambda>s.
     Option.bind (get_num True s) (\<lambda>(second, s).
     if 60 \<le> second then None else
     (case get_fraction s of
        (ns, s) \<Rightarrow>
          Option.bind (get_zone s) (\<lambda>(offset, s).
            if s \<noteq> [] \<or> day < 1 \<or> days_in month year < day then None
            else Some ((day_of_date year month day * 86400 + hour * 3600 + minute * 60 + second - offset) * microseconds
                   + ns div 1000))))))))))))))"

text \<open>\<open>time.Parse(time.RFC3339Nano, s)\<close>\<close>

definition parse_rfc3339_nano :: "string \<Rightarrow> instant result" where
  "parse_rfc3339_nano s =
     (case parse_fields s of None \<Rightarrow> Inl (LibError ''time.Parse'' s) | Some t \<Rightarrow> Inr t)"

section \<open>Round trip\<close>

lemma digits_all: "c \<in> set (digits n) \<Longrightarrow> is_digit_char c"
proof (induction n arbitrary: c rule: digits.induct)
  case (1 n)
  show ?case
  proof (cases "n < 10")
    case True
    with "1.prems" have "c = char_of (0x30 + n)" by (subst (asm) digits.simps) simp
    with True show ?thesis by (simp add: is_digit_char_def)
  next
    case False
    with "1.prems" have "c \<in> set (digits (n div 10)) \<or> c = char_of (0x30 + n mod 10)"
      by (subst (asm) digits.simps) auto
    with "1.IH" [OF False] show ?thesis by (auto simp: is_digit_char_def)
  qed
qed

lemma length_digits: "n < 10 ^ k \<Longrightarrow> 0 < k \<Longrightarrow> length (digits n) \<le> k"
proof (induction k arbitrary: n)
  case (Suc k)
  show ?case
  proof (cases "n < 10")
    case True
    then show ?thesis by (subst digits.simps) simp
  next
    case False
    with Suc.prems have "n div 10 < 10 ^ k" "0 < k" by (cases k; auto)+
    with Suc.IH [of "n div 10"] False show ?thesis by (subst digits.simps) simp
  qed
qed simp

lemma parse_digits_zeros: "parse_digits 0 (replicate k (CHR ''0'') @ s) = parse_digits 0 s"
  by (induction k) (simp_all add: digit_val_def)

lemma pad_facts:
  assumes "0 \<le> i" "i < 10 ^ k" "0 < k"
  shows "length (pad k i) = k" "parse_digits 0 (pad k i) = Some (nat i)" "\<forall>c\<in>set (pad k i). is_digit_char c"
proof -
  have "nat i < 10 ^ k" using assms(1,2) by (simp add: nat_less_iff)
  then have "length (digits (nat i)) \<le> k" using assms(3) by (rule length_digits)
  then show "length (pad k i) = k" using assms(1) by (simp add: pad_def format_int_def Let_def)
  show "parse_digits 0 (pad k i) = Some (nat i)"
    using assms(1) by (simp add: pad_def format_int_def Let_def parse_digits_zeros parse_digits_digits)
  have "is_digit_char (CHR ''0'')" by (simp add: is_digit_char_def digit_val_def)
  then show "\<forall>c\<in>set (pad k i). is_digit_char c"
    using assms(1) by (auto simp: pad_def format_int_def Let_def dest: digits_all)
qed

lemma get_num_pad:
  assumes "0 \<le> i" "i < 100"
  shows "get_num fixed (pad 2 i @ s) = Some (i, s)"
proof -
  have i: "i < 10 ^ 2" using assms by simp
  note pad = pad_facts [OF assms(1) i]
  obtain a b where ab: "pad 2 i = [a, b]"
    using pad(1) by (auto simp: length_Suc_conv numeral_2_eq_2)
  with pad(3) obtain x y where xy: "digit_val a = Some x" "digit_val b = Some y"
    by (auto simp: is_digit_char_def)
  then have "nat i = x * 10 + y" using pad(2) by (simp add: ab)
  then have "int (x * 10 + y) = i" using assms(1) by simp
  with xy show ?thesis by (simp add: get_num_def ab)
qed

lemma get_year_pad:
  assumes "0 \<le> y" "y \<le> 9999"
  shows "get_year (pad 4 y @ s) = Some (y, s)"
proof -
  have y: "y < 10 ^ 4" using assms by simp
  note pad = pad_facts [OF assms(1) y]
  from pad(1) obtain c r where c: "pad 4 y = c # r" by (cases "pad 4 y") auto
  with pad(3) have "digit_val (hd (pad 4 y @ s)) \<noteq> None" by (auto simp: is_digit_char_def)
  moreover have "parse_uint (take 4 (pad 4 y @ s)) = Some (nat y)" using pad c by (simp add: parse_uint_def)
  ultimately show ?thesis using pad(1) assms by (simp add: get_year_def)
qed

lemma expect_Cons [simp]: "expect c (c # s) = Some s"
  by (simp add: expect_def)

lemma trim_right_char_split: "\<exists>k. s = trim_right_char c s @ replicate k c"
proof -
  have "rev s = takeWhile (\<lambda>d. d = c) (rev s) @ dropWhile (\<lambda>d. d = c) (rev s)" by simp
  then have "s = trim_right_char c s @ rev (takeWhile (\<lambda>d. d = c) (rev s))"
    unfolding trim_right_char_def by (metis rev_append rev_rev_ident)
  moreover have "takeWhile (\<lambda>d. d = c) (rev s) = replicate (length (takeWhile (\<lambda>d. d = c) (rev s))) c"
    by (simp add: list_eq_iff_nth_eq) (meson nth_mem set_takeWhileD)
  ultimately show ?thesis by (metis rev_replicate)
qed

lemma parse_digits_append_zeros: "parse_digits n (replicate k (CHR ''0'')) = Some (n * 10 ^ k)"
  by (induction k arbitrary: n) (simp_all add: digit_val_def ac_simps)

lemma get_fraction_text:
  assumes "0 \<le> us" "us < microseconds"
  shows "get_fraction (fraction_text us @ ''Z'') = (us * 1000, ''Z'')"
proof (cases "us = 0")
  case True
  then show ?thesis by (simp add: fraction_text_def get_fraction_def)
next
  case False
  have us: "us < 10 ^ 6" using assms by (simp add: microseconds_def)
  note pad = pad_facts [OF assms(1) us]
  define ds where "ds = trim_right_char (CHR ''0'') (pad 6 us)"
  obtain k where k: "pad 6 us = ds @ replicate k (CHR ''0'')" using trim_right_char_split ds_def by blast
  have ds: "\<forall>c\<in>set ds. is_digit_char c" "length ds + k = 6" using pad(1,3) by (simp_all add: k ball_Un)
  from pad(2) k obtain n where n: "parse_digits 0 ds = Some n" "nat us = n * 10 ^ k"
    by (auto simp: parse_digits_append parse_digits_append_zeros split: option.splits)
  have "ds \<noteq> []" using n False assms(1) by auto
  then obtain d r where dr: "ds = d # r" by (cases ds) auto
  have "takeWhile is_digit_char (ds @ ''Z'') = ds" "dropWhile is_digit_char (ds @ ''Z'') = ''Z''"
    using ds(1) by (simp_all add: takeWhile_append2 dropWhile_append2 is_digit_char_def digit_val_def)
  then have scan: "takeWhile is_digit_char (d # r @ ''Z'') = ds" "dropWhile is_digit_char (d # r @ ''Z'') = ''Z''"
    by (simp_all only: dr append_Cons)
  have "is_digit_char d" using ds(1) dr by simp
  have "9 - length ds = k + 3" using ds(2) by simp
  then have "int n * 10 ^ (9 - length ds) = int n * 10 ^ (k + 3)" by simp
  also have "\<dots> = int (n * 10 ^ k) * 1000" by (simp add: power_add)
  also have "\<dots> = us * 1000" unfolding n(2) [symmetric] using assms(1) by simp
  finally have scaled: "int n * 10 ^ (9 - length ds) = us * 1000" .
  moreover have "take 9 ds = ds" using ds(2) by simp
  ultimately have "get_fraction (CHR ''.'' # d # r @ ''Z'') = (us * 1000, ''Z'')"
    using n(1) scaled
    by (simp add: get_fraction_def Let_def scan \<open>is_digit_char d\<close> del: takeWhile.simps dropWhile.simps)
  moreover have "fraction_text us @ ''Z'' = CHR ''.'' # d # r @ ''Z''"
    using False dr by (simp add: fraction_text_def ds_def)
  ultimately show ?thesis by simp
qed

text \<open>The instants of the years 1 to 9999.\<close>

definition rfc3339_range :: "instant \<Rightarrow> bool" where
  "rfc3339_range t \<longleftrightarrow> 0 \<le> t \<and> t < 3652059 * 86400 * microseconds"

lemma clock_sum: "a = q * 60 + x \<Longrightarrow> s = a * 60 + y \<Longrightarrow> q * 3600 + x * 60 + y = (s :: int)"
  by simp

lemma parse_format_rfc3339_nano:
  assumes "rfc3339_range t"
  shows "parse_rfc3339_nano (format_rfc3339_nano t) = Inr t"
proof -
  define secs where "secs = t div microseconds"
  obtain y m d where date: "civil (secs div 86400) = (y, m, d)" by (cases "civil (secs div 86400)")
  note civil = civil_correct [OF date]
  have secs: "0 \<le> secs" "secs < 3652059 * 86400"
  proof -
    define u where "u = t mod 1000000"
    have "t = secs * 1000000 + u" "0 \<le> u" "u < 1000000"
      by (simp_all add: secs_def microseconds_def u_def)
    then show "0 \<le> secs" "secs < 3652059 * 86400"
      using assms unfolding rfc3339_range_def microseconds_def by linarith+
  qed
  have "0 \<le> secs div 86400" using secs(1) by (simp add: pos_imp_zdiv_nonneg_iff)
  then have y: "0 \<le> y" "y \<le> 9999" using civil(6,7) secs(2) by fastforce+
  have days: "days_in m y \<le> 31" by (simp add: days_in_def)
  define s where "s = secs mod 86400"
  have s: "0 \<le> s" "s < 86400" by (simp_all add: s_def)
  have "s div 3600 = s div 60 div 60" by (simp add: zdiv_zmult2_eq [symmetric])
  then have clock: "s div 3600 * 3600 + s div 60 mod 60 * 60 + s mod 60 = s"
    using clock_sum [of "s div 60" "s div 60 div 60" "s div 60 mod 60" s "s mod 60"] by simp
  have parts: "0 \<le> s div 3600" "s div 3600 < 24" "0 \<le> s div 60 mod 60" "s div 60 mod 60 < 60" "0 \<le> s mod 60" "s mod 60 < 60"
    using s by simp_all
  have us: "0 \<le> t mod microseconds" "t mod microseconds < microseconds" by (simp_all add: microseconds_def)
  have whole: "(secs div 86400 * 86400 + s) * microseconds + t mod microseconds = t" by (simp add: s_def secs_def)
  have zone: "get_zone ''Z'' = Some (0, [])" by (simp add: get_zone_def)
  define hh where "hh = s div 3600"
  define mm where "mm = s div 60 mod 60"
  define ss where "ss = s mod 60"
  note parts = parts [folded hh_def mm_def ss_def] and clock = clock [folded hh_def mm_def ss_def]
  have layout: "format_rfc3339_nano t =
      pad 4 y @ CHR ''-'' # pad 2 m @ CHR ''-'' # pad 2 d @ CHR ''T'' # pad 2 hh @ CHR '':'' # pad 2 mm @
      CHR '':'' # pad 2 ss @ fraction_text (t mod microseconds) @ ''Z''"
    by (simp add: format_rfc3339_nano_def Let_def secs_def [symmetric] date date_text_def clock_text_def s_def [symmetric]
        hh_def mm_def ss_def)
  have "parse_fields (format_rfc3339_nano t) =
      Some ((day_of_date y m d * 86400 + hh * 3600 + mm * 60 + ss - 0) * microseconds + t mod microseconds * 1000 div 1000)"
    using civil(2-5) y days parts
    by (simp add: layout parse_fields_def get_year_pad get_num_pad get_fraction_text [OF us] zone)
  also have "day_of_date y m d * 86400 + hh * 3600 + mm * 60 + ss - 0 = secs div 86400 * 86400 + s"
    using civil(1) clock by simp
  also have "t mod microseconds * 1000 div 1000 = t mod microseconds" by simp
  finally have "parse_fields (format_rfc3339_nano t) = Some t" unfolding whole .
  then show ?thesis by (simp add: parse_rfc3339_nano_def)
qed

end
