(* ===== verification/Avro_Codec.thy ===== *)
theory Avro_Codec
  imports Go_Rfc3339 Kafka_Consumer External_Clients Env_Config
begin

text \<open>
  \<open>pkg/avrocodec\<close>: updates as Avro records in the Confluent wire format (\<open>link_update_codec.go\<close>) and
  the registration of the schema (\<open>schema_registry_client.go\<close>).  The library goavro is an argument:
  the two functions of its codec, between bytes and native Go values; what is relied on is
  \<open>goavro_documented\<close>.  At the end Avro's binary encoding, which the library implements, written out for
  this schema: it is a codec that does what is documented.
\<close>

section \<open>Native values and the schema\<close>

text \<open>What goavro takes and gives as \<open>any\<close>: nil, \<open>int64\<close>, \<open>string\<close>, \<open>[]any\<close>, \<open>map[string]any\<close>.\<close>

datatype native = NNull | NLong int | NString string | NArray "native list" | NMap "string \<Rightarrow> native option"

definition link_update_event_schema :: string where
  \<open>link_update_event_schema = join [CHR 0x0A]
     [''{'',
      [CHR 0x09] @ ''  "type": "record",'',
      [CHR 0x09] @ ''  "name": "LinkUpdateEvent",'',
      [CHR 0x09] @ ''  "namespace": "ru.tbank.linktracker.notification",'',
      [CHR 0x09] @ ''  "fields": ['',
      [CHR 0x09] @ ''    {"name": "id", "type": "long", "doc": "ID '' @ encode_runes [0x441, 0x441, 0x44B, 0x43B, 0x43A, 0x438] @ ''"},'',
      [CHR 0x09] @ ''    {"name": "url", "type": "string", "doc": "'' @ encode_runes [0x421, 0x441, 0x44B, 0x43B, 0x43A, 0x430] @ ''"},'',
      [CHR 0x09] @ ''    {"name": "tgChatIds", "type": {"type": "array", "items": "long"}, "doc": "ID '' @ encode_runes [0x447, 0x430, 0x442, 0x43E, 0x432] @ '' Telegram"},'',
      [CHR 0x09] @ ''    {"name": "type", "type": "string", "doc": "'' @ encode_runes [0x422, 0x438, 0x43F, 0x20, 0x43E, 0x431, 0x43D, 0x43E, 0x432, 0x43B, 0x435, 0x43D, 0x438,
         0x44F] @ ''"},'',
      [CHR 0x09] @ ''    {"name": "title", "type": "string", "doc": "'' @ encode_runes [0x417, 0x430, 0x433, 0x43E, 0x43B, 0x43E, 0x432, 0x43E, 0x43A, 0x20, 0x43E, 0x431, 0x43D,
         0x43E, 0x432, 0x43B, 0x435, 0x43D, 0x438, 0x44F] @ ''"},'',
      [CHR 0x09] @ ''    {"name": "username", "type": "string", "doc": "'' @ encode_runes [0x410, 0x432, 0x442, 0x43E, 0x440, 0x20, 0x43E, 0x431, 0x43D, 0x43E, 0x432, 0x43B, 0x435,
         0x43D, 0x438, 0x44F] @ ''"},'',
      [CHR 0x09] @ ''    {"name": "createdAt", "type": "string", "doc": "'' @ encode_runes [0x412, 0x440, 0x435, 0x43C, 0x44F, 0x20, 0x441, 0x43E, 0x437, 0x434, 0x430, 0x43D, 0x438,
         0x44F, 0x20, 0x43E, 0x431, 0x43D, 0x43E, 0x432, 0x43B, 0x435, 0x43D, 0x438, 0x44F, 0x20,
         0x432] @ '' RFC3339Nano"},'',
      [CHR 0x09] @ ''    {"name": "preview", "type": "string", "doc": "'' @ encode_runes [0x41A, 0x440, 0x430, 0x442, 0x43A, 0x43E, 0x435, 0x20, 0x43E, 0x43F, 0x438, 0x441, 0x430,
         0x43D, 0x438, 0x435] @ ''"},'',
      [CHR 0x09] @ ''    {"name": "description", "type": "string", "doc": "'' @ encode_runes [0x41F, 0x43E, 0x43B, 0x43D, 0x43E, 0x435, 0x20, 0x43E, 0x43F, 0x438, 0x441, 0x430, 0x43D,
         0x438, 0x435, 0x20, 0x443, 0x432, 0x435, 0x434, 0x43E, 0x43C, 0x43B, 0x435, 0x43D, 0x438,
         0x44F] @ ''"},'',
      [CHR 0x09, CHR 0x09] @ ''{"name": "priority", "type": ["null", "string"], "default": null, "doc": "'' @ encode_runes [0x41F, 0x440, 0x438, 0x43E, 0x440, 0x438, 0x442, 0x435, 0x442, 0x20, 0x43E, 0x431, 0x43D,
         0x43E, 0x432, 0x43B, 0x435, 0x43D, 0x438, 0x44F] @ ''"}'',
      [CHR 0x09] @ ''  ]'',
      [CHR 0x09] @ ''}'']\<close>

text \<open>What the schema says: the fields of a record in their order, with their types.\<close>

datatype avro_type = AvLong | AvString | AvLongs | AvNullableString

definition link_update_event :: "(string \<times> avro_type) list" where
  "link_update_event =
     [(''id'', AvLong), (''url'', AvString), (''tgChatIds'', AvLongs), (''type'', AvString), (''title'', AvString),
      (''username'', AvString), (''createdAt'', AvString), (''preview'', AvString), (''description'', AvString),
      (''priority'', AvNullableString)]"

fun of_type :: "avro_type \<Rightarrow> native \<Rightarrow> bool" where
  "of_type AvLong (NLong n) = is_int64 n"
| "of_type AvString (NString s) = True"
| "of_type AvLongs (NArray ns) = list_all (\<lambda>n. case n of NLong i \<Rightarrow> is_int64 i | _ \<Rightarrow> False) ns"
| "of_type AvNullableString NNull = True"
| "of_type AvNullableString (NMap m) = (\<exists>s. m = [''string'' \<mapsto> NString s])"
| "of_type t n = False"

definition conforms :: "(string \<times> avro_type) list \<Rightarrow> native \<Rightarrow> bool" where
  "conforms schema n \<longleftrightarrow>
     (\<exists>m. n = NMap m \<and> dom m = set (map fst schema) \<and>
          list_all (\<lambda>(f, t). case m f of None \<Rightarrow> False | Some v \<Rightarrow> of_type t v) schema)"

text \<open>A codec of goavro; the bytes after the value, which the program drops, are left out.\<close>

record goavro =
  ga_binary_from_native :: "native \<Rightarrow> string result"
  ga_native_from_binary :: "string \<Rightarrow> native result"

text \<open>A value of the schema is encoded, and its bytes are decoded to the value.\<close>

definition goavro_documented :: "(string \<times> avro_type) list \<Rightarrow> goavro \<Rightarrow> bool" where
  "goavro_documented schema g \<longleftrightarrow>
     (\<forall>n. conforms schema n \<longrightarrow> (\<exists>b. ga_binary_from_native g n = Inr b \<and> ga_native_from_binary g b = Inr n))"

section \<open>The schema registry\<close>

record 'w schema_registry_client =
  srBaseURL :: string
  srDo :: "duration \<Rightarrow> http_request \<Rightarrow> ('w, http_response) eff"
  srTimeout :: duration
  srMarshal :: "string \<times> string \<Rightarrow> string result"
  srDecode :: "string \<Rightarrow> int result"

definition schema_registry_content_type :: string where
  "schema_registry_content_type = ''application/vnd.schemaregistry.v1+json''"

text \<open>The exchange and the JSON of the request (schema and schema type) and of the answer (its id) are arguments.\<close>

definition new_schema_registry_client ::
    "(duration \<Rightarrow> http_request \<Rightarrow> ('w, http_response) eff) \<Rightarrow> (string \<times> string \<Rightarrow> string result) \<Rightarrow>
     (string \<Rightarrow> int result) \<Rightarrow> string \<Rightarrow> 'w schema_registry_client" where
  "new_schema_registry_client do_request marshal decode base_url =
     \<lparr>srBaseURL = trim_right_char (CHR ''/'') base_url, srDo = do_request, srTimeout = 10 * 1000000000,
      srMarshal = marshal, srDecode = decode\<rparr>"

definition register_schema :: "'w schema_registry_client \<Rightarrow> string \<Rightarrow> string \<Rightarrow> ('w, int) eff" where
  "register_schema c subject schema =
     (if srBaseURL c = [] then throw (ErrText ''schema registry url is empty'')
      else if subject = [] then throw (ErrText ''schema subject is empty'')
      else
        (case srMarshal c (schema, ''AVRO'') of
           Inl e \<Rightarrow> throw e
         | Inr body \<Rightarrow>
             (let endpoint = srBaseURL c @ ''/subjects/'' @ path_escape subject @ ''/versions''
              in case url_parse endpoint of
                   Inl e \<Rightarrow> throw e
                 | Inr _ \<Rightarrow>
                     bindE (srDo c (srTimeout c)
                         \<lparr>rqMethod = ''POST'', rqURL = endpoint,
                          rqHeaders = [(''Content-Type'', schema_registry_content_type)], rqBody = body\<rparr>) (\<lambda>resp.
                       if rsStatus resp \<noteq> 200 \<and> rsStatus resp \<noteq> 201
                       then throw (ErrText (''schema registry returned status '' @ format_int (rsStatus resp) @ '': '' @ rsBody resp))
                       else (case srDecode c (rsBody resp) of Inl e \<Rightarrow> throw e | Inr i \<Rightarrow> ret i)))))"

section \<open>The codec\<close>

record link_update_codec =
  lucCodec :: goavro
  lucSchemaID :: int

definition new_link_update_codec ::
    "(string \<Rightarrow> goavro result) \<Rightarrow> (string \<Rightarrow> 'w schema_registry_client) \<Rightarrow> string \<Rightarrow> string \<Rightarrow> ('w, link_update_codec) eff" where
  "new_link_update_codec new_codec new_client schema_registry_url subject =
     (case new_codec link_update_event_schema of
        Inl e \<Rightarrow> throw e
      | Inr codec \<Rightarrow>
          bindE (register_schema (new_client schema_registry_url) subject link_update_event_schema) (\<lambda>schema_id.
            ret \<lparr>lucCodec = codec, lucSchemaID = schema_id\<rparr>))"

definition confluent_magic_byte :: char where "confluent_magic_byte = CHR 0x00"
definition confluent_header_size :: nat where "confluent_header_size = 5"

text \<open>\<open>binary.BigEndian.PutUint32\<close> of \<open>uint32(id)\<close>\<close>

definition put_uint32 :: "int \<Rightarrow> string" where
  "put_uint32 i = map (\<lambda>k. char_of (nat (i div 256 ^ k mod 256))) [3, 2, 1, 0]"

definition int64_slice_to_native :: "int list \<Rightarrow> native" where
  "int64_slice_to_native values = NArray (map NLong values)"

definition nullable_string :: "string \<Rightarrow> native" where
  "nullable_string s = (if s = [] then NNull else NMap [''string'' \<mapsto> NString s])"

definition native_of :: "link_update \<Rightarrow> native" where
  "native_of u = NMap
     [''id'' \<mapsto> NLong (uID u), ''url'' \<mapsto> NString (uURL u), ''tgChatIds'' \<mapsto> int64_slice_to_native (uTgChatIDs u),
      ''type'' \<mapsto> NString (uType u), ''title'' \<mapsto> NString (uTitle u), ''username'' \<mapsto> NString (uUsername u),
      ''createdAt'' \<mapsto> NString (format_rfc3339_nano (uCreatedAt u)), ''preview'' \<mapsto> NString (uPreview u),
      ''description'' \<mapsto> NString (uDescription u), ''priority'' \<mapsto> nullable_string (uPriority u)]"

definition serialize :: "link_update_codec \<Rightarrow> link_update \<Rightarrow> string result" where
  "serialize c u =
     (case ga_binary_from_native (lucCodec c) (native_of u) of
        Inl e \<Rightarrow> Inl e
      | Inr avro_payload \<Rightarrow> Inr (confluent_magic_byte # put_uint32 (lucSchemaID c) @ avro_payload))"

text \<open>\<open>x, err := f(); if err != nil { return err }\<close> without a state.\<close>

definition and_then :: "'a result \<Rightarrow> ('a \<Rightarrow> 'b result) \<Rightarrow> 'b result" where
  "and_then r k = (case r of Inl e \<Rightarrow> Inl e | Inr x \<Rightarrow> k x)"

lemma and_then_Inr [simp]: "and_then (Inr x) k = k x"
  by (simp add: and_then_def)

lemma and_then_Inl [simp]: "and_then (Inl e) k = Inl e"
  by (simp add: and_then_def)

definition get_string_field :: "(string \<Rightarrow> native option) \<Rightarrow> string \<Rightarrow> string result" where
  "get_string_field rec field =
     (case rec field of
        None \<Rightarrow> Inl (ErrText (''missing avro field '' @ field))
      | Some v \<Rightarrow> (case v of NString s \<Rightarrow> Inr s | _ \<Rightarrow> Inl (ErrText (''avro field '' @ field @ '' is not string''))))"

definition get_int64_field :: "(string \<Rightarrow> native option) \<Rightarrow> string \<Rightarrow> int result" where
  "get_int64_field rec field =
     (case rec field of
        None \<Rightarrow> Inl (ErrText (''missing avro field '' @ field))
      | Some v \<Rightarrow> (case v of NLong n \<Rightarrow> Inr n | _ \<Rightarrow> Inl (ErrText (''avro field '' @ field @ '' is not long''))))"

fun long_items :: "string \<Rightarrow> native list \<Rightarrow> int list result" where
  "long_items field [] = Inr []"
| "long_items field (v # vs) =
     (case v of
        NLong n \<Rightarrow> and_then (long_items field vs) (\<lambda>ns. Inr (n # ns))
      | _ \<Rightarrow> Inl (ErrText (''avro field '' @ field @ '' contains non-long item'')))"

definition get_int64_slice_field :: "(string \<Rightarrow> native option) \<Rightarrow> string \<Rightarrow> int list result" where
  "get_int64_slice_field rec field =
     (case rec field of
        None \<Rightarrow> Inl (ErrText (''missing avro field '' @ field))
      | Some v \<Rightarrow> (case v of NArray vs \<Rightarrow> long_items field vs | _ \<Rightarrow> Inl (ErrText (''avro field '' @ field @ '' is not array''))))"

definition get_optional_string_field :: "(string \<Rightarrow> native option) \<Rightarrow> string \<Rightarrow> string result" where
  "get_optional_string_field rec field =
     (let fail = Inl (ErrText (''avro field '' @ field @ '' is not optional string'')) in
      case rec field of
        None \<Rightarrow> Inr []
      | Some NNull \<Rightarrow> Inr []
      | Some (NString s) \<Rightarrow> Inr s
      | Some (NMap m) \<Rightarrow> (case m ''string'' of Some (NString s) \<Rightarrow> Inr s | _ \<Rightarrow> fail)
      | Some _ \<Rightarrow> fail)"

text \<open>The error of the priority is ignored: it is then empty.\<close>

definition update_of_record :: "(string \<Rightarrow> native option) \<Rightarrow> link_update result" where
  "update_of_record rec =
     and_then (get_string_field rec ''createdAt'') (\<lambda>created_at_raw.
     and_then (parse_rfc3339_nano created_at_raw) (\<lambda>created_at.
     and_then (get_int64_field rec ''id'') (\<lambda>update_id.
     and_then (get_string_field rec ''url'') (\<lambda>url.
     and_then (get_int64_slice_field rec ''tgChatIds'') (\<lambda>chats.
     and_then (get_string_field rec ''type'') (\<lambda>ty.
     and_then (get_string_field rec ''title'') (\<lambda>title.
     and_then (get_string_field rec ''username'') (\<lambda>username.
     and_then (get_string_field rec ''preview'') (\<lambda>preview.
     and_then (get_string_field rec ''description'') (\<lambda>description.
     (let priority = (case get_optional_string_field rec ''priority'' of Inl e \<Rightarrow> [] | Inr s \<Rightarrow> s)
      in Inr \<lparr>uID = update_id, uURL = url, uTgChatIDs = chats, uType = ty, uTitle = title, uUsername = username,
              uCreatedAt = created_at, uPreview = preview, uDescription = description, uPriority = priority\<rparr>)))))))))))"

definition deserialize :: "link_update_codec \<Rightarrow> string \<Rightarrow> link_update result" where
  "deserialize c payload =
     (if length payload < confluent_header_size then Inl (ErrText ''avro payload is too short'')
      else if hd payload \<noteq> confluent_magic_byte
      then Inl (ErrText (''invalid avro magic byte: '' @ format_int (of_char (hd payload))))
      else
        and_then (ga_native_from_binary (lucCodec c) (drop confluent_header_size payload)) (\<lambda>native.
          case native of NMap rec \<Rightarrow> update_of_record rec | _ \<Rightarrow> Inl (ErrText ''avro payload is not a record'')))"

section \<open>What is encoded is decoded\<close>

text \<open>An update as the services pass it: its numbers are int64 values, its instant is in the years the layout can write.\<close>

definition update_in_range :: "link_update \<Rightarrow> bool" where
  "update_in_range u \<longleftrightarrow> is_int64 (uID u) \<and> list_all is_int64 (uTgChatIDs u) \<and> rfc3339_range (uCreatedAt u)"

lemma native_of_conforms: "update_in_range u \<Longrightarrow> conforms link_update_event (native_of u)"
  unfolding conforms_def native_of_def native.inject
  by (intro exI conjI, rule refl)
    (auto simp: link_update_event_def update_in_range_def int64_slice_to_native_def nullable_string_def list_all_iff)

lemma long_items_map: "long_items field (map NLong ns) = Inr ns"
  by (induction ns) simp_all

lemma optional_nullable: "rec field = Some (nullable_string s) \<Longrightarrow> get_optional_string_field rec field = Inr s"
  by (simp add: get_optional_string_field_def nullable_string_def Let_def)

lemma update_of_native:
  assumes "update_in_range u" "native_of u = NMap rec"
  shows "update_of_record rec = Inr u"
proof -
  have "get_optional_string_field rec ''priority'' = Inr (uPriority u)"
    using assms(2) by (intro optional_nullable) (auto simp: native_of_def)
  then show ?thesis
    using assms parse_format_rfc3339_nano [of "uCreatedAt u"]
    by (auto simp: native_of_def update_of_record_def get_string_field_def get_int64_field_def get_int64_slice_field_def
        int64_slice_to_native_def long_items_map update_in_range_def)
qed

lemma length_put_uint32 [simp]: "length (put_uint32 i) = 4"
  by (simp add: put_uint32_def)

lemma deserialize_serialize:
  assumes "goavro_documented link_update_event (lucCodec c)" "lucCodec d = lucCodec c" "update_in_range u"
  shows "\<exists>payload. serialize c u = Inr payload \<and> deserialize d payload = Inr u"
proof -
  obtain b where b: "ga_binary_from_native (lucCodec c) (native_of u) = Inr b" "ga_native_from_binary (lucCodec c) b = Inr (native_of u)"
    using assms(1) native_of_conforms [OF assms(3)] unfolding goavro_documented_def by blast
  obtain rec where rec: "native_of u = NMap rec" by (simp add: native_of_def)
  define payload where "payload = confluent_magic_byte # put_uint32 (lucSchemaID c) @ b"
  have "serialize c u = Inr payload" using b(1) by (simp add: serialize_def payload_def)
  moreover have "drop confluent_header_size payload = b" by (simp add: payload_def confluent_header_size_def)
  then have "deserialize d payload = Inr u"
    using b(2) rec update_of_native [OF assms(3) rec]
    by (simp add: deserialize_def assms(2) payload_def confluent_header_size_def)
  ultimately show ?thesis by blast
qed

section \<open>Avro's binary encoding\<close>

text \<open>A way to write a value and to read it back from the front of a text.\<close>

locale wire =
  fixes put :: "'a \<Rightarrow> string" and get :: "string \<Rightarrow> ('a \<times> string) option" and valid :: "'a \<Rightarrow> bool"
  assumes read_write: "valid x \<Longrightarrow> get (put x @ s) = Some (x, s)"

fun read_many :: "(string \<Rightarrow> ('a \<times> string) option) \<Rightarrow> nat \<Rightarrow> string \<Rightarrow> ('a list \<times> string) option" where
  "read_many get 0 s = Some ([], s)"
| "read_many get (Suc n) s =
     Option.bind (get s) (\<lambda>(x, s). map_option (\<lambda>(xs, s). (x # xs, s)) (read_many get n s))"

context wire
begin

lemma read_many_write: "list_all valid xs \<Longrightarrow> read_many get (length xs) (concat (map put xs) @ s) = Some (xs, s)"
  by (induction xs) (simp_all add: read_write)

end

text \<open>Numbers: seven bits to a byte from the low end, the sign in the lowest bit.\<close>

fun varint :: "nat \<Rightarrow> string" where
  "varint n = (if n < 128 then [char_of n] else char_of (128 + n mod 128) # varint (n div 128))"

declare varint.simps [simp del]

fun read_varint :: "string \<Rightarrow> (nat \<times> string) option" where
  "read_varint [] = None"
| "read_varint (c # s) =
     (let b = (of_char c :: nat)
      in if b < 128 then Some (b, s)
         else map_option (\<lambda>(n, s). (b - 128 + 128 * n, s)) (read_varint s))"

lemma read_varint_varint: "read_varint (varint n @ s) = Some (n, s)"
proof (induction n rule: varint.induct)
  case (1 n)
  show ?case
  proof (cases "n < 128")
    case True
    then show ?thesis by (subst varint.simps) simp
  next
    case False
    with 1 have "read_varint (varint (n div 128) @ s) = Some (n div 128, s)" by simp
    with False show ?thesis by (subst varint.simps) (simp add: Let_def)
  qed
qed

definition write_long :: "int \<Rightarrow> string" where
  "write_long i = varint (nat (if i < 0 then - 2 * i - 1 else 2 * i))"

definition read_long :: "string \<Rightarrow> (int \<times> string) option" where
  "read_long s =
     map_option (\<lambda>(n, s). (if even n then int (n div 2) else - int (n div 2) - 1, s)) (read_varint s)"

interpretation wire_long: wire write_long read_long "\<lambda>_. True"
proof
  fix i s
  show "read_long (write_long i @ s) = Some (i, s)"
  proof (cases "i < 0")
    case True
    define k where "k = nat (- i - 1)"
    have "nat (- 2 * i - 1) = 2 * k + 1" "i = - int k - 1" using True by (simp_all add: k_def)
    then show ?thesis using True by (simp add: write_long_def read_long_def read_varint_varint)
  next
    case False
    define k where "k = nat i"
    have "nat (2 * i) = 2 * k" "i = int k" using False by (simp_all add: k_def)
    then show ?thesis using False by (simp add: write_long_def read_long_def read_varint_varint)
  qed
qed

definition write_string :: "string \<Rightarrow> string" where
  "write_string t = write_long (int (length t)) @ t"

definition read_string :: "string \<Rightarrow> (string \<times> string) option" where
  "read_string s =
     Option.bind (read_long s) (\<lambda>(n, s).
       if n < 0 \<or> int (length s) < n then None else Some (take (nat n) s, drop (nat n) s))"

interpretation wire_string: wire write_string read_string "\<lambda>_. True"
  by unfold_locales (simp add: write_string_def read_string_def wire_long.read_write)

text \<open>An array is a block with its length, if there are items, and an empty block.\<close>

definition write_longs :: "int list \<Rightarrow> string" where
  "write_longs ns =
     (if ns = [] then [] else write_long (int (length ns)) @ concat (map write_long ns)) @ write_long 0"

definition read_longs :: "string \<Rightarrow> (int list \<times> string) option" where
  "read_longs s =
     Option.bind (read_long s) (\<lambda>(n, s).
       if n = 0 then Some ([], s)
       else
         Option.bind (read_many read_long (nat n) s) (\<lambda>(ns, s).
         Option.bind (read_long s) (\<lambda>(z, s). if z = 0 then Some (ns, s) else None)))"

interpretation wire_longs: wire write_longs read_longs "\<lambda>_. True"
  using wire_long.read_many_write
  by unfold_locales (auto simp: write_longs_def read_longs_def wire_long.read_write list_all_iff)

fun write_value :: "avro_type \<Rightarrow> native \<Rightarrow> string" where
  "write_value AvLong (NLong n) = write_long n"
| "write_value AvString (NString s) = write_string s"
| "write_value AvLongs (NArray ns) = write_longs (map (\<lambda>n. case n of NLong i \<Rightarrow> i | _ \<Rightarrow> 0) ns)"
| "write_value AvNullableString NNull = write_long 0"
| "write_value AvNullableString (NMap m) =
     write_long 1 @ write_string (case m ''string'' of Some (NString s) \<Rightarrow> s | _ \<Rightarrow> [])"
| "write_value t n = []"

fun read_value :: "avro_type \<Rightarrow> string \<Rightarrow> (native \<times> string) option" where
  "read_value AvLong s = map_option (\<lambda>(n, s). (NLong n, s)) (read_long s)"
| "read_value AvString s = map_option (\<lambda>(t, s). (NString t, s)) (read_string s)"
| "read_value AvLongs s = map_option (\<lambda>(ns, s). (NArray (map NLong ns), s)) (read_longs s)"
| "read_value AvNullableString s =
     Option.bind (read_long s) (\<lambda>(i, s).
       if i = 0 then Some (NNull, s)
       else if i = 1 then map_option (\<lambda>(t, s). (NMap [''string'' \<mapsto> NString t], s)) (read_string s)
       else None)"

lemma longs_of_natives:
  "list_all (\<lambda>n. case n of NLong i \<Rightarrow> is_int64 i | _ \<Rightarrow> False) ns \<Longrightarrow>
     map NLong (map (\<lambda>n. case n of NLong i \<Rightarrow> i | _ \<Rightarrow> 0) ns) = ns"
  by (induction ns) (auto split: native.splits)

interpretation wire_value: wire "write_value t" "read_value t" "of_type t" for t
proof
  fix n s
  assume "of_type t n"
  then show "read_value t (write_value t n @ s) = Some (n, s)"
    by (cases "(t, n)" rule: of_type.cases)
      (auto simp: wire_long.read_write wire_string.read_write wire_longs.read_write longs_of_natives simp del: map_map)
qed

definition write_fields :: "(string \<times> avro_type) list \<Rightarrow> (string \<Rightarrow> native option) \<Rightarrow> string" where
  "write_fields schema m =
     concat (map (\<lambda>(f, t). case m f of None \<Rightarrow> [] | Some v \<Rightarrow> write_value t v) schema)"

fun read_fields :: "(string \<times> avro_type) list \<Rightarrow> string \<Rightarrow> ((string \<Rightarrow> native option) \<times> string) option" where
  "read_fields [] s = Some (Map.empty, s)"
| "read_fields ((f, t) # schema) s =
     Option.bind (read_value t s) (\<lambda>(v, s). map_option (\<lambda>(m, s). (m(f \<mapsto> v), s)) (read_fields schema s))"

definition avro_binary :: "(string \<times> avro_type) list \<Rightarrow> goavro" where
  "avro_binary schema =
     \<lparr>ga_binary_from_native =
        (\<lambda>n. case n of NMap m \<Rightarrow> Inr (write_fields schema m) | _ \<Rightarrow> Inl (LibError ''goavro'' ''not a record'')),
      ga_native_from_binary =
        (\<lambda>s. case read_fields schema s of None \<Rightarrow> Inl (LibError ''goavro'' s) | Some (m, _) \<Rightarrow> Inr (NMap m))\<rparr>"

lemma read_write_fields:
  assumes "list_all (\<lambda>(f, t). case m f of None \<Rightarrow> False | Some v \<Rightarrow> of_type t v) schema"
  shows "read_fields schema (write_fields schema m @ s) = Some (m |` set (map fst schema), s)"
  using assms
proof (induction schema)
  case Nil
  then show ?case by (simp add: write_fields_def)
next
  case (Cons ft schema)
  obtain f t where ft: "ft = (f, t)" by fastforce
  with Cons.prems obtain v where v: "m f = Some v" "of_type t v" by (auto split: option.splits)
  have "(m |` set (map fst schema))(f \<mapsto> v) = m |` insert f (set (map fst schema))"
    using v(1) by (auto simp: fun_eq_iff restrict_map_def)
  moreover have "read_fields schema (write_fields schema m @ s) = Some (m |` set (map fst schema), s)"
    using Cons by simp
  ultimately show ?case
    using v by (simp add: ft write_fields_def wire_value.read_write)
qed

lemma avro_binary_documented: "goavro_documented schema (avro_binary schema)"
  unfolding goavro_documented_def
proof (intro allI impI)
  fix n
  assume "conforms schema n"
  then obtain m where n: "n = NMap m" and dom: "dom m = set (map fst schema)"
    and types: "list_all (\<lambda>(f, t). case m f of None \<Rightarrow> False | Some v \<Rightarrow> of_type t v) schema"
    unfolding conforms_def by blast
  have "m |` set (map fst schema) = m" unfolding dom [symmetric] by (auto simp: fun_eq_iff restrict_map_def dom_def)
  then have "read_fields schema (write_fields schema m) = Some (m, [])"
    using read_write_fields [OF types, of "[]"] by simp
  then show "\<exists>b. ga_binary_from_native (avro_binary schema) n = Inr b \<and> ga_native_from_binary (avro_binary schema) b = Inr n"
    by (simp add: avro_binary_def n)
qed

end
