(* ===== verification/Deployment.thy ===== *)
theory Deployment
  imports Agent_Main Bot_Main Scrapper_Main Avro_Codec
begin

text \<open>
  The three programs together, over one Kafka cluster: the formats of a producer and a consumer that agree,
  an update on its way from the scrapper through the agent and the bot to the chats, and the
  defaults of the three configurations, which fit.
\<close>

section \<open>Formats\<close>

text \<open>What \<open>NewLinkUpdateCodec\<close> gives a producer and a consumer, in the world of the schema registry.\<close>

definition avro_encoder ::
    "(string \<Rightarrow> goavro result) \<Rightarrow> (string \<Rightarrow> 'w schema_registry_client) \<Rightarrow> 'w \<Rightarrow> string \<Rightarrow> string \<Rightarrow>
     (link_update \<Rightarrow> string result) result" where
  "avro_encoder new_codec new_client w url subject =
     map_sum id serialize (fst (new_link_update_codec new_codec new_client url subject w))"

definition avro_decoder ::
    "(string \<Rightarrow> goavro result) \<Rightarrow> (string \<Rightarrow> 'w schema_registry_client) \<Rightarrow> 'w \<Rightarrow> string \<Rightarrow> string \<Rightarrow>
     (string \<Rightarrow> link_update result) result" where
  "avro_decoder new_codec new_client w url subject =
     map_sum id deserialize (fst (new_link_update_codec new_codec new_client url subject w))"

text \<open>An update that JSON and Avro carry: numbers and instant in range, texts in UTF-8 (others JSON replaces).\<close>

definition sendable :: "link_update \<Rightarrow> bool" where
  "sendable u \<longleftrightarrow> update_in_range u \<and>
     list_all valid_utf8 [uURL u, uType u, uTitle u, uUsername u, uPreview u, uDescription u, uPriority u]"

text \<open>What \<open>encoding/json\<close> documents: such an update is written and read back.\<close>

definition json_documented :: "(link_update \<Rightarrow> string result) \<Rightarrow> (string \<Rightarrow> link_update result) \<Rightarrow> bool" where
  "json_documented json unmarshal \<longleftrightarrow>
     (\<forall>u. sendable u \<longrightarrow> (\<exists>payload. json u = Inr payload \<and> unmarshal payload = Inr u))"

definition codecs_documented :: "(string \<Rightarrow> goavro result) \<Rightarrow> bool" where
  "codecs_documented new_codec \<longleftrightarrow>
     (\<forall>g. new_codec link_update_event_schema = Inr g \<longrightarrow> goavro_documented link_update_event g)"

text \<open>A producer writes to the topic that a consumer reads, in its format.\<close>

definition topic_fits :: "link_update_producer_config \<Rightarrow> link_update_consumer_config \<Rightarrow> bool" where
  "topic_fits pc cc \<longleftrightarrow>
     trim_space (pc_topic pc) = cc_topic cc \<and>
     equal_fold_ascii (pc_serialization_format pc) serialization_format_avro =
       equal_fold_ascii (cc_serialization_format cc) serialization_format_avro"

text \<open>What a producer makes of an update, a consumer reads as the update.\<close>

definition carries ::
    "(link_update \<Rightarrow> string result) \<Rightarrow> (string \<Rightarrow> link_update result) \<Rightarrow> confluent_producer \<Rightarrow> link_update_consumer \<Rightarrow> bool" where
  "carries json unmarshal p c \<longleftrightarrow> kp_topic p = lc_topic c \<and>
     (\<forall>u. sendable u \<longrightarrow> (\<exists>payload. kafka_body json p u = Inr payload \<and>
        (\<forall>m. cm_value m = payload \<longrightarrow> decode_message unmarshal c m = Inr u)))"

lemma new_producer_fields:
  "new_confluent_link_update_producer cfg err enc = Inr p \<Longrightarrow>
     kp_topic p = trim_space (pc_topic cfg) \<and>
     (if equal_fold_ascii (pc_serialization_format cfg) serialization_format_avro
      then \<exists>subject codec. enc (pc_schema_registry_url cfg) subject = Inr codec \<and> kp_codec p = Some codec
      else kp_codec p = None)"
  by (auto simp: new_confluent_link_update_producer_def Let_def split: if_splits option.splits sum.splits)

lemma new_consumer_fields:
  "new_link_update_consumer cfg given e1 e2 dec = Inr c \<Longrightarrow>
     lc_topic c = cc_topic cfg \<and>
     (if equal_fold_ascii (cc_serialization_format cfg) serialization_format_avro
      then \<exists>subject codec. dec (cc_schema_registry_url cfg) subject = Inr codec \<and> lc_codec c = Some codec
      else lc_codec c = None)"
  by (auto simp: new_link_update_consumer_def Let_def split: if_splits option.splits sum.splits)

lemma new_codec_fields:
  assumes "fst (new_link_update_codec new_codec new_client url subject w) = Inr codec"
  shows "new_codec link_update_event_schema = Inr (lucCodec codec)"
proof (cases "new_codec link_update_event_schema")
  case (Inr g)
  then show ?thesis using assms
    by (cases "register_schema (new_client url) subject link_update_event_schema w")
      (auto simp: new_link_update_codec_def bindE_def split: sum.splits)
qed (use assms in \<open>simp add: new_link_update_codec_def\<close>)

lemma map_sum_Inr: "map_sum id f x = Inr y \<longleftrightarrow> (\<exists>z. x = Inr z \<and> y = f z)"
  by (cases x) auto

lemma fitting_carries:
  assumes "new_confluent_link_update_producer pc err (avro_encoder new_codec new_client w) = Inr p"
    and "new_link_update_consumer cc given e1 e2 (avro_decoder new_codec new_client' w') = Inr c"
    and "topic_fits pc cc" "json_documented json unmarshal" "codecs_documented new_codec"
  shows "carries json unmarshal p c"
proof -
  note p = new_producer_fields [OF assms(1)] and c = new_consumer_fields [OF assms(2)]
  have "\<exists>payload. kafka_body json p u = Inr payload \<and> (\<forall>m. cm_value m = payload \<longrightarrow> decode_message unmarshal c m = Inr u)"
    if u: "sendable u" for u
  proof (cases "equal_fold_ascii (pc_serialization_format pc) serialization_format_avro")
    case False
    then have "kp_codec p = None" "lc_codec c = None" using p c assms(3) by (simp_all add: topic_fits_def)
    then show ?thesis using assms(4) u by (auto simp: json_documented_def kafka_body_def decode_message_def)
  next
    case True
    then obtain k d where k: "new_codec link_update_event_schema = Inr (lucCodec k)" "kp_codec p = Some (serialize k)"
      and d: "new_codec link_update_event_schema = Inr (lucCodec d)" "lc_codec c = Some (deserialize d)"
      using p c assms(3)
      by (auto simp: topic_fits_def avro_encoder_def avro_decoder_def map_sum_Inr dest!: new_codec_fields)
    have "goavro_documented link_update_event (lucCodec k)" "lucCodec d = lucCodec k" "update_in_range u"
      using assms(5) k(1) d(1) u by (auto simp: codecs_documented_def sendable_def)
    from deserialize_serialize [OF this] show ?thesis by (auto simp: kafka_body_def decode_message_def k(2) d(2))
  qed
  then show ?thesis using p c assms(3) by (simp add: carries_def topic_fits_def)
qed

lemma carriesD:
  assumes "carries json unmarshal p c" "sendable u"
  obtains payload where "kafka_body json p u = Inr payload" "\<And>m. cm_value m = payload \<Longrightarrow> decode_message unmarshal c m = Inr u"
  using assms unfolding carries_def by blast

section \<open>The agent and the bot on a few messages\<close>

lemma grouped_single: "grouped chat [u] = u"
  by (simp add: grouped_def build_grouped_update_def)

text \<open>Buffers with one update each are published as they are.\<close>

lemma flush_singletons:
  assumes "distinct cs" "\<And>c. c \<in> set cs \<Longrightarrow> c \<in> dom (g_buffers s) \<and> buffered (g_buffers s) c = [f c]"
    and "\<And>c. c \<in> set cs \<Longrightarrow> \<exists>body. kafka_body json p (f c) = Inr body"
    and "b_script (g_producer s) = []" "buffers_filled (g_buffers s)"
  shows "\<exists>s'. flush_chats (kafka_produce json p) cs s = Some s' \<and>
     g_producer s' = (g_producer s)\<lparr>b_log := b_log (g_producer s) @ map (\<lambda>c. kafka_message_of json p (f c)) cs\<rparr>"
  using assms
proof (induction cs arbitrary: s)
  case (Cons c cs)
  let ?b = "g_producer s"
  let ?b1 = "?b\<lparr>b_log := b_log ?b @ [kafka_message_of json p (f c)]\<rparr>"
  let ?s1 = "\<lparr>g_buffers = (g_buffers s)(c := None), g_producer = ?b1\<rparr>"
  obtain body where body: "kafka_body json p (f c) = Inr body" using Cons.prems(3) [of c] by auto
  have "kafka_produce json p (f c) ?b = (Inr (), ?b1)"
    using Cons.prems(4) body
    by (simp add: kafka_produce_def kafka_message_of_def produce_bytes_def next_outcome_def store_if_def Let_def)
  then have flush: "flush_chat (kafka_produce json p) c s = Some ?s1"
    using flush_chat_step [OF Cons.prems(5), of c] Cons.prems(2) [of c] by (simp add: grouped_single)
  have left: "k \<in> dom (g_buffers ?s1) \<and> buffered (g_buffers ?s1) k = [f k]" if "k \<in> set cs" for k
    using that Cons.prems(1) Cons.prems(2) [of k] by (auto simp: buffered_def)
  have filled: "buffers_filled (g_buffers ?s1)" using Cons.prems(5) by (simp add: buffers_filled_def)
  have calm: "distinct cs" "b_script (g_producer ?s1) = []" using Cons.prems(1,4) by simp_all
  have bodies: "\<exists>body. kafka_body json p (f k) = Inr body" if "k \<in> set cs" for k using that Cons.prems(3) [of k] by simp
  from Cons.IH [OF calm(1) left bodies calm(2) filled] obtain s' where "flush_chats (kafka_produce json p) cs ?s1 = Some s'"
    "g_producer s' = ?b1\<lparr>b_log := b_log ?b1 @ map (\<lambda>c. kafka_message_of json p (f c)) cs\<rparr>"
    by auto
  then show ?case using flush by simp
qed simp

text \<open>The bot on messages that carry valid updates, while Telegram takes every message.\<close>

lemma bot_reads:
  assumes "list_all2 (\<lambda>m u. decode_message unmarshal c m = Inr u \<and> validate_link_update u = None) ms us"
    and "0 \<le> lc_max_retries c" "tg_script (cs_handler s) = []" "cs_commit_script s = []"
  shows "\<exists>s'. start_loop bot_kafka_handler unmarshal marshal c (map PollMessage ms) s = (Running, s') \<and>
     cs_committed s' = cs_committed s @ ms \<and>
     tg_sent (cs_handler s') = tg_sent (cs_handler s) @
       concat (map (\<lambda>u. map (\<lambda>chat. (chat, subscriber_notification_body u)) (uTgChatIDs u)) us)"
  using assms
proof (induction ms us arbitrary: s rule: list_all2_induct)
  case (Cons m ms u us)
  let ?t = "(cs_handler s)\<lparr>tg_sent := tg_sent (cs_handler s) @
      map (\<lambda>chat. (chat, subscriber_notification_body u)) (uTgChatIDs u)\<rparr>"
  let ?s1 = "s\<lparr>cs_handler := ?t, cs_attempts := Suc (cs_attempts s), cs_committed := cs_committed s @ [m]\<rparr>"
  have u: "decode_message unmarshal c m = Inr u" "validate_link_update u = None" using Cons.hyps(1) by simp_all
  have "handle_message bot_kafka_handler unmarshal marshal c m s = Some (Inr (), ?s1)"
    using handle_message_ok [where handle = bot_kafka_handler, OF u bot_kafka_handler_sends [OF u(2) Cons.prems(2)] Cons.prems(1,3)]
    by simp
  moreover obtain s' where "start_loop bot_kafka_handler unmarshal marshal c (map PollMessage ms) ?s1 = (Running, s')"
    "cs_committed s' = cs_committed ?s1 @ ms"
    "tg_sent (cs_handler s') = tg_sent (cs_handler ?s1) @
       concat (map (\<lambda>u. map (\<lambda>chat. (chat, subscriber_notification_body u)) (uTgChatIDs u)) us)"
    using Cons.IH [of ?s1] Cons.prems by auto
  ultimately show ?case by simp
qed simp

section \<open>The way of an update\<close>

text \<open>The messages a consumer of a topic gets from the log, in their order.\<close>

definition delivered :: "string \<Rightarrow> kafka_message list \<Rightarrow> consumed_message list" where
  "delivered topic messages =
     (let ms = filter (\<lambda>m. km_topic m = topic) messages
      in map (\<lambda>(i, m). \<lparr>cm_topic = Some topic, cm_partition = 0, cm_offset = int i, cm_key = km_key m, cm_value = km_value m\<rparr>)
           (zip [0..<length ms] ms))"

lemma delivered_values: "map cm_value (delivered topic messages) = map km_value (filter (\<lambda>m. km_topic m = topic) messages)"
  unfolding delivered_def Let_def
  by (rule nth_equalityI) simp_all

text \<open>The three programs started over the same libraries, the topics and formats fitting.\<close>

definition deployed ::
    "kafka_library \<Rightarrow> scrapper_config \<Rightarrow> agent_config \<Rightarrow> bot_config \<Rightarrow> confluent_producer \<Rightarrow>
     confluent_producer \<times> link_update_consumer \<Rightarrow> link_update_consumer \<Rightarrow> bool" where
  "deployed lib scfg acfg bcfg producer agent consumer \<longleftrightarrow>
     new_confluent_link_update_producer (scrapper_producer_config scfg) (kl_producer_err lib) (kl_encoder lib) = Inr producer \<and>
     agent_start lib acfg = Inr agent \<and>
     new_link_update_consumer (bot_consumer_config bcfg) True (kl_consumer_err lib) (kl_dlq_err lib) (kl_decoder lib) = Inr consumer \<and>
     kl_subscribe_err lib = None \<and>
     topic_fits (scrapper_producer_config scfg) (agent_consumer_config acfg) \<and>
     topic_fits (agent_producer_config acfg) (bot_consumer_config bcfg) \<and>
     akRawUpdatesTopic (acfKafka acfg) \<noteq> bkLinkUpdatesTopic (bcfKafka bcfg)"

text \<open>What goes over the raw topic: the client of the scheduler sends the update, or the publisher its JSON from the outbox.\<close>

definition scrapper_sends ::
    "(link_update \<Rightarrow> string result) \<Rightarrow> (string \<Rightarrow> link_update result) \<Rightarrow> confluent_producer \<Rightarrow> link_update \<Rightarrow>
     broker \<Rightarrow> broker \<Rightarrow> bool" where
  "scrapper_sends json unmarshal p u b b1 \<longleftrightarrow>
     kafka_send_update json p u b = (Inr (), b1) \<or>
     (\<exists>key payload. json u = Inr payload \<and> kafka_produce_raw unmarshal p (kp_topic p) key payload b = (Inr (), b1))"

lemma scrapper_sends_logs:
  assumes "scrapper_sends json unmarshal p u b b1" "carries json unmarshal p c" "sendable u" "json_documented json unmarshal"
  shows "\<exists>m. b_log b1 = b_log b @ [m] \<and> km_topic m = lc_topic c \<and> kafka_body json p u = Inr (km_value m)"
proof -
  obtain body where body: "kafka_body json p u = Inr body" using carriesD [OF assms(2,3)] by blast
  obtain payload where json: "json u = Inr payload" "unmarshal payload = Inr u"
    using assms(3,4) by (auto simp: json_documented_def)
  have "\<exists>key. produce_bytes (kp_topic p) key body b = (Inr (), b1)"
    using assms(1) body json
    by (auto simp: scrapper_sends_def kafka_send_update_def kafka_produce_def kafka_produce_raw_def kafka_body_def
        split: option.splits sum.splits)
  then obtain key where "b_log b1 = b_log b @ [update_message (kp_topic p) key body]"
    using produce_bytes_cases by blast
  then show ?thesis using body assms(2) by (simp add: update_message_def carries_def)
qed

text \<open>What the processor keeps of an update.\<close>

lemma process_keeps:
  assumes "process uc p u = Some (Inr (v, True))"
  shows "\<exists>d pr. v = u\<lparr>uDescription := d, uPriority := pr\<rparr> \<and> pr \<in> {priority_high, priority_medium, priority_low}"
proof -
  let ?pr = "determine_priority uc (p_priority p) (uDescription u)"
  have pr: "?pr \<in> {priority_high, priority_medium, priority_low}" by (simp add: determine_priority_def Let_def)
  have "v = u\<lparr>uPriority := ?pr\<rparr> \<or> (\<exists>d. v = u\<lparr>uDescription := d, uPriority := ?pr\<rparr>)"
    using assms by (auto simp: process_def Let_def split: option.splits sum.splits if_splits)
  moreover have "u\<lparr>uPriority := ?pr\<rparr> = u\<lparr>uDescription := uDescription u, uPriority := ?pr\<rparr>" by simp
  ultimately show ?thesis using pr by metis
qed

lemma processed_sendable:
  assumes "process uc p u = Some (Inr (v, True))" "sendable u" "valid_utf8 (uDescription v)" "is_int64 chat"
  shows "sendable (v\<lparr>uTgChatIDs := [chat]\<rparr>)"
proof -
  obtain d pr where v: "v = u\<lparr>uDescription := d, uPriority := pr\<rparr>" "pr \<in> {priority_high, priority_medium, priority_low}"
    using process_keeps [OF assms(1)] by blast
  then have "valid_utf8 pr"
    by (auto simp: priority_high_def priority_medium_def priority_low_def intro!: valid_utf8_ascii simp: is_ascii_def)
  then show ?thesis using assms(2-4) v(1) by (simp add: sendable_def update_in_range_def)
qed

lemma agent_startD:
  assumes "agent_start lib cfg = Inr (producer, consumer)"
  shows "new_confluent_link_update_producer (agent_producer_config cfg) (kl_producer_err lib) (kl_encoder lib) = Inr producer"
    "new_link_update_consumer (agent_consumer_config cfg) True (kl_consumer_err lib) (kl_dlq_err lib) (kl_decoder lib) = Inr consumer"
  using assms by (auto simp: agent_start_def split: sum.splits)

text \<open>The parts of a deployment, as the proofs use them.\<close>

lemma deployedD:
  assumes "deployed lib scfg acfg bcfg p1 (p2, c1) c2"
    and "kl_encoder lib = avro_encoder new_codec new_client w" "kl_decoder lib = avro_decoder new_codec new_client w"
    and "json_documented json unmarshal" "codecs_documented new_codec"
  shows "carries json unmarshal p1 c1" "carries json unmarshal p2 c2" "lc_topic c1 \<noteq> lc_topic c2"
    "agent_start lib acfg = Inr (p2, c1)" "0 \<le> lc_max_retries c1" "0 \<le> lc_max_retries c2" "kl_subscribe_err lib = None"
proof -
  have start: "agent_start lib acfg = Inr (p2, c1)" using assms(1) by (simp add: deployed_def)
  note agent = agent_startD [OF start]
  have made: "new_confluent_link_update_producer (scrapper_producer_config scfg) (kl_producer_err lib)
      (avro_encoder new_codec new_client w) = Inr p1"
    "new_link_update_consumer (bot_consumer_config bcfg) True (kl_consumer_err lib) (kl_dlq_err lib)
      (avro_decoder new_codec new_client w) = Inr c2"
    and fits: "topic_fits (scrapper_producer_config scfg) (agent_consumer_config acfg)"
    "topic_fits (agent_producer_config acfg) (bot_consumer_config bcfg)"
    using assms(1-3) by (simp_all add: deployed_def)
  show "carries json unmarshal p1 c1"
    by (rule fitting_carries [OF made(1) agent(2) [unfolded assms(3)] fits(1) assms(4,5)])
  show "carries json unmarshal p2 c2"
    by (rule fitting_carries [OF agent(1) [unfolded assms(2)] made(2) fits(2) assms(4,5)])
  show "lc_topic c1 \<noteq> lc_topic c2"
    using assms(1) new_consumer_fields [OF agent(2)]
    by (auto simp: deployed_def agent_consumer_config_def bot_consumer_config_def Let_def dest!: new_consumer_fields)
  show "agent_start lib acfg = Inr (p2, c1)" "kl_subscribe_err lib = None" using assms(1) by (simp_all add: deployed_def)
  show "0 \<le> lc_max_retries c1" "0 \<le> lc_max_retries c2"
    using assms(1) agent(2) new_link_update_consumer_retries by (auto simp: deployed_def)
qed

lemma filter_single: "distinct xs \<Longrightarrow> x \<in> set xs \<Longrightarrow> filter (\<lambda>y. y = x) xs = [x]"
  by (induction xs) (auto simp: filter_empty_conv)

text \<open>The agent on one message, then stopped: every chat of the processed update has its message in the log.\<close>

lemma agent_passes_on:
  assumes start: "agent_start lib cfg = Inr (producer, consumer)" "kl_subscribe_err lib = None" and window: "0 < acfWindow cfg"
    and m: "decode_message unmarshal consumer m = Inr u" "validate_link_update u = None"
      "process uc (agent_processor uc cfg w) u = Some (Inr (v, True))"
    and bodies: "\<And>chat. chat \<in> set (uTgChatIDs v) \<Longrightarrow> \<exists>body. kafka_body json producer (v\<lparr>uTgChatIDs := [chat]\<rparr>) = Inr body"
    and chats: "distinct (uTgChatIDs v)" and order: "\<And>S. finite S \<Longrightarrow> set (order S) = S \<and> distinct (order S)"
    and s: "cs_handler s = new_grouping_service b" "b_script b = []" "cs_commit_script s = []"
  shows "\<exists>s' chats. agent_main uc lib json unmarshal marshal order cfg [Polls w (PollMessage m), Polls w PollContextDone] s = (Exited 0, s') \<and>
     cs_committed s' = cs_committed s @ [m] \<and> distinct chats \<and> set chats = set (uTgChatIDs v) \<and>
     b_log (g_producer (cs_handler s')) =
       b_log b @ map (\<lambda>chat. kafka_message_of json producer (v\<lparr>uTgChatIDs := [chat]\<rparr>)) chats"
proof -
  let ?produce = "kafka_produce json producer"
  let ?h = "\<lambda>w. handle_link_update uc (agent_processor uc cfg w) ?produce (acfWindow cfg)"
  let ?g = "add ?produce (acfWindow cfg) v (cs_handler s)"
  let ?s1 = "s\<lparr>cs_handler := ?g, cs_attempts := Suc (cs_attempts s), cs_committed := cs_committed s @ [m]\<rparr>"
  let ?chats = "order (dom (g_buffers ?g))"
  have "?h w u (cs_handler s) = Some (Inr (), ?g)" by (simp add: handle_link_update_def m(3))
  then have "handle_message (?h w) unmarshal marshal consumer m s = Some (Inr (), ?s1)"
    using handle_message_ok [OF m(1,2) _ agent_start_retries [OF start(1)] s(3)] by simp
  then have loop: "agent_loop ?h ?produce unmarshal marshal consumer [Polls w (PollMessage m), Polls w PollContextDone] s
      = (Returned ErrContextDone, ?s1)" by simp
  have dom: "dom (g_buffers ?g) = set (uTgChatIDs v)"
    using window by (auto simp: add_def dom_fold_add_for_chat s(1) new_grouping_service_def)
  then have order': "set ?chats = set (uTgChatIDs v)" "distinct ?chats" using order [of "dom (g_buffers ?g)"] by simp_all
  have single: "filter (\<lambda>c. c = chat) (uTgChatIDs v) = [chat]" if "chat \<in> set (uTgChatIDs v)" for chat
    by (rule filter_single [OF chats that])
  have "chat \<in> dom (g_buffers ?g) \<and> buffered (g_buffers ?g) chat = [v\<lparr>uTgChatIDs := [chat]\<rparr>]" if "chat \<in> set ?chats" for chat
    using that order'(1) dom single [of chat]
    by (simp add: add_buffers [OF window] s(1) new_grouping_service_def) (simp add: buffered_def)
  moreover have "buffers_filled (g_buffers ?g)"
    by (rule buffers_filled_add) (simp add: s(1) new_grouping_service_def buffers_filled_def)
  moreover have "g_producer ?g = b" by (simp add: add_producer [OF window] s(1) new_grouping_service_def)
  ultimately obtain g where g: "flush_chats ?produce ?chats ?g = Some g"
    "b_log (g_producer g) = b_log b @ map (\<lambda>chat. kafka_message_of json producer (v\<lparr>uTgChatIDs := [chat]\<rparr>)) ?chats"
    using flush_singletons [OF order'(2), of ?g "\<lambda>chat. v\<lparr>uTgChatIDs := [chat]\<rparr>" json producer] bodies order'(1) s(2) by auto
  have "agent_main uc lib json unmarshal marshal order cfg [Polls w (PollMessage m), Polls w PollContextDone] s
      = agent_stop ?produce order (Returned ErrContextDone) ?s1"
    by (simp only: agent_main_def start loop Let_def sum.case prod.case option.case)
  then have "agent_main uc lib json unmarshal marshal order cfg [Polls w (PollMessage m), Polls w PollContextDone] s
      = (Exited 0, ?s1\<lparr>cs_handler := g\<rparr>)"
    by (simp add: agent_stop_def flush_all_def g(1))
  with g(2) order' show ?thesis by (intro exI [of _ "?s1\<lparr>cs_handler := g\<rparr>"] exI [of _ ?chats]) simp
qed

text \<open>
  (C3) Through Kafka an update the scrapper sends reaches every chat it is for, once, with the text that the
  agent's processor gave it: the scrapper's message, sent by the scheduler's client or by the publisher of
  the outbox, is read by the agent, which when it stops has published a message for each chat, and the bot
  reads these and sends the texts, nothing else.  Both consumers commit what they read.  This holds for
  either format, as long as the topics fit, producer and consumer of a topic name the same format, and
  nothing fails on the way.
\<close>

theorem kafka_pipeline_delivers:
  assumes deployed: "deployed lib scfg acfg bcfg p1 (p2, c1) c2"
    and codecs: "kl_encoder lib = avro_encoder new_codec new_client w" "kl_decoder lib = avro_decoder new_codec new_client w"
    and documented: "json_documented json unmarshal" "codecs_documented new_codec"
    and window: "0 < acfWindow acfg"
    and u: "sendable u" "validate_link_update u = None" "distinct (uTgChatIDs u)"
    and processed: "process uc (agent_processor uc acfg world) u = Some (Inr (v, True))" "valid_utf8 (uDescription v)"
    and order: "\<And>S. finite S \<Longrightarrow> set (order S) = S \<and> distinct (order S)"
    and scrapper: "b_log b = []" "b_script b1 = []" "scrapper_sends json unmarshal p1 u b b1"
    and agent: "cs_handler sa = new_grouping_service b1" "cs_commit_script sa = []"
      "agent_main uc lib json unmarshal marshal order acfg
         (map (\<lambda>m. Polls world (PollMessage m)) (delivered (lc_topic c1) (b_log b1)) @ [Polls world PollContextDone]) sa = (ex, sa')"
    and bot: "cs_handler sb = \<lparr>tg_sent = [], tg_script = []\<rparr>" "cs_commit_script sb = []"
      "start_consumer bot_kafka_handler unmarshal marshal c2 None
         (map PollMessage (delivered (lc_topic c2) (b_log (g_producer (cs_handler sa'))))) sb = (res, sb')"
  shows "ex = Exited 0 \<and> res = Running \<and>
     cs_committed sa' = cs_committed sa @ delivered (lc_topic c1) (b_log b1) \<and>
     cs_committed sb' = cs_committed sb @ delivered (lc_topic c2) (b_log (g_producer (cs_handler sa'))) \<and>
     (\<exists>chats. distinct chats \<and> set chats = set (uTgChatIDs u) \<and>
        tg_sent (cs_handler sb') = map (\<lambda>chat. (chat, subscriber_notification_body v)) chats)"
proof -
  note parts = deployedD [OF deployed codecs documented]
  obtain d pr where v: "v = u\<lparr>uDescription := d, uPriority := pr\<rparr>" using process_keeps [OF processed(1)] by blast
  define each where "each chat = v\<lparr>uTgChatIDs := [chat]\<rparr>" for chat
  have each: "sendable (each chat)" if "chat \<in> set (uTgChatIDs u)" for chat
  proof -
    have "is_int64 chat" using u(1) that by (auto simp: sendable_def update_in_range_def list_all_iff)
    then show ?thesis unfolding each_def by (rule processed_sendable [OF processed(1) u(1) processed(2)])
  qed
  have valid: "validate_link_update (each chat) = None" for chat
    using u(2) by (simp add: each_def v validate_link_update_def split: if_splits)
  obtain m1 where m1: "b_log b1 = [m1]" "km_topic m1 = lc_topic c1" "kafka_body json p1 u = Inr (km_value m1)"
    using scrapper_sends_logs [OF scrapper(3) parts(1) u(1) documented(1)] scrapper(1) by auto
  obtain r1 where r1: "delivered (lc_topic c1) (b_log b1) = [r1]" "cm_value r1 = km_value m1"
    using m1(1,2) by (simp add: delivered_def)
  have "decode_message unmarshal c1 r1 = Inr u" using carriesD [OF parts(1) u(1)] m1(3) r1(2) by force
  moreover have keeps: "uTgChatIDs v = uTgChatIDs u" by (simp add: v)
  moreover have "\<exists>body. kafka_body json p2 (v\<lparr>uTgChatIDs := [chat]\<rparr>) = Inr body" if "chat \<in> set (uTgChatIDs v)" for chat
    using carriesD [OF parts(2) each [of chat]] that keeps unfolding each_def by metis
  moreover have "distinct (uTgChatIDs v)" using u(3) keeps by simp
  ultimately have "\<exists>s' chats. agent_main uc lib json unmarshal marshal order acfg
        [Polls world (PollMessage r1), Polls world PollContextDone] sa = (Exited 0, s') \<and>
      cs_committed s' = cs_committed sa @ [r1] \<and> distinct chats \<and> set chats = set (uTgChatIDs v) \<and>
      b_log (g_producer (cs_handler s')) = b_log b1 @ map (\<lambda>chat. kafka_message_of json p2 (v\<lparr>uTgChatIDs := [chat]\<rparr>)) chats"
    by (intro agent_passes_on [OF parts(4,7) window _ u(2) processed(1) _ _ order agent(1) scrapper(2) agent(2)])
  then obtain chats where chats: "distinct chats" "set chats = set (uTgChatIDs u)"
    and sa': "ex = Exited 0" "cs_committed sa' = cs_committed sa @ [r1]"
      "b_log (g_producer (cs_handler sa')) = m1 # map (\<lambda>chat. kafka_message_of json p2 (each chat)) chats"
    using agent(3) [unfolded r1(1)] by (auto simp: m1(1) keeps each_def)
  let ?ms = "delivered (lc_topic c2) (b_log (g_producer (cs_handler sa')))"
  have "kp_topic p2 = lc_topic c2" using parts(2) by (simp add: carries_def)
  then have "filter (\<lambda>m. km_topic m = lc_topic c2) (b_log (g_producer (cs_handler sa'))) =
      map (\<lambda>chat. kafka_message_of json p2 (each chat)) chats"
    using m1(2) parts(3) by (simp add: sa'(3) filter_id_conv kafka_message_of_def update_message_def)
  then have contents: "map cm_value ?ms = map (\<lambda>chat. km_value (kafka_message_of json p2 (each chat))) chats"
    by (simp add: delivered_values)
  have "list_all2 (\<lambda>m u. decode_message unmarshal c2 m = Inr u \<and> validate_link_update u = None) ?ms (map each chats)"
    unfolding list_all2_conv_all_nth
  proof (intro conjI allI impI)
    show len: "length ?ms = length (map each chats)" using arg_cong [OF contents, of length] by simp
    fix i
    assume i: "i < length ?ms"
    then have chat: "chats ! i \<in> set (uTgChatIDs u)" using len chats(2) nth_mem [of i chats] by simp
    have "cm_value (?ms ! i) = km_value (kafka_message_of json p2 (each (chats ! i)))"
      using arg_cong [OF contents, of "\<lambda>xs. xs ! i"] i len by simp
    then show "decode_message unmarshal c2 (?ms ! i) = Inr (map each chats ! i)"
      using carriesD [OF parts(2) each [OF chat]] i len by (force simp: kafka_message_of_def update_message_def)
    show "validate_link_update (map each chats ! i) = None" using valid i len by simp
  qed
  from bot_reads [where s = sb and marshal = marshal, OF this parts(6)] bot
  have "res = Running" "cs_committed sb' = cs_committed sb @ ?ms"
    "tg_sent (cs_handler sb') = concat (map (\<lambda>u. map (\<lambda>chat. (chat, subscriber_notification_body u)) (uTgChatIDs u)) (map each chats))"
    by (auto simp: start_consumer_def)
  moreover have "concat (map (\<lambda>u. map (\<lambda>chat. (chat, subscriber_notification_body u)) (uTgChatIDs u)) (map each chats))
      = map (\<lambda>chat. (chat, subscriber_notification_body v)) chats"
    by (induction chats) (simp_all add: each_def subscriber_notification_body_def)
  ultimately show ?thesis using sa' chats r1(1) by auto
qed

section \<open>The defaults\<close>

definition plain_kafka_library :: "(string \<Rightarrow> goavro result) \<Rightarrow> (string \<Rightarrow> 'w schema_registry_client) \<Rightarrow> 'w \<Rightarrow> kafka_library" where
  "plain_kafka_library new_codec new_client w =
     \<lparr>kl_producer_err = None, kl_consumer_err = None, kl_dlq_err = None, kl_subscribe_err = None,
      kl_encoder = avro_encoder new_codec new_client w, kl_decoder = avro_decoder new_codec new_client w\<rparr>"

text \<open>The agent's configuration is the default but for its filters and keywords.\<close>

lemma defaults_deployed:
  "deployed (plain_kafka_library new_codec new_client w) scrapper_defaults example_agent_config (bot_defaults token url)
     \<lparr>kp_topic = ''link.raw-updates'', kp_codec = None\<rparr> (example_agent_producer, example_agent_consumer)
     \<lparr>lc_topic = ''link.processed-updates'', lc_dlq_topic = ''link.processed-updates-dlq'', lc_max_retries = 3, lc_codec = None\<rparr>"
proof -
  have json: "\<not> equal_fold_ascii ''JSON'' serialization_format_avro" by code_simp
  have trims: "trim_space ''link.processed-updates'' = ''link.processed-updates''" "trim_space ''link.raw-updates'' = ''link.raw-updates''"
    "trim_space ''localhost:19092,localhost:19093,localhost:19094'' = ''localhost:19092,localhost:19093,localhost:19094''"
    by code_simp+
  note configs = scrapper_producer_config_def agent_producer_config_def agent_consumer_config_def bot_consumer_config_def
    scrapper_defaults_def bot_defaults_def example_agent_config_def agent_defaults_def plain_kafka_library_def Let_def
  note makers = new_confluent_link_update_producer_def new_link_update_consumer_def new_dead_letter_producer_def
    consumer_max_retries_floor_def json trims
  let ?lib = "plain_kafka_library new_codec new_client w"
  have "agent_start ?lib example_agent_config = Inr (example_agent_producer, example_agent_consumer)"
    by (simp add: agent_start_def configs makers example_agent_producer_def example_agent_consumer_def)
  moreover have "new_confluent_link_update_producer (scrapper_producer_config scrapper_defaults) (kl_producer_err ?lib) (kl_encoder ?lib)
      = Inr \<lparr>kp_topic = ''link.raw-updates'', kp_codec = None\<rparr>"
    by (simp add: configs makers)
  moreover have "new_link_update_consumer (bot_consumer_config (bot_defaults token url)) True (kl_consumer_err ?lib) (kl_dlq_err ?lib)
      (kl_decoder ?lib) = Inr \<lparr>lc_topic = ''link.processed-updates'', lc_dlq_topic = ''link.processed-updates-dlq'',
        lc_max_retries = 3, lc_codec = None\<rparr>"
    by (simp add: configs makers)
  moreover have "topic_fits (scrapper_producer_config scrapper_defaults) (agent_consumer_config example_agent_config)"
    "topic_fits (agent_producer_config example_agent_config) (bot_consumer_config (bot_defaults token url))"
    by (simp_all add: topic_fits_def configs trims)
  moreover have "kl_subscribe_err ?lib = None"
    "akRawUpdatesTopic (acfKafka example_agent_config) \<noteq> bkLinkUpdatesTopic (bcfKafka (bot_defaults token url))"
    by (simp_all add: configs)
  ultimately show ?thesis unfolding deployed_def by blast
qed

text \<open>For the example, Avro's encoding also plays the part of JSON.\<close>

definition example_codec :: link_update_codec where
  "example_codec = \<lparr>lucCodec = avro_binary link_update_event, lucSchemaID = 1\<rparr>"

lemma example_codec_documented:
  "json_documented (serialize example_codec) (deserialize example_codec)"
  "codecs_documented (\<lambda>_. Inr (avro_binary link_update_event))"
proof -
  have "goavro_documented link_update_event (lucCodec example_codec)"
    by (simp add: example_codec_def avro_binary_documented)
  then show "json_documented (serialize example_codec) (deserialize example_codec)"
    using deserialize_serialize by (simp add: json_documented_def sendable_def)
qed (simp add: codecs_documented_def avro_binary_documented)

definition example_sent :: link_update where
  "example_sent = empty_update\<lparr>uURL := ''https://github.com/a/b'', uTgChatIDs := [7, 8]\<rparr>"

definition example_bot_state :: "telegram consumer_state" where
  "example_bot_state =
     \<lparr>cs_handler = \<lparr>tg_sent = [], tg_script = []\<rparr>, cs_attempts = 0, cs_dlq = \<lparr>b_log = [], b_script = []\<rparr>,
      cs_committed = [], cs_commit_script = [], cs_backoff_cancelled = [], cs_now = 1\<rparr>"

lemma example_sent_sendable: "sendable example_sent"
proof -
  have "is_ascii ''https://github.com/a/b''" by (simp add: is_ascii_def)
  then show ?thesis
    by (simp add: sendable_def update_in_range_def example_sent_def empty_update_def rfc3339_range_def microseconds_def is_int64_def
        valid_utf8_ascii is_ascii_def)
qed

definition example_registry :: "string \<Rightarrow> unit schema_registry_client" where
  "example_registry =
     new_schema_registry_client (\<lambda>_ _. ret \<lparr>rsStatus = 200, rsBody = ''1''\<rparr>) (\<lambda>_. Inr ''{}'') (\<lambda>_. Inr 1)"

definition example_library :: kafka_library where
  "example_library = plain_kafka_library (\<lambda>_. Inr (avro_binary link_update_event)) example_registry ()"

theorem kafka_pipeline_delivers_witness:
  "\<exists>b1 sa' sb' chats.
     scrapper_sends (serialize example_codec) (deserialize example_codec) \<lparr>kp_topic = ''link.raw-updates'', kp_codec = None\<rparr>
       example_sent \<lparr>b_log = [], b_script = []\<rparr> b1 \<and>
     agent_main latin1_tables example_library (serialize example_codec) (deserialize example_codec) (\<lambda>d. Inr []) sorted_list_of_set
       example_agent_config
       (map (\<lambda>m. Polls example_world (PollMessage m)) (delivered ''link.raw-updates'' (b_log b1)) @ [Polls example_world PollContextDone])
       (example_agent_run\<lparr>cs_handler := new_grouping_service b1\<rparr>) = (Exited 0, sa') \<and>
     start_consumer bot_kafka_handler (deserialize example_codec) (\<lambda>d. Inr [])
       \<lparr>lc_topic = ''link.processed-updates'', lc_dlq_topic = ''link.processed-updates-dlq'', lc_max_retries = 3, lc_codec = None\<rparr> None
       (map PollMessage (delivered ''link.processed-updates'' (b_log (g_producer (cs_handler sa'))))) example_bot_state
       = (Running, sb') \<and>
     set chats = {7, 8} \<and>
     tg_sent (cs_handler sb') = map (\<lambda>chat. (chat, subscriber_notification_body (example_sent\<lparr>uPriority := priority_medium\<rparr>))) chats"
proof -
  let ?p1 = "\<lparr>kp_topic = ''link.raw-updates'', kp_codec = None\<rparr>"
  let ?c2 = "\<lparr>lc_topic = ''link.processed-updates'', lc_dlq_topic = ''link.processed-updates-dlq'', lc_max_retries = 3, lc_codec = None\<rparr>"
  let ?b = "\<lparr>b_log = [], b_script = []\<rparr>"
  let ?json = "serialize example_codec" and ?unmarshal = "deserialize example_codec"
  have dep: "deployed example_library scrapper_defaults example_agent_config (bot_defaults ''t'' ''u'') ?p1
      (example_agent_producer, example_agent_consumer) ?c2"
    unfolding example_library_def by (rule defaults_deployed)
  have codecs: "kl_encoder example_library = avro_encoder (\<lambda>_. Inr (avro_binary link_update_event)) example_registry ()"
    "kl_decoder example_library = avro_decoder (\<lambda>_. Inr (avro_binary link_update_event)) example_registry ()"
    by (simp_all add: example_library_def plain_kafka_library_def)
  note documented = example_codec_documented
  have window: "0 < acfWindow example_agent_config" by (simp add: example_agent_config_def agent_defaults_def)
  have valid: "validate_link_update example_sent = None" "distinct (uTgChatIDs example_sent)"
    by (simp_all add: example_sent_def validate_link_update_def)
  have processed: "process latin1_tables (agent_processor latin1_tables example_agent_config example_world) example_sent
      = Some (Inr (example_sent\<lparr>uPriority := priority_medium\<rparr>, True))"
    by (rule example_agent_accepts) (simp add: example_sent_def empty_update_def)
  have text_ok: "valid_utf8 (uDescription (example_sent\<lparr>uPriority := priority_medium\<rparr>))"
    using example_sent_sendable by (simp add: sendable_def)
  have order: "set (sorted_list_of_set S) = S \<and> distinct (sorted_list_of_set S)" if "finite S" for S :: "int set" using that by simp
  obtain body where body: "?json example_sent = Inr body"
    using documented(1) example_sent_sendable by (auto simp: json_documented_def)
  define b1 where "b1 = ?b\<lparr>b_log := [update_message ''link.raw-updates'' (format_int (uID example_sent)) body]\<rparr>"
  have sends: "scrapper_sends ?json ?unmarshal ?p1 example_sent ?b b1"
    by (simp add: scrapper_sends_def kafka_send_update_def kafka_produce_def kafka_body_def body produce_bytes_def
        next_outcome_def store_if_def b1_def Let_def)
  let ?sa = "example_agent_run\<lparr>cs_handler := new_grouping_service b1\<rparr>"
  have sa: "cs_handler ?sa = new_grouping_service b1" "cs_commit_script ?sa = []" by (simp_all add: example_agent_run_def)
  obtain ex sa' where agent: "agent_main latin1_tables example_library ?json ?unmarshal (\<lambda>d. Inr []) sorted_list_of_set example_agent_config
       (map (\<lambda>m. Polls example_world (PollMessage m)) (delivered (lc_topic example_agent_consumer) (b_log b1)) @
         [Polls example_world PollContextDone]) ?sa = (ex, sa')" by fastforce
  obtain res sb' where reads: "start_consumer bot_kafka_handler ?unmarshal (\<lambda>d. Inr []) ?c2 None
      (map PollMessage (delivered (lc_topic ?c2) (b_log (g_producer (cs_handler sa'))))) example_bot_state = (res, sb')" by fastforce
  have empty: "b_log ?b = []" "b_script b1 = []" "cs_handler example_bot_state = \<lparr>tg_sent = [], tg_script = []\<rparr>"
    "cs_commit_script example_bot_state = []" by (simp_all add: b1_def example_bot_state_def)
  from kafka_pipeline_delivers [OF dep codecs documented window example_sent_sendable valid processed text_ok order
      empty(1,2) sends sa agent empty(3,4) reads]
  have stops: "ex = Exited 0" "res = Running" and "\<exists>chats. set chats = set (uTgChatIDs example_sent) \<and> tg_sent (cs_handler sb') =
      map (\<lambda>chat. (chat, subscriber_notification_body (example_sent\<lparr>uPriority := priority_medium\<rparr>))) chats" by auto
  then obtain chats where chats: "set chats = set (uTgChatIDs example_sent)" "tg_sent (cs_handler sb') =
      map (\<lambda>chat. (chat, subscriber_notification_body (example_sent\<lparr>uPriority := priority_medium\<rparr>))) chats" by blast
  have names: "set (uTgChatIDs example_sent) = {7, 8}" "lc_topic example_agent_consumer = ''link.raw-updates''"
    "lc_topic ?c2 = ''link.processed-updates''"
    by (simp_all add: example_sent_def example_agent_consumer_def)
  show ?thesis
    by (rule exI [of _ b1], rule exI [of _ sa'], rule exI [of _ sb'], rule exI [of _ chats], intro conjI)
      (rule sends, rule agent [unfolded names stops], rule reads [unfolded names stops], rule chats(1) [unfolded names], rule chats(2))
qed

end
