(* ===== verification/Utf8_Parts.thy ===== *)
theory Utf8_Parts
  imports Go_Strings
begin

text \<open>
  What Go's \<open>strings\<close> cuts out of valid UTF-8 is valid UTF-8: trimming, dividing into fields, splitting at
  an ASCII character and joining.  The texts of Telegram are valid, and so is what the bot sends on of them.
\<close>

named_theorems valid_utf8_intros

declare valid_utf8_append [valid_utf8_intros]

lemma valid_utf8_Nil [simp, valid_utf8_intros]: "valid_utf8 []"
  by (simp add: valid_utf8_def)

lemma valid_utf8_encode_rune [simp]: "valid_utf8 (encode_rune r)"
  using valid_utf8_encode_runes [of "[r]"] by (simp add: encode_runes_def)

lemma valid_utf8_concat: "(\<And>x. x \<in> set xs \<Longrightarrow> valid_utf8 x) \<Longrightarrow> valid_utf8 (concat xs)"
  by (induction xs) (simp_all add: valid_utf8_append)

lemma valid_utf8E:
  assumes "valid_utf8 s"
  obtains rs where "s = encode_runes rs"
  using assms by (metis valid_utf8_def)

lemma valid_chunks:
  assumes "valid_utf8 s" "c \<in> set (rune_chunks s)"
  shows "valid_utf8 (snd c)"
proof -
  obtain rs where s: "s = encode_runes rs" using assms(1) by (rule valid_utf8E)
  have "rune_chunks (encode_runes rs) = map (\<lambda>r. (norm_rune r, encode_rune r)) rs"
    by (induction rs) (simp_all add: encode_runes_def rune_chunks_encode)
  with assms(2) s show ?thesis by auto
qed

lemma valid_chunk_bytes:
  assumes "valid_utf8 s" "set cs \<subseteq> set (rune_chunks s)"
  shows "valid_utf8 (chunk_bytes cs)"
  unfolding chunk_bytes_def using assms valid_chunks by (intro valid_utf8_concat) auto

lemma valid_trim_space [valid_utf8_intros]:
  assumes "valid_utf8 s"
  shows "valid_utf8 (trim_space s)"
proof -
  have "valid_utf8 (trim_left_func p s)" for p
    unfolding trim_left_func_def using assms by (rule valid_chunk_bytes) (meson set_dropWhileD subsetI)
  then show ?thesis
    unfolding trim_space_def trim_right_func_def by (rule valid_chunk_bytes) (auto dest: set_dropWhileD)
qed

lemma valid_fields_go:
  assumes "valid_utf8 cur" "\<And>c. c \<in> set cs \<Longrightarrow> valid_utf8 (snd c)" "x \<in> set (fields_go sep cur cs)"
  shows "valid_utf8 x"
  using assms
proof (induction sep cur cs rule: fields_go.induct)
  case (2 sep cur r bs cs)
  have "valid_utf8 (cur @ bs)" using 2(4) 2(5) [of "(r, bs)"] by (simp add: valid_utf8_append)
  with 2 show ?case by (auto split: if_splits)
qed (auto split: if_splits)

lemma valid_fields [valid_utf8_intros]: "valid_utf8 s \<Longrightarrow> x \<in> set (fields s) \<Longrightarrow> valid_utf8 x"
  unfolding fields_def fields_func_def by (rule valid_fields_go [of "[]"]) (auto intro: valid_chunks)

text \<open>An ASCII character is no part of the encoding of another rune.\<close>

lemma ascii_in_encode_rune:
  assumes "d \<in> set (encode_rune r)" "byte_of d < (0x80 :: nat)"
  shows "encode_rune r = [d]"
proof -
  define q where "q = norm_rune r"
  have d: "d \<in> set (encode_scalar q)" "q \<le> 0x10FFFF"
    using assms(1) valid_rune_bounds [of q] by (simp_all add: q_def encode_rune_def norm_rune_def split: if_splits)
  have "q < 0x80"
  proof (rule ccontr)
    assume q: "\<not> q < 0x80"
    have bounds: "q div 262144 \<le> 4" using d(2) by (simp add: div_le_mono)
    have small: "q div 64 < 64" if "q < 0x800" using that by auto
    have mid: "q div 4096 < 16" if "q < 0x10000" using that by auto
    have "0x80 \<le> byte_of d"
      using d(1) q bounds small mid unfolding encode_scalar_def
      by (auto split: if_splits)
    with assms(2) show False by simp
  qed
  then show ?thesis using d(1) by (auto simp: q_def encode_rune_def norm_rune_def encode_scalar_def split: if_splits)
qed

lemma split_on_prefix:
  "d \<notin> set x \<Longrightarrow> split_on d (x @ s) = (x @ hd (split_on d s)) # tl (split_on d s)"
  by (induction x) auto

lemma valid_split_on [valid_utf8_intros]:
  assumes "valid_utf8 s" "byte_of d < (0x80 :: nat)" "x \<in> set (split_on d s)"
  shows "valid_utf8 x"
proof -
  obtain rs where s: "s = encode_runes rs" using assms(1) by (rule valid_utf8E)
  have "\<forall>x \<in> set (split_on d (encode_runes rs)). valid_utf8 x"
  proof (induction rs)
    case (Cons r rs)
    let ?parts = "split_on d (encode_runes rs)"
    have step: "encode_runes (r # rs) = encode_rune r @ encode_runes rs" by (simp add: encode_runes_def)
    have "hd ?parts \<in> set ?parts" "set (tl ?parts) \<subseteq> set ?parts"
      by simp (meson list.set_sel(2) split_on_nonempty subsetI)
    with Cons have parts: "valid_utf8 (hd ?parts)" "\<forall>x \<in> set (tl ?parts). valid_utf8 x" by auto
    show ?case
    proof (cases "d \<in> set (encode_rune r)")
      case True
      then have "encode_rune r = [d]" using assms(2) by (rule ascii_in_encode_rune)
      with Cons show ?thesis unfolding step by simp
    next
      case False
      with parts show ?thesis unfolding step by (simp add: split_on_prefix valid_utf8_append)
    qed
  qed simp
  with assms(3) s show ?thesis by simp
qed

lemma valid_join [valid_utf8_intros]:
  assumes "valid_utf8 sep" "\<And>x. x \<in> set xs \<Longrightarrow> valid_utf8 x"
  shows "valid_utf8 (join sep xs)"
  using assms by (induction sep xs rule: join.induct) (simp_all add: valid_utf8_append)

end
