(* ===== verification/Bot_Tracking.thy ===== *)
theory Bot_Tracking
  imports Bot_Properties Bot_Main Client_Server Utf8_Parts
begin

text \<open>
  From a chat's messages to the tracker: the bot over its clients, the network, the servers and the services.
  The operations of the services are idempotent, so it does not matter how often a request is tried, and
  a chat's part of the tracker depends on that chat's requests alone.
\<close>

section \<open>The requests behind the calls\<close>

fun call_request :: "call \<Rightarrow> request" where
  "call_request (CRegister c) = RegisterChat c"
| "call_request (CDeleteChat c) = DeleteChat c"
| "call_request (CAdd c u ts) = AddLink c \<lparr>linkID = 0, linkURL = u, linkTags = ts, linkLastUpdatedAt = time_zero\<rparr>"
| "call_request (CRemove c u) = RemoveLink c u"
| "call_request (CRemoveByTag c n) = RemoveLinksByTag c n"
| "call_request (CList c) = ListLinks c"

definition after_calls :: "call list \<Rightarrow> tracker \<Rightarrow> tracker" where
  "after_calls cs = fold (\<lambda>x. tk_effect (call_request x)) cs"

lemma after_calls_append [simp]: "after_calls (cs @ ds) t = after_calls ds (after_calls cs t)"
  by (simp add: after_calls_def)

lemma after_calls_simps [simp]: "after_calls [] t = t" "after_calls (x # cs) t = after_calls cs (tk_effect (call_request x) t)"
  by (simp_all add: after_calls_def)

lemma call_request_facts [simp]: "outside_request (call_request x)" "request_chat (call_request x) = call_chat x"
  by (cases x; simp)+

lemma tk_effect_idem: "tk_effect q (tk_effect q t) = tk_effect q t"
proof (cases q)
  case (AddLink c l)
  then show ?thesis by (auto simp: tk_add_link_def tk_add_def)
next
  case (RemoveLinksByTag c n)
  then show ?thesis by (auto simp: tk_remove_by_tag_def tk_untrack_def tk_urls_with_tag_def)
qed (auto simp: tk_register_def tk_unregister_def tk_untrack_def)

text \<open>What the tracker holds of a chat: whether it is registered, its links, its tags and the tags of its links.\<close>

definition chat_part :: "int \<Rightarrow> tracker \<Rightarrow> bool \<times> string set \<times> string set \<times> (string \<times> string) set" where
  "chat_part c t =
     (c \<in> tk_chats t, {u. (c, u) \<in> tk_subs t}, {n. (c, n) \<in> tk_tags t}, {(u, n). (c, u, n) \<in> tk_tagged t})"

lemma chat_part_eq_iff:
  "chat_part c t = chat_part c t' \<longleftrightarrow>
     (c \<in> tk_chats t \<longleftrightarrow> c \<in> tk_chats t') \<and> (\<forall>u. (c, u) \<in> tk_subs t \<longleftrightarrow> (c, u) \<in> tk_subs t') \<and>
     (\<forall>n. (c, n) \<in> tk_tags t \<longleftrightarrow> (c, n) \<in> tk_tags t') \<and> (\<forall>u n. (c, u, n) \<in> tk_tagged t \<longleftrightarrow> (c, u, n) \<in> tk_tagged t')"
  by (auto simp: chat_part_def set_eq_iff)

lemma chat_part_other: "request_chat q \<noteq> c \<Longrightarrow> chat_part c (tk_effect q t) = chat_part c t"
  by (cases q) (auto simp: chat_part_eq_iff tk_register_def tk_unregister_def tk_add_link_def tk_add_def tk_untrack_def
      tk_remove_by_tag_def)

lemma chat_part_cong:
  assumes "chat_part c t = chat_part c t'" "request_chat q = c"
  shows "chat_part c (tk_effect q t) = chat_part c (tk_effect q t')"
  using assms
  by (cases q) (auto simp: chat_part_eq_iff tk_register_def tk_unregister_def tk_add_link_def tk_add_def tk_untrack_def
      tk_remove_by_tag_def tk_urls_with_tag_def)

lemma chat_part_after_calls:
  assumes "chat_part c t = chat_part c t'"
  shows "chat_part c (after_calls cs t) = chat_part c (after_calls (filter (\<lambda>x. call_chat x = c) cs) t')"
  using assms
proof (induction cs arbitrary: t t')
  case (Cons x cs)
  show ?case
  proof (cases "call_chat x = c")
    case True
    then show ?thesis using Cons.IH [OF chat_part_cong [OF Cons.prems, of "call_request x"]] by simp
  next
    case False
    then have "chat_part c (tk_effect (call_request x) t) = chat_part c t'" using chat_part_other Cons.prems by simp
    from Cons.IH [OF this] False show ?thesis by simp
  qed
qed simp

section \<open>A call that is tried more than once\<close>

text \<open>What is relied on of the breaker: it runs the operation once, or refuses it.\<close>

definition documented_breaker :: "(('s, unit) eff \<Rightarrow> ('s, unit) eff) option \<Rightarrow> bool" where
  "documented_breaker b \<longleftrightarrow> (\<forall>execute op s. b = Some execute \<longrightarrow> execute op s = op s \<or> (\<exists>e. execute op s = (Inl e, s)))"

text \<open>\<open>M\<close> holds of a world in which the request was served or not, \<open>E\<close> of one in which it was.\<close>

lemma call_scrapper_keeps:
  assumes c: "documented_retry (hcRetrier c)" "documented_breaker (hcBreaker c)" "0 < rcMaxAttempts (normalize_retry_config (hcRetry c))"
    and step: "\<And>w r w1. M w \<Longrightarrow> hcDo c (normalize_timeout (hcTimeout c)) req w = (r, w1) \<Longrightarrow>
      M w1 \<and> (\<forall>resp. r = Inr resp \<and> rsStatus resp = 200 \<longrightarrow> E w1)"
    and "M w" "call_scrapper c decode start req w = (r, w')"
  shows "M w' \<and> ((\<exists>x. r = Inr x) \<longrightarrow> E w')"
proof -
  let ?op = "call_once c decode req"
  define n where "n = nat (rcMaxAttempts (normalize_retry_config (hcRetry c)) - 1)"
  have n: "rcMaxAttempts (normalize_retry_config (hcRetry c)) = int (Suc n)" using c(3) by (simp add: n_def)
  have once: "M (fst s1) \<and> (q = Inr () \<longrightarrow> E (fst s1))" if "M (fst s)" "?op s = (q, s1)" for s q s1
    using that step [of "fst s"] by (auto simp: call_once_def split: prod.splits sum.splits if_splits)
  have runs: "M (fst s1)" if "failed_runs ?op s k s1" "M (fst s)" for s k s1
    using that by induction (use once in blast)+
  have tries: "M (fst s1) \<and> (q = Inr () \<longrightarrow> E (fst s1))"
    if "M (fst s)" "do_with_http_retry (hcRetrier c) (hcRetry c) ?op s = (q, s1)" for s q s1
  proof -
    have "hcRetrier c (int (Suc n)) is_retryable_error ?op s = (q, s1)"
      using that(2) by (simp add: do_with_http_retry_def Let_def n)
    from retrier_runs [OF c(1) this] show ?thesis using runs once that(1) by blast
  qed
  obtain q w1 x where run: "do_with_circuit_breaker (hcBreaker c) (do_with_http_retry (hcRetrier c) (hcRetry c) ?op) (w, start) = (q, w1, x)"
    by (metis prod_cases3)
  have "M w1 \<and> (q = Inr () \<longrightarrow> E w1)"
  proof (cases "do_with_http_retry (hcRetrier c) (hcRetry c) ?op (w, start) = (q, w1, x)")
    case True
    from tries [OF _ this] assms(5) show ?thesis by simp
  next
    case False
    with run obtain execute where execute: "hcBreaker c = Some execute"
      "execute (do_with_http_retry (hcRetrier c) (hcRetry c) ?op) (w, start) = (q, w1, x)"
      by (auto simp: do_with_circuit_breaker_def split: option.splits)
    with False c(2) have "(\<exists>e. q = Inl e) \<and> w1 = w" unfolding documented_breaker_def by (metis Pair_inject)
    with assms(5) show ?thesis by auto
  qed
  then show ?thesis using assms(6) run by (auto simp: call_scrapper_def split: sum.splits)
qed

section \<open>The services behind the network\<close>

text \<open>
  The client over an exchange: any number of attempts and any breaker that does what it should.
\<close>

definition client_over :: "'w http_client \<Rightarrow> (duration \<Rightarrow> http_request \<Rightarrow> ('w, http_response) eff) \<Rightarrow> bool" where
  "client_over c exchange \<longleftrightarrow>
     documented_retry (hcRetrier c) \<and> documented_breaker (hcBreaker c) \<and> 0 < rcMaxAttempts (normalize_retry_config (hcRetry c)) \<and>
     hcDo c = exchange"

text \<open>A call over gRPC leaves the services as the request does.\<close>

lemma grpc_client_state:
  assumes "outside_request q" "serve svc q s = (a, s1)"
  shows "snd (ask (grpc_scrapper_client (wired_stub svc)) q (s, fs)) = (s1, fs)"
proof -
  have served: "snd (grpc_serve svc q s) = s1" using grpc_serves [OF assms(1), of svc s] assms(2) by simp
  show ?thesis
    using served
    by (cases q)
      (auto simp: grpc_scrapper_client_def wired_stub_def grpc_client_add_link_def grpc_client_remove_link_def
        grpc_client_list_links_def grpc_client_remove_links_by_tag_def bindE_def grpc_replied_def split: prod.splits sum.splits)
qed

text \<open>Services that do what the tracker says: \<open>holds s t\<close> relates their state to the tracker.\<close>

locale tracking_services =
  fixes svc :: "('s, 'c) link_service" and holds :: "('s, 'c) services \<Rightarrow> tracker \<Rightarrow> bool"
  assumes serve: "holds s t \<Longrightarrow> serve svc q s = (a, s1) \<Longrightarrow> holds s1 (tk_effect q t) \<and> tk_answer q t a"
begin

definition served :: "request \<Rightarrow> tracker \<Rightarrow> ('s, 'c) services \<times> net_fault list \<Rightarrow> bool" where
  "served q t w \<longleftrightarrow> holds (fst w) (tk_effect q t)"

definition maybe_served :: "request \<Rightarrow> tracker \<Rightarrow> ('s, 'c) services \<times> net_fault list \<Rightarrow> bool" where
  "maybe_served q t w \<longleftrightarrow> holds (fst w) t \<or> served q t w"

lemma serve_again:
  assumes "maybe_served q t (s, fs)" "serve svc q s = (a, s1)"
  shows "served q t (s1, fs')"
  using assms serve [of s t q a s1] serve [of s "tk_effect q t" q a s1] by (auto simp: maybe_served_def served_def tk_effect_idem)

lemma exchange:
  assumes "request_of_http aj (to_server base req) = Some q" "maybe_served q t w"
    and "wired (new_router unmatched aj svc tags) base timeout req w = (r, w1)"
  shows "maybe_served q t w1 \<and> (\<forall>resp. r = Inr resp \<and> rsStatus resp = 200 \<longrightarrow> served q t w1)"
proof -
  obtain s fs where w: "w = (s, fs)" by fastforce
  obtain a s1 where a: "serve svc q s = (a, s1)" by fastforce
  have "new_router unmatched aj svc tags (to_server base req) s = (reply_of_answer aj q a, s1)"
    using router_serves [where r = "to_server base req" and json = aj and unmatched = unmatched and svc = svc and tags = tags and s = s]
      outside_request_of_http [OF assms(1)] assms(1) a by simp
  moreover note serve_again [OF assms(2) [unfolded w] a]
  ultimately show ?thesis using assms(2,3)
    by (auto simp: wired_def w Let_def maybe_served_def served_def split: list.splits net_fault.splits)
qed

lemma http_asks:
  assumes c: "client_over c (wired (new_router unmatched aj svc tags) (hcBaseURL c))" and agree: "json_agree (hcJSON c) aj"
    and q: "outside_request q" "utf8_request q" "int64 (request_chat q)"
    and w: "maybe_served q t w" and ask: "ask (http_scrapper_client c) q w = (r, w1)"
  shows "maybe_served q t w1 \<and> ((\<exists>x. r = Inr x) \<longrightarrow> served q t w1)"
proof -
  have call: "maybe_served q t w0 \<and> ((\<exists>x. r0 = Inr x) \<longrightarrow> served q t w0)"
    if "request_of_http aj (to_server (hcBaseURL c) req) = Some q" "call_scrapper c decode start req w = (r0, w0)"
    for req decode start r0 w0
    using c w that(2) exchange [OF that(1)] unfolding client_over_def by (intro call_scrapper_keeps) auto
  note unfold = http_scrapper_client_def http_register_chat_def http_delete_chat_def http_add_link_def http_remove_link_def
    http_list_links_def http_remove_links_by_tag_def bindE_def
  note reqs = client_requests [OF q(3) agree]
  note enc = json_agreeD [OF agree]
  show ?thesis
  proof (cases q)
    case (RegisterChat chat)
    note req = reqs(1) [of c, unfolded RegisterChat request_chat.simps, folded RegisterChat]
    show ?thesis using ask by (auto simp: RegisterChat unfold split: prod.splits sum.splits dest!: call [OF req, unfolded RegisterChat])
  next
    case (DeleteChat chat)
    note req = reqs(2) [of c, unfolded DeleteChat request_chat.simps, folded DeleteChat]
    show ?thesis using ask by (auto simp: DeleteChat unfold split: prod.splits sum.splits dest!: call [OF req, unfolded DeleteChat])
  next
    case (AddLink chat l)
    obtain b where b: "cj_add_link (hcJSON c) (linkURL l) (linkTags l) = Inr b" "aj_add_link aj b = Inr (linkURL l, linkTags l)"
      using enc(1) [of l] q(2) AddLink by auto
    have "\<lparr>linkID = 0, linkURL = linkURL l, linkTags = linkTags l, linkLastUpdatedAt = time_zero\<rparr> = l"
      using q(1) AddLink by (cases l) simp
    then have req: "request_of_http aj (to_server (hcBaseURL c) (json_request c ''POST'' ''/links'' chat b)) = Some q"
      using reqs(4) [OF b(2), of c] by (simp add: AddLink)
    show ?thesis using ask by (auto simp: AddLink unfold b split: prod.splits sum.splits dest!: call [OF req, unfolded AddLink])
  next
    case (RemoveLink chat u)
    obtain b where b: "cj_remove_link (hcJSON c) u = Inr b" "aj_remove_link aj b = Inr u" using enc(2) [of u] q(2) RemoveLink by auto
    note req = reqs(5) [OF b(2), of c, unfolded RemoveLink request_chat.simps, folded RemoveLink]
    show ?thesis using ask by (auto simp: RemoveLink unfold b split: prod.splits sum.splits dest!: call [OF req, unfolded RemoveLink])
  next
    case (ListLinks chat)
    note req = reqs(3) [of c, unfolded ListLinks request_chat.simps, folded ListLinks]
    show ?thesis using ask by (auto simp: ListLinks unfold split: prod.splits sum.splits dest!: call [OF req, unfolded ListLinks])
  next
    case (RemoveLinksByTag chat n)
    obtain b where b: "cj_remove_by_tag (hcJSON c) n = Inr b" "aj_remove_by_tag aj b = Inr n" using enc(3) [of n] q(2) RemoveLinksByTag by auto
    note req = reqs(6) [OF b(2), of c, unfolded RemoveLinksByTag request_chat.simps, folded RemoveLinksByTag]
    show ?thesis using ask
      by (auto simp: RemoveLinksByTag unfold b split: prod.splits sum.splits dest!: call [OF req, unfolded RemoveLinksByTag])
  qed
qed

text \<open>The fallback client has every request served, whatever becomes of it over HTTP.\<close>

lemma fallback_asks:
  assumes c: "client_over c (wired (new_router unmatched aj svc tags) (hcBaseURL c))" and agree: "json_agree (hcJSON c) aj"
    and q: "outside_request q" "utf8_request q" "int64 (request_chat q)" and s: "holds s t"
    and ask: "ask (fallback_scrapper_client (http_scrapper_client c) (grpc_scrapper_client (wired_stub svc))) q (s, fs) = (r, w1)"
  shows "served q t w1 \<and> (tk_answer q (tk_effect q t) Done \<and> tk_answer q t Done \<longrightarrow> (\<exists>x. r = Inr x))"
proof -
  obtain r0 s0 fs0 where http: "ask (http_scrapper_client c) q (s, fs) = (r0, s0, fs0)" by (metis surj_pair)
  have w0: "maybe_served q t (s0, fs0) \<and> ((\<exists>x. r0 = Inr x) \<longrightarrow> served q t (s0, fs0))"
    using s by (intro http_asks [OF c agree q _ http]) (simp add: maybe_served_def)
  show ?thesis
  proof (cases r0)
    case (Inr x)
    with http ask w0 show ?thesis by (auto simp: ask_fallback)
  next
    case (Inl e)
    obtain a s1 where a: "serve svc q s0 = (a, s1)" by fastforce
    have w1: "snd (ask (grpc_scrapper_client (wired_stub svc)) q (s0, fs0)) = (s1, fs0)" by (rule grpc_client_state [OF q(1) a])
    have run: "ask (grpc_scrapper_client (wired_stub svc)) q (s0, fs0) = (r, w1)" using ask http Inl by (simp add: ask_fallback)
    have "served q t w1" using serve_again [OF _ a, of t fs0 fs0] w0 w1 run by simp
    moreover have "\<exists>x. r = Inr x" if "tk_answer q (tk_effect q t) Done" "tk_answer q t Done"
    proof -
      have "tk_answer q t a \<or> tk_answer q (tk_effect q t) a"
        using w0 serve [OF _ a] by (auto simp: maybe_served_def served_def)
      with that have "\<forall>e. a \<noteq> Failed e" by (cases q) (auto split: if_splits answer.splits)
      from grpc_client_serves [OF q(1) a this, of fs0] run show ?thesis by simp
    qed
    ultimately show ?thesis by blast
  qed
qed

text \<open>So the world keeps up with the calls, and a registration and an addition after it are answered.\<close>

definition keeps_up :: "tracker \<Rightarrow> call list \<Rightarrow> ('s, 'c) services \<times> net_fault list \<Rightarrow> bool" where
  "keeps_up t cs w \<longleftrightarrow> holds (fst w) (after_calls cs t)"

lemma fallback_call:
  assumes c: "client_over c (wired (new_router unmatched aj svc tags) (hcBaseURL c))" and agree: "json_agree (hcJSON c) aj"
    and q: "utf8_request (call_request x)" "int64 (call_chat x)"
    and ask: "ask (fallback_scrapper_client (http_scrapper_client c) (grpc_scrapper_client (wired_stub svc))) (call_request x) =
      bindE m (\<lambda>y. ret (f y))"
  shows "keeps_at (keeps_up t) cs x m"
    "(\<And>t'. t' \<in> {after_calls cs t, after_calls (cs @ [x]) t} \<Longrightarrow> tk_answer (call_request x) t' Done) \<Longrightarrow>
       answers_at (keeps_up t) cs x m"
proof -
  let ?t = "after_calls cs t"
  have run: "keeps_up t (cs @ [x]) w1 \<and>
      (tk_answer (call_request x) (after_calls (cs @ [x]) t) Done \<and> tk_answer (call_request x) ?t Done \<longrightarrow> (\<exists>y. r = Inr y))"
    if w: "keeps_up t cs w" "m w = (r, w1)" for w r w1
  proof -
    obtain s fs where sfs: "w = (s, fs)" by fastforce
    have "ask (fallback_scrapper_client (http_scrapper_client c) (grpc_scrapper_client (wired_stub svc))) (call_request x) (s, fs) =
        (case r of Inl e \<Rightarrow> Inl e | Inr y \<Rightarrow> Inr (f y), w1)"
      using w(2) by (simp add: ask bindE_def sfs split: sum.split)
    from fallback_asks [OF c agree call_request_facts(1) q(1) _ _ this, of ?t] q(2) w(1) show ?thesis
      by (auto simp: keeps_up_def served_def sfs split: sum.splits)
  qed
  then show "keeps_at (keeps_up t) cs x m" unfolding keeps_at_def by (metis prod.collapse)
  show "answers_at (keeps_up t) cs x m"
    if "\<And>t'. t' \<in> {after_calls cs t, after_calls (cs @ [x]) t} \<Longrightarrow> tk_answer (call_request x) t' Done"
    unfolding answers_at_def using run that by (metis insertCI prod.collapse)
qed

lemma fallback_serves_calls:
  assumes c: "client_over c (wired (new_router unmatched aj svc tags) (hcBaseURL c))" and agree: "json_agree (hcJSON c) aj"
  shows "serves_calls (\<lambda>x. utf8_request (call_request x) \<and> int64 (call_chat x)) (keeps_up t)
    (fallback_scrapper_client (http_scrapper_client c) (grpc_scrapper_client (wired_stub svc)))"
  unfolding serves_calls_def
proof (intro allI conjI impI, goal_cases)
  case (1 cs c u ts)
  then show ?case by (intro fallback_call(2) [OF c agree]) simp_all
next
  case (2 cs c u ts)
  then show ?case by (intro fallback_call(2) [OF c agree]) (auto simp: tk_register_def tk_add_link_def tk_add_def)
next
  case (3 cs c u ts)
  then show ?case by (intro fallback_call(1) [OF c agree]) simp_all
next
  case (4 cs c u ts)
  then show ?case by (intro fallback_call(1) [OF c agree]) simp_all
next
  case (5 cs c u ts)
  then show ?case by (intro fallback_call(1) [OF c agree]) simp_all
qed

end

section \<open>The services of the program\<close>

definition tracks :: "json_links \<Rightarrow> duration \<Rightarrow> (db, valkey) services \<Rightarrow> tracker \<Rightarrow> bool" where
  "tracks json ttl s t \<longleftrightarrow>
     json_round_trip json \<and> 0 < ttl \<and> db_ok (sv_store s) \<and> d_faults (sv_store s) = [] \<and> valkey_sound (sv_cache s) \<and>
     vk_faults (sv_cache s) = [] \<and> cache_coherent json valkey_content tracker_of s \<and> tracker_of (sv_store s) = t"

interpretation sql_tracking: tracking_services
  "new_link_service_with_cache sql_store (valkey_cache v) ttl json uc" "tracks json ttl" for v ttl json uc
proof (unfold_locales, goal_cases)
  case (1 s t q a s1)
  then show ?case using sql_services.serve_good [of json ttl s v uc q a s1]
    by (simp add: tracks_def sql_store_def valkey_cache_def)
qed

interpretation orm_tracking: tracking_services
  "new_link_service_with_cache orm_store (valkey_cache v) ttl json uc" "tracks json ttl" for v ttl json uc
proof (unfold_locales, goal_cases)
  case (1 s t q a s1)
  then show ?case using orm_services.serve_good [of json ttl s v uc q a s1]
    by (simp add: tracks_def orm_store_def valkey_cache_def)
qed

section \<open>Valid texts make valid requests\<close>

definition valid_dialogue :: "dialogue \<Rightarrow> bool" where
  "valid_dialogue dl \<longleftrightarrow> (\<forall>url. dl = AwaitTags url \<longrightarrow> valid_utf8 url)"

lemma valid_parse_tags: "valid_utf8 t \<Longrightarrow> list_all valid_utf8 (parse_tags t)"
  using valid_split_on [of t "CHR '',''"] valid_trim_space by (auto simp: parse_tags_def list_all_iff)

lemma valid_untrack_calls:
  assumes "\<And>a. a \<in> set args \<Longrightarrow> valid_utf8 a" "x \<in> set (untrack_calls uc c args)"
  shows "utf8_request (call_request x)"
proof -
  have "valid_utf8 (args ! 1)" if "\<not> length args < 2" using assms(1) that by simp
  moreover have "valid_utf8 (join '' '' (drop 2 args))"
    using assms(1) by (intro valid_join) (auto simp: valid_utf8_ascii is_ascii_def dest: in_set_dropD)
  ultimately show ?thesis using assms(2) by (auto simp: untrack_calls_def split: if_splits)
qed

lemma valid_chat_step:
  assumes "valid_utf8 t" "valid_dialogue dl" "chat_step uc c t dl = (dl', cs)"
  shows "valid_dialogue dl' \<and> (\<forall>x \<in> set cs. utf8_request (call_request x))"
proof -
  have "utf8_request (call_request x)" if "x \<in> set (untrack_calls uc c (Go_Strings.fields t))" for x
    using valid_untrack_calls [OF _ that] valid_fields [OF assms(1)] by blast
  then show ?thesis using assms valid_parse_tags [OF assms(1)]
    by (auto simp: chat_step_def command_step_def valid_dialogue_def utf8_link_def Let_def split: if_splits dialogue.splits sum.splits)
qed

lemma valid_chat_run:
  assumes "\<And>t. t \<in> set ts \<Longrightarrow> valid_utf8 t" "valid_dialogue dl" "int64 c \<or> ts = []"
  shows "\<forall>x \<in> set (snd (chat_run uc c ts dl)). utf8_request (call_request x) \<and> int64 (call_chat x)"
  using assms
proof (induction ts arbitrary: dl)
  case (Cons t ts)
  obtain dl1 k1 where step: "chat_step uc c t dl = (dl1, k1)" by fastforce
  have "valid_dialogue dl1 \<and> (\<forall>x \<in> set k1. utf8_request (call_request x))"
    using valid_chat_step [OF _ Cons.prems(2) step] Cons.prems(1) by simp
  moreover have "call_chat x = c" if "x \<in> set k1" for x using chat_step_calls [of x uc c t dl] that step by simp
  ultimately show ?case using Cons.IH [of dl1] Cons.prems(1,3) by (auto simp: step split: prod.split)
qed simp

lemma own_messages_iff: "t \<in> set (own_messages c updates) \<longleftrightarrow> Some (c, t) \<in> set updates"
  by (induction c updates rule: own_messages.induct) auto

section \<open>The recording changes nothing\<close>

definition unrecorded :: "('d, 'w recorder) bot_state \<Rightarrow> ('d, 'w) bot_state" where
  "unrecorded s = \<lparr>bs_sessions = bs_sessions s, bs_world = rc_inner (bs_world s)\<rparr>"

definition mirrors :: "('d, 'w recorder, 'a) bot \<Rightarrow> ('d, 'w, 'a) bot \<Rightarrow> bool" where
  "mirrors m n \<longleftrightarrow> (\<forall>s. n (unrecorded s) = (fst (m s), unrecorded (snd (m s))))"

named_theorems mirrors_intros

lemma mirrorsD: "mirrors m n \<Longrightarrow> m s = (x, s') \<Longrightarrow> n (unrecorded s) = (x, unrecorded s')"
  by (simp add: mirrors_def)

lemma mirrors_Pair [mirrors_intros]: "mirrors (Pair x) (Pair x)"
  by (simp add: mirrors_def)

lemma mirrors_andthen [mirrors_intros]:
  "mirrors m n \<Longrightarrow> (\<And>x. mirrors (k x) (l x)) \<Longrightarrow> mirrors (andthen m k) (andthen n l)"
  by (simp add: mirrors_def andthen_def split: prod.split)

lemma mirrors_if [mirrors_intros]: "mirrors m n \<Longrightarrow> mirrors m' n' \<Longrightarrow> mirrors (if b then m else m') (if b then n else n')"
  by simp

lemma mirrors_sum [mirrors_intros]:
  "(\<And>e. mirrors (f e) (f' e)) \<Longrightarrow> (\<And>x. mirrors (g x) (g' x)) \<Longrightarrow>
   mirrors (case r of Inl e \<Rightarrow> f e | Inr x \<Rightarrow> g x) (case r of Inl e \<Rightarrow> f' e | Inr x \<Rightarrow> g' x)"
  by (cases r) simp_all

lemma mirrors_option [mirrors_intros]:
  "mirrors f f' \<Longrightarrow> (\<And>x. mirrors (g x) (g' x)) \<Longrightarrow>
   mirrors (case r of None \<Rightarrow> f | Some x \<Rightarrow> g x) (case r of None \<Rightarrow> f' | Some x \<Rightarrow> g' x)"
  by (cases r) simp_all

lemma mirrors_sessions [mirrors_intros]: "mirrors (on_sessions m) (on_sessions m)"
  by (simp add: mirrors_def on_sessions_def unrecorded_def split: prod.split)

lemma mirrors_call [mirrors_intros]: "mirrors (on_world (recorded x m)) (on_world m)"
  by (simp add: mirrors_def on_world_def recorded_def unrecorded_def split: prod.split)

lemma mirrors_start [mirrors_intros]:
  "mirrors (ts_start \<lparr>tkClient = recording cl, tkRepo = repo\<rparr> c) (ts_start \<lparr>tkClient = cl, tkRepo = repo\<rparr> c)"
  unfolding ts_start_def track_service.simps recording_simps by (intro mirrors_intros)

lemma mirrors_handle_url [mirrors_intros]:
  "mirrors (ts_handle_url \<lparr>tkClient = recording cl, tkRepo = repo\<rparr> c t) (ts_handle_url \<lparr>tkClient = cl, tkRepo = repo\<rparr> c t)"
  unfolding ts_handle_url_def track_service.simps by (intro mirrors_intros)

lemma mirrors_handle_tags [mirrors_intros]:
  "mirrors (ts_handle_tags \<lparr>tkClient = recording cl, tkRepo = repo\<rparr> c t) (ts_handle_tags \<lparr>tkClient = cl, tkRepo = repo\<rparr> c t)"
  unfolding ts_handle_tags_def ts_add_link_def track_service.simps recording_simps by (intro mirrors_intros)

lemma mirrors_commands:
  "mirrors (snd (start_command (recording cl)) c t) (snd (start_command cl) c t)"
  "mirrors (snd help_command c t) (snd help_command c t)"
  "mirrors (snd (track_command \<lparr>tkClient = recording cl, tkRepo = repo\<rparr>) c t) (snd (track_command \<lparr>tkClient = cl, tkRepo = repo\<rparr>) c t)"
  "mirrors (snd (untrack_command uc (recording cl)) c t) (snd (untrack_command uc cl) c t)"
  "mirrors (snd (list_command (recording cl)) c t) (snd (list_command cl) c t)"
  "mirrors (snd cancel_command c t) (snd cancel_command c t)" "mirrors (snd unknown_command c t) (snd unknown_command c t)"
  unfolding start_command_def help_command_def track_command_def untrack_command_def list_command_def cancel_command_def
    unknown_command_def snd_conv Let_def recording_simps
  by (intro mirrors_intros)+

definition plain_dispatcher :: "unicode \<Rightarrow> 'w scrapper_client \<Rightarrow> 'd session_repository \<Rightarrow> ('d, 'w) dispatcher" where
  "plain_dispatcher uc cl repo = new_default_dispatcher uc cl \<lparr>tkClient = cl, tkRepo = repo\<rparr> repo"

lemma find_command_mirrors:
  "rel_option (\<lambda>run run'. \<forall>c t. mirrors (run c t) (run' c t))
     (find_command (recording_dispatcher uc cl repo) name) (find_command (plain_dispatcher uc cl repo) name)"
  unfolding find_command_def recording_dispatcher_def plain_dispatcher_def default_commands by (simp add: mirrors_commands)

lemma mirrors_dispatch: "mirrors (dispatch (recording_dispatcher uc cl repo) c t) (dispatch (plain_dispatcher uc cl repo) c t)"
proof -
  have fields: "dpRepo (recording_dispatcher uc cl repo) = repo" "dpRepo (plain_dispatcher uc cl repo) = repo"
    "dpTrackService (recording_dispatcher uc cl repo) = \<lparr>tkClient = recording cl, tkRepo = repo\<rparr>"
    "dpTrackService (plain_dispatcher uc cl repo) = \<lparr>tkClient = cl, tkRepo = repo\<rparr>"
    by (simp_all add: recording_dispatcher_def plain_dispatcher_def)
  have cmd: "mirrors (case find_command (recording_dispatcher uc cl repo) (command_name t) of
        None \<Rightarrow> Pair None | Some run \<Rightarrow> andthen (run c t) (\<lambda>r. Pair (Some r)))
      (case find_command (plain_dispatcher uc cl repo) (command_name t) of
        None \<Rightarrow> Pair None | Some run \<Rightarrow> andthen (run c t) (\<lambda>r. Pair (Some r)))"
    using find_command_mirrors [of uc cl repo "command_name t"]
    by (auto simp: rel_option_iff intro: mirrors_intros split: option.splits)
  show ?thesis unfolding dispatch_def fields by (intro mirrors_intros cmd)
qed

lemma bot_run_unrecorded:
  assumes "bot_run (recording_send send) (recording_dispatcher uc cl repo) updates s = (r, s')"
  shows "bot_run send (plain_dispatcher uc cl repo) updates (unrecorded s) = (r, unrecorded s')"
  using assms
proof (induction updates arbitrary: s)
  case (Cons u updates)
  show ?case
  proof (cases u)
    case None
    with Cons show ?thesis by simp
  next
    case (Some m)
    obtain c t where m: "m = (c, t)" by fastforce
    obtain rep s1 where run: "dispatch (recording_dispatcher uc cl repo) c t s = (rep, s1)" by fastforce
    note plain = mirrorsD [OF mirrors_dispatch run]
    have sent: "unrecorded (s1\<lparr>bs_world := recording_send send c x (bs_world s1)\<rparr>) =
        (unrecorded s1)\<lparr>bs_world := send c x (bs_world (unrecorded s1))\<rparr>" for x
      by (simp add: unrecorded_def recording_send_def)
    show ?thesis
      using Cons.prems Cons.IH by (cases rep) (auto simp: Some m run plain sent [symmetric] split: if_splits)
  qed
qed simp

section \<open>From a chat to the tracker\<close>

text \<open>A bot whose client of the scrapper serves the calls, with the calls it made.\<close>

lemma bot_run_served:
  assumes repo: "repo \<in> {sql_sessions_repo, orm_sessions_repo}" and cl: "serves_calls P I cl"
    and send: "\<And>cs w c t. I cs w \<Longrightarrow> I cs (send c t w)"
    and s: "bs_sessions s = \<lparr>ss_rows = [], ss_faults = []\<rparr>" "I [] (bs_world s)"
    and P: "\<forall>c. \<forall>x \<in> set (snd (chat_run uc c (own_messages c updates) Idle)). P x"
    and run: "bot_run send (plain_dispatcher uc cl repo) updates s = (r, s')"
  shows "r = Some () \<and>
    (\<forall>c. session_view (bs_sessions s') c = session_of c (fst (chat_run uc c (own_messages c updates) Idle))) \<and>
    (\<exists>cs. I cs (bs_world s') \<and> (\<forall>c. filter (\<lambda>x. call_chat x = c) cs = snd (chat_run uc c (own_messages c updates) Idle)))"
proof -
  let ?s = "\<lparr>bs_sessions = bs_sessions s, bs_world = \<lparr>rc_calls = [], rc_inner = bs_world s\<rparr>\<rparr>"
  have un: "unrecorded ?s = s" by (simp add: unrecorded_def)
  have view: "session_view (bs_sessions s) = (\<lambda>c. None)" using s(1) by (simp add: fun_eq_iff session_view_def)
  have start: "sql_sessions.shows_as I ?s (\<lambda>c. None, [])" "orm_sessions.shows_as I ?s (\<lambda>c. None, [])"
    using s view by (simp_all add: sql_sessions.shows_as_def orm_sessions.shows_as_def)
  have idle: "\<forall>c. None = session_of c Idle" by (simp add: session_of_def)
  have "\<exists>s1 v cs. bot_run (recording_send send) (recording_dispatcher uc cl repo) updates ?s = (Some (), s1) \<and>
      session_view (bs_sessions s1) = v \<and> I cs (rc_inner (bs_world s1)) \<and>
      (\<forall>c. v c = session_of c (fst (chat_run uc c (own_messages c updates) Idle)) \<and>
         filter (\<lambda>x. call_chat x = c) cs = snd (chat_run uc c (own_messages c updates) Idle))"
    using repo
  proof (elim insertE emptyE)
    assume "repo = sql_sessions_repo"
    with sql_sessions.runs_messages [OF cl send start(1) idle P] show ?thesis
      by (fastforce simp: sql_sessions.shows_as_def)
  next
    assume "repo = orm_sessions_repo"
    with orm_sessions.runs_messages [OF cl send start(2) idle P] show ?thesis
      by (fastforce simp: orm_sessions.shows_as_def)
  qed
  then obtain s1 cs where s1: "bot_run (recording_send send) (recording_dispatcher uc cl repo) updates ?s = (Some (), s1)"
    "I cs (rc_inner (bs_world s1))"
    "\<forall>c. session_view (bs_sessions s1) c = session_of c (fst (chat_run uc c (own_messages c updates) Idle)) \<and>
       filter (\<lambda>x. call_chat x = c) cs = snd (chat_run uc c (own_messages c updates) Idle)" by blast
  have "r = Some ()" "s' = unrecorded s1" using bot_run_unrecorded [OF s1(1)] run un by simp_all
  with s1(2,3) show ?thesis by (auto simp: unrecorded_def)
qed

text \<open>What the bot's main is given of the scrapper: the network of its HTTP client, and the stub.\<close>

definition bot_reaches ::
    "'w bot_library \<Rightarrow> bot_config \<Rightarrow> (duration \<Rightarrow> http_request \<Rightarrow> ('w, http_response) eff) \<Rightarrow> 'w scrapper_stub \<Rightarrow> api_json \<Rightarrow> bool" where
  "bot_reaches lib cfg exchange stub aj \<longleftrightarrow>
     bl_http_do lib = exchange \<and> documented_retry (bl_retrier lib) \<and> (\<forall>settings. documented_breaker (bl_gobreaker lib settings)) \<and>
     0 \<le> rcMaxAttempts (bcfScrapperHTTPRetry cfg) \<and> json_agree (bl_json lib) aj \<and> bl_grpc lib (bcfScrapperGRPCAddr cfg) = Inr stub"

lemma bot_start_dispatcher:
  assumes start: "bot_start uc lib buckets clock unm decode cfg = Inr parts" and net: "bot_reaches lib cfg exchange stub aj"
  obtains c repo where "bp_dispatcher parts =
      plain_dispatcher uc (fallback_scrapper_client (http_scrapper_client c) (grpc_scrapper_client stub)) repo"
    "repo \<in> {sql_sessions_repo, orm_sessions_repo}" "client_over c exchange" "hcBaseURL c = bcfScrapperURL cfg" "hcJSON c = bl_json lib"
proof -
  let ?c = "new_scrapper_client (bl_http_do lib) (bl_retrier lib) (bl_gobreaker lib) (bl_json lib) (bcfScrapperURL cfg)
      (bcfScrapperHTTPTimeout cfg) (bcfScrapperHTTPRetry cfg) (bcfScrapperHTTPCircuitBreaker cfg)"
  have "client_over ?c exchange" "hcBaseURL ?c = bcfScrapperURL cfg" "hcJSON ?c = bl_json lib"
    using net by (auto simp: client_over_def bot_reaches_def new_scrapper_client_def normalize_retry_config_def Let_def)
  moreover have "bot_scrapper_client lib cfg = fallback_scrapper_client (http_scrapper_client ?c) (grpc_scrapper_client stub)"
    using net by (simp add: bot_scrapper_client_def bot_reaches_def bot_http_client_def)
  moreover obtain repo where "bp_dispatcher parts = plain_dispatcher uc (bot_scrapper_client lib cfg) repo"
    "repo \<in> {sql_sessions_repo, orm_sessions_repo}"
    using start by (auto simp: bot_start_def bot_session_repository_def plain_dispatcher_def Let_def
        split: option.splits sum.splits if_splits)
  ultimately show thesis using that by simp
qed


definition example_bot_library ::
    "(duration \<Rightarrow> http_request \<Rightarrow> ('w, http_response) eff) \<Rightarrow> 'w scrapper_stub \<Rightarrow> 'w bot_library" where
  "example_bot_library exchange stub =
     \<lparr>bl_telegram = (\<lambda>_. None), bl_http_do = exchange, bl_retrier = plain_retrier, bl_gobreaker = (\<lambda>_. Some (\<lambda>op. op)),
      bl_json = packed_client_json, bl_grpc = (\<lambda>_. Inr stub), bl_sql_open = (\<lambda>_. None), bl_sql_ping = None,
      bl_gorm_open = (\<lambda>_. None), bl_consumer_err = None, bl_dlq_err = None, bl_decoder = (\<lambda>_ _. Inl ErrUnexpectedError)\<rparr>"

definition example_svc :: "(db, valkey) link_service" where
  "example_svc = new_link_service_with_cache orm_store
     (valkey_cache \<lparr>client_side_cache_enabled = True, client_side_cache_ttl = 5000\<rparr>) 60000 (codec_of []) latin1_tables"

definition example_exchange :: "duration \<Rightarrow> http_request \<Rightarrow> ((db, valkey) services \<times> net_fault list, http_response) eff" where
  "example_exchange = wired (new_router (\<lambda>_. reply_status 404) packed_api_json example_svc sql_tag_ops) ''http://scrapper''"


end
