(* ===== verification/Go_Float_Bounds.thy ===== *)
theory Go_Float_Bounds
  imports Go_Float
begin

text \<open>
  Rounding to a \<open>float64\<close> never leaves an interval between whole numbers below \<open>2 ^ 53\<close>, which are
  represented exactly: what makes an index computed in floating point one of the list.
\<close>

lemma bit_length_bounds:
  assumes "0 < n"
  shows "0 < bit_length n \<and> 2 ^ nat (bit_length n - 1) \<le> n \<and> n < 2 ^ nat (bit_length n)"
  using assms
proof (induction n rule: bit_length.induct)
  case (1 n)
  show ?case
  proof (cases "n = 1")
    case True
    have "bit_length 1 = 1" by (subst bit_length.simps) (simp add: bit_length.simps)
    with True show ?thesis by simp
  next
    case False
    with 1 have IH: "0 < bit_length (n div 2)" "2 ^ nat (bit_length (n div 2) - 1) \<le> n div 2" "n div 2 < 2 ^ nat (bit_length (n div 2))"
      by simp_all
    have step: "bit_length n = 1 + bit_length (n div 2)" using 1 by (subst bit_length.simps) simp
    obtain k where k: "nat (bit_length (n div 2)) = Suc k" using IH(1) by (cases "nat (bit_length (n div 2))") auto
    have "nat (bit_length n - 1) = Suc k" "nat (bit_length n) = Suc (Suc k)" "nat (bit_length (n div 2) - 1) = k"
      using step k IH(1) by auto
    note nats = this
    define P :: int where "P = 2 ^ k"
    have "P \<le> n div 2" "n div 2 < 2 * P" using IH(2,3) nats(3) k by (simp_all add: P_def)
    then have "2 * P \<le> n" "n < 4 * P" by linarith+
    with step IH(1) nats(1,2) show ?thesis by (simp add: P_def)
  qed
qed

lemma pow2_add: "pow2 (a + b) = pow2 a * pow2 b"
proof -
  have eq: "pow2 e = 2 powi e" for e by (simp add: pow2_def power_int_def field_simps)
  show ?thesis unfolding eq by (simp add: power_int_add)
qed

lemma pow2_positive [simp]: "0 < pow2 e"
  by (simp add: pow2_def)

lemma pow2_nat: "0 \<le> e \<Longrightarrow> pow2 e = of_int (2 ^ nat e)"
  by (simp add: pow2_def)

lemma pow2_mono:
  assumes "a \<le> b"
  shows "pow2 a \<le> pow2 b"
proof -
  have "pow2 b = pow2 a * pow2 (b - a)" by (simp flip: pow2_add)
  moreover have "1 \<le> pow2 (b - a)" using assms by (simp add: pow2_def)
  ultimately show ?thesis using pow2_positive [of a] by (metis less_imp_le mult_left_mono mult_1_right)
qed

lemma exponent_below:
  assumes "0 < a"
  shows "pow2 (exponent a) \<le> a"
proof -
  obtain p q where pq: "quotient_of a = (p, q)" by fastforce
  have q: "0 < q" and a: "a = of_int p / of_int q" using quotient_of_denom_pos [OF pq] quotient_of_div [OF pq] by auto
  have p: "0 < p" using assms q unfolding a by (simp add: zero_less_divide_iff)
  let ?e = "bit_length p - bit_length q"
  have "pow2 (?e - 1) \<le> a"
  proof -
    note bp = bit_length_bounds [OF p] and bq = bit_length_bounds [OF q]
    have "(of_int (2 ^ nat (bit_length p - 1)) :: rat) \<le> of_int p" "(of_int q :: rat) \<le> of_int (2 ^ nat (bit_length q))"
      using bp bq by (simp_all only: of_int_le_iff) simp_all
    then have "pow2 (bit_length p - 1) \<le> of_int p" "of_int q \<le> pow2 (bit_length q)"
      using bp bq by (simp_all add: pow2_nat)
    moreover have "pow2 (bit_length p - 1) = pow2 (?e - 1) * pow2 (bit_length q)" by (simp flip: pow2_add)
    ultimately have "pow2 (?e - 1) * of_int q \<le> of_int p"
      by (smt (verit) mult_left_mono pow2_positive less_imp_le order_trans)
    then show ?thesis using q unfolding a by (simp add: pos_le_divide_eq)
  qed
  then show ?thesis by (simp add: exponent_def pq Let_def)
qed

lemma round_even_between: "of_int m \<le> x \<Longrightarrow> m \<le> round_even x" "x \<le> of_int n \<Longrightarrow> round_even x \<le> n"
proof -
  show "m \<le> round_even x" if "of_int m \<le> x"
  proof -
    have "m \<le> \<lfloor>x\<rfloor>" using that by (simp add: le_floor_iff)
    then show ?thesis by (simp add: round_even_def Let_def)
  qed
  show "round_even x \<le> n" if "x \<le> of_int n"
  proof (cases "x = of_int n")
    case True
    then show ?thesis by (simp add: round_even_def)
  next
    case False
    with that have "\<lfloor>x\<rfloor> + 1 \<le> n" by linarith
    then show ?thesis by (simp add: round_even_def Let_def)
  qed
qed

lemma round64_between:
  assumes "0 \<le> m" "of_int m \<le> x" "x \<le> of_int n" "n < 2 ^ 53"
  obtains v where "round64 x = Fin v" "of_int m \<le> v" "v \<le> of_int n"
proof (cases "x = 0")
  case True
  then show thesis using assms that [of 0] by (simp add: round64_def)
next
  case False
  with assms(1,2) have x: "0 < x" by (smt (verit) of_int_nonneg less_le order_trans)
  define k where "k = nat (52 - max (- 1022) (exponent x))"
  have "exponent x \<le> 52"
  proof (rule ccontr)
    assume "\<not> exponent x \<le> 52"
    then have "pow2 53 \<le> x" using exponent_below [OF x] pow2_mono [of 53 "exponent x"] by linarith
    then have "(of_int (2 ^ 53) :: rat) \<le> of_int n" using assms(3) by (simp add: pow2_def)
    with assms(4) show False by (simp only: of_int_le_iff)
  qed
  then have unit: "pow2 (max (- 1022) (exponent x) - 52) = 1 / 2 ^ k" by (auto simp: pow2_def k_def)
  define r where "r = round_even (x * 2 ^ k)"
  have "of_int (m * 2 ^ k) \<le> x * 2 ^ k" "x * 2 ^ k \<le> of_int (n * 2 ^ k)" using assms(2,3) by simp_all
  from round_even_between(1) [OF this(1)] round_even_between(2) [OF this(2)]
  have r: "m * 2 ^ k \<le> r" "r \<le> n * 2 ^ k" by (simp_all add: r_def)
  have "(of_int (m * 2 ^ k) :: rat) \<le> of_int r" "(of_int r :: rat) \<le> of_int (n * 2 ^ k)" using r by (simp_all only: of_int_le_iff)
  then have v: "of_int m \<le> (of_int r :: rat) / 2 ^ k" "(of_int r :: rat) / 2 ^ k \<le> of_int n"
    by (simp_all add: pos_le_divide_eq pos_divide_le_eq)
  have "(of_int n :: rat) < 2 ^ 1024"
  proof -
    have "(of_int n :: rat) < of_int (2 ^ 1024)" using assms(4) by (simp only: of_int_less_iff) simp
    then show ?thesis by simp
  qed
  with v have "\<not> 2 ^ 1024 \<le> (of_int r :: rat) / 2 ^ k" by linarith
  then have "round64 x = Fin (of_int r / 2 ^ k)" using x by (simp add: round64_def Let_def unit r_def)
  with v show thesis using that by blast
qed

lemma float_of_int_exact:
  assumes "0 \<le> n" "n < 2 ^ 53"
  shows "float_of_int n = Fin (of_int n)"
  using assms by (auto simp: float_of_int_def elim!: round64_between [of n "of_int n" n])

end
