(* ===== verification/Load_Runner.thy ===== *)
theory Load_Runner
  imports Bot_Tracking Go_Float_Bounds
begin

text \<open>
  \<open>load-tests/runner/main.go\<close>, the tool that puts load on a scrapper: its configuration, the workers' requests
  and the report of what came back.  The source of random numbers, the clock, JSON and the exchange (making the
  request included) are arguments; printing and the rate per second are left out.
  Durations are integers: the sums here are far below the 292 years that a \<open>time.Duration\<close> holds.
\<close>

section \<open>Configuration\<close>

record load_config =
  ldBaseURL :: string
  ldUsers :: int
  ldChatCount :: int
  ldDuration :: duration
  ldRampUp :: duration
  ldGetRatio :: int
  ldMutationRatio :: int

text \<open>Unlike the programs of the service, the tool takes the default for a value that is no number.\<close>

definition load_env :: "(string \<Rightarrow> string) \<Rightarrow> string \<Rightarrow> string \<Rightarrow> string" where
  "load_env env key fallback = (let value = env key in if value = [] then fallback else value)"

definition load_env_int :: "(string \<Rightarrow> string) \<Rightarrow> string \<Rightarrow> int \<Rightarrow> int" where
  "load_env_int env key fallback =
     (let value = env key in
      if value = [] then fallback else (case parse_int64 value of Inl _ \<Rightarrow> fallback | Inr n \<Rightarrow> n))"

definition load_env_duration :: "(string \<Rightarrow> string) \<Rightarrow> string \<Rightarrow> duration \<Rightarrow> duration" where
  "load_env_duration env key fallback =
     (let value = env key in
      if value = [] then fallback else (case parse_duration value of Inl _ \<Rightarrow> fallback | Inr d \<Rightarrow> d))"

definition load_config_of :: "(string \<Rightarrow> string) \<Rightarrow> load_config" where
  "load_config_of env =
     \<lparr>ldBaseURL = load_env env ''SCRAPPER_URL'' ''http://localhost:8081'',
      ldUsers = load_env_int env ''LOAD_USERS'' 16,
      ldChatCount = load_env_int env ''LOAD_CHAT_COUNT'' 1000,
      ldDuration = load_env_duration env ''LOAD_DURATION'' (seconds 300),
      ldRampUp = load_env_duration env ''LOAD_RAMP_UP'' (seconds 60),
      ldGetRatio = load_env_int env ''LOAD_GET_RATIO'' 100,
      ldMutationRatio = load_env_int env ''LOAD_MUTATION_RATIO'' 1\<rparr>"

text \<open>Division of Go, towards zero.\<close>

definition go_quot :: "int \<Rightarrow> int \<Rightarrow> int" where
  "go_quot a b = (if (a < 0) = (b < 0) then \<bar>a\<bar> div \<bar>b\<bar> else - (\<bar>a\<bar> div \<bar>b\<bar>))"

definition start_delay :: "load_config \<Rightarrow> int \<Rightarrow> duration" where
  "start_delay cfg worker = go_quot (worker * ldRampUp cfg) (ldUsers cfg)"

section \<open>Workers\<close>

record load_result =
  lrRequest :: string
  lrStatus :: int
  lrLatency :: duration
  lrErr :: "go_error option"

record 'w load_world =
  lw_now :: "'w \<Rightarrow> instant"
  lw_exchange :: "duration \<Rightarrow> http_request \<Rightarrow> ('w, http_response) eff"
  lw_marshal :: "string \<Rightarrow> string list \<Rightarrow> string result"

definition load_call :: "'w load_world \<Rightarrow> string \<Rightarrow> http_request \<Rightarrow> 'w \<Rightarrow> load_result \<times> 'w" where
  "load_call lw name req w =
     (case lw_exchange lw (seconds 10) req w of
        (Inl e, w1) \<Rightarrow> (\<lparr>lrRequest = name, lrStatus = 0, lrLatency = lw_now lw w1 - lw_now lw w, lrErr = Some e\<rparr>, w1)
      | (Inr resp, w1) \<Rightarrow>
          (\<lparr>lrRequest = name, lrStatus = rsStatus resp, lrLatency = lw_now lw w1 - lw_now lw w, lrErr = None\<rparr>, w1))"

definition do_get_list :: "'w load_world \<Rightarrow> string \<Rightarrow> int \<Rightarrow> 'w \<Rightarrow> load_result \<times> 'w" where
  "do_get_list lw base chat =
     load_call lw ''GET /list''
       \<lparr>rqMethod = ''GET'', rqURL = base @ ''/list'', rqHeaders = [(''Tg-Chat-Id'', format_int chat)], rqBody = []\<rparr>"

definition load_url :: "instant \<Rightarrow> int \<Rightarrow> string" where
  "load_url now worker =
     ''https://stackoverflow.com/questions/'' @ format_int (now mod 1000000000) @ ''/load-test-question-'' @ format_int worker"

definition do_post_list :: "'w load_world \<Rightarrow> string \<Rightarrow> int \<Rightarrow> int \<Rightarrow> 'w \<Rightarrow> load_result \<times> 'w" where
  "do_post_list lw base chat worker w =
     (case lw_marshal lw (load_url (lw_now lw w) worker) [''load''] of
        Inl e \<Rightarrow> (\<lparr>lrRequest = ''POST /links'', lrStatus = 0, lrLatency = 0, lrErr = Some e\<rparr>, w)
      | Inr body \<Rightarrow>
          load_call lw ''POST /links''
            \<lparr>rqMethod = ''POST'', rqURL = base @ ''/links'',
             rqHeaders = [(''Content-Type'', ''application/json''), (''Tg-Chat-Id'', format_int chat)], rqBody = body\<rparr> w)"

text \<open>
  One turn of a worker with what the source of random numbers draws for it, below the number of chats
  and below the sum of the ratios; it panics when one of these is not positive.
\<close>

definition worker_turn :: "'w load_world \<Rightarrow> load_config \<Rightarrow> int \<Rightarrow> int \<times> int \<Rightarrow> 'w \<Rightarrow> (load_result \<times> 'w) option" where
  "worker_turn lw cfg worker draw w =
     (if ldChatCount cfg \<le> 0 \<or> ldGetRatio cfg + ldMutationRatio cfg \<le> 0 then None
      else
        (let chat = fst draw + 1; operation = snd draw in
         Some (if operation < ldGetRatio cfg then do_get_list lw (ldBaseURL cfg) chat w
               else do_post_list lw (ldBaseURL cfg) chat worker w)))"

text \<open>The turns until the context is done.\<close>

fun run_worker :: "'w load_world \<Rightarrow> load_config \<Rightarrow> int \<Rightarrow> (int \<times> int) list \<Rightarrow> 'w \<Rightarrow> (load_result list \<times> 'w) option" where
  "run_worker lw cfg worker [] w = Some ([], w)"
| "run_worker lw cfg worker (d # ds) w =
     (case worker_turn lw cfg worker d w of
        None \<Rightarrow> None
      | Some (r, w1) \<Rightarrow>
          (case run_worker lw cfg worker ds w1 of None \<Rightarrow> None | Some (rs, w2) \<Rightarrow> Some (r # rs, w2)))"

section \<open>The report\<close>

definition average :: "duration list \<Rightarrow> duration" where
  "average xs = (if length xs = 0 then 0 else go_quot (sum_list xs) (int (length xs)))"

definition percentile_index :: "nat \<Rightarrow> float64 \<Rightarrow> int" where
  "percentile_index n p = trunc64 (mult64 (float_of_int (int n - 1)) p)"

definition percentile :: "duration list \<Rightarrow> float64 \<Rightarrow> duration" where
  "percentile xs p = (if length xs = 0 then 0 else xs ! nat (percentile_index (length xs) p))"

record load_counts =
  lcOK :: nat
  lcGateway :: nat
  lcServer :: nat
  lcErrors :: nat
  lcOther :: "int \<Rightarrow> nat"

text \<open>A status that is not in the map of the others reads as 0.\<close>

definition no_counts :: load_counts where
  "no_counts = \<lparr>lcOK = 0, lcGateway = 0, lcServer = 0, lcErrors = 0, lcOther = (\<lambda>_. 0)\<rparr>"

definition count_result :: "load_result \<Rightarrow> load_counts \<Rightarrow> load_counts" where
  "count_result r c =
     (if lrErr r \<noteq> None then c\<lparr>lcErrors := lcErrors c + 1\<rparr>
      else if lrStatus r = 200 then c\<lparr>lcOK := lcOK c + 1\<rparr>
      else if lrStatus r = 502 \<or> lrStatus r = 504 then c\<lparr>lcGateway := lcGateway c + 1\<rparr>
      else if lrStatus r = 500 then c\<lparr>lcServer := lcServer c + 1\<rparr>
      else if lrStatus r \<noteq> 0 then c\<lparr>lcOther := (lcOther c)(lrStatus r := lcOther c (lrStatus r) + 1)\<rparr>
      else c)"

record load_row =
  lwCounts :: load_counts
  lwAverage :: duration
  lwP50 :: duration
  lwP99 :: duration

definition p50 :: float64 where "p50 = round64 (1 / 2)"
definition p99 :: float64 where "p99 = round64 (99 / 100)"

definition row_of :: "load_result list \<Rightarrow> load_row" where
  "row_of items =
     (let latencies = sort (map lrLatency items) in
      \<lparr>lwCounts = fold count_result items no_counts, lwAverage = average latencies,
       lwP50 = percentile latencies p50, lwP99 = percentile latencies p99\<rparr>)"

text \<open>The rows by their request.\<close>

definition grouped_results :: "load_result list \<Rightarrow> string \<Rightarrow> load_result list option" where
  "grouped_results results =
     fold (\<lambda>r m. m(lrRequest r \<mapsto> (case m (lrRequest r) of None \<Rightarrow> [] | Some rs \<Rightarrow> rs) @ [r])) results Map.empty"

definition load_report :: "load_result list \<Rightarrow> string \<Rightarrow> load_row option" where
  "load_report results request = map_option row_of (grouped_results results request)"

text \<open>What is counted, exactly.\<close>

lemma grouped_results_eq:
  "grouped_results results q =
     (let items = filter (\<lambda>r. lrRequest r = q) results in if items = [] then None else Some items)"
proof -
  have "fold (\<lambda>r m. m(lrRequest r \<mapsto> (case m (lrRequest r) of None \<Rightarrow> [] | Some rs \<Rightarrow> rs) @ [r])) results m q =
      (let items = filter (\<lambda>r. lrRequest r = q) results
       in if items = [] then m q else Some ((case m q of None \<Rightarrow> [] | Some rs \<Rightarrow> rs) @ items))" for m
    by (induction results arbitrary: m) (auto simp: Let_def)
  then show ?thesis by (simp add: grouped_results_def Let_def)
qed

definition answered_with :: "(int \<Rightarrow> bool) \<Rightarrow> load_result list \<Rightarrow> nat" where
  "answered_with P items = length (filter (\<lambda>r. lrErr r = None \<and> P (lrStatus r)) items)"

lemma fold_count_result:
  defines "f \<equiv> \<lambda>items. fold count_result items"
  shows "lcOK (f items c) = lcOK c + answered_with (\<lambda>s. s = 200) items"
    "lcGateway (f items c) = lcGateway c + answered_with (\<lambda>s. s \<in> {502, 504}) items"
    "lcServer (f items c) = lcServer c + answered_with (\<lambda>s. s = 500) items"
    "lcErrors (f items c) = lcErrors c + length (filter (\<lambda>r. lrErr r \<noteq> None) items)"
    "lcOther (f items c) s = lcOther c s + (if s \<in> {200, 502, 504, 500, 0} then 0 else answered_with (\<lambda>t. t = s) items)"
  by (induction items arbitrary: c) (auto simp: f_def count_result_def answered_with_def)

lemma go_quot_nonneg: "0 \<le> a \<Longrightarrow> 0 < b \<Longrightarrow> go_quot a b = a div b"
  by (simp add: go_quot_def)

lemma average_between:
  assumes "xs \<noteq> []" "\<And>x. x \<in> set xs \<Longrightarrow> 0 \<le> a \<and> a \<le> x \<and> x \<le> b"
  shows "a \<le> average xs \<and> average xs \<le> b"
proof -
  have "a * int (length xs) \<le> sum_list xs \<and> sum_list xs \<le> b * int (length xs)"
  proof -
    have "\<forall>x \<in> set xs. a \<le> x \<and> x \<le> b" using assms(2) by blast
    then show ?thesis by (induction xs) (auto simp: algebra_simps intro: add_mono)
  qed
  moreover have "0 \<le> a" using assms by (metis list.set_intros(1) neq_Nil_conv)
  ultimately have "average xs = sum_list xs div int (length xs)" "a * int (length xs) \<le> sum_list xs" "sum_list xs \<le> b * int (length xs)"
    using assms(1) by (auto simp: average_def intro!: go_quot_nonneg) (meson mult_nonneg_nonneg of_nat_0_le_iff order_trans)
  then show ?thesis
    using assms(1) zdiv_mono1 [of "a * int (length xs)" "sum_list xs" "int (length xs)"]
      zdiv_mono1 [of "sum_list xs" "b * int (length xs)" "int (length xs)"] by simp
qed

lemma percentiles: "p50 = Fin (1 / 2)" "\<exists>x. p99 = Fin x \<and> 98 / 100 \<le> x \<and> x \<le> 1"
proof -
  show "p50 = Fin (1 / 2)" by code_simp
  have "(case p99 of Fin x \<Rightarrow> 98 / 100 \<le> x \<and> x \<le> 1 | _ \<Rightarrow> False)" by code_simp
  then show "\<exists>x. p99 = Fin x \<and> 98 / 100 \<le> x \<and> x \<le> 1" by (auto split: float64.splits)
qed

text \<open>The indices of the percentiles are indices of the list, in order.\<close>

lemma percentile_index_between:
  assumes "0 \<le> x" "0 \<le> l" "of_int l \<le> of_int k * x" "of_int k * x \<le> of_int u" "u < 2 ^ 53" "int n - 1 = k" "0 \<le> k" "k < 2 ^ 53"
  shows "l \<le> percentile_index n (Fin x) \<and> percentile_index n (Fin x) \<le> u"
proof -
  obtain v where v: "round64 (of_int k * x) = Fin v" "of_int l \<le> v" "v \<le> of_int u"
    using round64_between [OF assms(2,3,4,5)] by blast
  have "percentile_index n (Fin x) = \<lfloor>v\<rfloor>"
    using assms(6-8) v(1) by (simp add: percentile_index_def float_of_int_exact)
  with v show ?thesis by (simp add: le_floor_iff floor_le_iff)
qed

lemma percentile_indices:
  assumes "0 < n" "int n \<le> 2 ^ 53"
  shows "0 \<le> percentile_index n p50 \<and> percentile_index n p50 \<le> percentile_index n p99 \<and> percentile_index n p99 < int n"
proof -
  define k where "k = int n - 1"
  have k: "int n - 1 = k" "0 \<le> k" "k < 2 ^ 53"
    using assms by (simp_all add: k_def)
  obtain x where x: "p99 = Fin x" "98 / 100 \<le> x" "x \<le> 1" using percentiles(2) by blast
  have k0: "(0 :: rat) \<le> of_int k" using k(2) by simp
  have kx: "of_int k * (98 / 100) \<le> of_int k * x" "of_int k * x \<le> of_int k"
    using mult_left_mono [OF x(2) k0] mult_left_mono [OF x(3) k0] by simp_all
  define h where "h = (k + 1) div 2"
  have half: "(of_int (k div 2) :: rat) \<le> of_int k * (1 / 2)" "of_int k * (1 / 2) \<le> (of_int h :: rat)"
  proof -
    have "(of_int (2 * (k div 2)) :: rat) \<le> of_int k" by (simp only: of_int_le_iff)
    moreover have "(of_int k :: rat) \<le> of_int (2 * h)" unfolding h_def by (simp only: of_int_le_iff)
    ultimately show "(of_int (k div 2) :: rat) \<le> of_int k * (1 / 2)" "of_int k * (1 / 2) \<le> (of_int h :: rat)" by simp_all
  qed
  have p50: "k div 2 \<le> percentile_index n p50" "percentile_index n p50 \<le> h"
  proof -
    have "0 \<le> k div 2" "h < 2 ^ 53" using k(2,3) by (simp_all add: h_def)
    then show "k div 2 \<le> percentile_index n p50" "percentile_index n p50 \<le> h"
      using percentile_index_between [OF _ _ half _ k] unfolding percentiles(1) by simp_all
  qed
  have p99: "l \<le> percentile_index n p99 \<and> percentile_index n p99 \<le> k" if "0 \<le> l" "of_int l \<le> (of_int k :: rat) * (98 / 100)" for l
  proof -
    have "0 \<le> x" using x(2) by linarith
    moreover have "of_int l \<le> of_int k * x" using that(2) kx(1) by (rule order_trans)
    ultimately show ?thesis unfolding x(1) using percentile_index_between [OF _ that(1) _ kx(2) k(3) k] by blast
  qed
  have last: "0 \<le> percentile_index n p99" "percentile_index n p99 \<le> k"
  proof -
    have "(of_int 0 :: rat) \<le> of_int k * (98 / 100)" using k0 by simp
    then show "0 \<le> percentile_index n p99" "percentile_index n p99 \<le> k" using p99 [of 0] by blast+
  qed
  have "percentile_index n p50 \<le> percentile_index n p99"
  proof (cases "k \<le> 1")
    case True
    then consider "k = 0" | "k = 1" using k(2) by linarith
    then show ?thesis
    proof cases
      case 1
      then have "h = 0" by (simp add: h_def)
      with p50(2) last(1) show ?thesis by linarith
    next
      case 2
      then have n: "n = 2" using k(1) by linarith
      have "percentile_index 2 p50 = trunc64 (mult64 (Fin 1) p50)"
        using float_of_int_exact [of 1] by (simp add: percentile_index_def)
      also have "\<dots> = trunc64 p50" unfolding percentiles(1) using percentiles(1) by (simp add: p50_def)
      also have "\<dots> = 0" by (simp add: percentiles(1) floor_eq_iff)
      finally have "percentile_index 2 p50 = 0" .
      then have "percentile_index n p50 = 0" unfolding n .
      with last(1) show ?thesis by linarith
    qed
  next
    case False
    have "(of_int (100 * h) :: rat) \<le> of_int (98 * k)" using False unfolding h_def by (simp only: of_int_le_iff)
    then have "of_int h \<le> (of_int k :: rat) * (98 / 100)" by simp
    moreover have "0 \<le> h" using k(2) by (simp add: h_def)
    ultimately have "h \<le> percentile_index n p99" using p99 by blast
    with p50(2) show ?thesis by linarith
  qed
  moreover have "0 \<le> percentile_index n p50" using p50(1) k(2) by linarith
  moreover have "percentile_index n p99 < int n" using last(2) k(1) by linarith
  ultimately show ?thesis by blast
qed

lemma percentile_facts:
  assumes "xs \<noteq> []" "int (length xs) \<le> 2 ^ 53" "sorted xs"
  shows "percentile xs p50 \<in> set xs" "percentile xs p99 \<in> set xs" "percentile xs p50 \<le> percentile xs p99"
proof -
  note i = percentile_indices [of "length xs"]
  have "nat (percentile_index (length xs) p50) \<le> nat (percentile_index (length xs) p99)" "nat (percentile_index (length xs) p99) < length xs"
    using i assms(1,2) by auto
  then show "percentile xs p50 \<in> set xs" "percentile xs p99 \<in> set xs" "percentile xs p50 \<le> percentile xs p99"
    using assms(1,3) by (auto simp: percentile_def sorted_nth_mono)
qed

text \<open>Every row of the report: its counts are those of its results, and its figures are between their latencies.\<close>

lemma load_report_exact:
  assumes "load_report results q = Some row" "int (length results) \<le> 2 ^ 53" "\<forall>r \<in> set results. 0 \<le> lrLatency r"
  defines "items \<equiv> filter (\<lambda>r. lrRequest r = q) results"
  shows "lcOK (lwCounts row) = answered_with (\<lambda>s. s = 200) items"
    "lcGateway (lwCounts row) = answered_with (\<lambda>s. s \<in> {502, 504}) items"
    "lcServer (lwCounts row) = answered_with (\<lambda>s. s = 500) items"
    "lcErrors (lwCounts row) = length (filter (\<lambda>r. lrErr r \<noteq> None) items)"
    "{lwP50 row, lwP99 row} \<subseteq> lrLatency ` set items" "lwP50 row \<le> lwP99 row"
    "Min (lrLatency ` set items) \<le> lwAverage row" "lwAverage row \<le> Max (lrLatency ` set items)"
proof -
  let ?xs = "sort (map lrLatency items)"
  have items: "items \<noteq> []" "row = row_of items"
    using assms(1) by (auto simp: load_report_def grouped_results_eq items_def Let_def split: if_splits)
  then show "lcOK (lwCounts row) = answered_with (\<lambda>s. s = 200) items"
    "lcGateway (lwCounts row) = answered_with (\<lambda>s. s \<in> {502, 504}) items"
    "lcServer (lwCounts row) = answered_with (\<lambda>s. s = 500) items"
    "lcErrors (lwCounts row) = length (filter (\<lambda>r. lrErr r \<noteq> None) items)"
    by (simp_all add: row_of_def Let_def fold_count_result no_counts_def)
  have "length ?xs \<le> length results" by (simp add: items_def)
  then have xs_length: "int (length ?xs) \<le> 2 ^ 53" using assms(2) by linarith
  have "length ?xs \<noteq> 0" using items(1) by simp
  then have xs: "?xs \<noteq> []" "sorted ?xs" "set ?xs = lrLatency ` set items" by (simp only: length_0_conv, simp_all)
  note p = percentile_facts [OF xs(1) xs_length xs(2)]
  show "{lwP50 row, lwP99 row} \<subseteq> lrLatency ` set items" "lwP50 row \<le> lwP99 row"
    using p xs(3) by (auto simp: items(2) row_of_def Let_def)
  have "Min (lrLatency ` set items) \<in> lrLatency ` set items" using items(1) by (intro Min_in) auto
  then have "0 \<le> Min (lrLatency ` set items)" using assms(3) by (auto simp: items_def)
  then have "Min (lrLatency ` set items) \<le> average ?xs \<and> average ?xs \<le> Max (lrLatency ` set items)"
    using xs(1,3) by (intro average_between) (auto simp del: Min_le_iff Max_ge_iff)
  then show "Min (lrLatency ` set items) \<le> lwAverage row" "lwAverage row \<le> Max (lrLatency ` set items)"
    by (simp_all add: items(2) row_of_def Let_def)
qed

section \<open>The requests reach the services\<close>

definition load_request :: "request \<Rightarrow> int \<Rightarrow> bool" where
  "load_request q chat \<longleftrightarrow>
     q = ListLinks chat \<or>
     (\<exists>u. q = AddLink chat \<lparr>linkID = 0, linkURL = u, linkTags = [''load''], linkLastUpdatedAt = time_zero\<rparr>)"

text \<open>What JSON has to do for the tool: the scrapper reads what it writes.\<close>

definition load_json :: "'w load_world \<Rightarrow> api_json \<Rightarrow> bool" where
  "load_json lw aj \<longleftrightarrow> (\<forall>u ts. \<exists>b. lw_marshal lw u ts = Inr b \<and> aj_add_link aj b = Inr (u, ts))"

context tracking_services
begin

text \<open>A turn is one request of its chat, served as every request is.\<close>

lemma load_turn_served:
  assumes net: "lw_exchange lw = wired (new_router unmatched aj svc tags) (ldBaseURL cfg)" and json: "load_json lw aj"
    and chat: "int64 (fst draw + 1)" and run: "worker_turn lw cfg worker draw (s, []) = Some (r, w1)"
  shows "\<exists>q a s1. load_request q (fst draw + 1) \<and> serve svc q s = (a, s1) \<and> w1 = (s1, []) \<and> lrErr r = None \<and>
    lrStatus r = spStatus (reply_of_answer aj q a)"
proof -
  let ?chat = "fst draw + 1"
  have served: "\<exists>q a s1. load_request q ?chat \<and> serve svc q s = (a, s1) \<and> w1 = (s1, []) \<and> lrErr r = None \<and>
      lrStatus r = spStatus (reply_of_answer aj q a)"
    if q: "request_of_http aj (to_server (ldBaseURL cfg) req) = Some q" "load_request q ?chat"
      and "load_call lw name req (s, []) = (r, w1)" for q req name
  proof -
    obtain a s1 where a: "serve svc q s = (a, s1)" by fastforce
    have "w1 = (s1, []) \<and> lrErr r = None \<and> lrStatus r = spStatus (reply_of_answer aj q a)"
      using that(3) wired_serves [OF q(1) a, of unmatched tags "seconds 10"] by (auto simp: load_call_def net)
    with q(2) a show ?thesis by blast
  qed
  have get: "request_of_http aj (to_server (ldBaseURL cfg)
      \<lparr>rqMethod = ''GET'', rqURL = ldBaseURL cfg @ ''/list'', rqHeaders = [(''Tg-Chat-Id'', format_int ?chat)], rqBody = []\<rparr>) = Some (ListLinks ?chat)"
    using chat by (simp add: request_of_http_def to_server_def get_chat_id_from_request_def has_prefix_def trim_prefix_def
        parse_format_int64 int64_def)
  have post: "request_of_http aj (to_server (ldBaseURL cfg)
      \<lparr>rqMethod = ''POST'', rqURL = ldBaseURL cfg @ ''/links'',
       rqHeaders = [(''Content-Type'', ''application/json''), (''Tg-Chat-Id'', format_int ?chat)], rqBody = b\<rparr>) =
      Some (AddLink ?chat \<lparr>linkID = 0, linkURL = u, linkTags = ts, linkLastUpdatedAt = time_zero\<rparr>)"
    if "aj_add_link aj b = Inr (u, ts)" for b u ts
    using chat that by (simp add: request_of_http_def to_server_def get_chat_id_from_request_def has_prefix_def trim_prefix_def
        parse_format_int64 int64_def)
  show ?thesis
  proof (cases "snd draw < ldGetRatio cfg")
    case True
    then have "do_get_list lw (ldBaseURL cfg) ?chat (s, []) = (r, w1)" using run by (auto simp: worker_turn_def Let_def split: if_splits)
    then show ?thesis unfolding do_get_list_def by (rule served [OF get, rotated]) (simp add: load_request_def)
  next
    case False
    let ?u = "load_url (lw_now lw (s, [])) worker"
    obtain b where b: "lw_marshal lw ?u [''load''] = Inr b" "aj_add_link aj b = Inr (?u, [''load''])" using json unfolding load_json_def by blast
    have "do_post_list lw (ldBaseURL cfg) ?chat worker (s, []) = (r, w1)"
      using run False by (auto simp: worker_turn_def Let_def split: if_splits)
    then show ?thesis unfolding do_post_list_def b(1) sum.case by (rule served [OF post [OF b(2)], rotated]) (simp add: load_request_def)
  qed
qed

text \<open>The tool registers no chats: requests of chats that are not registered are all refused.\<close>

lemma run_worker_unregistered:
  assumes net: "lw_exchange lw = wired (new_router unmatched aj svc tags) (ldBaseURL cfg)" and json: "load_json lw aj"
    and draws: "\<forall>d \<in> set draws. int64 (fst d + 1) \<and> fst d + 1 \<notin> tk_chats t"
    and "holds s t" "run_worker lw cfg worker draws (s, []) = Some (rs, w1)"
  shows "(\<exists>s1. w1 = (s1, []) \<and> holds s1 t) \<and> (\<forall>r \<in> set rs. lrErr r = None \<and> lrStatus r = 404) \<and> length rs = length draws"
  using assms(3-5)
proof (induction draws arbitrary: s rs)
  case (Cons d ds)
  obtain r w0 rest where run: "worker_turn lw cfg worker d (s, []) = Some (r, w0)" "run_worker lw cfg worker ds w0 = Some (rest, w1)" "rs = r # rest"
    using Cons.prems(3) by (auto split: option.splits)
  obtain q a s0 where q: "load_request q (fst d + 1)" "serve svc q s = (a, s0)" "w0 = (s0, [])" "lrErr r = None"
    "lrStatus r = spStatus (reply_of_answer aj q a)"
    using load_turn_served [OF net json _ run(1)] Cons.prems(1) by auto
  have "holds s0 (tk_effect q t)" "tk_answer q t a" using serve [OF Cons.prems(2) q(2)] by simp_all
  with q(1) Cons.prems(1) have "holds s0 t" "a = Failed ErrChatNotFound" by (auto simp: load_request_def)
  then have "lrStatus r = 404" using q(1,5) by (auto simp: load_request_def reply_error_def)
  with Cons.IH [of s0 rest] \<open>holds s0 t\<close> Cons.prems(1) q(3,4) run(2,3) show ?case by auto
qed auto

end

text \<open>
  So a load test against a scrapper whose database does not know the chats measures refusals: whatever a
  worker draws, over either storage package, every answer is 404 and no chat's links change.
\<close>

lemma load_without_chats:
  assumes net: "lw_exchange lw = wired (new_router unmatched aj (new_link_service_with_cache store (valkey_cache v) ttl json uc) tags) (ldBaseURL cfg)"
    and "load_json lw aj" "store \<in> {sql_store, orm_store}" "tracks json ttl s t"
    and draws: "\<forall>d \<in> set draws. int64 (fst d + 1) \<and> fst d + 1 \<notin> tk_chats t"
    and run: "run_worker lw cfg worker draws (s, []) = Some (rs, s1, faults)"
  shows "tracker_of (sv_store s1) = t \<and> (\<forall>r \<in> set rs. lrErr r = None \<and> lrStatus r = 404)"
  using assms(3)
proof (elim insertE emptyE)
  assume store: "store = sql_store"
  from sql_tracking.run_worker_unregistered [OF net [unfolded store] assms(2) draws assms(4) run] show ?thesis by (auto simp: tracks_def)
next
  assume store: "store = orm_store"
  from orm_tracking.run_worker_unregistered [OF net [unfolded store] assms(2) draws assms(4) run] show ?thesis by (auto simp: tracks_def)
qed

end
