(* ===== verification/Spec2Isabelle.thy ===== *)
theory Spec2Isabelle
  imports Agent_Pipeline Services_Properties Scheduler_Properties Outbox_Publisher Bot_Properties Notifications
    Config_Properties Deployment Bot_Tracking Load_Runner
begin

text \<open>
  \<^bold>\<open>Link tracker\<close>: a Telegram bot that tells chats when a GitHub repository or a question of Stack Overflow
  they track has something new.  Three programs, in Go, make it up.

  \<^item> The scrapper (\<open>src/scrapper\<close>) keeps chats, links and tags in a database, serves them over HTTP and gRPC,
    looks through all links periodically, asks the external APIs what is new and sends notifications: over
    Kafka, by way of a transactional outbox or directly, or over HTTP or gRPC to the bot.
  \<^item> The agent (\<open>src/agent\<close>) reads the raw notifications from Kafka, drops what is filtered, sets a
    priority, shortens long texts, groups the notifications of a chat for a window of time and
    publishes the groups to a second topic.
  \<^item> The bot (\<open>src/bot\<close>) talks with the chats, keeps the state of their dialogues in its own database, calls
    the scrapper for what they ask, and delivers the notifications it is sent over Kafka, HTTP or gRPC.

  What they share is in \<open>src/pkg\<close>: the notification, errors, Kafka producers and consumer, the Avro codec,
  retries, timeouts, circuit breaker and rate limiter.

  \<^bold>\<open>Conventions\<close> (\<open>Prelude\<close>).  A Go string is a list of bytes.  A function that may return an error gives a
  \<open>result\<close>, \<open>Inl\<close> the error; one that has effects, too, is an \<open>eff\<close>: from a state to a result and the state, with
  \<open>bindE\<close> for the sequence with its early return.  A panic is \<open>None\<close>.  Faults of databases, brokers, caches,
  networks and of Telegram are scripts in their states, which say of the next calls whether they fail and
  whether they take effect all the same; a statement about every state is one about every fault.  Libraries and
  services that are not in the repository are arguments: the HTTP exchange, retry-go, gobreaker, x/time/rate, goavro,
  JSON, the generated gRPC stubs, the table of HTML entities; what a property needs of them is a named hypothesis
  (\<open>documented_retry\<close>, \<open>goavro_documented\<close>, \<open>json_documented\<close>, \<open>json_agree\<close>, \<open>json_round_trip\<close>), with an instance
  in its witness.  Integers of Go are integers where no operation on them can overflow, words of their width
  in the counters of the breaker.

  \<^bold>\<open>The standard library\<close>: \<open>Go_Utf8\<close>, \<open>Go_Strings\<close>, \<open>Go_Time\<close>, \<open>Go_Rfc3339\<close>, \<open>Go_Float\<close> and \<open>Net_Url\<close> model
  what the program uses of \<open>unicode/utf8\<close>, \<open>strings\<close>, \<open>unicode\<close>, \<open>strconv\<close>, \<open>time\<close>, floating point and
  \<open>net/url\<close>, with the round trips the components rest on (runes and bytes, numbers and digits, dates and days,
  instants and their RFC 3339 texts).

  \<^bold>\<open>The scrapper.\<close>
  \<^item> \<open>Scrapper_Db\<close> is the schema of \<open>migrations/scrapper\<close> with its keys and constraints;
    \<open>Sql_Repositories\<close> and \<open>Orm_Repositories\<close> are the two packages \<open>persistence/sql/repositories\<close> and
    \<open>persistence/orm/repositories\<close> on it, operation by operation, transactions included.  \<open>Storage_Properties\<close>:
    the schema holds under any faults, adding is all or nothing, removals are exact, a list gives back what was
    added, and where the packages agree and differ.
  \<^item> \<open>Tracker\<close> is what the storage promises, as relations between sets of chats, subscriptions and tags, and
    the locale \<open>tracker_store\<close>; both packages interpret it.  \<open>List_Cache\<close> is the cache of
    \<open>infrastructure/cache\<close> over a Valkey server with a clock, and the locales \<open>list_cache\<close> and
    \<open>reliable_list_cache\<close>.  \<open>Scrapper_Services\<close> are the chat, link and tag services of
    \<open>application/services\<close> over any storage and cache, with the locale \<open>cached_services\<close> that joins the two
    contracts; \<open>Services_Properties\<close> interprets it on both packages: the services with the cache refine the tracker.
  \<^item> \<open>Scrapper_Api\<close>: the HTTP handlers, the router and the gRPC server; they serve alike.
  \<^item> \<open>Link_Parsers\<close>: the scrapper's and the bot's parser of links, and how they differ.
  \<^item> \<open>Http_Helpers\<close> (retries, timeouts), \<open>Traffic_Limits\<close> (circuit breaker, rate limiter per address),
    \<open>External_Clients\<close> (GitHub and Stack Overflow): the updates of a link are exactly the items after its instant.
  \<^item> \<open>Scheduler\<close>: one pass of \<open>application/services/scheduler.go\<close>; \<open>Scheduler_Facts\<close> has the locale
    \<open>tracking_store\<close>, \<open>Scheduler_Properties\<close> the properties: with the outbox a link's instant moves with its messages
    in one transaction, a pass goes through each link once and ends.  The loop of the pass has fuel; one turn
    more than there are tracked links is enough, and that it returns is part of the property.
  \<^item> \<open>Outbox_Publisher\<close>: a pass of the publisher over the locales \<open>outbox_store\<close> and \<open>raw_producer\<close>; what becomes
    sent is stored, repeated passes drain the outbox once faults end, and messages that can never be encoded
    block it.
  \<^item> \<open>Scrapper_Config\<close> (over \<open>Env_Config\<close>, the readers of variables, with the locale \<open>env_reader\<close>) and
    \<open>Scrapper_Main\<close>: the configuration of \<open>config.go\<close>, and the parts that \<open>cmd/scrapper.go\<close> makes of it.

  \<^bold>\<open>The agent.\<close>
  \<^item> \<open>Agent_Text\<close> (keywords, filter and priority services), \<open>Agent_Summarizer\<close> (the locales \<open>summarizer\<close> and
    \<open>bounded_summarizer\<close>, the stub and the Hugging Face client), \<open>Agent_Grouping\<close> (the buffers and timers; the
    interleavings of \<open>Add\<close>, callbacks and \<open>FlushAll\<close> are a step relation with its reachable states, in which no
    update is lost or doubled), \<open>Agent_Pipeline\<close> (processor and handler, and that the consumer never panics).
  \<^item> \<open>Agent_Config\<close>, and \<open>Agent_Main\<close>: the run of \<open>cmd/agent.go\<close> as polls with callbacks of timers between them, and its
    end; a ledger, kept by every step over any \<open>reliable_producer\<close>, says what a stopped agent has published.

  \<^bold>\<open>The bot.\<close>
  \<^item> \<open>Bot_Dialogue\<close>: the sessions, the track service, the commands, the dispatcher and the loop over messages;
    \<open>Bot_Properties\<close>: under faults only links that chats asked for are added, and without faults the dispatcher
    implements a dialogue per chat.  The locale \<open>session_store\<close> is the contract of the two session repositories.
  \<^item> \<open>Scrapper_Client\<close>: its clients of the scrapper (HTTP, gRPC, fallback); \<open>Client_Server\<close>: they reach the services.
  \<^item> \<open>Notifications\<close>: the scrapper's clients of the bot, and the bot's update service and servers.
  \<^item> \<open>Bot_Config\<close> and \<open>Bot_Main\<close>: the configuration and the parts that \<open>cmd/bot.go\<close> makes of it.

  \<^bold>\<open>Between them.\<close>
  \<^item> \<open>Link_Update\<close> is the notification; \<open>Kafka_Producer\<close> (the locale \<open>update_producer\<close>) and \<open>Kafka_Consumer\<close> (the
    locale \<open>link_update_handler\<close>) are \<open>pkg/kafka\<close>: a message is committed only once it is handled or a dead letter.
    The retry loop is a terminating function.
  \<^item> \<open>Avro_Codec\<close>: \<open>pkg/avrocodec\<close>, the registry's client, and the round trip of an update; Avro's own encoding is
    written out beside it, built from the locale \<open>wire\<close>, and is an instance of what is asked of goavro.
  \<^item> \<open>Config_Properties\<close>: what a loaded configuration is.
  \<^item> \<open>Deployment\<close>: an update from the scrapper's producer through the agent and the bot's consumer to the chats, in
    either format, and that the three default configurations fit together.

  \<^item> \<open>Bot_Tracking\<close>: the bot that main starts, over its fallback client, the network, the servers and the services
    with their cache: what the database holds of a chat is what the chat's own messages ask for.  Its locale
    \<open>tracking_services\<close> says that every request, tried however often, has its effect on the tracker once (the
    effects are idempotent); \<open>Utf8_Parts\<close> shows that what the bot cuts out of valid texts is valid.

  \<^item> \<open>Load_Runner\<close>: the tool of \<open>load-tests\<close>, the figures of its report (with the bounds on rounding of
    \<open>Go_Float_Bounds\<close>: the index of a percentile is one of the list, for up to 2^53 results), and its requests over
    the network to the services: those of chats that are not registered are all refused.

  \<^bold>\<open>Not modelled\<close>: logging, metrics (but for the gauge the services keep), opening of database connections and of
  ports, code generated from the protocol files, what the load tool prints and its goroutines, and the error group
  in which the bot runs its servers side by side. Concurrency is modelled where the code shares state under it:
  the agent's buffers, the scheduler's workers (link by link; they touch different rows), and faults of every
  database statement in place of other writers; requests are served one at a time. The copies of the readers of
  variables in the agent's and the bot's \<open>config.go\<close> are the text of the scrapper's and are modelled
  once.
\<close>

end
